(* ===== verification/Lodos_Prelude.thy ===== *)
theory Lodos_Prelude
  imports Main "HOL-Library.Word"
begin

unbundle bit_operations_syntax

text \<open>
  Shared vocabulary of the lodos development: bytes and Go strings, the fixed-width
  big-endian and little-endian layouts of \<^verbatim>\<open>encoding/binary\<close>, the \<^verbatim>\<open>strings\<close> functions
  the sources call, and the hint collections the component theories feed.

  A Go \<^verbatim>\<open>string\<close> is a sequence of bytes; it is a HOL \<^typ>\<open>string\<close> here (a character is a
  byte), and the conversions \<^verbatim>\<open>[]byte(s)\<close> and \<^verbatim>\<open>string(b)\<close> are written where the code
  writes them. A Go \<^verbatim>\<open>int\<close> is an \<^typ>\<open>int\<close> unless its width matters.
\<close>

named_theorems codec_simps \<open>facts that evaluate encoders followed by their decoders\<close>
named_theorems store_simps \<open>lookup after update facts of the map types\<close>
named_theorems inv_intros \<open>preservation facts of the components' invariants\<close>

type_synonym byte = "8 word"
type_synonym bytes = "byte list"

section \<open>Strings and bytes\<close>

definition bytes_of_string :: "string \<Rightarrow> bytes" where
  "bytes_of_string s = map (\<lambda>c. word_of_nat (of_char c)) s"

definition string_of_bytes :: "bytes \<Rightarrow> string" where
  "string_of_bytes b = map (\<lambda>x. char_of (unat x)) b"

lemma length_bytes_of_string [simp]: "length (bytes_of_string s) = length s"
  by (simp add: bytes_of_string_def)

lemma length_string_of_bytes [simp]: "length (string_of_bytes b) = length b"
  by (simp add: string_of_bytes_def)

lemma unat_of_char: "unat (word_of_nat (of_char c) :: byte) = of_char c"
  by (simp add: unat_of_nat)

lemma unat_byte_less [simp]: "unat (x :: byte) < 256"
  using unsigned_less [of x] by simp

lemma string_of_bytes_of_string [simp, codec_simps]:
  "string_of_bytes (bytes_of_string s) = s"
  by (simp add: string_of_bytes_def bytes_of_string_def o_def unat_of_char)

lemma bytes_of_string_of_bytes [simp, codec_simps]:
  "bytes_of_string (string_of_bytes b) = b"
  by (simp add: string_of_bytes_def bytes_of_string_def o_def)

lemma bytes_of_string_eq_iff [simp]: "bytes_of_string s = bytes_of_string t \<longleftrightarrow> s = t"
  by (metis string_of_bytes_of_string)

lemma string_of_bytes_Nil [simp]: "string_of_bytes [] = []"
  by (simp add: string_of_bytes_def)

lemma bytes_of_string_Nil [simp]: "bytes_of_string [] = []"
  by (simp add: bytes_of_string_def)

section \<open>Fixed-width layouts\<close>

text \<open>\<open>be_bytes n w\<close> is what \<^verbatim>\<open>binary.BigEndian.PutUint\<close> stores in \<open>n\<close> bytes.\<close>

fun be_bytes :: "nat \<Rightarrow> 'a::len word \<Rightarrow> bytes" where
  "be_bytes 0 w = []"
| "be_bytes (Suc n) w = be_bytes n (drop_bit 8 w) @ [ucast w]"

definition be_value :: "bytes \<Rightarrow> 'a::len word" where
  "be_value bs = foldl (\<lambda>acc b. push_bit 8 acc OR ucast b) 0 bs"

definition le_bytes :: "nat \<Rightarrow> 'a::len word \<Rightarrow> bytes" where
  "le_bytes n w = rev (be_bytes n w)"

definition le_value :: "bytes \<Rightarrow> 'a::len word" where
  "le_value bs = be_value (rev bs)"

lemma length_be_bytes [simp]: "length (be_bytes n w) = n"
  by (induction n arbitrary: w) auto

lemma length_le_bytes [simp]: "length (le_bytes n w) = n"
  by (simp add: le_bytes_def)

lemma be_value_snoc: "be_value (bs @ [b]) = push_bit 8 (be_value bs) OR ucast b"
  by (simp add: be_value_def)

lemma be_value_be_bytes: "be_value (be_bytes n w) = take_bit (8 * n) (w :: 'a::len word)"
proof (induction n arbitrary: w)
  case 0
  then show ?case by (simp add: be_value_def)
next
  case (Suc n)
  have "be_value (be_bytes (Suc n) w)
      = push_bit 8 (take_bit (8 * n) (drop_bit 8 w)) OR ucast (ucast w :: byte)"
    by (simp add: be_value_snoc Suc.IH)
  also have "\<dots> = take_bit (8 * Suc n) w"
    by (rule bit_word_eqI)
      (auto simp: bit_simps not_le le_diff_conv less_diff_conv split: if_splits)
  finally show ?case .
qed

lemma be_value_be_bytes_full [codec_simps]:
  "LENGTH('a) \<le> 8 * n \<Longrightarrow> be_value (be_bytes n w) = (w :: 'a::len word)"
  by (simp add: be_value_be_bytes take_bit_word_eq_self)

lemma le_value_le_bytes [codec_simps]:
  "LENGTH('a) \<le> 8 * n \<Longrightarrow> le_value (le_bytes n w) = (w :: 'a::len word)"
  by (simp add: le_value_def le_bytes_def be_value_be_bytes_full)

text \<open>\<^verbatim>\<open>PutUint16(b, uint16(i))\<close> of a Go \<^verbatim>\<open>int\<close>, and \<^verbatim>\<open>int(Uint16(b))\<close>.\<close>

definition put_uint16 :: "int \<Rightarrow> bytes" where
  "put_uint16 i = be_bytes 2 (word_of_int i :: 16 word)"

definition get_uint16 :: "bytes \<Rightarrow> int" where
  "get_uint16 bs = uint (be_value (take 2 bs) :: 16 word)"

lemma length_put_uint16 [simp]: "length (put_uint16 i) = 2"
  by (simp add: put_uint16_def)

lemma get_put_uint16 [simp, codec_simps]: "get_uint16 (put_uint16 i) = i mod 65536"
  by (simp add: get_uint16_def put_uint16_def be_value_be_bytes_full uint_word_of_int)

lemma get_uint16_nonneg [simp]: "0 \<le> get_uint16 bs"
  by (simp add: get_uint16_def)

section \<open>Functions of the strings package\<close>

text \<open>\<^verbatim>\<open>strings.Split\<close> with a one-character separator: never the empty list.\<close>

fun split_on :: "'a \<Rightarrow> 'a list \<Rightarrow> 'a list list" where
  "split_on sep [] = [[]]"
| "split_on sep (c # cs) =
     (if c = sep then [] # split_on sep cs
      else (case split_on sep cs of [] \<Rightarrow> [[c]] | w # ws \<Rightarrow> (c # w) # ws))"

fun join_with :: "'a \<Rightarrow> 'a list list \<Rightarrow> 'a list" where
  "join_with sep [] = []"
| "join_with sep [w] = w"
| "join_with sep (w # ws) = w @ sep # join_with sep ws"

definition has_prefix :: "'a list \<Rightarrow> 'a list \<Rightarrow> bool" where
  "has_prefix s p = (take (length p) s = p)"

definition has_suffix :: "'a list \<Rightarrow> 'a list \<Rightarrow> bool" where
  "has_suffix s p = (length p \<le> length s \<and> drop (length s - length p) s = p)"

lemma split_on_nonempty [simp]: "split_on sep cs \<noteq> []"
  by (induction cs) (auto split: list.splits)

lemma join_split [simp]: "join_with sep (split_on sep cs) = cs"
proof (induction cs)
  case Nil
  then show ?case by simp
next
  case (Cons c cs)
  obtain w ws where e: "split_on sep cs = w # ws"
    by (cases "split_on sep cs") auto
  with Cons.IH show ?case by (cases ws) auto
qed

lemma split_on_no_sep: "w \<in> set (split_on sep cs) \<Longrightarrow> sep \<notin> set w"
  by (induction cs arbitrary: w) (fastforce split: if_splits list.splits)+

lemma split_on_append:
  "sep \<notin> set w \<Longrightarrow> split_on sep (w @ sep # cs) = w # split_on sep cs"
  by (induction w) auto

lemma split_on_id: "sep \<notin> set w \<Longrightarrow> split_on sep w = [w]"
  by (induction w) auto

lemma has_prefix_append [simp]: "has_prefix (p @ s) p"
  by (simp add: has_prefix_def)

section \<open>Decimal numbers\<close>

text \<open>\<^verbatim>\<open>%d\<close>.\<close>

definition digit_char :: "nat \<Rightarrow> char" where
  "digit_char n = char_of (48 + n)"

fun dec_nat :: "nat \<Rightarrow> string" where
  "dec_nat n = (if n < 10 then [digit_char n] else dec_nat (n div 10) @ [digit_char (n mod 10)])"

declare dec_nat.simps [simp del]

definition dec_int :: "int \<Rightarrow> string" where
  "dec_int i = (if i < 0 then CHR ''-'' # dec_nat (nat (- i)) else dec_nat (nat i))"

lemma dec_nat_nonempty [simp]: "dec_nat n \<noteq> []"
  by (subst dec_nat.simps) simp

section \<open>Results\<close>

text \<open>
  A Go function that returns \<^verbatim>\<open>(T, error)\<close> is a sum, the error on the left; a panic that no
  caller recovers is the constructor \<open>Panic\<close> of \<open>outcome\<close>.
\<close>

datatype 'a outcome = Panic string | Done 'a

fun map_outcome_val :: "('a \<Rightarrow> 'b) \<Rightarrow> 'a outcome \<Rightarrow> 'b outcome" where
  "map_outcome_val f (Panic s) = Panic s"
| "map_outcome_val f (Done a) = Done (f a)"

fun outcome_bind :: "'a outcome \<Rightarrow> ('a \<Rightarrow> 'b outcome) \<Rightarrow> 'b outcome" where
  "outcome_bind (Panic s) f = Panic s"
| "outcome_bind (Done a) f = f a"

lemma outcome_bind_Done_iff:
  "outcome_bind m f = Done b \<longleftrightarrow> (\<exists>a. m = Done a \<and> f a = Done b)"
  by (cases m) auto

text \<open>Steps that may panic and change a state, and those of them that return an error or a value.\<close>

type_synonym ('a, 'g) act = "'g \<Rightarrow> 'a outcome \<times> 'g"

definition act_bind :: "('a, 'g) act \<Rightarrow> ('a \<Rightarrow> ('b, 'g) act) \<Rightarrow> ('b, 'g) act" where
  "act_bind m f g = (case m g of (Panic e, g') \<Rightarrow> (Panic e, g') | (Done x, g') \<Rightarrow> f x g')"

definition skip :: "(unit, 'g) act" where
  "skip g = (Done (), g)"

definition give :: "'a \<Rightarrow> ('a, 'g) act" where
  "give x g = (Done x, g)"

definition try_bind :: "(string + 'a, 'g) act \<Rightarrow> ('a \<Rightarrow> (string + 'b, 'g) act) \<Rightarrow> (string + 'b, 'g) act" where
  "try_bind m f = act_bind m (\<lambda>r. case r of Inl e \<Rightarrow> give (Inl e) | Inr x \<Rightarrow> f x)"

text \<open>Truncated division, as Go's \<^verbatim>\<open>/\<close> and conversions from floating point round.\<close>

definition quot :: "int \<Rightarrow> int \<Rightarrow> int" where
  "quot a b = sgn a * sgn b * (\<bar>a\<bar> div \<bar>b\<bar>)"

lemma quot_nonneg [simp]: "0 \<le> a \<Longrightarrow> 0 < b \<Longrightarrow> quot a b = a div b"
  by (cases "a = 0") (auto simp: quot_def sgn_if)

section \<open>Simulation\<close>

text \<open>
  A component whose operations are described on an abstract state: each keeps its invariant
  and does what the description allows. The description is a relation, for it may leave open
  what the rest of the world decides.
\<close>

fun spec_run :: "('op \<Rightarrow> 'a \<Rightarrow> 'a \<Rightarrow> bool) \<Rightarrow> 'op list \<Rightarrow> 'a \<Rightarrow> 'a \<Rightarrow> bool" where
  "spec_run spec [] a b \<longleftrightarrow> a = b"
| "spec_run spec (op # ops) a b \<longleftrightarrow> (\<exists>c. spec op a c \<and> spec_run spec ops c b)"

locale simulation =
  fixes inv :: "'c \<Rightarrow> bool"
    and abs :: "'c \<Rightarrow> 'a"
    and perform :: "'op \<Rightarrow> 'c \<Rightarrow> 'c"
    and spec :: "'op \<Rightarrow> 'a \<Rightarrow> 'a \<Rightarrow> bool"
  assumes keeps: "inv c \<Longrightarrow> inv (perform op c)"
    and simulates: "inv c \<Longrightarrow> spec op (abs c) (abs (perform op c))"
begin

lemma run_keeps: "inv c \<Longrightarrow> inv (fold perform ops c)"
  by (induction ops arbitrary: c) (auto intro: keeps)

lemma run_simulates: "inv c \<Longrightarrow> spec_run spec ops (abs c) (abs (fold perform ops c))"
  by (induction ops arbitrary: c) (auto intro: keeps simulates)

text \<open>What the description keeps, every run keeps.\<close>

lemma spec_run_invariant:
  assumes keep: "\<And>op a b. P a \<Longrightarrow> spec op a b \<Longrightarrow> P b"
  shows "P a \<Longrightarrow> spec_run spec ops a b \<Longrightarrow> P b"
  by (induction ops arbitrary: a) (auto dest: keep)

lemma run_preserves:
  assumes "inv c" "P (abs c)" and keep: "\<And>op a b. P a \<Longrightarrow> spec op a b \<Longrightarrow> P b"
  shows "P (abs (fold perform ops c))"
proof (rule spec_run_invariant)
  show "P (abs c)" by (rule assms(2))
  show "spec_run spec ops (abs c) (abs (fold perform ops c))" by (rule run_simulates [OF assms(1)])
qed (rule keep)

end

end
