(* ===== verification/Lodos_Mqtt_Types.thy ===== *)
theory Lodos_Mqtt_Types
  imports Lodos_Prelude
begin

text \<open>
  The data of \<^verbatim>\<open>gate/base/mqtt/mqtt.go\<close>: packet kinds, the packet structs and their
  constructors, and the two buffered streams of the standard library that the packet
  reader and the packet writer work on.
\<close>

section \<open>Packet kinds\<close>

abbreviation (input) CONNECT :: byte where "CONNECT \<equiv> 1"
abbreviation (input) CONNACK :: byte where "CONNACK \<equiv> 2"
abbreviation (input) PUBLISH :: byte where "PUBLISH \<equiv> 3"
abbreviation (input) PUBACK :: byte where "PUBACK \<equiv> 4"
abbreviation (input) PUBREC :: byte where "PUBREC \<equiv> 5"
abbreviation (input) PUBREL :: byte where "PUBREL \<equiv> 6"
abbreviation (input) PUBCOMP :: byte where "PUBCOMP \<equiv> 7"
abbreviation (input) SUBSCRIBE :: byte where "SUBSCRIBE \<equiv> 8"
abbreviation (input) SUBACK :: byte where "SUBACK \<equiv> 9"
abbreviation (input) UNSUBSCRIBE :: byte where "UNSUBSCRIBE \<equiv> 10"
abbreviation (input) UNSUBACK :: byte where "UNSUBACK \<equiv> 11"
abbreviation (input) PINGREQ :: byte where "PINGREQ \<equiv> 12"
abbreviation (input) PINGRESP :: byte where "PINGRESP \<equiv> 13"
abbreviation (input) DISCONNECT :: byte where "DISCONNECT \<equiv> 14"

section \<open>Packet structs\<close>

text \<open>A \<^verbatim>\<open>*string\<close> field is an option: \<^const>\<open>None\<close> is the nil pointer of a fresh struct.\<close>

record connect =
  protocol :: "string option"
  version :: byte
  keep_alive_timer :: int
  return_code :: byte
  user_name :: bool
  password :: bool
  will_retain :: bool
  will_qos :: int
  will_flag :: bool
  clean_session :: bool
  rserved :: bool
  cid :: "string option"
  will_topic :: "string option"
  will_msg :: "string option"
  uname :: "string option"
  upassword :: "string option"

definition new_connect :: connect where
  "new_connect = \<lparr>protocol = None, version = 0, keep_alive_timer = 0, return_code = 0,
     user_name = False, password = False, will_retain = False, will_qos = 0,
     will_flag = False, clean_session = False, rserved = False,
     cid = None, will_topic = None, will_msg = None, uname = None, upassword = None\<rparr>"

definition GetUserName :: "connect \<Rightarrow> string option" where
  "GetUserName c = (if \<not> user_name c then Some [] else uname c)"

definition GetPassword :: "connect \<Rightarrow> string option" where
  "GetPassword c = (if \<not> password c then Some [] else upassword c)"

definition GetWillMsg :: "connect \<Rightarrow> bool \<times> string option \<times> string option" where
  "GetWillMsg c = (if \<not> will_flag c then (False, Some [], Some [])
     else (True, will_topic c, will_msg c))"

record publish =
  topic_name :: "string option"
  pub_mid :: int
  msg :: bytes

record topics =
  tname :: "string option"
  tqos :: byte

record subscribe =
  sub_mid :: int
  sub_topics :: "topics list"

text \<open>\<^verbatim>\<open>addTopics\<close> of \<^verbatim>\<open>Subscribe\<close> and of \<^verbatim>\<open>UNSubscribe\<close>, which have the same fields.\<close>

definition addTopics :: "subscribe \<Rightarrow> topics \<Rightarrow> subscribe" where
  "addTopics sub tp = sub\<lparr>sub_topics := sub_topics sub @ [tp]\<rparr>"

text \<open>The dynamic type of the \<^verbatim>\<open>variable interface{}\<close> field.\<close>

datatype variable =
    VNil
  | VConnect connect
  | VConnack (reserved: byte) (ack_code: byte)
  | VPublish publish
  | VPuback (ack_mid: int)
  | VSubscribe subscribe
  | VSuback (suback_mid: int) (suback_qos: byte)
  | VUNSubscribe subscribe
  | VUNSuback (unsuback_mid: int)

record pack =
  msg_type :: byte
  dup_flag :: byte
  qos_level :: byte
  retain :: byte
  plen :: int
  variable :: variable

definition new_pack :: pack where
  "new_pack = \<lparr>msg_type = 0, dup_flag = 0, qos_level = 0, retain = 0, plen = 0, variable = VNil\<rparr>"

section \<open>Packet constructors\<close>

definition GetConnAckPack :: "byte \<Rightarrow> pack" where
  "GetConnAckPack code = new_pack\<lparr>msg_type := CONNACK, variable := VConnack 0 code\<rparr>"

definition GetPubPack :: "byte \<Rightarrow> byte \<Rightarrow> int \<Rightarrow> string option \<Rightarrow> bytes \<Rightarrow> pack" where
  "GetPubPack qos dup mid topic body =
     new_pack\<lparr>qos_level := qos, dup_flag := dup, msg_type := PUBLISH,
       variable := VPublish \<lparr>topic_name = topic, pub_mid = mid, msg = body\<rparr>\<rparr>"

definition GetPubAckPack :: "int \<Rightarrow> pack" where
  "GetPubAckPack mid = new_pack\<lparr>msg_type := PUBACK, variable := VPuback mid\<rparr>"

definition GetPubRECPack :: "int \<Rightarrow> pack" where
  "GetPubRECPack mid = new_pack\<lparr>msg_type := PUBREC, variable := VPuback mid\<rparr>"

definition GetPubRELPack :: "int \<Rightarrow> pack" where
  "GetPubRELPack mid =
     new_pack\<lparr>msg_type := PUBREL, qos_level := 1, dup_flag := 0, variable := VPuback mid\<rparr>"

definition GetPubCOMPPack :: "int \<Rightarrow> pack" where
  "GetPubCOMPPack mid = new_pack\<lparr>msg_type := PUBCOMP, variable := VPuback mid\<rparr>"

definition GetSubAckPack :: "int \<Rightarrow> pack" where
  "GetSubAckPack mid = new_pack\<lparr>msg_type := SUBACK, variable := VSuback mid 0\<rparr>"

definition GetUNSubAckPack :: "int \<Rightarrow> pack" where
  "GetUNSubAckPack mid = new_pack\<lparr>msg_type := UNSUBACK, variable := VUNSuback mid\<rparr>"

definition GetPingResp :: "byte \<Rightarrow> byte \<Rightarrow> pack" where
  "GetPingResp qos dup = new_pack\<lparr>qos_level := qos, dup_flag := dup, msg_type := PINGRESP\<rparr>"

section \<open>The streams\<close>

text \<open>
  The errors the packet code returns: those of the stream (\<^verbatim>\<open>io.EOF\<close>,
  \<^verbatim>\<open>io.ErrUnexpectedEOF\<close>, any other error of the connection, such as a missed deadline) and
  those it makes with \<^verbatim>\<open>fmt.Errorf\<close>, with the numbers it prints; \<open>AppErr\<close> is an error with a
  fixed text of the client or the gate.
\<close>

datatype go_err =
    EOF
  | UnexpectedEOF
  | ConnErr string
  | OutOfRange int
  | IdentifierRejected int
  | LengthError int
  | PackLength byte int int
  | NilPointer
  | AppErr string

text \<open>
  A \<^verbatim>\<open>bufio.Reader\<close>: the bytes that will still arrive, and the error the connection
  gives after them.
\<close>

record reader =
  r_in :: bytes
  r_end :: go_err

definition read_byte :: "reader \<Rightarrow> (go_err + byte) \<times> reader" where
  "read_byte r = (case r_in r of [] \<Rightarrow> (Inl (r_end r), r) | b # bs \<Rightarrow> (Inr b, r\<lparr>r_in := bs\<rparr>))"

text \<open>
  \<^verbatim>\<open>io.ReadFull\<close> into a fresh buffer of \<open>n\<close> bytes: the buffer afterwards, the error and the
  reader. What arrived before an error is consumed and is in the buffer, over its zeros.
\<close>

definition read_full :: "nat \<Rightarrow> reader \<Rightarrow> bytes \<times> go_err option \<times> reader" where
  "read_full n r =
     (if n \<le> length (r_in r) then (take n (r_in r), None, r\<lparr>r_in := drop n (r_in r)\<rparr>)
      else (r_in r @ replicate (n - length (r_in r)) 0,
            Some (if r_in r \<noteq> [] \<and> r_end r = EOF then UnexpectedEOF else r_end r),
            r\<lparr>r_in := []\<rparr>))"

lemma read_byte_Cons [codec_simps]:
  "read_byte \<lparr>r_in = b # bs, r_end = e\<rparr> = (Inr b, \<lparr>r_in = bs, r_end = e\<rparr>)"
  by (simp add: read_byte_def)

lemma read_full_append [codec_simps]:
  "n = length bs \<Longrightarrow>
    read_full n \<lparr>r_in = bs @ rest, r_end = e\<rparr> = (bs, None, \<lparr>r_in = rest, r_end = e\<rparr>)"
  by (simp add: read_full_def)

lemma length_read_full: "length (fst (read_full n r)) = n"
  by (simp add: read_full_def)

text \<open>
  A \<^verbatim>\<open>bufio.Writer\<close> of \<open>w_size\<close> bytes over a connection: what the connection has taken,
  what is still buffered, the sticky error, and the error the connection answers every
  write with (\<^const>\<open>None\<close> while it is up).
\<close>

record writer =
  w_sent :: bytes
  w_buf :: bytes
  w_err :: "go_err option"
  w_size :: nat
  w_conn :: "go_err option"

definition conn_write :: "writer \<Rightarrow> bytes \<Rightarrow> writer" where
  "conn_write w bs = (case w_conn w of None \<Rightarrow> w\<lparr>w_sent := w_sent w @ bs\<rparr>
     | Some e \<Rightarrow> w\<lparr>w_err := Some e\<rparr>)"

text \<open>\<^verbatim>\<open>Writer.Flush\<close>: a sticky error is returned again, an empty buffer is not written.\<close>

definition bw_flush :: "writer \<Rightarrow> go_err option \<times> writer" where
  "bw_flush w =
     (case w_err w of Some e \<Rightarrow> (Some e, w)
      | None \<Rightarrow>
          if w_buf w = [] then (None, w)
          else (let w' = conn_write w (w_buf w) in
                case w_err w' of Some e \<Rightarrow> (Some e, w') | None \<Rightarrow> (None, w'\<lparr>w_buf := []\<rparr>)))"

text \<open>
  \<^verbatim>\<open>Writer.Write\<close>: while the data does not fit, an empty buffer is bypassed (the rest goes
  straight to the connection) and a non-empty one is filled up and flushed.
\<close>

definition bw_write :: "writer \<Rightarrow> bytes \<Rightarrow> go_err option \<times> writer" where
  "bw_write w bs =
     (case w_err w of Some e \<Rightarrow> (Some e, w)
      | None \<Rightarrow>
          let free = w_size w - length (w_buf w) in
          if length bs \<le> free then (None, w\<lparr>w_buf := w_buf w @ bs\<rparr>)
          else if w_buf w = [] then (let w' = conn_write w bs in (w_err w', w'))
          else
            (let w1 = snd (bw_flush (w\<lparr>w_buf := w_buf w @ take free bs\<rparr>)); rest = drop free bs in
             case w_err w1 of Some e \<Rightarrow> (Some e, w1)
             | None \<Rightarrow>
                 if length rest \<le> w_size w1 then (None, w1\<lparr>w_buf := rest\<rparr>)
                 else (let w2 = conn_write w1 rest in (w_err w2, w2))))"

text \<open>\<^verbatim>\<open>Writer.WriteByte\<close>: flushes first when the buffer is full.\<close>

definition bw_write_byte :: "writer \<Rightarrow> byte \<Rightarrow> go_err option \<times> writer" where
  "bw_write_byte w b =
     (case w_err w of Some e \<Rightarrow> (Some e, w)
      | None \<Rightarrow>
          let (e, w1) = (if length (w_buf w) < w_size w then (None, w) else bw_flush w) in
          case e of Some e \<Rightarrow> (Some e, w1)
          | None \<Rightarrow> (None, w1\<lparr>w_buf := w_buf w1 @ [b]\<rparr>))"

text \<open>Everything handed to the writer so far, in order: the abstract value of a healthy one.\<close>

definition w_stream :: "writer \<Rightarrow> bytes" where
  "w_stream w = w_sent w @ w_buf w"

definition w_ok :: "writer \<Rightarrow> bool" where
  "w_ok w \<longleftrightarrow> w_err w = None \<and> w_conn w = None \<and> 0 < w_size w \<and> length (w_buf w) \<le> w_size w"

lemma bw_flush_ok:
  assumes "w_ok w"
  shows "fst (bw_flush w) = None \<and> w_ok (snd (bw_flush w))
    \<and> w_stream (snd (bw_flush w)) = w_stream w \<and> w_buf (snd (bw_flush w)) = []"
  using assms by (simp add: bw_flush_def conn_write_def w_ok_def w_stream_def Let_def)

lemma bw_write_ok:
  assumes "w_ok w"
  shows "fst (bw_write w bs) = None \<and> w_ok (snd (bw_write w bs))
    \<and> w_stream (snd (bw_write w bs)) = w_stream w @ bs"
  using assms
  by (auto simp: bw_write_def bw_flush_def conn_write_def w_ok_def w_stream_def Let_def)

lemma bw_write_byte_ok:
  assumes "w_ok w"
  shows "fst (bw_write_byte w b) = None \<and> w_ok (snd (bw_write_byte w b))
    \<and> w_stream (snd (bw_write_byte w b)) = w_stream w @ [b]"
  using assms
  by (auto simp: bw_write_byte_def bw_flush_def conn_write_def w_ok_def w_stream_def Let_def)

end
