(* ===== verification/Lodos_Mqtt_Read.thy ===== *)
theory Lodos_Mqtt_Read
  imports Lodos_Mqtt_Types
begin

text \<open>
  \<^verbatim>\<open>ReadPack\<close> of \<^verbatim>\<open>gate/base/mqtt/mqtt.go\<close>: the fixed header, the remaining length and one
  body reader per packet kind. A body reader gives the \<^verbatim>\<open>variable\<close> as it stands when the
  code leaves the switch, the \<^verbatim>\<open>err\<close> it leaves with and the reader.
\<close>

section \<open>Primitive readers\<close>

text \<open>\<^verbatim>\<open>readInt(r, length)\<close>: every caller asks for two bytes.\<close>

definition readInt :: "reader \<Rightarrow> nat \<Rightarrow> int \<times> go_err option \<times> reader" where
  "readInt r n =
     (case read_full n r of (buf, Some e, r') \<Rightarrow> (0, Some e, r')
      | (buf, None, r') \<Rightarrow> (get_uint16 buf, None, r'))"

lemma readInt_nonneg: "readInt r n = (m, e, r') \<Longrightarrow> 0 \<le> m"
  by (auto simp: readInt_def split: prod.splits option.splits)

text \<open>\<^verbatim>\<open>readString\<close> returns a pointer to its own string, empty unless everything arrived.\<close>

definition readString :: "reader \<Rightarrow> string \<times> int \<times> go_err option \<times> reader" where
  "readString r =
     (case readInt r 2 of (nn, Some e, r') \<Rightarrow> ([], nn, Some e, r')
      | (nn, None, r') \<Rightarrow>
          if nn > 0 then
            (case read_full (nat nn) r' of
               (buf, None, r'') \<Rightarrow> (string_of_bytes buf, nn, None, r'')
             | (buf, Some e, r'') \<Rightarrow> ([], nn, Some e, r''))
          else ([], nn, None, r'))"

text \<open>The connect flags, bit by bit from the top as the code masks them off.\<close>

definition parse_flags :: "byte \<Rightarrow> connect \<Rightarrow> connect" where
  "parse_flags b flag =
     (let f1 = (if drop_bit 7 b \<noteq> 0 then flag\<lparr>user_name := True\<rparr> else flag);
          b1 = b AND 127;
          f2 = (if drop_bit 6 b1 \<noteq> 0 then f1\<lparr>password := True\<rparr> else f1);
          b2 = b1 AND 63;
          f3 = (if drop_bit 5 b2 \<noteq> 0 then f2\<lparr>will_retain := True\<rparr> else f2);
          b3 = b2 AND 31;
          f4 = f3\<lparr>will_qos := uint (drop_bit 3 b3)\<rparr>;
          b4 = b3 AND 7;
          f5 = (if drop_bit 2 b4 \<noteq> 0 then f4\<lparr>will_flag := True\<rparr> else f4);
          b5 = b4 AND 3;
          f6 = (if drop_bit 1 b5 \<noteq> 0 then f5\<lparr>clean_session := True\<rparr> else f5)
      in if b5 AND 1 \<noteq> 0 then f6\<lparr>rserved := True\<rparr> else f6)"

section \<open>The remaining length\<close>

text \<open>
  The loop over the length bytes. It looks at \<^verbatim>\<open>count_len < 4\<close> after counting the byte it
  has just used, with the counter started at 1: three bytes are read at most.
\<close>

function read_remaining ::
  "nat \<Rightarrow> int \<Rightarrow> int \<Rightarrow> byte \<Rightarrow> reader \<Rightarrow> int \<times> go_err option \<times> reader" where
  "read_remaining count_len multiplier len temp_byte r =
     (let count_len = count_len + 1;
          len = len + uint (temp_byte AND 127) * multiplier
      in if drop_bit 7 temp_byte \<noteq> 0 \<and> count_len < 4 then
           (case read_byte r of
              (Inl e, r') \<Rightarrow> (len, Some e, r')
            | (Inr t, r') \<Rightarrow> read_remaining count_len (multiplier * 128) len t r')
         else (len, None, r))"
  by pat_completeness auto
termination
  by (relation "measure (\<lambda>(c, m, l, t, r). 4 - c)") auto

declare read_remaining.simps [simp del]

section \<open>Bodies\<close>

text \<open>The will topic and message of a CONNECT; the code subtracts the lengths as it goes.\<close>

definition read_will ::
  "connect \<Rightarrow> int \<Rightarrow> reader \<Rightarrow> connect \<times> int \<times> go_err option \<times> reader" where
  "read_will conn playload_len r =
     (if will_flag conn then
        (let (s, n, e, r1) = readString r; conn = conn\<lparr>will_topic := Some s\<rparr> in
         if e \<noteq> None then (conn, playload_len, e, r1)
         else
           let playload_len = playload_len - n in
           if playload_len < 0 then (conn, playload_len, Some (LengthError playload_len), r1)
           else
             (let (s, n, e, r2) = readString r1; conn = conn\<lparr>will_msg := Some s\<rparr> in
              if e \<noteq> None then (conn, playload_len, e, r2)
              else (conn, playload_len - n, None, r2)))
      else (conn, playload_len, None, r))"

definition read_uname ::
  "connect \<Rightarrow> int \<Rightarrow> reader \<Rightarrow> connect \<times> int \<times> go_err option \<times> reader" where
  "read_uname conn playload_len r =
     (if user_name conn \<and> playload_len > 0 then
        (let (s, n, e, r1) = readString r; conn = conn\<lparr>uname := Some s\<rparr> in
         if e \<noteq> None then (conn, playload_len, e, r1)
         else
           let playload_len = playload_len - n in
           if playload_len < 0 then (conn, playload_len, Some (LengthError playload_len), r1)
           else (conn, playload_len, None, r1))
      else (conn, playload_len, None, r))"

definition read_upassword ::
  "connect \<Rightarrow> int \<Rightarrow> reader \<Rightarrow> connect \<times> int \<times> go_err option \<times> reader" where
  "read_upassword conn playload_len r =
     (if password conn \<and> playload_len > 0 then
        (let (s, n, e, r1) = readString r; conn = conn\<lparr>upassword := Some s\<rparr> in
         if e \<noteq> None then (conn, playload_len, e, r1)
         else
           let playload_len = playload_len - n in
           if playload_len < 0 then (conn, playload_len, Some (LengthError playload_len), r1)
           else (conn, playload_len, None, r1))
      else (conn, playload_len, None, r))"

text \<open>The payload of a CONNECT after the client identifier's checks.\<close>

definition read_payload :: "connect \<Rightarrow> int \<Rightarrow> reader \<Rightarrow> connect \<times> go_err option \<times> reader" where
  "read_payload conn playload_len r =
     (let (conn, playload_len, e, r) = read_will conn playload_len r in
      if e \<noteq> None then (conn, e, r)
      else
        let (conn, playload_len, e, r) = read_uname conn playload_len r in
        if e \<noteq> None then (conn, e, r)
        else
          let (conn, playload_len, e, r) = read_upassword conn playload_len r in
          (conn, e, r))"

definition read_client_id ::
  "connect \<Rightarrow> int \<Rightarrow> reader \<Rightarrow> connect \<times> go_err option \<times> reader" where
  "read_client_id conn playload_len r =
     (let (s, n, e, r) = readString r; conn = conn\<lparr>cid := Some s\<rparr> in
      if e \<noteq> None then (conn, e, r)
      else if n > 23 \<or> n < 1 then
        (conn\<lparr>return_code := 2\<rparr>, Some (IdentifierRejected n), r)
      else
        let playload_len = playload_len - n in
        if n < 1 \<and> (will_flag conn \<or> password conn \<or> n < 0) then
          (conn, Some (LengthError playload_len), r)
        else read_payload conn playload_len r)"

definition read_connect :: "int \<Rightarrow> reader \<Rightarrow> connect \<times> go_err option \<times> reader" where
  "read_connect len r =
     (let (s, n, e, r) = readString r; conn = new_connect\<lparr>protocol := Some s\<rparr> in
      if e \<noteq> None then (conn, e, r)
      else if n > len - 4 then (conn, Some (OutOfRange (len - n)), r)
      else
        case read_byte r of (Inl e, r) \<Rightarrow> (conn\<lparr>version := 0\<rparr>, Some e, r)
        | (Inr v, r) \<Rightarrow>
            let conn = conn\<lparr>version := v\<rparr> in
            (case read_byte r of (Inl e, r) \<Rightarrow> (conn, Some e, r)
             | (Inr flags, r) \<Rightarrow>
                 let (k, e, r) = readInt r 2; conn = conn\<lparr>keep_alive_timer := k\<rparr> in
                 if e \<noteq> None then (conn, e, r)
                 else
                   let conn = parse_flags flags conn; playload_len = len - 2 - n - 4 in
                   read_client_id conn playload_len r))"

definition read_publish :: "byte \<Rightarrow> int \<Rightarrow> reader \<Rightarrow> publish \<times> go_err option \<times> reader" where
  "read_publish qos len r =
     (let (s, n, e, r) = readString r;
          pub = \<lparr>topic_name = Some s, pub_mid = 0, msg = []\<rparr>
      in
      if e \<noteq> None then (pub, e, r)
      else
        let vlen = len - n - 2 in
        if n < 1 \<or> vlen < 2 then (pub, Some (LengthError vlen), r)
        else
          let (mid, e, r, vlen) =
            (if qos > 0 then (case readInt r 2 of (m, e, r) \<Rightarrow> (m, e, r, vlen - 2))
             else (0, None, r, vlen));
              pub = pub\<lparr>pub_mid := mid\<rparr>
          in
          if e \<noteq> None then (pub, e, r)
          else (case read_full (nat vlen) r of (buf, e, r) \<Rightarrow> (pub\<lparr>msg := buf\<rparr>, e, r)))"

text \<open>The four acknowledgements with a bare message id, and UNSUBACK (which prints 1).\<close>

definition read_ack ::
  "(int \<Rightarrow> variable) \<Rightarrow> int \<Rightarrow> byte \<Rightarrow> int \<Rightarrow> reader \<Rightarrow> variable \<times> go_err option \<times> reader" where
  "read_ack mk printed typ len r =
     (if len = 2 then
        (case readInt r 2 of (m, Some e, r) \<Rightarrow> (VNil, Some e, r)
         | (m, None, r) \<Rightarrow> (mk m, None, r))
      else (VNil, Some (PackLength typ len printed), r))"

text \<open>
  The topic loops. Their \<^verbatim>\<open>err\<close> is declared inside the loop and shadows the result, so
  neither reports an error; UNSUBSCRIBE keeps a topic whose bytes did not all arrive.
\<close>

function read_sub_topics :: "int \<Rightarrow> subscribe \<Rightarrow> reader \<Rightarrow> subscribe \<times> reader" where
  "read_sub_topics vlen sub r =
     (if vlen > 3 then
        (case readInt r 2 of (nlen, Some e, r) \<Rightarrow> (sub, r)
         | (nlen, None, r) \<Rightarrow>
             (case read_full (nat nlen) r of (buf, e, r) \<Rightarrow>
                (case read_byte r of (Inl e, r) \<Rightarrow> (sub, r)
                 | (Inr q, r) \<Rightarrow>
                     read_sub_topics (vlen - 2 - nlen - 1)
                       (addTopics sub \<lparr>tname = Some (string_of_bytes buf), tqos = q\<rparr>) r)))
      else (sub, r))"
  by pat_completeness auto
termination
  by (relation "measure (\<lambda>(v, s, r). nat v)") (auto dest!: readInt_nonneg [OF sym])

function read_unsub_topics :: "int \<Rightarrow> subscribe \<Rightarrow> reader \<Rightarrow> subscribe \<times> reader" where
  "read_unsub_topics vlen sub r =
     (if vlen > 3 then
        (case readInt r 2 of (nlen, Some e, r) \<Rightarrow> (sub, r)
         | (nlen, None, r) \<Rightarrow>
             (case read_full (nat nlen) r of (buf, e, r) \<Rightarrow>
                read_unsub_topics (vlen - 2 - nlen)
                  (addTopics sub \<lparr>tname = Some (string_of_bytes buf), tqos = 0\<rparr>) r))
      else (sub, r))"
  by pat_completeness auto
termination
  by (relation "measure (\<lambda>(v, s, r). nat v)") (auto dest!: readInt_nonneg [OF sym])

declare read_sub_topics.simps [simp del] read_unsub_topics.simps [simp del]

definition read_subscribe :: "int \<Rightarrow> reader \<Rightarrow> subscribe \<times> go_err option \<times> reader" where
  "read_subscribe len r =
     (case readInt r 2 of (m, Some e, r) \<Rightarrow> (\<lparr>sub_mid = m, sub_topics = []\<rparr>, Some e, r)
      | (m, None, r) \<Rightarrow>
          (case read_sub_topics len \<lparr>sub_mid = m, sub_topics = []\<rparr> r of (s, r) \<Rightarrow> (s, None, r)))"

definition read_unsubscribe :: "int \<Rightarrow> reader \<Rightarrow> subscribe \<times> go_err option \<times> reader" where
  "read_unsubscribe len r =
     (case readInt r 2 of (m, Some e, r) \<Rightarrow> (\<lparr>sub_mid = m, sub_topics = []\<rparr>, Some e, r)
      | (m, None, r) \<Rightarrow>
          (case read_unsub_topics len \<lparr>sub_mid = m, sub_topics = []\<rparr> r of (s, r) \<Rightarrow> (s, None, r)))"

definition read_suback :: "byte \<Rightarrow> int \<Rightarrow> reader \<Rightarrow> variable \<times> go_err option \<times> reader" where
  "read_suback typ len r =
     (if len = 3 then
        (case readInt r 2 of (m, Some e, r) \<Rightarrow> (VNil, Some e, r)
         | (m, None, r) \<Rightarrow>
             (case read_byte r of (Inl e, r) \<Rightarrow> (VNil, Some e, r)
              | (Inr q, r) \<Rightarrow> (VSuback m q, None, r)))
      else (VNil, Some (PackLength typ len 3), r))"

section \<open>The packet\<close>

definition map_var :: "('a \<Rightarrow> variable) \<Rightarrow> 'a \<times> go_err option \<times> reader
    \<Rightarrow> variable \<times> go_err option \<times> reader" where
  "map_var f x = (case x of (v, e, r) \<Rightarrow> (f v, e, r))"

text \<open>The \<^verbatim>\<open>switch pack.msg_type\<close>; an unknown kind has its bytes read and thrown away.\<close>

definition read_variable :: "pack \<Rightarrow> reader \<Rightarrow> variable \<times> go_err option \<times> reader" where
  "read_variable p r =
     (let t = msg_type p; len = plen p in
      if t = CONNECT then map_var VConnect (read_connect len r)
      else if t = PUBLISH then map_var VPublish (read_publish (qos_level p) len r)
      else if t = PUBACK \<or> t = PUBREL \<or> t = PUBREC \<or> t = PUBCOMP then
        read_ack VPuback 2 t len r
      else if t = SUBSCRIBE then map_var VSubscribe (read_subscribe len r)
      else if t = SUBACK then read_suback t len r
      else if t = UNSUBSCRIBE then map_var VUNSubscribe (read_unsubscribe len r)
      else if t = UNSUBACK then read_ack VUNSuback 1 t len r
      else if t = PINGREQ \<or> t = DISCONNECT then (VNil, None, r)
      else if len > 0 then (case read_full (nat len) r of (buf, e, r) \<Rightarrow> (VNil, e, r))
      else (VNil, None, r))"

definition fixed_header :: "byte \<Rightarrow> pack" where
  "fixed_header fixed =
     (let rest = fixed AND 15; low = rest AND 7 in
      new_pack\<lparr>msg_type := drop_bit 4 fixed, dup_flag := drop_bit 3 rest,
        qos_level := drop_bit 1 low, retain := low AND 1\<rparr>)"

definition ReadPack :: "reader \<Rightarrow> pack option \<times> go_err option \<times> reader" where
  "ReadPack r =
     (case read_byte r of (Inl e, r) \<Rightarrow> (None, Some e, r)
      | (Inr fixed, r) \<Rightarrow>
          let p = fixed_header fixed in
          (case read_byte r of (Inl e, r) \<Rightarrow> (Some p, Some e, r)
           | (Inr temp_byte, r) \<Rightarrow>
               (case read_remaining 1 1 0 temp_byte r of
                  (len, Some e, r) \<Rightarrow> (Some (p\<lparr>plen := len\<rparr>), Some e, r)
                | (len, None, r) \<Rightarrow>
                    let p = p\<lparr>plen := len\<rparr> in
                    (case read_variable p r of (v, e, r) \<Rightarrow>
                       (Some (p\<lparr>variable := v\<rparr>), e, r)))))"

end
