(* ===== verification/Lodos_Mqtt_Write.thy ===== *)
theory Lodos_Mqtt_Write
  imports Lodos_Mqtt_Types
begin

text \<open>
  \<^verbatim>\<open>WritePack\<close> and \<^verbatim>\<open>DelayWritePack\<close> of \<^verbatim>\<open>gate/base/mqtt/mqtt.go\<close>, over the buffered
  writer. A wrong dynamic type of \<^verbatim>\<open>variable\<close>, a nil topic name and a remaining length of
  five digits are panics; every write can fail and ends the packet.
\<close>

section \<open>Primitive writers\<close>

text \<open>Sequencing: the code returns at the first write that fails.\<close>

definition then_write ::
  "go_err option \<times> writer \<Rightarrow> (writer \<Rightarrow> go_err option \<times> writer) \<Rightarrow> go_err option \<times> writer" where
  "then_write m f = (case m of (None, w) \<Rightarrow> f w | (Some e, w) \<Rightarrow> (Some e, w))"

lemma then_write_None [simp]: "then_write (None, w) f = f w"
  by (simp add: then_write_def)

text \<open>
  \<^verbatim>\<open>writeFull\<close> loops while the last write was shorter than the whole; a \<^verbatim>\<open>bufio.Writer\<close>
  takes everything or fails, so there is one turn, and none for the empty slice.
\<close>

definition writeFull :: "writer \<Rightarrow> bytes \<Rightarrow> go_err option \<times> writer" where
  "writeFull w b = (if b = [] then (None, w) else bw_write w b)"

definition writeInt :: "writer \<Rightarrow> int \<Rightarrow> nat \<Rightarrow> go_err option \<times> writer" where
  "writeInt w i sz =
     writeFull w (put_uint16 i @ replicate (sz - 2) 0)"

definition writeString :: "writer \<Rightarrow> string option \<Rightarrow> go_err option \<times> writer" where
  "writeString w s =
     (case s of None \<Rightarrow> (Some NilPointer, w)
      | Some str \<Rightarrow>
          let data = bytes_of_string str in
          then_write (writeInt w (int (length data)) 2) (\<lambda>w. writeFull w data))"

text \<open>\<^verbatim>\<open>getRemainingLength\<close> fills an array of four digits: a fifth is out of its range.\<close>

function remaining_digits :: "nat \<Rightarrow> nat \<Rightarrow> bytes outcome" where
  "remaining_digits n count =
     (if count \<ge> 4 then Panic ''index out of range''
      else
        let digit = n mod 128; rest = n div 128 in
        if rest > 0 then
          map_outcome_val (\<lambda>ds. (of_nat digit OR 128) # ds) (remaining_digits rest (count + 1))
        else Done [of_nat digit])"
  by pat_completeness auto
termination
  by (relation "measure (\<lambda>(n, c). n)") auto

declare remaining_digits.simps [simp del]

definition getRemainingLength :: "nat \<Rightarrow> bytes outcome" where
  "getRemainingLength len = remaining_digits len 0"

section \<open>The packet\<close>

definition bad_type :: "'a outcome" where
  "bad_type = Panic ''interface conversion''"

definition nil_deref :: "'a outcome" where
  "nil_deref = Panic ''nil pointer dereference''"

text \<open>An acknowledgement with a message id: its length byte, then the id.\<close>

definition write_ack :: "writer \<Rightarrow> int \<Rightarrow> (go_err option \<times> writer) outcome" where
  "write_ack w mid =
     map_outcome_val (\<lambda>l. then_write (bw_write_byte w (hd l)) (\<lambda>w. writeInt w mid 2))
       (getRemainingLength 2)"

definition write_connack :: "writer \<Rightarrow> byte \<Rightarrow> byte \<Rightarrow> (go_err option \<times> writer) outcome" where
  "write_connack w res code =
     map_outcome_val (\<lambda>l. then_write (bw_write_byte w (hd l)) (\<lambda>w. writeFull w [res, code]))
       (getRemainingLength 2)"

definition write_publish :: "writer \<Rightarrow> byte \<Rightarrow> publish \<Rightarrow> (go_err option \<times> writer) outcome" where
  "write_publish w qos pub =
     (case topic_name pub of None \<Rightarrow> nil_deref
      | Some topic \<Rightarrow>
          map_outcome_val
            (\<lambda>l. then_write (writeFull w l)
              (\<lambda>w. then_write (writeString w (topic_name pub))
                (\<lambda>w. then_write (if qos > 0 then writeInt w (pub_mid pub) 2 else (None, w))
                  (\<lambda>w. writeFull w (msg pub)))))
            (getRemainingLength ((if qos > 0 then 4 else 2)
               + length (bytes_of_string topic) + length (msg pub))))"

text \<open>
  The topic lists. The length counts the topics only, not the two bytes of the message id,
  and only its first digit is written.
\<close>

fun topics_len :: "nat \<Rightarrow> topics list \<Rightarrow> nat outcome" where
  "topics_len extra [] = Done 0"
| "topics_len extra (t # ts) =
     (case tname t of None \<Rightarrow> nil_deref
      | Some s \<Rightarrow>
          map_outcome_val (\<lambda>n. 2 + length (bytes_of_string s) + extra + n) (topics_len extra ts))"

fun write_topics :: "bool \<Rightarrow> topics list \<Rightarrow> writer \<Rightarrow> go_err option \<times> writer" where
  "write_topics with_qos [] w = (None, w)"
| "write_topics with_qos (t # ts) w =
     (let buf = bytes_of_string (case tname t of Some s \<Rightarrow> s | None \<Rightarrow> []) in
      then_write (writeInt w (int (length buf)) 2)
        (\<lambda>w. then_write (writeFull w buf)
          (\<lambda>w. then_write (if with_qos then bw_write_byte w (tqos t) else (None, w))
            (\<lambda>w. write_topics with_qos ts w))))"

definition write_topic_list ::
  "bool \<Rightarrow> writer \<Rightarrow> subscribe \<Rightarrow> (go_err option \<times> writer) outcome" where
  "write_topic_list with_qos w sub =
     outcome_bind (topics_len (if with_qos then 1 else 0) (sub_topics sub))
       (\<lambda>tnum. map_outcome_val
         (\<lambda>l. then_write (bw_write_byte w (hd l))
           (\<lambda>w. then_write (writeInt w (sub_mid sub) 2)
             (\<lambda>w. write_topics with_qos (sub_topics sub) w)))
         (getRemainingLength tnum))"

definition write_suback :: "writer \<Rightarrow> int \<Rightarrow> byte \<Rightarrow> (go_err option \<times> writer) outcome" where
  "write_suback w mid qos =
     map_outcome_val
       (\<lambda>l. then_write (bw_write_byte w (hd l))
         (\<lambda>w. then_write (writeInt w mid 2) (\<lambda>w. bw_write_byte w qos)))
       (getRemainingLength 3)"

text \<open>The first byte: the retain bit is not written.\<close>

definition fixed_byte :: "pack \<Rightarrow> byte" where
  "fixed_byte p = (push_bit 4 (msg_type p) OR push_bit 3 (dup_flag p)) OR push_bit 1 (qos_level p)"

definition write_variable :: "pack \<Rightarrow> writer \<Rightarrow> (go_err option \<times> writer) outcome" where
  "write_variable p w =
     (let t = msg_type p in
      if t = CONNACK then
        (case variable p of VConnack res code \<Rightarrow> write_connack w res code | _ \<Rightarrow> bad_type)
      else if t = PUBLISH then
        (case variable p of VPublish pub \<Rightarrow> write_publish w (qos_level p) pub | _ \<Rightarrow> bad_type)
      else if t = PUBACK \<or> t = PUBREC \<or> t = PUBREL \<or> t = PUBCOMP then
        (case variable p of VPuback mid \<Rightarrow> write_ack w mid | _ \<Rightarrow> bad_type)
      else if t = SUBSCRIBE then
        (case variable p of VSubscribe sub \<Rightarrow> write_topic_list True w sub | _ \<Rightarrow> bad_type)
      else if t = SUBACK then
        (case variable p of VSuback mid q \<Rightarrow> write_suback w mid q | _ \<Rightarrow> bad_type)
      else if t = UNSUBSCRIBE then
        (case variable p of VUNSubscribe sub \<Rightarrow> write_topic_list False w sub | _ \<Rightarrow> bad_type)
      else if t = UNSUBACK then
        (case variable p of VUNSuback mid \<Rightarrow> write_ack w mid | _ \<Rightarrow> bad_type)
      else if t = PINGRESP then Done (bw_write_byte w 0)
      else Done (None, w))"

definition DelayWritePack :: "pack \<Rightarrow> writer \<Rightarrow> (go_err option \<times> writer) outcome" where
  "DelayWritePack p w =
     (case bw_write_byte w (fixed_byte p) of (Some e, w) \<Rightarrow> Done (Some e, w)
      | (None, w) \<Rightarrow> write_variable p w)"

definition WritePack :: "pack \<Rightarrow> writer \<Rightarrow> (go_err option \<times> writer) outcome" where
  "WritePack p w = map_outcome_val (\<lambda>r. then_write r bw_flush) (DelayWritePack p w)"

section \<open>What a healthy writer is given\<close>

text \<open>
  \<open>emits m bs w\<close>: from the healthy writer \<open>w\<close>, the write \<open>m\<close> succeeds, leaves a healthy
  writer and adds exactly \<open>bs\<close> to the stream.
\<close>

definition emits :: "(writer \<Rightarrow> go_err option \<times> writer) \<Rightarrow> bytes \<Rightarrow> bool" where
  "emits m bs \<longleftrightarrow> (\<forall>w. w_ok w \<longrightarrow>
     (\<exists>w'. m w = (None, w') \<and> w_ok w' \<and> w_stream w' = w_stream w @ bs))"

lemma emitsI:
  "(\<And>w. w_ok w \<Longrightarrow> fst (m w) = None \<and> w_ok (snd (m w)) \<and> w_stream (snd (m w)) = w_stream w @ bs)
    \<Longrightarrow> emits m bs"
  unfolding emits_def by (metis prod.collapse)

lemma emits_skip [intro]: "emits (\<lambda>w. (None, w)) []"
  by (simp add: emits_def)

lemma emits_byte [intro]: "emits (\<lambda>w. bw_write_byte w b) [b]"
  by (rule emitsI) (rule bw_write_byte_ok)

lemma emits_full [intro]: "emits (\<lambda>w. writeFull w b) b"
  by (rule emitsI) (auto simp: writeFull_def bw_write_ok)

lemma emits_int [intro]: "emits (\<lambda>w. writeInt w i 2) (put_uint16 i)"
  unfolding writeInt_def using emits_full by simp

lemma emits_then:
  assumes "emits m bs" and "emits f cs"
  shows "emits (\<lambda>w. then_write (m w) f) (bs @ cs)"
  using assms unfolding emits_def then_write_def by fastforce

lemma emits_string [intro]:
  "emits (\<lambda>w. writeString w (Some s))
     (put_uint16 (int (length s)) @ bytes_of_string s)"
  by (simp add: writeString_def emits_then emits_int emits_full)

fun topic_bytes :: "bool \<Rightarrow> topics list \<Rightarrow> bytes" where
  "topic_bytes with_qos [] = []"
| "topic_bytes with_qos (t # ts) =
     (let s = (case tname t of Some s \<Rightarrow> s | None \<Rightarrow> []) in
      put_uint16 (int (length s)) @ bytes_of_string s
        @ (if with_qos then [tqos t] else []) @ topic_bytes with_qos ts)"

lemma emits_topics [intro]: "emits (write_topics q ts) (topic_bytes q ts)"
proof (induction ts)
  case Nil
  have "write_topics q [] = (\<lambda>w. (None, w))" by (rule ext) simp
  then show ?case by (simp add: emits_skip)
next
  case (Cons t ts)
  show ?case
    using emits_then [OF emits_int emits_then [OF emits_full emits_then [OF emits_byte Cons.IH]]]
      emits_then [OF emits_int emits_then [OF emits_full Cons.IH]]
    by (cases q) (simp_all add: Let_def)
qed

lemma emits_DelayWritePack:
  assumes "\<And>w. w_ok w \<Longrightarrow> \<exists>w'. write_variable p w = Done (None, w') \<and> w_ok w'
      \<and> w_stream w' = w_stream w @ body" and "w_ok w"
  shows "\<exists>w'. DelayWritePack p w = Done (None, w') \<and> w_ok w'
      \<and> w_stream w' = w_stream w @ fixed_byte p # body"
proof -
  obtain w1 where w1: "bw_write_byte w (fixed_byte p) = (None, w1)" "w_ok w1"
      "w_stream w1 = w_stream w @ [fixed_byte p]"
    using emits_byte [of "fixed_byte p"] \<open>w_ok w\<close> unfolding emits_def by blast
  from assms(1) [OF w1(2)] show ?thesis
    by (auto simp: DelayWritePack_def w1)
qed

lemma WritePack_sends:
  assumes "DelayWritePack p w = Done (None, w')" and "w_ok w'"
  shows "\<exists>w''. WritePack p w = Done (None, w'') \<and> w_ok w'' \<and> w_sent w'' = w_stream w'
     \<and> w_buf w'' = []"
proof -
  obtain e w'' where f: "bw_flush w' = (e, w'')" by (cases "bw_flush w'") auto
  from bw_flush_ok [OF assms(2)] f have "e = None" "w_ok w''" "w_stream w'' = w_stream w'"
      "w_buf w'' = []"
    by auto
  with f assms(1) show ?thesis
    by (auto simp: WritePack_def then_write_def w_stream_def)
qed

end
