(* ===== verification/Lodos_Mqtt_Codec.thy ===== *)
theory Lodos_Mqtt_Codec
  imports Lodos_Mqtt_Read Lodos_Mqtt_Write
begin

text \<open>
  The packet reader against the packet writer: the remaining length, the fixed header and
  one round trip per packet kind.
\<close>

section \<open>Digits of the remaining length\<close>

lemma and_127: "(w :: byte) AND 127 = take_bit 7 w"
proof -
  have "(127 :: byte) = mask 7" by (simp add: mask_eq_exp_minus_1)
  then show ?thesis by (simp add: take_bit_eq_mask)
qed

lemma drop_bit_7_less: "uint w < 128 \<Longrightarrow> drop_bit 7 (w :: byte) = 0"
  by (simp add: word_uint_eq_iff drop_bit_eq_div uint_div)

lemma or_128_nonzero: "drop_bit 7 ((w :: byte) OR 128) \<noteq> 0"
proof -
  have "bit (drop_bit 7 (w OR 128)) 0"
    by (simp add: bit_drop_bit_eq bit_or_iff)
  then show ?thesis by (metis bit_0_eq bot_apply bot_bool_def)
qed

lemma or_128_take: "take_bit 7 ((w :: byte) OR 128) = take_bit 7 w"
proof -
  have "take_bit 7 (128 :: byte) = 0" by simp
  then show ?thesis by (simp only: take_bit_or or.right_neutral)
qed

lemma uint_digit: "d < 128 \<Longrightarrow> uint (of_nat d :: byte) = int d"
  by (simp add: uint_nat unat_of_nat)

lemma last_digit:
  "d < 128 \<Longrightarrow> drop_bit 7 (of_nat d :: byte) = 0"
  "d < 128 \<Longrightarrow> uint ((of_nat d :: byte) AND 127) = int d"
  by (simp_all add: drop_bit_7_less uint_digit and_127 take_bit_eq_mod uint_mod)

lemma more_digit: "d < 128 \<Longrightarrow> uint (((of_nat d :: byte) OR 128) AND 127) = int d"
  using last_digit(2) [of d] by (simp only: and_127 or_128_take)

lemma digit_split: "(n :: nat) = n mod 128 + 128 * (n div 128)"
  by simp

lemma remaining_digits_last:
  "c < 4 \<Longrightarrow> n < 128 \<Longrightarrow> remaining_digits n c = Done [of_nat n]"
  by (subst remaining_digits.simps) simp

lemma remaining_digits_more:
  "c < 4 \<Longrightarrow> 128 \<le> n \<Longrightarrow> remaining_digits n c
    = map_outcome_val (\<lambda>ds. (of_nat (n mod 128) OR 128) # ds) (remaining_digits (n div 128) (Suc c))"
  by (subst remaining_digits.simps) (auto simp: Let_def div_eq_0_iff)

lemma read_remaining_last:
  "d < 128 \<Longrightarrow> read_remaining c m l (of_nat d) r = (l + int d * m, None, r)"
  by (subst read_remaining.simps) (simp add: last_digit)

lemma read_remaining_more:
  "d < 128 \<Longrightarrow> c < 3 \<Longrightarrow>
    read_remaining c m l (of_nat d OR 128) \<lparr>r_in = b # bs, r_end = e\<rparr>
      = read_remaining (Suc c) (m * 128) (l + int d * m) b \<lparr>r_in = bs, r_end = e\<rparr>"
  by (subst read_remaining.simps)
    (simp add: more_digit read_byte_Cons Let_def or_128_nonzero [simplified])

lemma read_remaining_stop:
  "d < 128 \<Longrightarrow> read_remaining 3 m l (of_nat d OR 128) r = (l + int d * m, None, r)"
  by (subst read_remaining.simps) (simp add: more_digit Let_def)

text \<open>The digits the writer emits, for each number of them.\<close>

lemma getRemainingLength_1: "n < 128 \<Longrightarrow> getRemainingLength n = Done [of_nat n]"
  by (simp add: getRemainingLength_def remaining_digits_last)

lemma getRemainingLength_2:
  assumes "128 \<le> n" "n < 128 * 128"
  shows "getRemainingLength n = Done [of_nat (n mod 128) OR 128, of_nat (n div 128)]"
proof -
  have "n div 128 < 128" using assms by (simp add: less_mult_imp_div_less)
  then show ?thesis
    using assms by (simp add: getRemainingLength_def remaining_digits_more remaining_digits_last)
qed

lemma getRemainingLength_3:
  assumes "128 * 128 \<le> n" "n < 128 * 128 * 128"
  shows "getRemainingLength n
    = Done [of_nat (n mod 128) OR 128, of_nat (n div 128 mod 128) OR 128, of_nat (n div 128 div 128)]"
proof -
  have "128 \<le> n div 128" "n div 128 div 128 < 128"
    using assms by (simp_all add: div_le_mono less_mult_imp_div_less)
  then show ?thesis
    using assms by (simp add: getRemainingLength_def remaining_digits_more remaining_digits_last)
qed

lemma getRemainingLength_4:
  assumes "128 * 128 * 128 \<le> n" "n < 128 * 128 * 128 * 128"
  shows "getRemainingLength n
    = Done [of_nat (n mod 128) OR 128, of_nat (n div 128 mod 128) OR 128,
        of_nat (n div 128 div 128 mod 128) OR 128, of_nat (n div 128 div 128 div 128)]"
proof -
  have "128 \<le> n div 128" "128 \<le> n div 128 div 128" "n div 128 div 128 div 128 < 128"
    using assms by (simp_all add: div_le_mono less_mult_imp_div_less)
  then show ?thesis
    using assms by (simp add: getRemainingLength_def remaining_digits_more remaining_digits_last)
qed

lemma getRemainingLength_panics:
  assumes "128 * 128 * 128 * 128 \<le> n"
  shows "getRemainingLength n = Panic ''index out of range''"
proof -
  have "128 \<le> n div 128" "128 \<le> n div 128 div 128" "128 \<le> n div 128 div 128 div 128"
    using assms by (simp_all add: div_le_mono)
  then show ?thesis
    using assms
    by (simp add: getRemainingLength_def remaining_digits_more remaining_digits.simps [of _ "Suc (Suc (Suc (Suc 0)))"])
qed

text \<open>What the reader's loop makes of a written length.\<close>

definition read_length :: "reader \<Rightarrow> int \<times> go_err option \<times> reader" where
  "read_length r = (case read_byte r of (Inl e, r) \<Rightarrow> (0, Some e, r)
     | (Inr t, r) \<Rightarrow> read_remaining 1 1 0 t r)"

lemma read_length_digits:
  assumes "n < 128 * 128 * 128"
  obtains ds where "getRemainingLength n = Done ds" "ds \<noteq> []" "length ds \<le> 3"
    "\<And>rest e. read_length \<lparr>r_in = ds @ rest, r_end = e\<rparr> = (int n, None, \<lparr>r_in = rest, r_end = e\<rparr>)"
proof -
  have two: "int n = int (n mod 128) + int (n div 128) * 128"
    by (simp add: zmod_int zdiv_int)
  have "int (n div 128) = int (n div 128 mod 128) + int (n div 128 div 128) * 128"
    by (simp add: zmod_int zdiv_int)
  with two have three: "int n = int (n mod 128) + int (n div 128 mod 128) * 128
      + int (n div 128 div 128) * 16384"
    by linarith
  consider "n < 128" | "128 \<le> n" "n < 128 * 128" | "128 * 128 \<le> n" by linarith
  then show thesis
  proof cases
    case 1
    then show thesis
      by (intro that [OF getRemainingLength_1])
        (auto simp: read_length_def read_byte_Cons read_remaining_last)
  next
    case 2
    then have "n div 128 < 128" by (simp add: less_mult_imp_div_less)
    then show thesis
      using 2 two by (intro that [OF getRemainingLength_2])
        (auto simp: read_length_def read_byte_Cons read_remaining_last read_remaining_more)
  next
    case 3
    have "n div 128 div 128 < 128" using assms by (simp add: less_mult_imp_div_less)
    then show thesis
      using 3 assms three by (intro that [OF getRemainingLength_3])
        (auto simp: read_length_def read_byte_Cons read_remaining_last read_remaining_more)
  qed
qed

section \<open>The fixed header\<close>

lemma word_cases_4: "uint (w :: byte) < 4 \<Longrightarrow> w = 0 \<or> w = 1 \<or> w = 2 \<or> w = 3"
proof -
  assume "uint w < 4"
  moreover have "0 \<le> uint w" by simp
  ultimately have "uint w = 0 \<or> uint w = 1 \<or> uint w = 2 \<or> uint w = 3" by linarith
  then show ?thesis by (auto simp: word_uint_eq_iff)
qed

lemma word_cases_16:
  "uint (w :: byte) < 16 \<Longrightarrow> w \<in> {0, 1, 2, 3, 4, 5, 6, 7, 8, 9, 10, 11, 12, 13, 14, 15}"
proof -
  assume "uint w < 16"
  then have "uint w \<in> set [0..15]" by simp
  then have "uint w \<in> {0, 1, 2, 3, 4, 5, 6, 7, 8, 9, 10, 11, 12, 13, 14, 15}"
    by (simp add: upto.simps)
  then show ?thesis by (auto simp: word_uint_eq_iff)
qed

definition header_ok :: "pack \<Rightarrow> bool" where
  "header_ok p \<longleftrightarrow> uint (msg_type p) < 16 \<and> uint (dup_flag p) < 2 \<and> uint (qos_level p) < 4"

lemma fixed_header_fixed_byte:
  assumes "header_ok p"
  shows "fixed_header (fixed_byte p)
    = new_pack\<lparr>msg_type := msg_type p, dup_flag := dup_flag p, qos_level := qos_level p\<rparr>"
proof -
  have d: "dup_flag p = 0 \<or> dup_flag p = 1"
    using assms word_cases_4 [of "dup_flag p"] by (auto simp: header_ok_def)
  have q: "qos_level p = 0 \<or> qos_level p = 1 \<or> qos_level p = 2 \<or> qos_level p = 3"
    using assms word_cases_4 [of "qos_level p"] by (simp add: header_ok_def)
  have t: "msg_type p \<in> {0, 1, 2, 3, 4, 5, 6, 7, 8, 9, 10, 11, 12, 13, 14, 15}"
    using assms word_cases_16 [of "msg_type p"] by (simp add: header_ok_def)
  have "\<forall>t \<in> {0, 1, 2, 3, 4, 5, 6, 7, 8, 9, 10, 11, 12, 13, 14, 15}. \<forall>d \<in> {0, 1}.
      \<forall>q \<in> {0, 1, 2, 3}.
      (let b = (push_bit 4 t OR push_bit 3 d) OR push_bit 1 q in
       drop_bit 4 b = (t :: byte) \<and> drop_bit 3 (b AND 15) = (d :: byte)
        \<and> drop_bit 1 (b AND 15 AND 7) = (q :: byte) \<and> b AND 15 AND 7 AND 1 = 0)"
    by code_simp
  with t d q show ?thesis
    by (auto simp: fixed_header_def fixed_byte_def new_pack_def Let_def)
qed

section \<open>Packets\<close>

lemma ReadPack_parts:
  assumes hdr: "header_ok p" and n: "n < 128 * 128 * 128" and ds: "getRemainingLength n = Done ds"
    and body: "read_variable (new_pack\<lparr>msg_type := msg_type p, dup_flag := dup_flag p,
        qos_level := qos_level p, plen := int n\<rparr>) \<lparr>r_in = body @ rest, r_end = e\<rparr>
      = (v, None, \<lparr>r_in = rest, r_end = e\<rparr>)"
  shows "ReadPack \<lparr>r_in = fixed_byte p # ds @ body @ rest, r_end = e\<rparr>
    = (Some (new_pack\<lparr>msg_type := msg_type p, dup_flag := dup_flag p, qos_level := qos_level p,
         plen := int n, variable := v\<rparr>), None, \<lparr>r_in = rest, r_end = e\<rparr>)"
proof -
  obtain ds' where "getRemainingLength n = Done ds'" and ne: "ds' \<noteq> []"
    and rl: "\<And>rest e. read_length \<lparr>r_in = ds' @ rest, r_end = e\<rparr>
      = (int n, None, \<lparr>r_in = rest, r_end = e\<rparr>)"
    using read_length_digits [OF n] by metis
  with ds have "ds' = ds" by simp
  with ne obtain t ts where t: "ds = t # ts" by (cases ds) auto
  from rl [of "body @ rest" e] have
    "read_remaining 1 1 0 t \<lparr>r_in = ts @ body @ rest, r_end = e\<rparr>
      = (int n, None, \<lparr>r_in = body @ rest, r_end = e\<rparr>)"
    by (simp add: read_length_def \<open>ds' = ds\<close> t read_byte_Cons)
  with body show ?thesis
    by (simp add: ReadPack_def read_byte_Cons fixed_header_fixed_byte [OF hdr] t Let_def)
qed

text \<open>
  A packet \<open>p\<close> travels when, from any healthy writer, \<^verbatim>\<open>WritePack\<close> sends bytes from which
  \<^verbatim>\<open>ReadPack\<close> rebuilds \<open>q\<close>, whatever follows them on the wire.
\<close>

definition travels :: "pack \<Rightarrow> pack \<Rightarrow> bool" where
  "travels p q \<longleftrightarrow> (\<forall>w. w_ok w \<longrightarrow> (\<exists>w' bs. WritePack p w = Done (None, w')
     \<and> w_ok w' \<and> w_buf w' = [] \<and> w_sent w' = w_stream w @ bs
     \<and> (\<forall>rest e. ReadPack \<lparr>r_in = bs @ rest, r_end = e\<rparr>
          = (Some q, None, \<lparr>r_in = rest, r_end = e\<rparr>))))"

lemma travelsI:
  assumes hdr: "header_ok p" and n: "n < 128 * 128 * 128" and ds: "getRemainingLength n = Done ds"
    and wr: "\<And>w. write_variable p w = Done (m w)" and em: "emits m (ds @ body)"
    and rd: "\<And>rest e. read_variable (new_pack\<lparr>msg_type := msg_type p, dup_flag := dup_flag p,
        qos_level := qos_level p, plen := int n\<rparr>) \<lparr>r_in = body @ rest, r_end = e\<rparr>
      = (v, None, \<lparr>r_in = rest, r_end = e\<rparr>)"
  shows "travels p (new_pack\<lparr>msg_type := msg_type p, dup_flag := dup_flag p,
      qos_level := qos_level p, plen := int n, variable := v\<rparr>)"
  unfolding travels_def
proof (intro allI impI)
  fix w assume w: "w_ok w"
  have "\<exists>w'. DelayWritePack p w = Done (None, w') \<and> w_ok w'
      \<and> w_stream w' = w_stream w @ fixed_byte p # ds @ body"
  proof (rule emits_DelayWritePack [OF _ w])
    fix w1 assume "w_ok w1"
    with em show "\<exists>w'. write_variable p w1 = Done (None, w') \<and> w_ok w'
        \<and> w_stream w' = w_stream w1 @ ds @ body"
      by (auto simp: emits_def wr)
  qed
  then obtain w1 where w1: "DelayWritePack p w = Done (None, w1)" "w_ok w1"
      "w_stream w1 = w_stream w @ fixed_byte p # ds @ body" by blast
  from WritePack_sends [OF w1(1,2)] obtain w2 where "WritePack p w = Done (None, w2)" "w_ok w2"
      "w_sent w2 = w_stream w @ fixed_byte p # ds @ body" "w_buf w2 = []"
    using w1(3) by auto
  with ReadPack_parts [OF hdr n ds rd]
  show "\<exists>w' bs. WritePack p w = Done (None, w') \<and> w_ok w' \<and> w_buf w' = []
     \<and> w_sent w' = w_stream w @ bs
     \<and> (\<forall>rest e. ReadPack \<lparr>r_in = bs @ rest, r_end = e\<rparr>
          = (Some (new_pack\<lparr>msg_type := msg_type p, dup_flag := dup_flag p,
      qos_level := qos_level p, plen := int n, variable := v\<rparr>), None, \<lparr>r_in = rest, r_end = e\<rparr>))"
    by (intro exI [of _ w2] exI [of _ "fixed_byte p # ds @ body"]) simp
qed

lemma readInt_put [codec_simps]:
  "readInt \<lparr>r_in = put_uint16 i @ rest, r_end = e\<rparr> 2
    = (i mod 65536, None, \<lparr>r_in = rest, r_end = e\<rparr>)"
  by (simp add: readInt_def read_full_append)

lemma readString_put [codec_simps]:
  assumes "length s < 65536"
  shows "readString \<lparr>r_in = put_uint16 (int (length s)) @ bytes_of_string s @ rest, r_end = e\<rparr>
    = (s, int (length s), None, \<lparr>r_in = rest, r_end = e\<rparr>)"
  using assms by (simp add: readString_def readInt_put read_full_append)

section \<open>Round trips\<close>

lemma publish_body:
  assumes "0 < length s" "length s < 65536" "0 < qos \<or> 2 \<le> length body"
  shows "read_publish qos (int ((if 0 < qos then 4 else 2) + length s + length body))
     \<lparr>r_in = put_uint16 (int (length s)) @ bytes_of_string s
        @ (if 0 < qos then put_uint16 mid else []) @ body @ rest, r_end = e\<rparr>
   = (\<lparr>topic_name = Some s, pub_mid = (if 0 < qos then mid mod 65536 else 0), msg = body\<rparr>, None,
      \<lparr>r_in = rest, r_end = e\<rparr>)"
  using assms by (auto simp: read_publish_def codec_simps Let_def)

lemma emits_publish:
  "emits (\<lambda>w. then_write (writeFull w l)
            (\<lambda>w. then_write (writeString w (Some s))
              (\<lambda>w. then_write (if 0 < qos then writeInt w mid 2 else (None, w))
                (\<lambda>w. writeFull w body))))
     (l @ put_uint16 (int (length s)) @ bytes_of_string s
        @ (if 0 < (qos :: byte) then put_uint16 mid else []) @ body)"
proof -
  have "emits (\<lambda>w. if 0 < qos then writeInt w mid 2 else (None, w))
      (if 0 < qos then put_uint16 mid else [])"
    by (simp add: emits_int emits_skip)
  from emits_then [OF emits_full emits_then [OF emits_string emits_then [OF this emits_full]]]
  show ?thesis by simp
qed

lemma GetPubPack_fields [simp]:
  "msg_type (GetPubPack q d m t b) = PUBLISH" "dup_flag (GetPubPack q d m t b) = d"
  "qos_level (GetPubPack q d m t b) = q"
  "variable (GetPubPack q d m t b) = VPublish \<lparr>topic_name = t, pub_mid = m, msg = b\<rparr>"
  by (simp_all add: GetPubPack_def new_pack_def)

lemma publish_travels:
  assumes "uint dup < 2" "uint qos < 4" "0 < length s" "length s < 65536"
    "0 < qos \<or> 2 \<le> length body"
    and n: "n = (if 0 < qos then 4 else 2) + length s + length body" "n < 128 * 128 * 128"
  shows "travels (GetPubPack qos dup mid (Some s) body)
    ((GetPubPack qos dup (if 0 < qos then mid mod 65536 else 0) (Some s) body)\<lparr>plen := int n\<rparr>)"
proof -
  let ?p = "GetPubPack qos dup mid (Some s) body"
  obtain ds where ds: "getRemainingLength n = Done ds"
    using read_length_digits [OF n(2)] by metis
  have wr: "write_variable ?p w = Done (then_write (writeFull w ds)
            (\<lambda>w. then_write (writeString w (Some s))
              (\<lambda>w. then_write (if 0 < qos then writeInt w mid 2 else (None, w))
                (\<lambda>w. writeFull w body))))" for w
    using ds n(1) by (cases "0 < qos") (simp_all add: write_variable_def write_publish_def)
  have "header_ok ?p" using assms(1,2) by (simp add: header_ok_def)
  from travelsI [OF this n(2) ds wr emits_publish,
      where v = "VPublish \<lparr>topic_name = Some s, pub_mid = (if 0 < qos then mid mod 65536 else 0), msg = body\<rparr>"]
  have "travels ?p (new_pack\<lparr>msg_type := msg_type ?p, dup_flag := dup_flag ?p,
      qos_level := qos_level ?p, plen := int n, variable := VPublish \<lparr>topic_name = Some s,
      pub_mid = (if 0 < qos then mid mod 65536 else 0), msg = body\<rparr>\<rparr>)"
    using publish_body [OF assms(3-5)] n(1)
    by (simp add: read_variable_def new_pack_def map_var_def Let_def)
  then show ?thesis
    by (simp add: GetPubPack_def new_pack_def)
qed

text \<open>The packets with a message id and nothing else, and SUBACK.\<close>

lemma write_ack_Done:
  "write_ack w mid = Done (then_write (bw_write_byte w 2) (\<lambda>w. writeInt w mid 2))"
  by (simp add: write_ack_def getRemainingLength_1)

lemma emits_ack: "emits (\<lambda>w. then_write (bw_write_byte w 2) (\<lambda>w. writeInt w mid 2)) ([2] @ put_uint16 mid)"
  by (rule emits_then [OF emits_byte emits_int])

lemma ack_travels:
  assumes "header_ok p" and "\<And>w. write_variable p w = write_ack w mid"
    and "\<And>q r. msg_type q = msg_type p \<Longrightarrow> plen q = 2 \<Longrightarrow>
        read_variable q r = read_ack mk x (msg_type p) 2 r"
  shows "travels p (new_pack\<lparr>msg_type := msg_type p, dup_flag := dup_flag p,
      qos_level := qos_level p, plen := 2, variable := mk (mid mod 65536)\<rparr>)"
proof -
  have ds: "getRemainingLength 2 = Done [2]" by (simp add: getRemainingLength_1)
  have wr: "write_variable p w = Done (then_write (bw_write_byte w 2) (\<lambda>w. writeInt w mid 2))" for w
    by (simp add: assms(2) write_ack_Done)
  have rd: "read_variable (new_pack\<lparr>msg_type := msg_type p, dup_flag := dup_flag p,
        qos_level := qos_level p, plen := int 2\<rparr>) \<lparr>r_in = put_uint16 mid @ rest, r_end = e\<rparr>
      = (mk (mid mod 65536), None, \<lparr>r_in = rest, r_end = e\<rparr>)" for rest e
    by (subst assms(3)) (simp_all add: new_pack_def read_ack_def readInt_put)
  show ?thesis
    using travelsI [OF assms(1) _ ds wr emits_ack rd] by simp
qed

lemma acks_travel:
  "travels (GetPubAckPack mid) ((GetPubAckPack (mid mod 65536))\<lparr>plen := 2\<rparr>)"
  "travels (GetPubRECPack mid) ((GetPubRECPack (mid mod 65536))\<lparr>plen := 2\<rparr>)"
  "travels (GetPubRELPack mid) ((GetPubRELPack (mid mod 65536))\<lparr>plen := 2\<rparr>)"
  "travels (GetPubCOMPPack mid) ((GetPubCOMPPack (mid mod 65536))\<lparr>plen := 2\<rparr>)"
  "travels (GetUNSubAckPack mid) ((GetUNSubAckPack (mid mod 65536))\<lparr>plen := 2\<rparr>)"
proof -
  note defs = GetPubAckPack_def GetPubRECPack_def GetPubRELPack_def GetPubCOMPPack_def
    GetUNSubAckPack_def new_pack_def header_ok_def write_variable_def read_variable_def
  show "travels (GetPubAckPack mid) ((GetPubAckPack (mid mod 65536))\<lparr>plen := 2\<rparr>)"
    using ack_travels [of "GetPubAckPack mid" mid VPuback 2] by (simp add: defs)
  show "travels (GetPubRECPack mid) ((GetPubRECPack (mid mod 65536))\<lparr>plen := 2\<rparr>)"
    using ack_travels [of "GetPubRECPack mid" mid VPuback 2] by (simp add: defs)
  show "travels (GetPubRELPack mid) ((GetPubRELPack (mid mod 65536))\<lparr>plen := 2\<rparr>)"
    using ack_travels [of "GetPubRELPack mid" mid VPuback 2] by (simp add: defs)
  show "travels (GetPubCOMPPack mid) ((GetPubCOMPPack (mid mod 65536))\<lparr>plen := 2\<rparr>)"
    using ack_travels [of "GetPubCOMPPack mid" mid VPuback 2] by (simp add: defs)
  show "travels (GetUNSubAckPack mid) ((GetUNSubAckPack (mid mod 65536))\<lparr>plen := 2\<rparr>)"
    using ack_travels [of "GetUNSubAckPack mid" mid VUNSuback 1] by (simp add: defs)
qed

lemma suback_travels:
  "travels (new_pack\<lparr>msg_type := SUBACK, variable := VSuback mid q\<rparr>)
    (new_pack\<lparr>msg_type := SUBACK, plen := 3, variable := VSuback (mid mod 65536) q\<rparr>)"
proof -
  let ?p = "new_pack\<lparr>msg_type := SUBACK, variable := VSuback mid q\<rparr>"
  have ds: "getRemainingLength 3 = Done [3]" by (simp add: getRemainingLength_1)
  have wr: "write_variable ?p w = Done (then_write (bw_write_byte w 3)
      (\<lambda>w. then_write (writeInt w mid 2) (\<lambda>w. bw_write_byte w q)))" for w
    by (simp add: write_variable_def write_suback_def ds)
  have rd: "read_variable (new_pack\<lparr>msg_type := msg_type ?p, dup_flag := dup_flag ?p,
        qos_level := qos_level ?p, plen := int 3\<rparr>) \<lparr>r_in = (put_uint16 mid @ [q]) @ rest, r_end = e\<rparr>
      = (VSuback (mid mod 65536) q, None, \<lparr>r_in = rest, r_end = e\<rparr>)" for rest e
    by (simp add: read_variable_def read_suback_def readInt_put read_byte_Cons)
  have "header_ok ?p" by (simp add: header_ok_def new_pack_def)
  from travelsI [OF this _ ds wr _ rd] emits_then [OF emits_byte emits_then [OF emits_int emits_byte]]
  show ?thesis by (simp add: new_pack_def)
qed

section \<open>Topic lists\<close>

definition topic_size :: "nat \<Rightarrow> topics list \<Rightarrow> nat" where
  "topic_size extra ts =
     sum_list (map (\<lambda>t. 2 + length (case tname t of Some s \<Rightarrow> s | None \<Rightarrow> []) + extra) ts)"

lemma topics_len_Done:
  "list_all (\<lambda>t. tname t \<noteq> None) ts \<Longrightarrow> topics_len extra ts = Done (topic_size extra ts)"
  by (induction ts) (auto simp: topic_size_def)

definition name_ok :: "nat \<Rightarrow> topics \<Rightarrow> bool" where
  "name_ok least t \<longleftrightarrow> (\<exists>s. tname t = Some s \<and> least \<le> length s \<and> length s < 65536)"

lemma name_ok_SomeD: "list_all (name_ok least) ts \<Longrightarrow> list_all (\<lambda>t. tname t \<noteq> None) ts"
  by (induction ts) (auto simp: name_ok_def)

lemma read_sub_topics_bytes:
  assumes "list_all (name_ok 1) ts" "0 \<le> k" "k \<le> 3"
    "vlen = int (topic_size 1 ts) + k"
  shows "read_sub_topics vlen sub \<lparr>r_in = topic_bytes True ts @ rest, r_end = e\<rparr>
    = (sub\<lparr>sub_topics := sub_topics sub @ ts\<rparr>, \<lparr>r_in = rest, r_end = e\<rparr>)"
  using assms
proof (induction ts arbitrary: sub vlen)
  case Nil
  then show ?case by (simp add: read_sub_topics.simps topic_size_def)
next
  case (Cons t ts)
  then obtain s where s: "tname t = Some s" "1 \<le> length s" "length s < 65536"
    by (auto simp: name_ok_def)
  define rest_len where "rest_len = int (topic_size 1 ts) + k"
  have v: "vlen = 2 + int (length s) + 1 + rest_len" and "0 \<le> rest_len"
    using s(1) Cons.prems by (simp_all add: topic_size_def rest_len_def)
  have t: "\<lparr>tname = Some s, tqos = tqos t\<rparr> = t" using s(1) by (cases t) simp
  have "read_sub_topics vlen sub \<lparr>r_in = topic_bytes True (t # ts) @ rest, r_end = e\<rparr>
    = read_sub_topics rest_len (addTopics sub t) \<lparr>r_in = topic_bytes True ts @ rest, r_end = e\<rparr>"
    using s \<open>0 \<le> rest_len\<close> unfolding v
    by (subst read_sub_topics.simps)
      (simp add: readInt_put read_full_append read_byte_Cons t)
  with Cons show ?case by (simp add: addTopics_def rest_len_def)
qed

lemma read_unsub_topics_bytes:
  assumes "list_all (name_ok 2) ts" "list_all (\<lambda>t. tqos t = 0) ts" "0 \<le> k" "k \<le> 3"
    "vlen = int (topic_size 0 ts) + k"
  shows "read_unsub_topics vlen sub \<lparr>r_in = topic_bytes False ts @ rest, r_end = e\<rparr>
    = (sub\<lparr>sub_topics := sub_topics sub @ ts\<rparr>, \<lparr>r_in = rest, r_end = e\<rparr>)"
  using assms
proof (induction ts arbitrary: sub vlen)
  case Nil
  then show ?case by (simp add: read_unsub_topics.simps topic_size_def)
next
  case (Cons t ts)
  then obtain s where s: "tname t = Some s" "2 \<le> length s" "length s < 65536"
    by (auto simp: name_ok_def)
  define rest_len where "rest_len = int (topic_size 0 ts) + k"
  have v: "vlen = 2 + int (length s) + rest_len" and "0 \<le> rest_len"
    using s(1) Cons.prems by (simp_all add: topic_size_def rest_len_def)
  have t: "\<lparr>tname = Some s, tqos = 0\<rparr> = t" using s(1) Cons.prems by (cases t) simp
  have "read_unsub_topics vlen sub \<lparr>r_in = topic_bytes False (t # ts) @ rest, r_end = e\<rparr>
    = read_unsub_topics rest_len (addTopics sub t) \<lparr>r_in = topic_bytes False ts @ rest, r_end = e\<rparr>"
    using s \<open>0 \<le> rest_len\<close> unfolding v
    by (subst read_unsub_topics.simps)
      (simp add: readInt_put read_full_append read_byte_Cons t)
  with Cons show ?case by (simp add: addTopics_def rest_len_def)
qed

lemma emits_topic_list:
  "emits (\<lambda>w. then_write (bw_write_byte w b)
      (\<lambda>w. then_write (writeInt w mid 2) (\<lambda>w. write_topics q ts w)))
    ([b] @ put_uint16 mid @ topic_bytes q ts)"
  by (rule emits_then [OF emits_byte emits_then [OF emits_int emits_topics]])

definition SubPack :: "int \<Rightarrow> topics list \<Rightarrow> pack" where
  "SubPack mid ts = new_pack\<lparr>msg_type := SUBSCRIBE, qos_level := 1,
     variable := VSubscribe \<lparr>sub_mid = mid, sub_topics = ts\<rparr>\<rparr>"

definition UnsubPack :: "int \<Rightarrow> topics list \<Rightarrow> pack" where
  "UnsubPack mid ts = new_pack\<lparr>msg_type := UNSUBSCRIBE, qos_level := 1,
     variable := VUNSubscribe \<lparr>sub_mid = mid, sub_topics = ts\<rparr>\<rparr>"

lemma subscribe_travels:
  assumes "list_all (name_ok 1) ts" "topic_size 1 ts < 128"
  shows "travels (SubPack mid ts) ((SubPack (mid mod 65536) ts)\<lparr>plen := int (topic_size 1 ts)\<rparr>)"
proof -
  let ?n = "topic_size 1 ts" and ?p = "SubPack mid ts"
  have ds: "getRemainingLength ?n = Done [of_nat ?n]"
    using assms(2) by (rule getRemainingLength_1)
  have wr: "write_variable ?p w = Done (then_write (bw_write_byte w (of_nat ?n))
      (\<lambda>w. then_write (writeInt w mid 2) (\<lambda>w. write_topics True ts w)))" for w
    using topics_len_Done [OF name_ok_SomeD [OF assms(1)], of 1] ds
    by (simp add: SubPack_def write_variable_def write_topic_list_def)
  have rd: "read_variable (new_pack\<lparr>msg_type := msg_type ?p, dup_flag := dup_flag ?p,
        qos_level := qos_level ?p, plen := int ?n\<rparr>)
        \<lparr>r_in = (put_uint16 mid @ topic_bytes True ts) @ rest, r_end = e\<rparr>
      = (VSubscribe \<lparr>sub_mid = mid mod 65536, sub_topics = ts\<rparr>, None, \<lparr>r_in = rest, r_end = e\<rparr>)"
    for rest e
    using read_sub_topics_bytes [OF assms(1), of 0 "int ?n"]
    by (simp add: SubPack_def read_variable_def read_subscribe_def readInt_put map_var_def)
  have "header_ok ?p" by (simp add: header_ok_def SubPack_def new_pack_def)
  from travelsI [OF this _ ds wr _ rd] emits_topic_list assms(2)
  show ?thesis by (simp add: SubPack_def new_pack_def)
qed

lemma unsubscribe_travels:
  assumes "list_all (name_ok 2) ts" "list_all (\<lambda>t. tqos t = 0) ts" "topic_size 0 ts < 128"
  shows "travels (UnsubPack mid ts) ((UnsubPack (mid mod 65536) ts)\<lparr>plen := int (topic_size 0 ts)\<rparr>)"
proof -
  let ?n = "topic_size 0 ts" and ?p = "UnsubPack mid ts"
  have ds: "getRemainingLength ?n = Done [of_nat ?n]"
    using assms(3) by (rule getRemainingLength_1)
  have wr: "write_variable ?p w = Done (then_write (bw_write_byte w (of_nat ?n))
      (\<lambda>w. then_write (writeInt w mid 2) (\<lambda>w. write_topics False ts w)))" for w
    using topics_len_Done [OF name_ok_SomeD [OF assms(1)], of 0]
    by (simp add: UnsubPack_def write_variable_def write_topic_list_def ds)
  have rd: "read_variable (new_pack\<lparr>msg_type := msg_type ?p, dup_flag := dup_flag ?p,
        qos_level := qos_level ?p, plen := int ?n\<rparr>)
        \<lparr>r_in = (put_uint16 mid @ topic_bytes False ts) @ rest, r_end = e\<rparr>
      = (VUNSubscribe \<lparr>sub_mid = mid mod 65536, sub_topics = ts\<rparr>, None, \<lparr>r_in = rest, r_end = e\<rparr>)"
    for rest e
    using read_unsub_topics_bytes [OF assms(1,2), of 0 "int ?n"]
    by (simp add: UnsubPack_def read_variable_def read_unsubscribe_def readInt_put map_var_def)
  have "header_ok ?p" by (simp add: header_ok_def UnsubPack_def new_pack_def)
  from travelsI [OF this _ ds wr _ rd] emits_topic_list assms(3)
  show ?thesis by (simp add: UnsubPack_def new_pack_def)
qed

section \<open>Sequences of packets\<close>

text \<open>
  What a stream user relies on: a packet written is the packet read, and reading it leaves
  the rest of the stream alone. Then whole sequences come out as they went in.
\<close>

fun put_all :: "('p \<Rightarrow> 'w \<Rightarrow> ('e option \<times> 'w) outcome) \<Rightarrow> 'p list \<Rightarrow> 'w \<Rightarrow> ('e option \<times> 'w) outcome" where
  "put_all put [] w = Done (None, w)"
| "put_all put (p # ps) w =
     outcome_bind (put p w)
       (\<lambda>(e, w). case e of None \<Rightarrow> put_all put ps w | Some e \<Rightarrow> Done (Some e, w))"

fun get_all :: "(reader \<Rightarrow> 'p option \<times> go_err option \<times> reader) \<Rightarrow> nat \<Rightarrow> reader
    \<Rightarrow> 'p option list \<times> reader" where
  "get_all get 0 r = ([], r)"
| "get_all get (Suc n) r =
     (case get r of (p, None, r) \<Rightarrow> (case get_all get n r of (ps, r) \<Rightarrow> (p # ps, r))
      | (p, Some e, r) \<Rightarrow> ([], r))"

locale framed_codec =
  fixes put :: "'p \<Rightarrow> 'w \<Rightarrow> ('e option \<times> 'w) outcome"
    and good :: "'w \<Rightarrow> bool"
    and stream :: "'w \<Rightarrow> bytes"
    and get :: "reader \<Rightarrow> 'p option \<times> go_err option \<times> reader"
    and carries :: "'p \<Rightarrow> 'p \<Rightarrow> bool"
  assumes put_get: "carries p q \<Longrightarrow> good w \<Longrightarrow>
    \<exists>w' bs. put p w = Done (None, w') \<and> good w' \<and> stream w' = stream w @ bs
      \<and> (\<forall>rest e. get \<lparr>r_in = bs @ rest, r_end = e\<rparr> = (Some q, None, \<lparr>r_in = rest, r_end = e\<rparr>))"
begin

lemma put_get_all:
  assumes "list_all2 carries ps qs" "good w"
  shows "\<exists>w' bs. put_all put ps w = Done (None, w') \<and> good w' \<and> stream w' = stream w @ bs
    \<and> (\<forall>rest e. get_all get (length ps) \<lparr>r_in = bs @ rest, r_end = e\<rparr>
         = (map Some qs, \<lparr>r_in = rest, r_end = e\<rparr>))"
  using assms
proof (induction arbitrary: w rule: list_all2_induct)
  case Nil
  then show ?case by simp
next
  case (Cons p ps q qs)
  from put_get [OF Cons.hyps(1) Cons.prems] obtain w1 b1 where 1: "put p w = Done (None, w1)"
      "good w1" "stream w1 = stream w @ b1"
      "\<And>rest e. get \<lparr>r_in = b1 @ rest, r_end = e\<rparr> = (Some q, None, \<lparr>r_in = rest, r_end = e\<rparr>)"
    by blast
  from Cons.IH [OF 1(2)] obtain w2 b2 where 2: "put_all put ps w1 = Done (None, w2)"
      "good w2" "stream w2 = stream w1 @ b2"
      "\<And>rest e. get_all get (length ps) \<lparr>r_in = b2 @ rest, r_end = e\<rparr>
        = (map Some qs, \<lparr>r_in = rest, r_end = e\<rparr>)"
    by blast
  show ?case
    by (intro exI [of _ w2] exI [of _ "b1 @ b2"]) (simp add: 1 2)
qed

end

interpretation mqtt_wire: framed_codec WritePack w_ok w_stream ReadPack travels
proof unfold_locales
  fix p q :: pack and w :: writer
  assume "travels p q" "w_ok w"
  then show "\<exists>w' bs. WritePack p w = Done (None, w') \<and> w_ok w' \<and> w_stream w' = w_stream w @ bs
      \<and> (\<forall>rest e. ReadPack \<lparr>r_in = bs @ rest, r_end = e\<rparr>
           = (Some q, None, \<lparr>r_in = rest, r_end = e\<rparr>))"
    unfolding travels_def by (fastforce simp: w_stream_def)
qed

section \<open>Properties\<close>

text \<open>
  C6: A PUBLISH packet made by \<^verbatim>\<open>GetPubPack\<close> and written by \<^verbatim>\<open>WritePack\<close> is read back by
  \<^verbatim>\<open>ReadPack\<close> with its topic, payload, flags and (at QoS 1 and 2) its message id modulo
  65536, and the bytes after it are untouched: for a topic of 1 to 65535 bytes, at least two
  payload bytes at QoS 0, and a remaining length below 128 * 128 * 128.
\<close>

theorem publish_roundtrip:
  assumes "uint dup < 2" "uint qos < 4" "0 < length s" "length s < 65536"
    and "0 < qos \<or> 2 \<le> length body"
    and "n = (if 0 < qos then 4 else 2) + length s + length body" and "n < 128 * 128 * 128"
    and "w_ok w"
  shows "\<exists>w' bs. WritePack (GetPubPack qos dup mid (Some s) body) w = Done (None, w')
    \<and> w_buf w' = [] \<and> w_sent w' = w_stream w @ bs
    \<and> (\<forall>rest e. ReadPack \<lparr>r_in = bs @ rest, r_end = e\<rparr>
         = (Some ((GetPubPack qos dup (if 0 < qos then mid mod 65536 else 0) (Some s) body)\<lparr>plen := int n\<rparr>),
            None, \<lparr>r_in = rest, r_end = e\<rparr>))"
  using publish_travels [OF assms(1-7), of mid] \<open>w_ok w\<close> unfolding travels_def by blast

definition idle_writer :: writer where
  "idle_writer = \<lparr>w_sent = [], w_buf = [], w_err = None, w_size = 256, w_conn = None\<rparr>"

lemma w_ok_idle_writer [simp]: "w_ok idle_writer" and w_stream_idle_writer [simp]: "w_stream idle_writer = []"
  by (simp_all add: idle_writer_def w_ok_def w_stream_def)

theorem publish_roundtrip_witness:
  "\<exists>w' bs. WritePack (GetPubPack 1 0 70000 (Some ''a/b'') [1, 2]) idle_writer = Done (None, w')
    \<and> w_buf w' = [] \<and> w_sent w' = w_stream idle_writer @ bs
    \<and> (\<forall>rest e. ReadPack \<lparr>r_in = bs @ rest, r_end = e\<rparr>
         = (Some ((GetPubPack 1 0 (if 0 < (1 :: byte) then 70000 mod 65536 else 0) (Some ''a/b'') [1, 2])\<lparr>plen := int 9\<rparr>),
            None, \<lparr>r_in = rest, r_end = e\<rparr>))"
  by (rule publish_roundtrip) simp_all

text \<open>
  The acknowledgements made by the packet constructors (PUBACK, PUBREC, PUBREL, PUBCOMP,
  SUBACK, UNSUBACK) are read back with their kind, flags and message id modulo 65536.
\<close>

theorem ack_roundtrip:
  "travels (GetPubAckPack mid) ((GetPubAckPack (mid mod 65536))\<lparr>plen := 2\<rparr>)
   \<and> travels (GetPubRECPack mid) ((GetPubRECPack (mid mod 65536))\<lparr>plen := 2\<rparr>)
   \<and> travels (GetPubRELPack mid) ((GetPubRELPack (mid mod 65536))\<lparr>plen := 2\<rparr>)
   \<and> travels (GetPubCOMPPack mid) ((GetPubCOMPPack (mid mod 65536))\<lparr>plen := 2\<rparr>)
   \<and> travels (GetSubAckPack mid) ((GetSubAckPack (mid mod 65536))\<lparr>plen := 3\<rparr>)
   \<and> travels (GetUNSubAckPack mid) ((GetUNSubAckPack (mid mod 65536))\<lparr>plen := 2\<rparr>)"
  using acks_travel [of mid] suback_travels [of mid 0] by (simp add: GetSubAckPack_def new_pack_def)

text \<open>
  SUBSCRIBE and UNSUBSCRIBE packets whose topic list takes fewer than 128 bytes are read
  back with every topic in order (names of at least one byte, two for UNSUBSCRIBE, whose
  loop stops when three bytes are left).
\<close>

theorem subscribe_roundtrip:
  assumes "list_all (name_ok 1) ts" "topic_size 1 ts < 128"
    and "list_all (name_ok 2) us" "list_all (\<lambda>t. tqos t = 0) us" "topic_size 0 us < 128"
  shows "travels (SubPack mid ts) ((SubPack (mid mod 65536) ts)\<lparr>plen := int (topic_size 1 ts)\<rparr>)
    \<and> travels (UnsubPack mid us) ((UnsubPack (mid mod 65536) us)\<lparr>plen := int (topic_size 0 us)\<rparr>)"
  using subscribe_travels [OF assms(1,2)] unsubscribe_travels [OF assms(3-5)] by blast

theorem subscribe_roundtrip_witness:
  "travels (SubPack 5 [\<lparr>tname = Some ''a'', tqos = 2\<rparr>, \<lparr>tname = Some ''bc'', tqos = 1\<rparr>])
     ((SubPack (5 mod 65536) [\<lparr>tname = Some ''a'', tqos = 2\<rparr>, \<lparr>tname = Some ''bc'', tqos = 1\<rparr>])
        \<lparr>plen := int (topic_size 1 [\<lparr>tname = Some ''a'', tqos = 2\<rparr>, \<lparr>tname = Some ''bc'', tqos = 1\<rparr>])\<rparr>)
   \<and> travels (UnsubPack 5 [\<lparr>tname = Some ''bc'', tqos = 0\<rparr>])
     ((UnsubPack (5 mod 65536) [\<lparr>tname = Some ''bc'', tqos = 0\<rparr>])
        \<lparr>plen := int (topic_size 0 [\<lparr>tname = Some ''bc'', tqos = 0\<rparr>])\<rparr>)"
  by (rule subscribe_roundtrip) (simp_all add: name_ok_def topic_size_def)

text \<open>
  A sequence of packets that each travel, written one after the other, is read back as
  the same sequence by as many calls of \<^verbatim>\<open>ReadPack\<close>, whatever follows.
\<close>

theorem packet_sequence:
  assumes "list_all2 travels ps qs" "w_ok w"
  shows "\<exists>w' bs. put_all WritePack ps w = Done (None, w') \<and> w_ok w' \<and> w_stream w' = w_stream w @ bs
    \<and> (\<forall>rest e. get_all ReadPack (length ps) \<lparr>r_in = bs @ rest, r_end = e\<rparr>
         = (map Some qs, \<lparr>r_in = rest, r_end = e\<rparr>))"
  using assms by (rule mqtt_wire.put_get_all)

theorem packet_sequence_witness:
  "\<exists>w' bs. put_all WritePack [GetPubAckPack 7, GetPubCOMPPack 9] idle_writer = Done (None, w')
    \<and> w_ok w' \<and> w_stream w' = w_stream idle_writer @ bs
    \<and> (\<forall>rest e. get_all ReadPack (length [GetPubAckPack 7, GetPubCOMPPack 9]) \<lparr>r_in = bs @ rest, r_end = e\<rparr>
         = (map Some [(GetPubAckPack (7 mod 65536))\<lparr>plen := 2\<rparr>, (GetPubCOMPPack (9 mod 65536))\<lparr>plen := 2\<rparr>],
            \<lparr>r_in = rest, r_end = e\<rparr>))"
  by (rule packet_sequence) (simp_all only: list.rel_inject list.rel_intros acks_travel w_ok_idle_writer simp_thms)

lemma int_digits:
  "m = a + 128 * (b + 128 * c) \<Longrightarrow> int m = int a + int b * 128 + int c * 16384"
  by simp

text \<open>
  The remaining length loses its top digit: \<^verbatim>\<open>getRemainingLength\<close> emits four digits for
  lengths from 128 * 128 * 128, but the loop of \<^verbatim>\<open>ReadPack\<close> stops after three, so the reader
  takes the length modulo 128 * 128 * 128 and leaves the fourth digit in the stream as the
  first byte of the body; below that bound every length is read as written.
\<close>

theorem remaining_length_three_digits:
  assumes "n < 128 * 128 * 128 * 128"
  shows "\<exists>ds. getRemainingLength n = Done ds \<and> (\<forall>rest e.
    (if n < 128 * 128 * 128 then
       read_length \<lparr>r_in = ds @ rest, r_end = e\<rparr> = (int n, None, \<lparr>r_in = rest, r_end = e\<rparr>)
     else read_length \<lparr>r_in = ds @ rest, r_end = e\<rparr>
       = (int (n mod (128 * 128 * 128)), None, \<lparr>r_in = last ds # rest, r_end = e\<rparr>)))"
proof (cases "n < 128 * 128 * 128")
  case True
  then show ?thesis using read_length_digits by (metis (no_types, lifting))
next
  case False
  have "n mod (128 * 128 * 128) = n mod 128 + 128 * (n div 128 mod 128 + 128 * (n div 128 div 128 mod 128))"
    by (simp only: mod_mult2_eq mult.assoc) (simp add: algebra_simps mod_mult2_eq)
  then have "int (n mod (128 * 128 * 128)) = int (n mod 128) + int (n div 128 mod 128) * 128
      + int (n div 128 div 128 mod 128) * 16384"
    by (rule int_digits)
  then show ?thesis
    using False assms getRemainingLength_4 [of n]
    by (auto simp: read_length_def read_byte_Cons read_remaining_more
        read_remaining_stop [unfolded numeral_3_eq_3])
qed

theorem remaining_length_three_digits_witness:
  "\<exists>ds. getRemainingLength 2097152 = Done ds \<and> (\<forall>rest e.
    (if (2097152 :: nat) < 128 * 128 * 128 then
       read_length \<lparr>r_in = ds @ rest, r_end = e\<rparr> = (int 2097152, None, \<lparr>r_in = rest, r_end = e\<rparr>)
     else read_length \<lparr>r_in = ds @ rest, r_end = e\<rparr>
       = (int (2097152 mod (128 * 128 * 128)), None, \<lparr>r_in = last ds # rest, r_end = e\<rparr>)))"
  by (rule remaining_length_three_digits) simp

end
