(* ===== verification/Lodos_Client.thy ===== *)
theory Lodos_Client
  imports Lodos_Mqtt_Read Lodos_Mqtt_Write
begin

text \<open>
  A connection of the gate: the packet queue of \<^verbatim>\<open>gate/base/mqtt/pack_queue.go\<close> and the
  client loop of \<^verbatim>\<open>gate/base/mqtt/mqtt_client_server.go\<close>. Three goroutines share the queue's
  channels: the write loop, the read loop and \<^verbatim>\<open>Listen_loop\<close>; any other goroutine may send
  through \<^verbatim>\<open>WriteMsg\<close>. Each is a program counter in the state \<open>client\<close>, and \<open>step\<close> takes one
  labelled step of one of them. A channel is a list with a capacity; a send on a full channel
  waits, a send on a closed one panics, as in Go. Deadlines are recorded, not awaited: a
  missed one is the error that ends the reader's stream.
\<close>

section \<open>The queue\<close>

record mqtt_conf =
  WirteLoopChanNum :: nat
  ReadPackLoop :: nat
  ReadTimeout :: int
  WriteTimeout :: int

datatype delivery = NO_DELAY | DELAY | FLUSH

record pack_and_type =
  pt_pack :: "pack option"
  pt_typ :: delivery

type_synonym pack_and_err = "pack option \<times> go_err option"

record pack_queue =
  q_conf :: mqtt_conf
  writeError :: "go_err option"
  errorChan :: "go_err list"
  noticeFin :: "byte list"
  writeChan :: "pack_and_type list"
  readChan :: "pack_and_err list"
  q_r :: reader
  q_w :: writer
  alive :: int
  read_deadline :: "int option"
  write_deadline :: "int option"
  q_closed :: bool

text \<open>
  \<^verbatim>\<open>int(float32(alive)*1.5 + 1)\<close>: exact in 24 bits of mantissa for every keep-alive of a
  CONNECT (16 bits) and every timeout below 2 to the 22, and truncated towards zero.
\<close>

definition alive_seconds :: "mqtt_conf \<Rightarrow> int \<Rightarrow> int" where
  "alive_seconds cf a = (let a = (if a < 1 then ReadTimeout cf else a) in quot (3 * a + 2) 2)"

definition NewPackQueue :: "mqtt_conf \<Rightarrow> reader \<Rightarrow> writer \<Rightarrow> int \<Rightarrow> pack_queue" where
  "NewPackQueue cf r w a =
     \<lparr>q_conf = cf, writeError = None, errorChan = [], noticeFin = [], writeChan = [],
      readChan = [], q_r = r, q_w = w, alive = alive_seconds cf a,
      read_deadline = None, write_deadline = None, q_closed = False\<rparr>"

definition SetAlive :: "int \<Rightarrow> pack_queue \<Rightarrow> pack_queue" where
  "SetAlive a q = q\<lparr>alive := alive_seconds (q_conf q) a\<rparr>"

text \<open>
  The three sends. Each returns the sticky write error, or else the item it goes on to send;
  the send itself is a later step, for it can block.
\<close>

definition queue_send :: "pack_and_type \<Rightarrow> pack_queue \<Rightarrow> go_err + pack_and_type" where
  "queue_send pt q = (case writeError q of Some e \<Rightarrow> Inl e | None \<Rightarrow> Inr pt)"

definition queue_WritePack :: "pack \<Rightarrow> pack_queue \<Rightarrow> go_err + pack_and_type" where
  "queue_WritePack p q = queue_send \<lparr>pt_pack = Some p, pt_typ = NO_DELAY\<rparr> q"

definition queue_WriteDelayPack :: "pack \<Rightarrow> pack_queue \<Rightarrow> go_err + pack_and_type" where
  "queue_WriteDelayPack p q = queue_send \<lparr>pt_pack = Some p, pt_typ = DELAY\<rparr> q"

definition queue_Flush :: "pack_queue \<Rightarrow> go_err + pack_and_type" where
  "queue_Flush q = queue_send \<lparr>pt_pack = None, pt_typ = FLUSH\<rparr> q"

text \<open>One turn of \<^verbatim>\<open>writeLoop\<close> on the item it has received.\<close>

definition write_one :: "pack_and_type \<Rightarrow> pack_queue \<Rightarrow> (go_err option \<times> pack_queue) outcome" where
  "write_one pt q =
     (let q = (if WriteTimeout (q_conf q) > 0
               then q\<lparr>write_deadline := Some (WriteTimeout (q_conf q))\<rparr> else q);
          done = (\<lambda>(e, w). (e, q\<lparr>q_w := w\<rparr>))
      in case pt_typ pt of
           FLUSH \<Rightarrow> Done (done (bw_flush (q_w q)))
         | NO_DELAY \<Rightarrow> (case pt_pack pt of None \<Rightarrow> nil_deref
             | Some p \<Rightarrow> map_outcome_val done (WritePack p (q_w q)))
         | DELAY \<Rightarrow> (case pt_pack pt of None \<Rightarrow> nil_deref
             | Some p \<Rightarrow> map_outcome_val done (DelayWritePack p (q_w q))))"

text \<open>One \<^verbatim>\<open>ReadPack\<close> of the read loop, under the keep-alive deadline.\<close>

definition read_one :: "pack_queue \<Rightarrow> pack_and_err \<times> pack_queue" where
  "read_one q =
     (let q = (if alive q > 0 then q\<lparr>read_deadline := Some (alive q)\<rparr> else q) in
      case ReadPack (q_r q) of (p, e, r) \<Rightarrow> ((p, e), q\<lparr>q_r := r\<rparr>))"

definition queue_Close :: "pack_queue \<Rightarrow> pack_queue" where
  "queue_Close q = q\<lparr>q_closed := True\<rparr>"

section \<open>The client\<close>

text \<open>
  What \<^verbatim>\<open>waitPack\<close> does with a packet, one call after the other: answer through the queue, hand
  the packet to the receiver, set the keep-alive, set the error it returns, or panic.
\<close>

datatype action =
    Reply pack
  | OnRecover pack
  | KeepAlive int
  | Fail go_err
  | Crash string

definition wait_script :: "pack_and_err \<Rightarrow> action list" where
  "wait_script pe =
     (case pe of
        (_, Some e) \<Rightarrow> [Fail e]
      | (None, None) \<Rightarrow> [Crash ''nil pointer dereference'']
      | (Some p, None) \<Rightarrow>
         let t = msg_type p in
         if t = CONNECT then
           (case variable p of
              VConnect info \<Rightarrow> [KeepAlive (keep_alive_timer info), Reply (GetConnAckPack 0)]
            | _ \<Rightarrow> [Fail (AppErr ''It's not a mqtt connection package.'')])
         else if t = PUBLISH then
           (case variable p of
              VPublish pub \<Rightarrow>
                (if qos_level p = 1 then [Reply (GetPubAckPack (pub_mid pub))]
                 else if qos_level p = 2 then [Reply (GetPubRECPack (pub_mid pub))] else [])
                @ [OnRecover p]
            | _ \<Rightarrow> [Crash ''interface conversion''])
         else if t = PUBREC then
           (case variable p of VPuback mid \<Rightarrow> [Reply (GetPubRELPack mid)]
            | _ \<Rightarrow> [Crash ''interface conversion''])
         else if t = PUBREL then
           (case variable p of VPuback mid \<Rightarrow> [Reply (GetPubCOMPPack mid)]
            | _ \<Rightarrow> [Crash ''interface conversion''])
         else if t = SUBSCRIBE then
           (case variable p of
              VSubscribe sub \<Rightarrow>
                concat (map (\<lambda>tp. case tname tp of
                    None \<Rightarrow> [Crash ''nil pointer dereference'']
                  | Some _ \<Rightarrow> if tqos tp = 2 then [Reply (GetSubAckPack (sub_mid sub))] else [])
                  (sub_topics sub))
                @ [OnRecover p]
            | _ \<Rightarrow> [Crash ''interface conversion''])
         else if t = UNSUBSCRIBE then
           (case variable p of
              VUNSubscribe sub \<Rightarrow> [Reply (GetUNSubAckPack (sub_mid sub)), OnRecover p]
            | _ \<Rightarrow> [Crash ''interface conversion''])
         else if t = PINGREQ then [Reply (GetPingResp 1 (dup_flag p)), OnRecover p]
         else [])"

text \<open>
  Program counters. The write loop sets the sticky error, then sends it, then notices the
  reader. The listener is between packets, in a script with the error so far, blocked in a
  send of its script, stopped, or stopped by a panic its deferred function recovers.
\<close>

datatype write_pc = WRunning | WTell go_err | WNotice | WDone

datatype read_pc = RReading | RHolding pack_and_err | RWaiting | RDone

datatype listen_pc =
    LIdle
  | LScript "go_err option" "action list"
  | LSending pack_and_type "action list"
  | LDone
  | LPanicked

text \<open>
  \<open>senders\<close> are the sends of other goroutines that have passed the error check and wait for
  room; \<open>sender_panics\<close> counts those that panicked. The last five fields are history: what the
  channels accepted and gave, what the reader read and \<^verbatim>\<open>OnRecover\<close> was called with.
  \<open>crashed\<close> is the end of the process: the write loop does not recover a panic.
\<close>

record client =
  queue :: pack_queue
  w_pc :: write_pc
  r_pc :: read_pc
  l_pc :: listen_pc
  isStop :: bool
  isSendClose :: bool
  curr_id :: int
  senders :: "pack_and_type list"
  sender_panics :: nat
  crashed :: bool
  h_accepted :: "pack_and_type list"
  h_written :: "pack_and_type list"
  h_read :: "pack_and_err list"
  h_taken :: "pack_and_err list"
  h_recovered :: "pack list"

definition NewClient :: "mqtt_conf \<Rightarrow> reader \<Rightarrow> writer \<Rightarrow> int \<Rightarrow> client" where
  "NewClient cf r w a =
     \<lparr>queue = NewPackQueue cf r w a, w_pc = WRunning, r_pc = RReading, l_pc = LIdle,
      isStop = False, isSendClose = False, curr_id = 0, senders = [], sender_panics = 0,
      crashed = False, h_accepted = [], h_written = [], h_read = [], h_taken = [],
      h_recovered = []\<rparr>"

definition getOnlineMsgId :: "client \<Rightarrow> int \<times> client" where
  "getOnlineMsgId c =
     (if curr_id c = 65535 then (1, c\<lparr>curr_id := 1\<rparr>)
      else (curr_id c + 1, c\<lparr>curr_id := curr_id c + 1\<rparr>))"

definition pushMsg :: "pack \<Rightarrow> client \<Rightarrow> go_err option \<times> client" where
  "pushMsg p c =
     (case queue_WritePack p (queue c) of Inl e \<Rightarrow> (Some e, c)
      | Inr pt \<Rightarrow> (None, c\<lparr>senders := senders c @ [pt]\<rparr>))"

text \<open>\<^verbatim>\<open>WriteMsg\<close> up to its blocking send.\<close>

definition WriteMsg :: "string \<Rightarrow> bytes \<Rightarrow> client \<Rightarrow> go_err option \<times> client" where
  "WriteMsg topic body c =
     (if isStop c then (Some (AppErr ''connection is closed''), c)
      else (let (mid, c) = getOnlineMsgId c in pushMsg (GetPubPack 0 0 mid (Some topic) body) c))"

definition waitQuit :: "client \<Rightarrow> client" where
  "waitQuit c = c\<lparr>isSendClose := True\<rparr>"

text \<open>The end of \<^verbatim>\<open>Listen_loop\<close>.\<close>

definition listen_end :: "client \<Rightarrow> client" where
  "listen_end c = c\<lparr>l_pc := LDone, isStop := True\<rparr>"

section \<open>Steps\<close>

definition has_room :: "pack_queue \<Rightarrow> bool" where
  "has_room q \<longleftrightarrow> length (writeChan q) < WirteLoopChanNum (q_conf q)"

definition accept :: "pack_and_type \<Rightarrow> client \<Rightarrow> client" where
  "accept pt c = c\<lparr>queue := (queue c)\<lparr>writeChan := writeChan (queue c) @ [pt]\<rparr>,
     h_accepted := h_accepted c @ [pt]\<rparr>"

definition write_step :: "client \<Rightarrow> client option" where
  "write_step c =
     (let q = queue c in
      case w_pc c of
        WRunning \<Rightarrow>
          (case writeChan q of [] \<Rightarrow> (if q_closed q then Some (c\<lparr>w_pc := WDone\<rparr>) else None)
           | pt # rest \<Rightarrow>
              (case write_one pt (q\<lparr>writeChan := rest\<rparr>) of
                 Panic s \<Rightarrow> Some (c\<lparr>crashed := True\<rparr>)
               | Done (None, q) \<Rightarrow> Some (c\<lparr>queue := q, h_written := h_written c @ [pt]\<rparr>)
               | Done (Some e, q) \<Rightarrow>
                   Some (c\<lparr>queue := q\<lparr>writeError := Some e\<rparr>, w_pc := WTell e,
                     h_written := h_written c @ [pt]\<rparr>)))
      | WTell e \<Rightarrow>
          (if q_closed q then Some (c\<lparr>crashed := True\<rparr>)
           else if length (errorChan q) < 1
           then Some (c\<lparr>queue := q\<lparr>errorChan := errorChan q @ [e]\<rparr>, w_pc := WNotice\<rparr>) else None)
      | WNotice \<Rightarrow>
          (if q_closed q then Some (c\<lparr>crashed := True\<rparr>)
           else if length (noticeFin q) < 2
           then Some (c\<lparr>queue := q\<lparr>noticeFin := noticeFin q @ [0]\<rparr>, w_pc := WDone\<rparr>) else None)
      | WDone \<Rightarrow> None)"

text \<open>
  The read loop reads only while \<^verbatim>\<open>is_continue\<close>; with a packet in hand it can hand it over
  or be noticed; after an error it only waits for the notice.
\<close>

definition read_step :: "client \<Rightarrow> client option" where
  "read_step c =
     (case r_pc c of
        RReading \<Rightarrow> (case read_one (queue c) of (pe, q) \<Rightarrow>
           Some (c\<lparr>queue := q, r_pc := RHolding pe, h_read := h_read c @ [pe]\<rparr>))
      | RHolding pe \<Rightarrow>
          (if length (readChan (queue c)) < ReadPackLoop (q_conf (queue c))
           then Some (c\<lparr>queue := (queue c)\<lparr>readChan := readChan (queue c) @ [pe]\<rparr>,
             r_pc := (if snd pe = None then RReading else RWaiting)\<rparr>)
           else None)
      | _ \<Rightarrow> None)"

definition finish_step :: "client \<Rightarrow> client option" where
  "finish_step c =
     (let fin = (case noticeFin (queue c) of [] \<Rightarrow> None
        | b # bs \<Rightarrow> Some (c\<lparr>queue := queue_Close ((queue c)\<lparr>noticeFin := bs\<rparr>), r_pc := RDone\<rparr>))
      in case r_pc c of RHolding pe \<Rightarrow> fin | RWaiting \<Rightarrow> fin | _ \<Rightarrow> None)"

definition act :: "action \<Rightarrow> go_err option \<Rightarrow> action list \<Rightarrow> client \<Rightarrow> client" where
  "act a err rest c =
     (case a of
        Reply p \<Rightarrow>
          (case queue_WritePack p (queue c) of Inl e \<Rightarrow> c\<lparr>l_pc := LScript (Some e) rest\<rparr>
           | Inr pt \<Rightarrow> c\<lparr>l_pc := LSending pt rest\<rparr>)
      | OnRecover p \<Rightarrow> c\<lparr>l_pc := LScript err rest, h_recovered := h_recovered c @ [p]\<rparr>
      | KeepAlive k \<Rightarrow> c\<lparr>l_pc := LScript err rest, queue := SetAlive k (queue c)\<rparr>
      | Fail e \<Rightarrow> c\<lparr>l_pc := LScript (Some e) rest\<rparr>
      | Crash s \<Rightarrow> c\<lparr>l_pc := LPanicked\<rparr>)"

text \<open>\<^verbatim>\<open>waitPack\<close> as one call, when no send blocks: the error it returns, or a panic.\<close>

fun run_actions ::
  "action list \<Rightarrow> go_err option \<Rightarrow> client \<Rightarrow> (go_err option \<times> client) outcome" where
  "run_actions [] err c = Done (err, c)"
| "run_actions (Reply p # as) err c =
     (case queue_WritePack p (queue c) of Inl e \<Rightarrow> run_actions as (Some e) c
      | Inr pt \<Rightarrow> run_actions as None (accept pt c))"
| "run_actions (OnRecover p # as) err c =
     run_actions as err (c\<lparr>h_recovered := h_recovered c @ [p]\<rparr>)"
| "run_actions (KeepAlive k # as) err c = run_actions as err (c\<lparr>queue := SetAlive k (queue c)\<rparr>)"
| "run_actions (Fail e # as) err c = run_actions as (Some e) c"
| "run_actions (Crash s # as) err c = Panic s"

definition waitPack :: "pack_and_err \<Rightarrow> client \<Rightarrow> (go_err option \<times> client) outcome" where
  "waitPack pe c = run_actions (wait_script pe) None c"

definition listen_step :: "client \<Rightarrow> client option" where
  "listen_step c =
     (case l_pc c of
        LIdle \<Rightarrow>
          (case readChan (queue c) of
             [] \<Rightarrow> (if q_closed (queue c) then Some (listen_end c) else None)
           | pe # rest \<Rightarrow>
               Some (c\<lparr>queue := (queue c)\<lparr>readChan := rest\<rparr>, h_taken := h_taken c @ [pe],
                 l_pc := LScript None (wait_script pe)\<rparr>))
      | LScript err [] \<Rightarrow>
          Some (case err of None \<Rightarrow> c\<lparr>l_pc := LIdle\<rparr> | Some e \<Rightarrow> listen_end c)
      | LScript err (a # rest) \<Rightarrow> Some (act a err rest c)
      | LSending pt rest \<Rightarrow>
          (if q_closed (queue c) then Some (c\<lparr>l_pc := LPanicked\<rparr>)
           else if has_room (queue c) then Some (accept pt (c\<lparr>l_pc := LScript None rest\<rparr>))
           else None)
      | _ \<Rightarrow> None)"

text \<open>A waiting send of another goroutine, by its position.\<close>

definition sender_step :: "nat \<Rightarrow> client \<Rightarrow> client option" where
  "sender_step i c =
     (if i < length (senders c) then
        (let pt = senders c ! i; c' = c\<lparr>senders := take i (senders c) @ drop (Suc i) (senders c)\<rparr> in
         if q_closed (queue c) then Some (c'\<lparr>sender_panics := sender_panics c + 1\<rparr>)
         else if has_room (queue c) then Some (accept pt c') else None)
      else None)"

datatype label = StepWrite | StepRead | StepFinish | StepListen | StepSender nat
  | CallWriteMsg string bytes | CallSend pack_and_type

definition step :: "label \<Rightarrow> client \<Rightarrow> client option" where
  "step l c =
     (if crashed c then None
      else case l of
        StepWrite \<Rightarrow> write_step c
      | StepRead \<Rightarrow> read_step c
      | StepFinish \<Rightarrow> finish_step c
      | StepListen \<Rightarrow> listen_step c
      | StepSender i \<Rightarrow> sender_step i c
      | CallWriteMsg topic body \<Rightarrow> Some (snd (WriteMsg topic body c))
      | CallSend pt \<Rightarrow> (case queue_send pt (queue c) of Inl e \<Rightarrow> Some c
          | Inr pt \<Rightarrow> Some (c\<lparr>senders := senders c @ [pt]\<rparr>)))"

inductive reachable :: "client \<Rightarrow> client \<Rightarrow> bool" for c0 where
  start: "reachable c0 c0"
| more: "reachable c0 c \<Longrightarrow> step l c = Some c' \<Longrightarrow> reachable c0 c'"

inductive_cases reachable_moreE: "reachable c0 c"

fun run :: "label list \<Rightarrow> client \<Rightarrow> client option" where
  "run [] c = Some c"
| "run (l # ls) c = (case step l c of None \<Rightarrow> None | Some c \<Rightarrow> run ls c)"

lemma run_reachable: "run ls c = Some c' \<Longrightarrow> reachable c0 c \<Longrightarrow> reachable c0 c'"
  by (induction ls arbitrary: c) (auto split: option.splits intro: reachable.more)

section \<open>The buffer of pack_queue.go\<close>

record buffer =
  b_index :: int
  b_data :: bytes

definition newBuffer :: "bytes \<Rightarrow> buffer" where
  "newBuffer d = \<lparr>b_index = 0, b_data = d\<rparr>"

definition buffer_readString :: "int \<Rightarrow> buffer \<Rightarrow> ((go_err + string) \<times> buffer) outcome" where
  "buffer_readString n b =
     (if n + b_index b > int (length (b_data b)) then Done (Inl (OutOfRange n), b)
      else if n < 0 \<or> b_index b < 0 then Panic ''slice bounds out of range''
      else Done (Inr (string_of_bytes (take (nat n) (drop (nat (b_index b)) (b_data b)))),
                 b\<lparr>b_index := b_index b + n\<rparr>))"

definition buffer_readByte :: "buffer \<Rightarrow> ((go_err + byte) \<times> buffer) outcome" where
  "buffer_readByte b =
     (if 1 + b_index b > int (length (b_data b)) then Done (Inl (AppErr ''Out of range error''), b)
      else if b_index b < 0 then Panic ''index out of range''
      else Done (Inr (b_data b ! nat (b_index b)), b\<lparr>b_index := b_index b + 1\<rparr>))"

end
