(* ===== verification/Lodos_Client_Props.thy ===== *)
theory Lodos_Client_Props
  imports Lodos_Client Lodos_Mqtt_Codec "HOL-Library.Sublist"
begin

text \<open>
  The connection of \<^verbatim>\<open>Lodos_Client\<close>, proved: the channels' discipline, the order of packets
  through the queue in both directions, the answers of \<^verbatim>\<open>waitPack\<close>, the message ids, and how
  a connection ends.
\<close>

section \<open>Frames\<close>

text \<open>What one turn of the write loop and of the read loop leave alone.\<close>

lemma write_one_frame:
  assumes "write_one pt q = Done (e, q')"
  shows "\<exists>w d. q' = q\<lparr>q_w := w, write_deadline := d\<rparr>"
  using assms
  by (cases q; cases "pt_typ pt"; cases "pt_pack pt")
    (auto simp: write_one_def Let_def nil_deref_def split: prod.splits if_splits outcome.splits
      elim!: map_outcome_val.elims)

lemma read_one_frame:
  assumes "read_one q = (pe, q')"
  shows "\<exists>r d. q' = q\<lparr>q_r := r, read_deadline := d\<rparr> \<and> ReadPack (q_r q) = (fst pe, snd pe, r)"
  using assms by (cases q) (auto simp: read_one_def Let_def split: prod.splits if_splits)

lemmas call_defs = WriteMsg_def pushMsg_def getOnlineMsgId_def queue_WritePack_def queue_send_def Let_def

text \<open>The ways each goroutine can step, as elimination rules the invariants' proofs share.\<close>

lemma write_stepE:
  assumes "write_step c = Some c'"
  obtains (closed) "w_pc c = WRunning" "writeChan (queue c) = []" "q_closed (queue c)"
      "c' = c\<lparr>w_pc := WDone\<rparr>"
  | (crash) "c' = c\<lparr>crashed := True\<rparr>"
  | (sent) pt rest w d where "w_pc c = WRunning" "writeChan (queue c) = pt # rest"
      "write_one pt (queue c\<lparr>writeChan := rest\<rparr>)
        = Done (None, queue c\<lparr>writeChan := rest, q_w := w, write_deadline := d\<rparr>)"
      "c' = c\<lparr>queue := queue c\<lparr>writeChan := rest, q_w := w, write_deadline := d\<rparr>,
        h_written := h_written c @ [pt]\<rparr>"
  | (failed) pt rest w d e where "w_pc c = WRunning" "writeChan (queue c) = pt # rest"
      "write_one pt (queue c\<lparr>writeChan := rest\<rparr>)
        = Done (Some e, queue c\<lparr>writeChan := rest, q_w := w, write_deadline := d\<rparr>)"
      "c' = c\<lparr>queue := queue c\<lparr>writeChan := rest, q_w := w, write_deadline := d,
        writeError := Some e\<rparr>, w_pc := WTell e, h_written := h_written c @ [pt]\<rparr>"
  | (tell) e where "w_pc c = WTell e" "\<not> q_closed (queue c)" "errorChan (queue c) = []"
      "c' = c\<lparr>queue := queue c\<lparr>errorChan := [e]\<rparr>, w_pc := WNotice\<rparr>"
  | (notice) "w_pc c = WNotice" "\<not> q_closed (queue c)" "length (noticeFin (queue c)) < 2"
      "c' = c\<lparr>queue := queue c\<lparr>noticeFin := noticeFin (queue c) @ [0]\<rparr>, w_pc := WDone\<rparr>"
proof (cases "w_pc c")
  case WRunning
  show ?thesis
  proof (cases "writeChan (queue c)")
    case Nil
    with assms WRunning show ?thesis
      by (intro closed) (auto simp: write_step_def Let_def split: if_splits)
  next
    case (Cons pt rest)
    show ?thesis
    proof (cases "write_one pt (queue c\<lparr>writeChan := rest\<rparr>)")
      case (Panic s)
      with assms WRunning Cons show ?thesis by (intro crash) (simp add: write_step_def Let_def)
    next
      case (Done x)
      obtain e q where x: "x = (e, q)" by (cases x)
      from write_one_frame [OF Done [unfolded x]] obtain w d where
        q: "q = queue c\<lparr>writeChan := rest, q_w := w, write_deadline := d\<rparr>" by auto
      note run = Done [unfolded x q]
      show ?thesis
      proof (cases e)
        case None
        show ?thesis
          by (rule sent [OF WRunning Cons run [unfolded None]])
            (use assms WRunning Cons run None in \<open>simp add: write_step_def Let_def\<close>)
      next
        case (Some err)
        show ?thesis
          by (rule failed [OF WRunning Cons run [unfolded Some]])
            (use assms WRunning Cons run Some in \<open>simp add: write_step_def Let_def\<close>)
      qed
    qed
  qed
next
  case (WTell e)
  with assms have "q_closed (queue c) \<or> errorChan (queue c) = []"
    by (auto simp: write_step_def Let_def split: if_splits)
  then show ?thesis
  proof (cases "q_closed (queue c)")
    case True
    show ?thesis by (rule crash) (use assms WTell True in \<open>simp add: write_step_def\<close>)
  next
    case False
    with \<open>_ \<or> _\<close> have "errorChan (queue c) = []" by simp
    then show ?thesis
      by (rule tell [OF WTell False]) (use assms WTell False \<open>errorChan _ = _\<close> in \<open>simp add: write_step_def\<close>)
  qed
next
  case WNotice
  show ?thesis
  proof (cases "q_closed (queue c)")
    case True
    show ?thesis by (rule crash) (use assms WNotice True in \<open>simp add: write_step_def\<close>)
  next
    case False
    show ?thesis
      by (rule notice [OF WNotice False])
        (use assms WNotice False in \<open>simp_all add: write_step_def Let_def split: if_splits\<close>)
  qed
next
  case WDone
  with assms show ?thesis by (simp add: write_step_def Let_def)
qed

lemma read_stepE:
  assumes "read_step c = Some c'"
  obtains (read) pe r d where "r_pc c = RReading" "ReadPack (q_r (queue c)) = (fst pe, snd pe, r)"
      "c' = c\<lparr>queue := queue c\<lparr>q_r := r, read_deadline := d\<rparr>, r_pc := RHolding pe,
        h_read := h_read c @ [pe]\<rparr>"
  | (hand) pe where "r_pc c = RHolding pe"
      "length (readChan (queue c)) < ReadPackLoop (q_conf (queue c))"
      "c' = c\<lparr>queue := queue c\<lparr>readChan := readChan (queue c) @ [pe]\<rparr>,
        r_pc := (if snd pe = None then RReading else RWaiting)\<rparr>"
proof (cases "r_pc c")
  case RReading
  obtain pe q where one: "read_one (queue c) = (pe, q)" by (cases "read_one (queue c)")
  from read_one_frame [OF one] assms RReading one show ?thesis
    by (auto simp: read_step_def intro: read)
qed (use assms hand in \<open>auto simp: read_step_def split: if_splits\<close>)

lemma finish_stepE:
  assumes "finish_step c = Some c'"
  obtains b bs where "noticeFin (queue c) = b # bs" "r_pc c = RWaiting \<or> (\<exists>pe. r_pc c = RHolding pe)"
    "c' = c\<lparr>queue := queue c\<lparr>noticeFin := bs, q_closed := True\<rparr>, r_pc := RDone\<rparr>"
  using assms
  by (cases "r_pc c"; cases "noticeFin (queue c)") (auto simp: finish_step_def queue_Close_def)

lemma actE:
  obtains (refused) p e where "a = Reply p" "writeError (queue c) = Some e"
      "act a err rest c = c\<lparr>l_pc := LScript (Some e) rest\<rparr>"
  | (sending) p where "a = Reply p" "writeError (queue c) = None"
      "act a err rest c = c\<lparr>l_pc := LSending \<lparr>pt_pack = Some p, pt_typ = NO_DELAY\<rparr> rest\<rparr>"
  | (recovered) p where "a = OnRecover p"
      "act a err rest c = c\<lparr>l_pc := LScript err rest, h_recovered := h_recovered c @ [p]\<rparr>"
  | (alive) k where "a = KeepAlive k"
      "act a err rest c = c\<lparr>l_pc := LScript err rest, queue := SetAlive k (queue c)\<rparr>"
  | (fail) e where "a = Fail e" "act a err rest c = c\<lparr>l_pc := LScript (Some e) rest\<rparr>"
  | (crash) s where "a = Crash s" "act a err rest c = c\<lparr>l_pc := LPanicked\<rparr>"
proof (cases a)
  case (Reply p)
  then show ?thesis
    using refused sending
    by (cases "writeError (queue c)") (auto simp: act_def queue_WritePack_def queue_send_def)
qed (use recovered alive fail crash in \<open>auto simp: act_def\<close>)

lemma listen_stepE:
  assumes "listen_step c = Some c'"
  obtains (eof) "l_pc c = LIdle" "readChan (queue c) = []" "q_closed (queue c)" "c' = listen_end c"
  | (take) pe rest where "l_pc c = LIdle" "readChan (queue c) = pe # rest"
      "c' = c\<lparr>queue := queue c\<lparr>readChan := rest\<rparr>, h_taken := h_taken c @ [pe],
        l_pc := LScript None (wait_script pe)\<rparr>"
  | (next_one) "l_pc c = LScript None []" "c' = c\<lparr>l_pc := LIdle\<rparr>"
  | (stop) e where "l_pc c = LScript (Some e) []" "c' = listen_end c"
  | (action) err a rest where "l_pc c = LScript err (a # rest)" "c' = act a err rest c"
  | (panic) pt rest where "l_pc c = LSending pt rest" "q_closed (queue c)"
      "c' = c\<lparr>l_pc := LPanicked\<rparr>"
  | (send) pt rest where "l_pc c = LSending pt rest" "\<not> q_closed (queue c)" "has_room (queue c)"
      "c' = accept pt (c\<lparr>l_pc := LScript None rest\<rparr>)"
proof (cases "l_pc c")
  case LIdle
  with assms eof take show ?thesis
    by (cases "readChan (queue c)") (auto simp: listen_step_def split: if_splits)
next
  case (LScript err as)
  with assms next_one stop action show ?thesis
    by (cases as; cases err) (auto simp: listen_step_def)
qed (use assms panic send in \<open>auto simp: listen_step_def split: if_splits\<close>)

lemma sender_stepE:
  assumes "sender_step i c = Some c'"
  obtains (panic) "q_closed (queue c)"
      "c' = c\<lparr>senders := take i (senders c) @ drop (Suc i) (senders c),
        sender_panics := sender_panics c + 1\<rparr>"
  | (send) "\<not> q_closed (queue c)" "has_room (queue c)"
      "c' = accept (senders c ! i) (c\<lparr>senders := take i (senders c) @ drop (Suc i) (senders c)\<rparr>)"
  using assms by (auto simp: sender_step_def Let_def split: if_splits)

lemma WriteMsg_cases:
  obtains (stopped) "isStop c" "WriteMsg t b c = (Some (AppErr ''connection is closed''), c)"
  | (refused) e k where "writeError (queue c) = Some e" "WriteMsg t b c = (Some e, c\<lparr>curr_id := k\<rparr>)"
  | (begun) k pt where "writeError (queue c) = None"
      "WriteMsg t b c = (None, c\<lparr>curr_id := k, senders := senders c @ [pt]\<rparr>)"
proof -
  let ?k = "if curr_id c = 65535 then 1 else curr_id c + 1"
  let ?pt = "\<lparr>pt_pack = Some (GetPubPack 0 0 ?k (Some t) b), pt_typ = NO_DELAY\<rparr>"
  show ?thesis
  proof (cases "isStop c")
    case True
    then show ?thesis by (intro stopped) (simp_all add: call_defs)
  next
    case False
    then show ?thesis
      by (cases "writeError (queue c)"; intro begun [where k = ?k and pt = ?pt] refused [where k = ?k])
        (simp_all add: call_defs)
  qed
qed

lemma stepE:
  assumes "step l c = Some c'"
  obtains "write_step c = Some c'" | "read_step c = Some c'" | "finish_step c = Some c'"
  | "listen_step c = Some c'" | i where "sender_step i c = Some c'"
  | (call) t b where "c' = snd (WriteMsg t b c)" | (same) "c' = c"
  | (sending) pt where "writeError (queue c) = None" "c' = c\<lparr>senders := senders c @ [pt]\<rparr>"
proof (cases l)
  case (CallSend pt)
  show ?thesis
  proof (cases "writeError (queue c)")
    case None
    show ?thesis
      by (rule sending [OF None, of pt])
        (use assms CallSend None in \<open>simp add: step_def queue_send_def split: if_splits\<close>)
  next
    case (Some e)
    show ?thesis
      by (rule same) (use assms CallSend Some in \<open>simp add: step_def queue_send_def split: if_splits\<close>)
  qed
next
  case (CallWriteMsg t b)
  show ?thesis
    by (rule call [of t b]) (use assms CallWriteMsg in \<open>simp add: step_def split: if_splits\<close>)
next
  case StepWrite
  show ?thesis by (rule that(1)) (use assms StepWrite in \<open>simp add: step_def split: if_splits\<close>)
next
  case StepRead
  show ?thesis by (rule that(2)) (use assms StepRead in \<open>simp add: step_def split: if_splits\<close>)
next
  case StepFinish
  show ?thesis by (rule that(3)) (use assms StepFinish in \<open>simp add: step_def split: if_splits\<close>)
next
  case StepListen
  show ?thesis by (rule that(4)) (use assms StepListen in \<open>simp add: step_def split: if_splits\<close>)
next
  case (StepSender i)
  show ?thesis by (rule that(5) [of i]) (use assms StepSender in \<open>simp add: step_def split: if_splits\<close>)
qed

text \<open>An invariant of every step is one of every reachable state.\<close>

lemma reachable_invariant:
  assumes "reachable c0 c" "P c0" "\<And>c l c'. P c \<Longrightarrow> step l c = Some c' \<Longrightarrow> P c'"
  shows "P c"
  using assms(1) by induction (auto intro: assms(2,3))

section \<open>The channels\<close>

definition channels_ok :: "client \<Rightarrow> bool" where
  "channels_ok c \<longleftrightarrow>
     (writeError (queue c) = None \<longleftrightarrow> w_pc c = WRunning)
   \<and> (noticeFin (queue c) \<noteq> [] \<or> q_closed (queue c) \<longleftrightarrow> w_pc c = WDone)
   \<and> (q_closed (queue c) \<longleftrightarrow> r_pc c = RDone)
   \<and> (w_pc c = WRunning \<or> (\<exists>e. w_pc c = WTell e) \<longrightarrow> errorChan (queue c) = [])
   \<and> length (errorChan (queue c)) \<le> 1 \<and> length (noticeFin (queue c)) \<le> 1
   \<and> length (writeChan (queue c)) \<le> WirteLoopChanNum (q_conf (queue c))
   \<and> length (readChan (queue c)) \<le> ReadPackLoop (q_conf (queue c))"

lemma channels_ok_write [inv_intros]: "write_step c = Some c' \<Longrightarrow> channels_ok c \<Longrightarrow> channels_ok c'"
  by (erule write_stepE) (auto simp: channels_ok_def)

lemma channels_ok_read [inv_intros]: "read_step c = Some c' \<Longrightarrow> channels_ok c \<Longrightarrow> channels_ok c'"
  by (erule read_stepE) (auto simp: channels_ok_def)

lemma channels_ok_finish [inv_intros]: "finish_step c = Some c' \<Longrightarrow> channels_ok c \<Longrightarrow> channels_ok c'"
  by (erule finish_stepE) (auto simp: channels_ok_def)

lemma channels_ok_accept:
  "has_room (queue c) \<Longrightarrow> channels_ok c \<Longrightarrow> channels_ok (accept pt c)"
  by (auto simp: channels_ok_def accept_def has_room_def)

lemma channels_ok_act: "channels_ok c \<Longrightarrow> channels_ok (act a err rest c)"
  by (rule actE [of a c err rest]) (auto simp: channels_ok_def SetAlive_def)

lemma channels_ok_l_pc: "channels_ok c \<Longrightarrow> channels_ok (c\<lparr>l_pc := x\<rparr>)"
  by (auto simp: channels_ok_def)

lemma channels_ok_listen_end: "channels_ok c \<Longrightarrow> channels_ok (listen_end c)"
  by (auto simp: channels_ok_def listen_end_def)

lemma channels_ok_take:
  "readChan (queue c) = pe # rest \<Longrightarrow> channels_ok c
    \<Longrightarrow> channels_ok (c\<lparr>queue := queue c\<lparr>readChan := rest\<rparr>, h_taken := h, l_pc := l\<rparr>)"
  by (auto simp: channels_ok_def)

lemma channels_ok_listen [inv_intros]: "listen_step c = Some c' \<Longrightarrow> channels_ok c \<Longrightarrow> channels_ok c'"
  by (erule listen_stepE)
    (simp_all add: channels_ok_act channels_ok_accept channels_ok_l_pc channels_ok_listen_end
      channels_ok_take)

lemma channels_ok_sender [inv_intros]: "sender_step i c = Some c' \<Longrightarrow> channels_ok c \<Longrightarrow> channels_ok c'"
  by (erule sender_stepE) (auto simp: channels_ok_def accept_def has_room_def)

lemma channels_ok_WriteMsg: "channels_ok c \<Longrightarrow> channels_ok (snd (WriteMsg t b c))"
  by (rule WriteMsg_cases [of c t b]) (auto simp: channels_ok_def)

lemma channels_ok_step: "step l c = Some c' \<Longrightarrow> channels_ok c \<Longrightarrow> channels_ok c'"
  by (erule stepE) (simp_all add: inv_intros channels_ok_WriteMsg, auto simp: channels_ok_def)

lemma channels_ok_reachable:
  assumes "reachable (NewClient cf r w a) c"
  shows "channels_ok c"
  using assms
proof (rule reachable_invariant)
  show "channels_ok (NewClient cf r w a)"
    by (simp add: channels_ok_def NewClient_def NewPackQueue_def)
qed (rule channels_ok_step)

section \<open>Packets to the peer\<close>

definition now :: "pack \<Rightarrow> pack_and_type" where
  "now p = \<lparr>pt_pack = Some p, pt_typ = NO_DELAY\<rparr>"

lemma now_inject [simp]: "now p = now q \<longleftrightarrow> p = q"
  by (simp add: now_def)

lemma write_one_now:
  assumes "write_one (now p) q = Done (e, q')"
  shows "WritePack p (q_w q) = Done (e, q_w q')"
  using assms
  by (cases "WritePack p (q_w q)")
    (auto simp: write_one_def now_def Let_def split: if_splits prod.splits)

definition fifo_ok :: "client \<Rightarrow> bool" where
  "fifo_ok c \<longleftrightarrow> (w_pc c = WRunning \<longrightarrow> h_accepted c = h_written c @ writeChan (queue c))
     \<and> prefix (h_written c) (h_accepted c)"

text \<open>The messages \<^verbatim>\<open>WritePack\<close> was run on account for the writer's state, while all travel.\<close>

definition wire_ok :: "writer \<Rightarrow> client \<Rightarrow> bool" where
  "wire_ok w0 c \<longleftrightarrow> (\<forall>ps qs. h_written c = map now ps \<and> list_all2 travels ps qs
     \<longrightarrow> put_all WritePack ps w0 = Done (None, q_w (queue c)))"

lemma put_all_snoc:
  "put_all put ps w = Done (None, w1) \<Longrightarrow> put_all put (ps @ [p]) w = put p w1"
proof (induction ps arbitrary: w)
  case Nil
  then show ?case by (cases "put p w1") (auto split: option.splits)
next
  case (Cons q ps)
  then show ?case by (cases "put q w") (auto split: prod.splits option.splits)
qed

lemma wire_ok_written:
  assumes inv: "wire_ok w0 c" and w0: "w_ok w0"
    and run: "write_one pt (queue c\<lparr>writeChan := rest\<rparr>) = Done (e, q)"
    and hist: "h_written c @ [pt] = map now ps" "list_all2 travels ps qs"
  shows "e = None \<and> put_all WritePack ps w0 = Done (None, q_w q)"
proof -
  from hist(1) obtain ps' p where ps: "ps = ps' @ [p]" "h_written c = map now ps'" "pt = now p"
    by (cases ps rule: rev_cases) auto
  from hist(2) ps(1) obtain qs' q' where qs: "list_all2 travels ps' qs'" "travels p q'"
    by (auto simp: list_all2_append1 list_all2_Cons1 simp del: now_inject)
  have put: "put_all WritePack ps' w0 = Done (None, q_w (queue c))"
    using inv ps(2) qs(1) by (auto simp: wire_ok_def)
  from mqtt_wire.put_get_all [OF qs(1) w0] put have "w_ok (q_w (queue c))" by auto
  with qs(2) have "\<exists>w'. WritePack p (q_w (queue c)) = Done (None, w')"
    unfolding travels_def by blast
  moreover have "WritePack p (q_w (queue c)) = Done (e, q_w q)"
    using write_one_now [OF run [unfolded ps(3)]] by simp
  ultimately show ?thesis using put_all_snoc [OF put] ps(1) by auto
qed

definition out_ok :: "writer \<Rightarrow> client \<Rightarrow> bool" where
  "out_ok w0 c \<longleftrightarrow> fifo_ok c \<and> wire_ok w0 c"

lemma out_ok_same:
  "out_ok w0 c \<Longrightarrow> h_written c' = h_written c \<Longrightarrow> q_w (queue c') = q_w (queue c)
    \<Longrightarrow> h_accepted c' = h_accepted c @ new \<Longrightarrow> writeChan (queue c') = writeChan (queue c) @ new
    \<Longrightarrow> (w_pc c' = WRunning \<Longrightarrow> w_pc c = WRunning) \<Longrightarrow> out_ok w0 c'"
  by (auto simp: out_ok_def fifo_ok_def wire_ok_def prefix_def)

lemmas out_ok_keep = out_ok_same [where new = "[]"]

lemma out_ok_took:
  assumes "out_ok w0 c" "w_ok w0" "w_pc c = WRunning" "writeChan (queue c) = pt # rest"
    "write_one pt (queue c\<lparr>writeChan := rest\<rparr>) = Done (e, q)" "writeChan q = rest"
    "h_written c' = h_written c @ [pt]" "h_accepted c' = h_accepted c"
    "q_w (queue c') = q_w q" "writeChan (queue c') = rest"
  shows "out_ok w0 c'"
proof -
  have "wire_ok w0 c'"
    using wire_ok_written [OF _ assms(2,5)] assms(1)
    by (auto simp: wire_ok_def [of w0 c'] assms(7,9) out_ok_def)
  with assms show ?thesis by (auto simp: out_ok_def fifo_ok_def prefix_def)
qed

lemma out_ok_write: "write_step c = Some c' \<Longrightarrow> w_ok w0 \<Longrightarrow> out_ok w0 c \<Longrightarrow> out_ok w0 c'"
  by (erule write_stepE) (auto intro: out_ok_keep elim: out_ok_took)

lemma out_ok_read: "read_step c = Some c' \<Longrightarrow> out_ok w0 c \<Longrightarrow> out_ok w0 c'"
  by (erule read_stepE) (rule out_ok_keep, assumption, simp_all split del: if_split)+

lemma out_ok_finish: "finish_step c = Some c' \<Longrightarrow> out_ok w0 c \<Longrightarrow> out_ok w0 c'"
  by (erule finish_stepE) (rule out_ok_keep, assumption, simp_all)

lemma out_ok_accept: "out_ok w0 c \<Longrightarrow> out_ok w0 (accept pt c)"
  by (erule out_ok_same [where new = "[pt]"]) (auto simp: accept_def)

lemma out_ok_act: "out_ok w0 c \<Longrightarrow> out_ok w0 (act a err rest c)"
  by (rule actE [of a c err rest]; rule out_ok_keep, assumption) (simp_all add: SetAlive_def)

lemma out_ok_l_pc: "out_ok w0 c \<Longrightarrow> out_ok w0 (c\<lparr>l_pc := x\<rparr>)"
  by (rule out_ok_keep) simp_all

lemma out_ok_listen_end: "out_ok w0 c \<Longrightarrow> out_ok w0 (listen_end c)"
  by (rule out_ok_keep) (simp_all add: listen_end_def)

lemma out_ok_listen: "listen_step c = Some c' \<Longrightarrow> out_ok w0 c \<Longrightarrow> out_ok w0 c'"
  by (erule listen_stepE)
    (auto simp: out_ok_act out_ok_accept out_ok_l_pc out_ok_listen_end intro: out_ok_keep)

lemma out_ok_sender: "sender_step i c = Some c' \<Longrightarrow> out_ok w0 c \<Longrightarrow> out_ok w0 c'"
  by (erule sender_stepE) (auto intro!: out_ok_accept intro: out_ok_keep)

lemma out_ok_WriteMsg: "out_ok w0 c \<Longrightarrow> out_ok w0 (snd (WriteMsg t b c))"
  by (rule WriteMsg_cases [of c t b]) (auto intro: out_ok_keep)

lemma out_ok_step: "step l c = Some c' \<Longrightarrow> w_ok w0 \<Longrightarrow> out_ok w0 c \<Longrightarrow> out_ok w0 c'"
  by (erule stepE)
    (simp_all add: out_ok_WriteMsg out_ok_write out_ok_read out_ok_finish out_ok_listen
      out_ok_sender, auto intro: out_ok_keep)

lemma out_ok_reachable:
  assumes "reachable (NewClient cf r w a) c" "w_ok w"
  shows "out_ok w c"
  using assms(1)
proof (rule reachable_invariant)
  show "out_ok w (NewClient cf r w a)"
    by (simp add: out_ok_def fifo_ok_def wire_ok_def NewClient_def NewPackQueue_def)
qed (rule out_ok_step [OF _ assms(2)])

section \<open>Packets from the peer\<close>

fun reads :: "nat \<Rightarrow> reader \<Rightarrow> pack_and_err list \<times> reader" where
  "reads 0 r = ([], r)"
| "reads (Suc n) r =
     (case reads n r of (xs, r) \<Rightarrow> case ReadPack r of (p, e, r) \<Rightarrow> (xs @ [(p, e)], r))"

definition recovers :: "action list \<Rightarrow> pack list" where
  "recovers as = concat (map (\<lambda>a. case a of OnRecover p \<Rightarrow> [p] | _ \<Rightarrow> []) as)"

definition forwarded :: "pack_and_err list \<Rightarrow> pack list" where
  "forwarded pes = concat (map (\<lambda>pe. recovers (wait_script pe)) pes)"

lemma recovers_simps [simp]:
  "recovers [] = []" "recovers (Reply p # as) = recovers as"
  "recovers (OnRecover p # as) = p # recovers as" "recovers (KeepAlive k # as) = recovers as"
  "recovers (Fail e # as) = recovers as" "recovers (Crash s # as) = recovers as"
  "recovers (as @ bs) = recovers as @ recovers bs"
  by (simp_all add: recovers_def)

lemma forwarded_simps [simp]:
  "forwarded [] = []" "forwarded (xs @ ys) = forwarded xs @ forwarded ys"
  "forwarded [pe] = recovers (wait_script pe)"
  by (simp_all add: forwarded_def)

definition in_ok :: "reader \<Rightarrow> client \<Rightarrow> bool" where
  "in_ok r0 c \<longleftrightarrow> reads (length (h_read c)) r0 = (h_read c, q_r (queue c))
   \<and> (\<exists>lost. h_read c = h_taken c @ readChan (queue c)
        @ (case r_pc c of RHolding pe \<Rightarrow> [pe] | _ \<Rightarrow> []) @ lost
      \<and> (r_pc c \<noteq> RDone \<longrightarrow> lost = []))"

definition rec_ok :: "client \<Rightarrow> bool" where
  "rec_ok c \<longleftrightarrow> (case l_pc c of
       LScript err as \<Rightarrow> forwarded (h_taken c) = h_recovered c @ recovers as
     | LSending pt as \<Rightarrow> forwarded (h_taken c) = h_recovered c @ recovers as
     | LPanicked \<Rightarrow> prefix (h_recovered c) (forwarded (h_taken c))
     | _ \<Rightarrow> forwarded (h_taken c) = h_recovered c)"

lemma in_ok_same:
  "in_ok r0 c \<Longrightarrow> h_read c' = h_read c \<Longrightarrow> q_r (queue c') = q_r (queue c)
    \<Longrightarrow> h_taken c' = h_taken c \<Longrightarrow> readChan (queue c') = readChan (queue c)
    \<Longrightarrow> r_pc c' = r_pc c \<Longrightarrow> in_ok r0 c'"
  by (simp add: in_ok_def)

lemma rec_ok_same:
  "rec_ok c \<Longrightarrow> h_taken c' = h_taken c \<Longrightarrow> l_pc c' = l_pc c
    \<Longrightarrow> h_recovered c' = h_recovered c \<Longrightarrow> rec_ok c'"
  unfolding rec_ok_def by (simp only:)

lemma in_ok_write: "write_step c = Some c' \<Longrightarrow> in_ok r0 c \<Longrightarrow> in_ok r0 c'"
  by (erule write_stepE) (rule in_ok_same, assumption, simp_all)+

lemma in_ok_read: "read_step c = Some c' \<Longrightarrow> in_ok r0 c \<Longrightarrow> in_ok r0 c'"
  by (erule read_stepE) (auto simp: in_ok_def)

lemma in_ok_finish: "finish_step c = Some c' \<Longrightarrow> in_ok r0 c \<Longrightarrow> in_ok r0 c'"
  by (erule finish_stepE) (auto simp: in_ok_def)

lemma in_ok_act: "in_ok r0 c \<Longrightarrow> in_ok r0 (act a err rest c)"
  by (rule actE [of a c err rest]; rule in_ok_same, assumption) (simp_all add: SetAlive_def)

lemma in_ok_accept: "in_ok r0 c \<Longrightarrow> in_ok r0 (accept pt c)"
  by (erule in_ok_same) (simp_all add: accept_def)

lemma in_ok_l_pc: "in_ok r0 c \<Longrightarrow> in_ok r0 (c\<lparr>l_pc := x\<rparr>)"
  by (erule in_ok_same) simp_all

lemma in_ok_take:
  "readChan (queue c) = pe # rest \<Longrightarrow> in_ok r0 c
    \<Longrightarrow> in_ok r0 (c\<lparr>queue := queue c\<lparr>readChan := rest\<rparr>, h_taken := h_taken c @ [pe], l_pc := l\<rparr>)"
  by (simp add: in_ok_def)

lemma in_ok_listen_end: "in_ok r0 c \<Longrightarrow> in_ok r0 (listen_end c)"
  by (erule in_ok_same) (simp_all add: listen_end_def)

lemma in_ok_listen: "listen_step c = Some c' \<Longrightarrow> in_ok r0 c \<Longrightarrow> in_ok r0 c'"
  by (erule listen_stepE)
    (simp_all add: in_ok_act in_ok_accept in_ok_l_pc in_ok_take in_ok_listen_end)

lemma in_ok_sender: "sender_step i c = Some c' \<Longrightarrow> in_ok r0 c \<Longrightarrow> in_ok r0 c'"
  by (erule sender_stepE) (auto intro!: in_ok_accept intro: in_ok_same)

lemma in_ok_WriteMsg: "in_ok r0 c \<Longrightarrow> in_ok r0 (snd (WriteMsg t b c))"
  by (rule WriteMsg_cases [of c t b]) (auto intro: in_ok_same)

lemma in_ok_step: "step l c = Some c' \<Longrightarrow> in_ok r0 c \<Longrightarrow> in_ok r0 c'"
  by (erule stepE)
    (simp_all add: in_ok_WriteMsg in_ok_write in_ok_read in_ok_finish in_ok_listen in_ok_sender,
     auto intro: in_ok_same)

lemma rec_ok_listen:
  assumes "listen_step c = Some c'" "rec_ok c"
  shows "rec_ok c'"
  using assms
proof (cases rule: listen_stepE)
  case (action err a rest)
  with assms(2) show ?thesis
    by (cases rule: actE [of a c err rest]) (simp_all add: rec_ok_def SetAlive_def prefix_def)
qed (use assms(2) in \<open>auto simp: rec_ok_def listen_end_def accept_def prefix_def\<close>)

lemma rec_ok_WriteMsg: "c' = snd (WriteMsg t b c) \<Longrightarrow> rec_ok c \<Longrightarrow> rec_ok c'"
  by (rule WriteMsg_cases [of c t b]; rule rec_ok_same, assumption; simp)

lemma rec_ok_step: "step l c = Some c' \<Longrightarrow> rec_ok c \<Longrightarrow> rec_ok c'"
  apply (erule stepE)
         apply (erule write_stepE; rule rec_ok_same, assumption; simp)
        apply (erule read_stepE; rule rec_ok_same, assumption; simp)
       apply (erule finish_stepE; rule rec_ok_same, assumption; simp)
      apply (erule rec_ok_listen, assumption)
     apply (erule sender_stepE; rule rec_ok_same, assumption; simp add: accept_def)
    apply (erule rec_ok_WriteMsg, assumption)
   apply simp
  apply (rule rec_ok_same, assumption; simp)
  done

lemma in_rec_ok_reachable:
  assumes "reachable (NewClient cf r w a) c"
  shows "in_ok r c \<and> rec_ok c"
  using assms
proof (rule reachable_invariant)
  show "in_ok r (NewClient cf r w a) \<and> rec_ok (NewClient cf r w a)"
    by (simp add: in_ok_def rec_ok_def NewClient_def NewPackQueue_def)
qed (blast intro: in_ok_step rec_ok_step)

section \<open>Packets of the reader never make the listener panic\<close>

lemma read_sub_topics_named:
  "\<forall>tp \<in> set (sub_topics sub). tname tp \<noteq> None
    \<Longrightarrow> \<forall>tp \<in> set (sub_topics (fst (read_sub_topics vlen sub r))). tname tp \<noteq> None"
proof (induction vlen sub r rule: read_sub_topics.induct)
  case (1 vlen sub r)
  then show ?case
    by (subst read_sub_topics.simps) (auto simp: addTopics_def split: prod.splits option.splits sum.splits)
qed

lemma read_subscribe_named:
  assumes "read_subscribe n r = (sub, None, r')" "tp \<in> set (sub_topics sub)"
  shows "tname tp \<noteq> None"
proof -
  obtain m r1 where "readInt r 2 = (m, None, r1)"
      "sub = fst (read_sub_topics n \<lparr>sub_mid = m, sub_topics = []\<rparr> r1)"
    using assms(1) by (auto simp: read_subscribe_def split: prod.splits option.splits)
  with assms(2) read_sub_topics_named [of "\<lparr>sub_mid = m, sub_topics = []\<rparr>" n r1] show ?thesis
    by simp
qed

definition no_crash :: "action list \<Rightarrow> bool" where
  "no_crash as \<longleftrightarrow> (\<forall>s. Crash s \<notin> set as)"

lemma read_variable_types:
  assumes "read_variable p r = (v, None, r')"
  shows "no_crash (wait_script (Some (p\<lparr>variable := v\<rparr>), None))"
proof -
  consider "msg_type p = CONNECT" | "msg_type p = PUBLISH"
    | "msg_type p = PUBACK \<or> msg_type p = PUBREL \<or> msg_type p = PUBREC \<or> msg_type p = PUBCOMP"
    | "msg_type p = SUBSCRIBE" | "msg_type p = UNSUBSCRIBE"
    | "msg_type p \<notin> {CONNECT, PUBLISH, PUBACK, PUBREL, PUBREC, PUBCOMP, SUBSCRIBE, UNSUBSCRIBE}"
    by blast
  then show ?thesis
  proof cases
    case 1
    with assms show ?thesis
      by (auto simp: read_variable_def map_var_def wait_script_def no_crash_def split: prod.splits)
  next
    case 2
    with assms show ?thesis
      by (auto simp: read_variable_def map_var_def wait_script_def no_crash_def
          split: prod.splits if_splits)
  next
    case 3
    with assms show ?thesis
      by (auto simp: read_variable_def read_ack_def wait_script_def no_crash_def Let_def
          split: prod.splits option.splits if_splits)
  next
    case 4
    with assms obtain sub where v: "v = VSubscribe sub" "read_subscribe (plen p) r = (sub, None, r')"
      by (auto simp: read_variable_def map_var_def split: prod.splits)
    have "tname tp \<noteq> None" if "tp \<in> set (sub_topics sub)" for tp
      using read_subscribe_named [OF v(2) that] .
    with 4 v show ?thesis
      by (auto simp: wait_script_def no_crash_def split: option.splits if_splits)
  next
    case 5
    with assms show ?thesis
      by (auto simp: read_variable_def map_var_def wait_script_def no_crash_def split: prod.splits)
  next
    case 6
    then show ?thesis by (simp add: wait_script_def no_crash_def)
  qed
qed

lemma ReadPack_no_crash:
  assumes "ReadPack r = (p, e, r')"
  shows "no_crash (wait_script (p, e))"
proof (cases e)
  case (Some err)
  then show ?thesis by (cases p) (simp_all add: wait_script_def no_crash_def)
next
  case None
  with assms obtain h v r1 where "p = Some (h\<lparr>variable := v\<rparr>)" "read_variable h r1 = (v, None, r')"
    unfolding ReadPack_def by (auto simp: Let_def split: prod.splits sum.splits option.splits)
  with None show ?thesis by (simp add: read_variable_types)
qed

lemma reads_no_crash: "pe \<in> set (fst (reads n r)) \<Longrightarrow> no_crash (wait_script pe)"
  by (induction n) (auto split: prod.splits dest!: ReadPack_no_crash)

text \<open>So the listener panics only at a send on the closed queue.\<close>

definition panic_ok :: "reader \<Rightarrow> client \<Rightarrow> bool" where
  "panic_ok r0 c \<longleftrightarrow> in_ok r0 c \<and> (case l_pc c of
       LScript err as \<Rightarrow> no_crash as | LSending pt as \<Rightarrow> no_crash as
     | LPanicked \<Rightarrow> q_closed (queue c) | _ \<Rightarrow> True)"

lemma no_crash_Cons [simp]: "no_crash (a # as) \<longleftrightarrow> (\<forall>s. a \<noteq> Crash s) \<and> no_crash as"
  by (auto simp: no_crash_def)

lemma taken_no_crash:
  assumes "in_ok r0 c" "readChan (queue c) = pe # rest"
  shows "no_crash (wait_script pe)"
proof -
  have "pe \<in> set (h_read c)" using assms by (auto simp: in_ok_def)
  then have "pe \<in> set (fst (reads (length (h_read c)) r0))" using assms(1) by (simp add: in_ok_def)
  then show ?thesis by (rule reads_no_crash)
qed

lemma WriteMsg_keeps [simp]:
  "queue (snd (WriteMsg t b c)) = queue c" "l_pc (snd (WriteMsg t b c)) = l_pc c"
  by (cases rule: WriteMsg_cases [of c t b]; simp)+

lemma act_q_closed [simp]: "q_closed (queue (act a err rest c)) = q_closed (queue c)"
  by (cases rule: actE [of a c err rest]) (simp_all add: SetAlive_def)

lemma q_closed_step: "step l c = Some c' \<Longrightarrow> q_closed (queue c) \<Longrightarrow> q_closed (queue c')"
  apply (erule stepE)
         apply (erule write_stepE; simp)
        apply (erule read_stepE; simp)
       apply (erule finish_stepE; simp)
      apply (erule listen_stepE; simp add: listen_end_def accept_def)
     apply (erule sender_stepE; simp add: accept_def)
    apply simp
   apply simp
  apply simp
  done

lemma l_pc_step:
  assumes "step l c = Some c'" "listen_step c \<noteq> Some c'"
  shows "l_pc c' = l_pc c"
  using assms(1)
  apply (rule stepE)
         apply (erule write_stepE; simp)
        apply (erule read_stepE; simp)
       apply (erule finish_stepE; simp)
  using assms(2) apply blast
     apply (erule sender_stepE; simp add: accept_def)
    apply simp
   apply simp
  apply simp
  done

lemma panic_ok_listen:
  assumes "listen_step c = Some c'" "panic_ok r0 c"
  shows "panic_ok r0 c'"
  using assms(1)
proof (cases rule: listen_stepE)
  case (take pe rest)
  with assms(2) in_ok_listen [OF assms(1)] taken_no_crash show ?thesis
    by (auto simp: panic_ok_def)
next
  case (action err a rest)
  with assms in_ok_listen [OF assms(1)] show ?thesis
    by (cases rule: actE [of a c err rest]) (simp_all add: panic_ok_def)
qed (use assms(2) in_ok_listen [OF assms(1)] in \<open>auto simp: panic_ok_def listen_end_def accept_def\<close>)

lemma panic_ok_step:
  assumes "step l c = Some c'" "panic_ok r0 c"
  shows "panic_ok r0 c'"
proof (cases "listen_step c = Some c'")
  case True
  then show ?thesis using assms(2) by (rule panic_ok_listen)
next
  case False
  from l_pc_step [OF assms(1) False] in_ok_step [OF assms(1)] q_closed_step [OF assms(1)] assms(2)
  show ?thesis unfolding panic_ok_def by (auto split: listen_pc.splits)
qed

lemma panic_ok_reachable:
  assumes "reachable (NewClient cf r w a) c"
  shows "panic_ok r c"
  using assms
proof (rule reachable_invariant)
  show "panic_ok r (NewClient cf r w a)"
    by (simp add: panic_ok_def in_ok_def NewClient_def NewPackQueue_def)
qed (rule panic_ok_step)

section \<open>Message ids\<close>

fun msg_ids :: "nat \<Rightarrow> client \<Rightarrow> int list" where
  "msg_ids 0 c = []"
| "msg_ids (Suc n) c = (case getOnlineMsgId c of (i, c) \<Rightarrow> i # msg_ids n c)"

lemma msg_ids_from:
  "curr_id c = (if m = 0 then 0 else int ((m - 1) mod 65535) + 1)
    \<Longrightarrow> msg_ids n c = map (\<lambda>k. int (k mod 65535) + 1) [m..<m + n]"
proof (induction n arbitrary: m c)
  case 0
  then show ?case by simp
next
  case (Suc n)
  have id: "getOnlineMsgId c = (int (m mod 65535) + 1, c\<lparr>curr_id := int (m mod 65535) + 1\<rparr>)"
  proof (cases m)
    case 0
    with Suc.prems show ?thesis by (simp add: getOnlineMsgId_def)
  next
    case (Suc k)
    have "Suc k mod 65535 = (if k mod 65535 = 65534 then 0 else Suc (k mod 65535))"
      by (simp add: mod_Suc)
    with Suc Suc.prems show ?thesis by (auto simp: getOnlineMsgId_def)
  qed
  have "msg_ids n (c\<lparr>curr_id := int (m mod 65535) + 1\<rparr>)
      = map (\<lambda>k. int (k mod 65535) + 1) [Suc m..<Suc m + n]"
    by (rule Suc.IH) simp
  with id show ?case by (simp add: upt_rec [of m])
qed

section \<open>The listener between two packets\<close>

text \<open>Updates of the listener's counter are moved outermost.\<close>

lemma l_pc_outermost:
  "c\<lparr>l_pc := x, queue := q\<rparr> = c\<lparr>queue := q, l_pc := x\<rparr>"
  "c\<lparr>l_pc := x, h_accepted := h\<rparr> = c\<lparr>h_accepted := h, l_pc := x\<rparr>"
  "c\<lparr>l_pc := x, h_recovered := ps\<rparr> = c\<lparr>h_recovered := ps, l_pc := x\<rparr>"
  by simp_all

lemma run_actions_l_pc:
  "run_actions as err (c\<lparr>l_pc := x\<rparr>)
    = map_outcome_val (\<lambda>(e, c). (e, c\<lparr>l_pc := x\<rparr>)) (run_actions as err c)"
proof (induction as arbitrary: err c)
  case Nil
  then show ?case by simp
next
  case (Cons a as)
  then show ?case
    by (cases a) (simp_all add: accept_def queue_WritePack_def queue_send_def l_pc_outermost
        split: option.splits)
qed

lemma listener_runs_script:
  "run_actions as err c = Done (err', c') \<Longrightarrow> \<not> q_closed (queue c) \<Longrightarrow> \<not> crashed c
    \<Longrightarrow> length (writeChan (queue c)) + length as \<le> WirteLoopChanNum (q_conf (queue c))
    \<Longrightarrow> \<exists>n. run (replicate n StepListen) (c\<lparr>l_pc := LScript err as\<rparr>) = Some (c'\<lparr>l_pc := LScript err' []\<rparr>)"
proof (induction as arbitrary: err c)
  case Nil
  then show ?case by (intro exI [of _ 0]) simp
next
  case (Cons a as)
  note go = exI [of _ "Suc n" for n] and go2 = exI [of _ "Suc (Suc n)" for n]
  show ?case
  proof (cases a)
    case (Reply p)
    show ?thesis
    proof (cases "writeError (queue c)")
      case None
      with Reply Cons.prems Cons.IH [of None "accept (now p) c"]
      obtain n where "run (replicate n StepListen) ((accept (now p) c)\<lparr>l_pc := LScript None as\<rparr>)
          = Some (c'\<lparr>l_pc := LScript err' []\<rparr>)"
        by (auto simp: queue_WritePack_def queue_send_def accept_def now_def)
      with Reply None Cons.prems show ?thesis
        by (intro go2 [of _ n])
          (simp add: step_def listen_step_def act_def queue_WritePack_def queue_send_def has_room_def
            accept_def now_def l_pc_outermost)
    next
      case (Some e)
      with Reply Cons.prems Cons.IH [of "Some e" c]
      obtain n where "run (replicate n StepListen) (c\<lparr>l_pc := LScript (Some e) as\<rparr>)
          = Some (c'\<lparr>l_pc := LScript err' []\<rparr>)"
        by (auto simp: queue_WritePack_def queue_send_def)
      with Reply Some Cons.prems show ?thesis
        by (intro go [of _ n])
          (simp add: step_def listen_step_def act_def queue_WritePack_def queue_send_def)
    qed
  next
    case (OnRecover p)
    with Cons.prems Cons.IH [of err "c\<lparr>h_recovered := h_recovered c @ [p]\<rparr>"]
    obtain n where "run (replicate n StepListen)
        (c\<lparr>h_recovered := h_recovered c @ [p], l_pc := LScript err as\<rparr>) = Some (c'\<lparr>l_pc := LScript err' []\<rparr>)"
      by auto
    with OnRecover Cons.prems show ?thesis
      by (intro go [of _ n]) (simp add: step_def listen_step_def act_def l_pc_outermost)
  next
    case (KeepAlive k)
    with Cons.prems Cons.IH [of err "c\<lparr>queue := SetAlive k (queue c)\<rparr>"]
    obtain n where "run (replicate n StepListen)
        (c\<lparr>queue := SetAlive k (queue c), l_pc := LScript err as\<rparr>) = Some (c'\<lparr>l_pc := LScript err' []\<rparr>)"
      by (auto simp: SetAlive_def)
    with KeepAlive Cons.prems show ?thesis
      by (intro go [of _ n]) (simp add: step_def listen_step_def act_def l_pc_outermost)
  next
    case (Fail e)
    with Cons.prems Cons.IH [of "Some e" c]
    obtain n where "run (replicate n StepListen) (c\<lparr>l_pc := LScript (Some e) as\<rparr>)
        = Some (c'\<lparr>l_pc := LScript err' []\<rparr>)" by auto
    with Fail Cons.prems show ?thesis
      by (intro go [of _ n]) (simp add: step_def listen_step_def act_def l_pc_outermost)
  next
    case (Crash s)
    with Cons.prems show ?thesis by simp
  qed
qed

lemma run_append:
  "run (xs @ ys) c = (case run xs c of None \<Rightarrow> None | Some d \<Rightarrow> run ys d)"
  by (induction xs arbitrary: c) (auto split: option.splits)

lemma run_actions_crashed: "run_actions as err c = Done (e, c') \<Longrightarrow> crashed c' = crashed c"
  by (induction as err c rule: run_actions.induct) (auto simp: accept_def split: sum.splits)

section \<open>Properties\<close>

text \<open>
  C2: In every reachable state of a connection, whatever the interleaving: each channel stays
  within its capacity; the queue is closed only after the write loop has ended with a write
  error, so a send that starts after the close returns that error instead of panicking; and
  the write loop's two notices always find room in an open channel.
\<close>

theorem channels_never_misused:
  assumes "reachable (NewClient cf r w a) c"
  shows "length (writeChan (queue c)) \<le> WirteLoopChanNum (q_conf (queue c))
    \<and> length (readChan (queue c)) \<le> ReadPackLoop (q_conf (queue c))
    \<and> length (errorChan (queue c)) \<le> 1 \<and> length (noticeFin (queue c)) \<le> 2
    \<and> (q_closed (queue c) \<longrightarrow> w_pc c = WDone \<and> (\<exists>e. \<forall>pt. queue_send pt (queue c) = Inl e))
    \<and> ((\<exists>e. w_pc c = WTell e) \<longrightarrow> \<not> q_closed (queue c) \<and> errorChan (queue c) = [])
    \<and> (w_pc c = WNotice \<longrightarrow> \<not> q_closed (queue c) \<and> length (noticeFin (queue c)) < 2)"
proof -
  have ok: "channels_ok c" using assms by (rule channels_ok_reachable)
  show ?thesis
    using ok by (cases "writeError (queue c)") (auto simp: channels_ok_def queue_send_def)
qed

definition small_conf :: mqtt_conf where
  "small_conf = \<lparr>WirteLoopChanNum = 1, ReadPackLoop = 1, ReadTimeout = 10, WriteTimeout = 0\<rparr>"

definition eof_reader :: reader where "eof_reader = \<lparr>r_in = [], r_end = EOF\<rparr>"

definition after :: "label list \<Rightarrow> client \<Rightarrow> client" where
  "after ls c = (case run ls c of Some c' \<Rightarrow> c' | None \<Rightarrow> c)"

lemma after_reachable: "reachable c (after ls c)"
  unfolding after_def
  using run_reachable [OF _ reachable.start] reachable.start by (auto split: option.splits)

text \<open>A connection that has sent one acknowledgement, and one that has read the end of input.\<close>

definition sent_client :: client where
  "sent_client = after [CallSend (now (GetPubAckPack 7)), StepSender 0, StepWrite]
     (NewClient small_conf eof_reader idle_writer 20)"

definition eof_client :: client where
  "eof_client = after [StepRead, StepRead, StepListen, StepListen, StepListen]
     (NewClient small_conf eof_reader idle_writer 20)"

lemma sent_client_reachable: "reachable (NewClient small_conf eof_reader idle_writer 20) sent_client"
  and eof_client_reachable: "reachable (NewClient small_conf eof_reader idle_writer 20) eof_client"
  by (simp_all only: sent_client_def eof_client_def after_reachable)

lemma sent_client_written: "h_written sent_client = [now (GetPubAckPack 7)]"
  and eof_client_state: "l_pc eof_client = LDone \<and> r_pc eof_client = RWaiting
    \<and> w_pc eof_client = WRunning \<and> writeChan (queue eof_client) = [] \<and> senders eof_client = []
    \<and> isStop eof_client"
  by code_simp+

text \<open>
  C7: Packets leave a connection in the order the queue accepted them: when the packets the
  write loop has taken all travel, the bytes given to the writer are read by the peer's
  \<^verbatim>\<open>ReadPack\<close> as exactly these packets in this order, and the packets accepted later come after.
\<close>

theorem peer_reads_in_order:
  assumes "reachable (NewClient cf r w a) c" "w_ok w"
    and "h_written c = map now ps" "list_all2 travels ps qs"
  shows "(\<exists>later. h_accepted c = map now ps @ later)
    \<and> (\<exists>bs. w_stream (q_w (queue c)) = w_stream w @ bs
      \<and> (\<forall>rest e. get_all ReadPack (length ps) \<lparr>r_in = bs @ rest, r_end = e\<rparr>
           = (map Some qs, \<lparr>r_in = rest, r_end = e\<rparr>)))"
proof -
  have inv: "fifo_ok c" "wire_ok w c"
    using out_ok_reachable [OF assms(1,2)] by (simp_all add: out_ok_def)
  have "put_all WritePack ps w = Done (None, q_w (queue c))"
    using inv(2) assms(3,4) by (auto simp: wire_ok_def)
  with mqtt_wire.put_get_all [OF assms(4,2)] inv(1) assms(3) show ?thesis
    by (auto simp: fifo_ok_def prefix_def)
qed

theorem peer_reads_in_order_witness:
  "(\<exists>later. h_accepted sent_client = map now [GetPubAckPack 7] @ later)
    \<and> (\<exists>bs. w_stream (q_w (queue sent_client)) = w_stream idle_writer @ bs
      \<and> (\<forall>rest e. get_all ReadPack (length [GetPubAckPack 7]) \<lparr>r_in = bs @ rest, r_end = e\<rparr>
           = (map Some [(GetPubAckPack (7 mod 65536))\<lparr>plen := 2\<rparr>], \<lparr>r_in = rest, r_end = e\<rparr>)))"
  by (intro peer_reads_in_order [OF sent_client_reachable])
    (simp_all only: sent_client_written list.rel_inject list.rel_intros acks_travel list.map
      w_ok_idle_writer simp_thms)



text \<open>
  No packet a peer can send makes the listener panic: every packet \<^verbatim>\<open>ReadPack\<close> returns
  without error has the dynamic type \<^verbatim>\<open>waitPack\<close> asserts and no nil topic name, so the only
  panic of \<^verbatim>\<open>Listen_loop\<close> is a send that was blocked when the queue was closed.
\<close>

theorem listener_panics_only_after_close:
  assumes "reachable (NewClient cf r w a) c" "l_pc c = LPanicked"
  shows "q_closed (queue c) \<and> w_pc c = WDone"
  using panic_ok_reachable [OF assms(1)] channels_ok_reachable [OF assms(1)] assms(2)
  by (simp add: panic_ok_def channels_ok_def)

definition dead_writer :: writer where
  "dead_writer = idle_writer\<lparr>w_conn := Some (ConnErr ''reset'')\<rparr>"

text \<open>A listener that answers a PINGREQ while its queue is full and the connection breaks.\<close>

definition panicked_client :: client where
  "panicked_client = after
     [CallSend (now (GetPubAckPack 7)), StepSender 0, CallSend (now (GetPubAckPack 8)),
      StepRead, StepRead, StepListen, StepListen,
      StepWrite, StepSender 0, StepWrite, StepWrite, StepRead, StepFinish, StepListen]
     (NewClient small_conf \<lparr>r_in = [192, 0], r_end = EOF\<rparr> dead_writer 20)"

lemma panicked_client_reachable:
  "reachable (NewClient small_conf \<lparr>r_in = [192, 0], r_end = EOF\<rparr> dead_writer 20) panicked_client"
  by (simp only: panicked_client_def after_reachable)

lemma panicked_client_state: "l_pc panicked_client = LPanicked"
  by code_simp

lemma panicked_client_closed: "q_closed (queue panicked_client)"
  by code_simp

theorem channels_never_misused_witness:
  "length (writeChan (queue panicked_client)) \<le> WirteLoopChanNum (q_conf (queue panicked_client))
    \<and> w_pc panicked_client = WDone \<and> (\<exists>e. \<forall>pt. queue_send pt (queue panicked_client) = Inl e)"
  using channels_never_misused [OF panicked_client_reachable] panicked_client_closed by blast

theorem listener_panics_only_after_close_witness:
  "q_closed (queue panicked_client) \<and> w_pc panicked_client = WDone"
  by (rule listener_panics_only_after_close [OF panicked_client_reachable panicked_client_state])

text \<open>
  A failed write ends the connection: from every reachable state with a write error there
  are steps of the write and read loops that close the queue (at most two notices, one
  \<^verbatim>\<open>ReadPack\<close> that its data or its deadline ends, and the close).
\<close>

theorem write_error_closes:
  assumes "reachable (NewClient cf r w a) c" "\<not> crashed c" "writeError (queue c) \<noteq> None"
  shows "\<exists>ls c'. set ls \<subseteq> {StepWrite, StepRead, StepFinish} \<and> run ls c = Some c' \<and> q_closed (queue c')"
proof -
  have ok: "channels_ok c" using assms(1) by (rule channels_ok_reachable)
  have fin: "\<exists>ls c'. set ls \<subseteq> {StepWrite, StepRead, StepFinish} \<and> run ls d = Some c' \<and> q_closed (queue c')"
    if "channels_ok d" "\<not> crashed d" "w_pc d = WDone" for d
  proof (cases "q_closed (queue d)")
    case True
    then show ?thesis by (intro exI [of _ "[]"]) simp
  next
    case False
    with that have n: "noticeFin (queue d) \<noteq> []" "r_pc d \<noteq> RDone" by (auto simp: channels_ok_def)
    obtain pe q where one: "read_one (queue d) = (pe, q)" by (cases "read_one (queue d)")
    from read_one_frame [OF one] n(1) have "noticeFin q \<noteq> []" by auto
    with n that(2) one show ?thesis
      by (cases "r_pc d";
          intro exI [of _ "if r_pc d = RReading then [StepRead, StepFinish] else [StepFinish]"])
        (auto simp: step_def read_step_def finish_step_def queue_Close_def neq_Nil_conv)
  qed
  have notice: "\<exists>ls c'. set ls \<subseteq> {StepWrite, StepRead, StepFinish} \<and> run ls d = Some c' \<and> q_closed (queue c')"
    if "channels_ok d" "\<not> crashed d" "w_pc d = WNotice" for d
  proof -
    from that obtain d' where d': "step StepWrite d = Some d'" "w_pc d' = WDone" "\<not> crashed d'"
      by (auto simp: channels_ok_def step_def write_step_def Let_def)
    from fin [OF channels_ok_step [OF d'(1) that(1)] d'(3,2)] obtain ls c' where
      "set ls \<subseteq> {StepWrite, StepRead, StepFinish}" "run ls d' = Some c'" "q_closed (queue c')" by blast
    with d'(1) show ?thesis by (intro exI [of _ "StepWrite # ls"] exI [of _ c']) simp
  qed
  show ?thesis
  proof (cases "w_pc c")
    case (WTell e)
    with assms(2) ok obtain d' where d': "step StepWrite c = Some d'" "w_pc d' = WNotice" "\<not> crashed d'"
      by (auto simp: channels_ok_def step_def write_step_def Let_def)
    from notice [OF channels_ok_step [OF d'(1) ok] d'(3,2)] obtain ls c' where
      "set ls \<subseteq> {StepWrite, StepRead, StepFinish}" "run ls d' = Some c'" "q_closed (queue c')" by blast
    with d'(1) show ?thesis by (intro exI [of _ "StepWrite # ls"] exI [of _ c']) simp
  qed (use assms ok fin notice in \<open>auto simp: channels_ok_def\<close>)
qed

theorem write_error_closes_witness:
  "\<exists>ls c'. set ls \<subseteq> {StepWrite, StepRead, StepFinish} \<and> run ls panicked_client = Some c' \<and> q_closed (queue c')"
  by (rule write_error_closes [OF panicked_client_reachable]) code_simp+

text \<open>
  A read error, on the other hand, leaks two goroutines: once the listener has left with
  it, the read loop waits for a notice only a failed write gives, \<^verbatim>\<open>WriteMsg\<close> refuses to write,
  and the write loop waits for a packet. No step but a direct call of the queue's send
  changes anything, and the queue is never closed.
\<close>

theorem read_error_leaks_loops:
  assumes "reachable (NewClient cf r w a) c" "r_pc c = RWaiting" "l_pc c = LDone"
    and "w_pc c = WRunning" "writeChan (queue c) = []" "senders c = []" "isStop c"
    and "\<forall>pt. l \<noteq> CallSend pt"
  shows "\<not> q_closed (queue c) \<and> (step l c = None \<or> step l c = Some c)"
proof -
  have "channels_ok c" using assms(1) by (rule channels_ok_reachable)
  with assms show ?thesis
    by (cases l)
      (simp_all add: channels_ok_def step_def write_step_def read_step_def finish_step_def
        listen_step_def sender_step_def WriteMsg_def)
qed

theorem read_error_leaks_loops_witness:
  "\<not> q_closed (queue eof_client)
    \<and> (step (CallWriteMsg ''t'' []) eof_client = None \<or> step (CallWriteMsg ''t'' []) eof_client = Some eof_client)"
  by (rule read_error_leaks_loops [OF eof_client_reachable]) (simp_all add: eof_client_state)

text \<open>
  A goroutine blocked in \<^verbatim>\<open>WriteMsg\<close> on the full write channel panics when the connection
  fails: the write loop stops taking packets, the read loop closes the channel, and the send
  in progress is a send on a closed channel.
\<close>

theorem blocked_sender_panics:
  "\<exists>ls c. run ls (NewClient small_conf eof_reader dead_writer 20) = Some c \<and> sender_panics c = 1
    \<and> set ls \<subseteq> {StepWrite, StepRead, StepFinish, StepSender 0, CallWriteMsg ''t'' []}"
proof -
  define ls where "ls = [CallWriteMsg ''t'' [], StepSender 0, CallWriteMsg ''t'' [], StepWrite,
    StepWrite, StepWrite, StepRead, StepFinish, StepSender 0]"
  define c0 where "c0 = NewClient small_conf eof_reader dead_writer 20"
  have "run ls c0 = Some (after ls c0)" "sender_panics (after ls c0) = 1"
    unfolding ls_def c0_def by code_simp+
  then show ?thesis
    unfolding c0_def [symmetric] by (intro exI [of _ ls] exI [of _ "after ls c0"]) (simp add: ls_def)
qed

text \<open>
  The message ids of a connection count 1 to 65535 and start again at 1: the k-th call of
  \<^verbatim>\<open>getOnlineMsgId\<close> returns k modulo 65535, plus one, never 0, and 65535 calls in a row differ.
\<close>

theorem message_ids_cycle:
  "msg_ids n (NewClient cf r w a) = map (\<lambda>k. int (k mod 65535) + 1) [0..<n]"
  using msg_ids_from [of "NewClient cf r w a" 0 n] by (simp add: NewClient_def)

text \<open>
  Undisturbed, with room in the write channel, the listener's steps on the next packet
  compute \<^verbatim>\<open>waitPack\<close>: same answers, same packets forwarded, and the loop goes on exactly when
  it returned no error.
\<close>

theorem listener_runs_waitPack:
  assumes "waitPack pe (c\<lparr>queue := queue c\<lparr>readChan := rest\<rparr>, h_taken := h_taken c @ [pe]\<rparr>) = Done (err, c')"
    and "l_pc c = LIdle" "readChan (queue c) = pe # rest" "\<not> q_closed (queue c)" "\<not> crashed c"
    and "length (writeChan (queue c)) + length (wait_script pe) \<le> WirteLoopChanNum (q_conf (queue c))"
  shows "\<exists>n. run (replicate n StepListen) c
    = Some (if err = None then c'\<lparr>l_pc := LIdle\<rparr> else c'\<lparr>l_pc := LDone, isStop := True\<rparr>)"
proof -
  let ?d = "c\<lparr>queue := queue c\<lparr>readChan := rest\<rparr>, h_taken := h_taken c @ [pe]\<rparr>"
  from listener_runs_script [OF assms(1) [unfolded waitPack_def]] assms(4-6) obtain n where
    "run (replicate n StepListen) (?d\<lparr>l_pc := LScript None (wait_script pe)\<rparr>)
      = Some (c'\<lparr>l_pc := LScript err []\<rparr>)" by auto
  moreover have "step StepListen c = Some (?d\<lparr>l_pc := LScript None (wait_script pe)\<rparr>)"
    using assms(2,3,5) by (simp add: step_def listen_step_def)
  ultimately have a: "run (StepListen # replicate n StepListen) c = Some (c'\<lparr>l_pc := LScript err []\<rparr>)"
    by simp
  have b: "step StepListen (c'\<lparr>l_pc := LScript err []\<rparr>)
      = Some (if err = None then c'\<lparr>l_pc := LIdle\<rparr> else c'\<lparr>l_pc := LDone, isStop := True\<rparr>)"
    using run_actions_crashed [OF assms(1) [unfolded waitPack_def]] assms(5)
    by (cases err) (simp_all add: step_def listen_step_def listen_end_def)
  have "run ((StepListen # replicate n StepListen) @ [StepListen]) c
      = Some (if err = None then c'\<lparr>l_pc := LIdle\<rparr> else c'\<lparr>l_pc := LDone, isStop := True\<rparr>)"
    unfolding run_append a by (simp only: option.case run.simps b)
  then show ?thesis
    by (intro exI [of _ "Suc (Suc n)"])
      (simp only: append_Cons replicate_append_same replicate_Suc)
qed

definition ping_pack :: pack where
  "ping_pack = new_pack\<lparr>msg_type := PINGREQ\<rparr>"

definition pinged_client :: client where
  "pinged_client = (NewClient (small_conf\<lparr>WirteLoopChanNum := 2\<rparr>) eof_reader idle_writer 20)
     \<lparr>queue := (NewPackQueue (small_conf\<lparr>WirteLoopChanNum := 2\<rparr>) eof_reader idle_writer 20)
       \<lparr>readChan := [(Some ping_pack, None)]\<rparr>\<rparr>"

theorem listener_runs_waitPack_witness:
  "\<exists>(err :: go_err option) c' n. run (replicate n StepListen) pinged_client
    = Some (if err = None then c'\<lparr>l_pc := LIdle\<rparr> else c'\<lparr>l_pc := LDone, isStop := True\<rparr>)"
proof -
  obtain err c' where "waitPack (Some ping_pack, None) (pinged_client\<lparr>queue := queue pinged_client\<lparr>readChan := []\<rparr>,
      h_taken := h_taken pinged_client @ [(Some ping_pack, None)]\<rparr>) = Done (err, c')"
    by (auto simp: waitPack_def wait_script_def ping_pack_def queue_WritePack_def queue_send_def
        pinged_client_def NewPackQueue_def new_pack_def split: sum.splits)
  then have "\<exists>n. run (replicate n StepListen) pinged_client
    = Some (if err = None then c'\<lparr>l_pc := LIdle\<rparr> else c'\<lparr>l_pc := LDone, isStop := True\<rparr>)"
    by (rule listener_runs_waitPack)
      (simp_all add: pinged_client_def NewClient_def NewPackQueue_def wait_script_def ping_pack_def
        small_conf_def new_pack_def)
  then show ?thesis by blast
qed

end
