(* ===== verification/Lodos_Values.thy ===== *)
theory Lodos_Values
  imports Lodos_Prelude
begin

text \<open>
  The values of an \<^verbatim>\<open>interface{}\<close> that the framework passes around: the dynamic types the
  argument codec names, and the application's own types as a parameter. Floats are their
  IEEE 754 bits, as \<^verbatim>\<open>math.Float32bits\<close> gives them.
\<close>

datatype 'a go_value =
    GNil
  | GString string
  | GBool bool
  | GInt32 "32 word"
  | GInt "64 word"
  | GInt64 "64 word"
  | GFloat32 "32 word"
  | GFloat64 "64 word"
  | GBytes bytes
  | GMap "string \<Rightarrow> 'a go_value option"
  | GMapStr "string \<Rightarrow> string option"
  | GApp 'a

section \<open>Comparison\<close>

text \<open>\<^verbatim>\<open>==\<close> on the bits of a float: a NaN equals nothing, and the two zeros are equal.\<close>

definition float32_eq :: "32 word \<Rightarrow> 32 word \<Rightarrow> bool" where
  "float32_eq a b =
     (let mag = (\<lambda>w :: 32 word. w AND 0x7FFFFFFF); nan = (\<lambda>w. mag w > 0x7F800000)
      in \<not> nan a \<and> \<not> nan b \<and> (a = b \<or> mag a = 0 \<and> mag b = 0))"

definition float64_eq :: "64 word \<Rightarrow> 64 word \<Rightarrow> bool" where
  "float64_eq a b =
     (let mag = (\<lambda>w :: 64 word. w AND 0x7FFFFFFFFFFFFFFF); nan = (\<lambda>w. mag w > 0x7FF0000000000000)
      in \<not> nan a \<and> \<not> nan b \<and> (a = b \<or> mag a = 0 \<and> mag b = 0))"

text \<open>
  \<^verbatim>\<open>==\<close> on interface values: values of different dynamic types differ, slices and maps cannot
  be compared and panic; \<open>app_eq\<close> compares the application's own values.
\<close>

definition go_eq :: "('a \<Rightarrow> 'a \<Rightarrow> bool outcome) \<Rightarrow> 'a go_value \<Rightarrow> 'a go_value \<Rightarrow> bool outcome" where
  "go_eq app_eq x y =
     (case x of
        GNil \<Rightarrow> (case y of GNil \<Rightarrow> Done True | _ \<Rightarrow> Done False)
      | GString s \<Rightarrow> (case y of GString t \<Rightarrow> Done (s = t) | _ \<Rightarrow> Done False)
      | GBool a \<Rightarrow> (case y of GBool b \<Rightarrow> Done (a = b) | _ \<Rightarrow> Done False)
      | GInt32 a \<Rightarrow> (case y of GInt32 b \<Rightarrow> Done (a = b) | _ \<Rightarrow> Done False)
      | GInt a \<Rightarrow> (case y of GInt b \<Rightarrow> Done (a = b) | _ \<Rightarrow> Done False)
      | GInt64 a \<Rightarrow> (case y of GInt64 b \<Rightarrow> Done (a = b) | _ \<Rightarrow> Done False)
      | GFloat32 a \<Rightarrow> (case y of GFloat32 b \<Rightarrow> Done (float32_eq a b) | _ \<Rightarrow> Done False)
      | GFloat64 a \<Rightarrow> (case y of GFloat64 b \<Rightarrow> Done (float64_eq a b) | _ \<Rightarrow> Done False)
      | GBytes a \<Rightarrow> (case y of GBytes b \<Rightarrow> Panic ''comparing uncomparable type'' | _ \<Rightarrow> Done False)
      | GMap a \<Rightarrow> (case y of GMap b \<Rightarrow> Panic ''comparing uncomparable type'' | _ \<Rightarrow> Done False)
      | GMapStr a \<Rightarrow> (case y of GMapStr b \<Rightarrow> Panic ''comparing uncomparable type'' | _ \<Rightarrow> Done False)
      | GApp a \<Rightarrow> (case y of GApp b \<Rightarrow> app_eq a b | _ \<Rightarrow> Done False))"

section \<open>Errors as values\<close>

text \<open>
  The application values of the model: a plain \<^verbatim>\<open>error\<close> with its text, the \<^verbatim>\<open>*Error\<close> of
  \<^verbatim>\<open>rpc/base/error.go\<close> with its code and reason, and anything else.
\<close>

datatype 'a dyn = PlainError string | CodeError int string | Other 'a

text \<open>\<^verbatim>\<open>%q\<close> of a text of ASCII characters (printable characters beyond them stay as they are).\<close>

definition q_char :: "char \<Rightarrow> string" where
  "q_char c =
     (let n = of_char c :: nat in
      if c = CHR 0x22 then [CHR 0x5C, c] else if c = CHR 0x5C then [c, c]
      else if n = 7 then [CHR 0x5C, CHR ''a''] else if n = 8 then [CHR 0x5C, CHR ''b'']
      else if n = 12 then [CHR 0x5C, CHR ''f''] else if n = 10 then [CHR 0x5C, CHR ''n'']
      else if n = 13 then [CHR 0x5C, CHR ''r''] else if n = 9 then [CHR 0x5C, CHR ''t'']
      else if n = 11 then [CHR 0x5C, CHR ''v'']
      else if n < 32 \<or> n = 127 then
        [CHR 0x5C, CHR ''x'', char_of (48 + n div 16),
         char_of (if n mod 16 < 10 then 48 + n mod 16 else 87 + n mod 16)]
      else [c])"

definition quote_q :: "string \<Rightarrow> string" where
  "quote_q s = [CHR 0x22] @ concat (map q_char s) @ [CHR 0x22]"

definition error_text :: "int \<Rightarrow> string \<Rightarrow> string" where
  "error_text code reason = ''Exception ('' @ dec_int code @ '') Reason: '' @ quote_q reason"

text \<open>\<^verbatim>\<open>NewError\<close>: the reason from an error, a string, or neither.\<close>

definition NewError :: "int \<Rightarrow> 'a dyn go_value \<Rightarrow> 'a dyn" where
  "NewError code err =
     CodeError code (case err of
        GApp (PlainError s) \<Rightarrow> s
      | GApp (CodeError c r) \<Rightarrow> error_text c r
      | GString s \<Rightarrow> s
      | _ \<Rightarrow> ''unknow error'')"

lemma error_text_nonempty [simp]: "error_text c r \<noteq> []"
  by (simp add: error_text_def)

end
