(* ===== verification/Lodos_Maps.thy ===== *)
theory Lodos_Maps
  imports Lodos_Values "HOL-Library.AList" "HOL-Library.Multiset"
begin

text \<open>
  The lock-protected maps of \<^verbatim>\<open>utils\<close>: the two \<^verbatim>\<open>BeeMap\<close>s (\<^verbatim>\<open>utils/safemap.go\<close>,
  \<^verbatim>\<open>utils/safemap/safemap.go\<close>), their string versions, and the sharded \<^verbatim>\<open>ConcurrentMap\<close> of
  \<^verbatim>\<open>utils/concurrent-map.go\<close>; and the interface of a map that the components using them rely on.
\<close>

section \<open>The interface of a map\<close>

locale store =
  fixes lookup :: "'m \<Rightarrow> 'k \<Rightarrow> 'v option"
    and update :: "'k \<Rightarrow> 'v \<Rightarrow> 'm \<Rightarrow> 'm"
    and delete :: "'k \<Rightarrow> 'm \<Rightarrow> 'm"
    and inv :: "'m \<Rightarrow> bool"
  assumes lookup_update: "inv m \<Longrightarrow> lookup (update k v m) = (lookup m)(k \<mapsto> v)"
    and lookup_delete: "inv m \<Longrightarrow> lookup (delete k m) = (lookup m)(k := None)"
    and inv_update: "inv m \<Longrightarrow> inv (update k v m)"
    and inv_delete: "inv m \<Longrightarrow> inv (delete k m)"
begin

text \<open>A sequence of writes, each a set or (with \<^const>\<open>None\<close>) a removal.\<close>

definition put_one :: "'k \<times> 'v option \<Rightarrow> 'm \<Rightarrow> 'm" where
  "put_one w m = (case w of (k, Some v) \<Rightarrow> update k v m | (k, None) \<Rightarrow> delete k m)"

definition writes :: "('k \<times> 'v option) list \<Rightarrow> 'm \<Rightarrow> 'm" where
  "writes ws m = fold put_one ws m"

lemma inv_writes: "inv m \<Longrightarrow> inv (writes ws m)"
  unfolding writes_def
  by (induction ws arbitrary: m) (auto simp: put_one_def inv_update inv_delete split: option.splits prod.splits)

lemma lookup_writes: "inv m \<Longrightarrow> lookup (writes ws m) = fold (\<lambda>(k, v) f. f(k := v)) ws (lookup m)"
  unfolding writes_def
  by (induction ws arbitrary: m)
    (auto simp: put_one_def lookup_update lookup_delete inv_update inv_delete split: option.splits prod.splits)

text \<open>The last write of a key decides, and writes of other keys do not matter.\<close>

lemma lookup_last_write:
  assumes "inv m" "k \<notin> fst ` set late"
  shows "lookup (writes (early @ (k, v) # late) m) k = v"
proof -
  have "fold (\<lambda>(k, v) f. f(k := v)) late f k = f k" for f :: "'k \<Rightarrow> 'v option"
    using assms(2) by (induction late arbitrary: f) auto
  then show ?thesis using assms(1) by (simp add: lookup_writes)
qed

lemma writes_commute:
  "inv m \<Longrightarrow> j \<noteq> k \<Longrightarrow> lookup (writes [(j, a), (k, b)] m) = lookup (writes [(k, b), (j, a)] m)"
  by (simp add: lookup_writes fun_upd_twist)

end

section \<open>BeeMap\<close>

text \<open>
  A \<^verbatim>\<open>BeeMap\<close> with its lock: the map, the readers that hold the lock and whether a writer
  does. A call returns, panics, or waits for ever when the lock it needs is never given back.
\<close>

record ('k, 'v) beemap =
  bm :: "'k \<Rightarrow> 'v option"
  readers :: nat
  writer_in :: bool

datatype ('a, 'm) bm_result = Returns 'a 'm | Panics 'm | Waits

definition NewBeeMap :: "('k, 'v) beemap" where
  "NewBeeMap = \<lparr>bm = Map.empty, readers = 0, writer_in = False\<rparr>"

text \<open>
  \<open>read_locked\<close> and \<open>write_locked\<close>: the body of a method between its lock and its unlock. A
  body that panics (an unhashable key, an uncomparable value) leaves the lock taken unless
  the unlock was deferred.
\<close>

definition read_locked ::
  "(('k \<Rightarrow> 'v option) \<Rightarrow> 'a outcome) \<Rightarrow> ('k, 'v) beemap \<Rightarrow> ('a, ('k, 'v) beemap) bm_result" where
  "read_locked body m =
     (if writer_in m then Waits
      else case body (bm m) of Done a \<Rightarrow> Returns a m
        | Panic s \<Rightarrow> Panics (m\<lparr>readers := readers m + 1\<rparr>))"

definition write_locked ::
  "bool \<Rightarrow> (('k \<Rightarrow> 'v option) \<Rightarrow> ('a \<times> ('k \<Rightarrow> 'v option)) outcome) \<Rightarrow> ('k, 'v) beemap
    \<Rightarrow> ('a, ('k, 'v) beemap) bm_result" where
  "write_locked deferred body m =
     (if writer_in m \<or> readers m > 0 then Waits
      else case body (bm m) of Done (a, f) \<Rightarrow> Returns a (m\<lparr>bm := f\<rparr>)
        | Panic s \<Rightarrow> Panics (m\<lparr>writer_in := \<not> deferred\<rparr>))"

text \<open>The access \<^verbatim>\<open>m.bm[k]\<close>: hashing a slice, map or function key panics.\<close>

definition key_access :: "('k \<Rightarrow> bool) \<Rightarrow> 'k \<Rightarrow> 'a \<Rightarrow> 'a outcome" where
  "key_access hashable k a = (if hashable k then Done a else Panic ''hash of unhashable type'')"

definition bee_Get :: "('k \<Rightarrow> bool) \<Rightarrow> 'k \<Rightarrow> ('k, 'v) beemap \<Rightarrow> ('v option, ('k, 'v) beemap) bm_result" where
  "bee_Get hashable k m = read_locked (\<lambda>f. key_access hashable k (f k)) m"

definition bee_Check :: "('k \<Rightarrow> bool) \<Rightarrow> 'k \<Rightarrow> ('k, 'v) beemap \<Rightarrow> (bool, ('k, 'v) beemap) bm_result" where
  "bee_Check hashable k m = read_locked (\<lambda>f. key_access hashable k (f k \<noteq> None)) m"

text \<open>\<^verbatim>\<open>Set\<close>: a present value is compared with \<^verbatim>\<open>!=\<close> before it is replaced.\<close>

definition set_body ::
  "('k \<Rightarrow> bool) \<Rightarrow> ('v \<Rightarrow> 'v \<Rightarrow> bool outcome) \<Rightarrow> 'k \<Rightarrow> 'v \<Rightarrow> ('k \<Rightarrow> 'v option)
    \<Rightarrow> (bool \<times> ('k \<Rightarrow> 'v option)) outcome" where
  "set_body hashable veq k v f =
     outcome_bind (key_access hashable k (f k))
       (\<lambda>x. case x of None \<Rightarrow> Done (True, f(k \<mapsto> v))
         | Some val \<Rightarrow> outcome_bind (veq val v)
             (\<lambda>same. if \<not> same then Done (True, f(k \<mapsto> v)) else Done (False, f)))"

text \<open>\<open>deferred\<close> is False for \<^verbatim>\<open>utils.BeeMap\<close> and True for \<^verbatim>\<open>safemap.BeeMap\<close>.\<close>

definition bee_Set ::
  "bool \<Rightarrow> ('k \<Rightarrow> bool) \<Rightarrow> ('v \<Rightarrow> 'v \<Rightarrow> bool outcome) \<Rightarrow> 'k \<Rightarrow> 'v \<Rightarrow> ('k, 'v) beemap
    \<Rightarrow> (bool, ('k, 'v) beemap) bm_result" where
  "bee_Set deferred hashable veq k v m = write_locked deferred (set_body hashable veq k v) m"

definition bee_Delete :: "('k \<Rightarrow> bool) \<Rightarrow> 'k \<Rightarrow> ('k, 'v) beemap \<Rightarrow> (unit, ('k, 'v) beemap) bm_result" where
  "bee_Delete hashable k m = write_locked False (\<lambda>f. key_access hashable k ((), f(k := None))) m"

definition bee_DeleteAll :: "('k, 'v) beemap \<Rightarrow> (unit, ('k, 'v) beemap) bm_result" where
  "bee_DeleteAll m = write_locked False (\<lambda>f. Done ((), Map.empty)) m"

definition bee_Items :: "('k, 'v) beemap \<Rightarrow> ('k \<Rightarrow> 'v option, ('k, 'v) beemap) bm_result" where
  "bee_Items m = read_locked (\<lambda>f. Done f) m"

text \<open>A map whose lock is free.\<close>

definition bee_free :: "('k, 'v) beemap \<Rightarrow> bool" where
  "bee_free m \<longleftrightarrow> readers m = 0 \<and> \<not> writer_in m"

text \<open>With keys that hash and values that compare, the calls return: \<^verbatim>\<open>Set\<close> and \<^verbatim>\<open>Delete\<close> as updates.\<close>

definition bee_set :: "'k \<Rightarrow> 'v \<Rightarrow> ('k, 'v) beemap \<Rightarrow> ('k, 'v) beemap" where
  "bee_set k v m = (case bee_Set True (\<lambda>k. True) (\<lambda>a b. Done (a = b)) k v m of Returns b m' \<Rightarrow> m'
     | Panics m' \<Rightarrow> m' | Waits \<Rightarrow> m)"

definition bee_delete :: "'k \<Rightarrow> ('k, 'v) beemap \<Rightarrow> ('k, 'v) beemap" where
  "bee_delete k m = (case bee_Delete (\<lambda>k. True) k m of Returns u m' \<Rightarrow> m' | Panics m' \<Rightarrow> m' | Waits \<Rightarrow> m)"

lemma bee_set_simp [store_simps]:
  "bee_free m \<Longrightarrow> bee_set k v m = m\<lparr>bm := (bm m)(k \<mapsto> v)\<rparr>"
  by (auto simp: bee_set_def bee_Set_def write_locked_def set_body_def key_access_def bee_free_def
      fun_upd_idem split: option.splits)

lemma bee_delete_simp [store_simps]:
  "bee_free m \<Longrightarrow> bee_delete k m = m\<lparr>bm := (bm m)(k := None)\<rparr>"
  by (simp add: bee_delete_def bee_Delete_def write_locked_def key_access_def bee_free_def)

interpretation bee: store bm bee_set bee_delete bee_free
  by unfold_locales (simp_all add: store_simps, simp_all add: bee_free_def)

section \<open>The string maps\<close>

text \<open>
  \<^verbatim>\<open>BeeMap4String\<close> and \<^verbatim>\<open>BeeMap4MapStr\<close>: their keys always hash and no value is compared, so
  every call returns and a map is just its contents. \<^verbatim>\<open>Get\<close> of an absent key is the empty
  string. The inner maps are shared by reference: \<open>heap\<close> gives each its contents.
\<close>

type_synonym bee4s = "string \<Rightarrow> string option"

definition b4s_Get :: "bee4s \<Rightarrow> string \<Rightarrow> string" where
  "b4s_Get m k = (case m k of Some v \<Rightarrow> v | None \<Rightarrow> [])"

definition b4s_Set :: "string \<Rightarrow> string \<Rightarrow> bee4s \<Rightarrow> bee4s" where
  "b4s_Set k v m = m(k \<mapsto> v)"

definition b4s_Check :: "bee4s \<Rightarrow> string \<Rightarrow> bool" where
  "b4s_Check m k = (case m k of Some v \<Rightarrow> True | None \<Rightarrow> False)"

definition b4s_Delete :: "string \<Rightarrow> bee4s \<Rightarrow> bee4s" where
  "b4s_Delete k m = m(k := None)"

definition b4s_Items :: "bee4s \<Rightarrow> bee4s" where
  "b4s_Items m = m"

type_synonym bee4m = "string \<Rightarrow> nat option"

definition b4m_Get :: "bee4m \<Rightarrow> string \<Rightarrow> nat option" where
  "b4m_Get m k = m k"

definition b4m_Set :: "string \<Rightarrow> nat \<Rightarrow> bee4m \<Rightarrow> bee4m" where
  "b4m_Set k p m = m(k \<mapsto> p)"

definition b4m_Check :: "bee4m \<Rightarrow> string \<Rightarrow> bool" where
  "b4m_Check m k = (case m k of Some p \<Rightarrow> True | None \<Rightarrow> False)"

definition b4m_Delete :: "string \<Rightarrow> bee4m \<Rightarrow> bee4m" where
  "b4m_Delete k m = m(k := None)"

definition b4m_Items :: "(nat \<Rightarrow> bee4s) \<Rightarrow> bee4m \<Rightarrow> string \<Rightarrow> bee4s option" where
  "b4m_Items heap m k = map_option heap (m k)"

interpretation b4s: store "\<lambda>m. m" b4s_Set b4s_Delete "\<lambda>m. True"
  by unfold_locales (simp_all add: b4s_Set_def b4s_Delete_def)

interpretation b4m: store b4m_Get b4m_Set b4m_Delete "\<lambda>m. True"
  by unfold_locales (simp_all add: b4m_Set_def b4m_Delete_def b4m_Get_def fun_eq_iff)

section \<open>ConcurrentMap\<close>

text \<open>
  The shards, each an association list without repeated keys; its order is the order in which
  a Go loop over the shard happens to meet the keys. Every method but the iterating ones
  holds the one shard's lock for its whole body, so each is one atomic step.
\<close>

type_synonym 'v shard = "(string \<times> 'v) list"
type_synonym 'v cmap = "'v shard list"

definition SHARD_COUNT :: nat where "SHARD_COUNT = 32"

definition fnv32 :: "string \<Rightarrow> 32 word" where
  "fnv32 key = foldl (\<lambda>hash c. (hash * 16777619) XOR word_of_nat (of_char c)) 2166136261 key"

definition cm_New :: "'v cmap" where
  "cm_New = replicate SHARD_COUNT []"

definition shard_of :: "string \<Rightarrow> nat" where
  "shard_of key = unat (fnv32 key) mod SHARD_COUNT"

definition GetShard :: "'v cmap \<Rightarrow> string \<Rightarrow> 'v shard" where
  "GetShard m key = m ! shard_of key"

definition put_shard :: "string \<Rightarrow> 'v shard \<Rightarrow> 'v cmap \<Rightarrow> 'v cmap" where
  "put_shard key s m = m[shard_of key := s]"

definition cm_Set :: "string \<Rightarrow> 'v \<Rightarrow> 'v cmap \<Rightarrow> 'v cmap" where
  "cm_Set key v m = put_shard key (AList.update key v (GetShard m key)) m"

text \<open>\<^verbatim>\<open>MSet\<close>, over the data in the order the loop meets it.\<close>

definition cm_MSet :: "(string \<times> 'v) list \<Rightarrow> 'v cmap \<Rightarrow> 'v cmap" where
  "cm_MSet data m = fold (\<lambda>(k, v). cm_Set k v) data m"

definition cm_Get :: "'v cmap \<Rightarrow> string \<Rightarrow> 'v option" where
  "cm_Get m key = map_of (GetShard m key) key"

definition cm_Has :: "'v cmap \<Rightarrow> string \<Rightarrow> bool" where
  "cm_Has m key = (case map_of (GetShard m key) key of Some v \<Rightarrow> True | None \<Rightarrow> False)"

definition cm_Upsert ::
  "string \<Rightarrow> 'v \<Rightarrow> ('v option \<Rightarrow> 'v \<Rightarrow> 'v) \<Rightarrow> 'v cmap \<Rightarrow> 'v \<times> 'v cmap" where
  "cm_Upsert key value cb m =
     (let s = GetShard m key; res = cb (map_of s key) value
      in (res, put_shard key (AList.update key res s) m))"

definition cm_SetIfAbsent :: "string \<Rightarrow> 'v \<Rightarrow> 'v cmap \<Rightarrow> bool \<times> 'v cmap" where
  "cm_SetIfAbsent key value m =
     (let s = GetShard m key in
      case map_of s key of
        None \<Rightarrow> (True, put_shard key (AList.update key value s) m)
      | Some v \<Rightarrow> (False, m))"

definition cm_Remove :: "string \<Rightarrow> 'v cmap \<Rightarrow> 'v cmap" where
  "cm_Remove key m = put_shard key (AList.delete key (GetShard m key)) m"

definition cm_RemoveCb :: "string \<Rightarrow> (string \<Rightarrow> 'v option \<Rightarrow> bool) \<Rightarrow> 'v cmap \<Rightarrow> bool \<times> 'v cmap" where
  "cm_RemoveCb key cb m =
     (let s = GetShard m key; v = map_of s key; remove = cb key v
      in (remove, if remove \<and> v \<noteq> None then put_shard key (AList.delete key s) m else m))"

definition cm_Pop :: "string \<Rightarrow> 'v cmap \<Rightarrow> 'v option \<times> 'v cmap" where
  "cm_Pop key m =
     (let s = GetShard m key in (map_of s key, put_shard key (AList.delete key s) m))"

definition cm_Count :: "'v cmap \<Rightarrow> nat" where
  "cm_Count m = foldl (\<lambda>count i. count + length (m ! i)) 0 [0..<SHARD_COUNT]"

definition cm_IsEmpty :: "'v cmap \<Rightarrow> bool" where
  "cm_IsEmpty m = (cm_Count m = 0)"

text \<open>
  \<^verbatim>\<open>snapshot\<close>, \<^verbatim>\<open>fanIn\<close>: one channel per shard holds its entries; one goroutine per channel
  moves them to the output, so what comes out is some interleaving of the channels.
\<close>

definition snapshot :: "'v cmap \<Rightarrow> (string \<times> 'v) list list" where
  "snapshot m = m"

inductive fan_in :: "'a list list \<Rightarrow> 'a list \<Rightarrow> bool" where
  finished: "\<forall>ch \<in> set chans. ch = [] \<Longrightarrow> fan_in chans []"
| moved: "i < length chans \<Longrightarrow> chans ! i = x # rest \<Longrightarrow> fan_in (chans[i := rest]) out
    \<Longrightarrow> fan_in chans (x # out)"

inductive_cases fan_in_ConsE: "fan_in chans (x # out)"
inductive_simps fan_in_Nil: "fan_in chans []"

text \<open>\<^verbatim>\<open>Items\<close> and \<^verbatim>\<open>Keys\<close> from the order the tuples arrive in, \<^verbatim>\<open>IterCb\<close> shard by shard.\<close>

definition cm_Items :: "(string \<times> 'v) list \<Rightarrow> string \<Rightarrow> 'v option" where
  "cm_Items out = fold (\<lambda>(k, v) tmp. tmp(k \<mapsto> v)) out Map.empty"

definition cm_Keys :: "(string \<times> 'v) list \<Rightarrow> string list" where
  "cm_Keys out = map fst out"

definition cm_IterCb :: "(string \<Rightarrow> 'v \<Rightarrow> 's \<Rightarrow> 's) \<Rightarrow> 'v cmap \<Rightarrow> 's \<Rightarrow> 's" where
  "cm_IterCb f m s = fold (\<lambda>shard. fold (\<lambda>(k, v). f k v) shard) m s"

section \<open>The sharded map is a map\<close>

definition cm_inv :: "'v cmap \<Rightarrow> bool" where
  "cm_inv m \<longleftrightarrow> length m = SHARD_COUNT
     \<and> (\<forall>i < SHARD_COUNT. distinct (map fst (m ! i)) \<and> (\<forall>k \<in> fst ` set (m ! i). shard_of k = i))"

lemma shard_of_less [simp]: "shard_of k < SHARD_COUNT"
  by (simp add: shard_of_def SHARD_COUNT_def)

lemma put_shard_inv:
  assumes "cm_inv m" "distinct (map fst s)" "\<forall>j \<in> fst ` set s. shard_of j = shard_of k"
  shows "cm_inv (put_shard k s m)"
  using assms by (auto simp: cm_inv_def put_shard_def nth_list_update)

lemma GetShard_put [simp]:
  "length m = SHARD_COUNT \<Longrightarrow>
    GetShard (put_shard k s m) j = (if shard_of j = shard_of k then s else GetShard m j)"
  by (simp add: GetShard_def put_shard_def nth_list_update)

lemma GetShard_distinct: "cm_inv m \<Longrightarrow> distinct (map fst (GetShard m k))"
  by (simp add: cm_inv_def GetShard_def)

lemma key_shard:
  "cm_inv m \<Longrightarrow> i < SHARD_COUNT \<Longrightarrow> k \<in> fst ` set (m ! i) \<Longrightarrow> shard_of k = i"
  unfolding cm_inv_def by blast

lemma GetShard_keys: "cm_inv m \<Longrightarrow> j \<in> fst ` set (GetShard m k) \<Longrightarrow> shard_of j = shard_of k"
  unfolding GetShard_def by (rule key_shard) simp_all

lemma GetShard_cong: "shard_of j = shard_of k \<Longrightarrow> GetShard m j = GetShard m k"
  by (simp add: GetShard_def)

lemma keys_delete: "fst ` set (AList.delete k s) = fst ` set s - {k}"
  using delete_keys [of k s] by (metis list.set_map set_removeAll)

lemma cm_inv_length: "cm_inv m \<Longrightarrow> length m = SHARD_COUNT"
  by (simp add: cm_inv_def)

lemma cm_inv_New [inv_intros]: "cm_inv cm_New"
  by (simp add: cm_inv_def cm_New_def)

lemma cm_inv_Set [inv_intros]: "cm_inv m \<Longrightarrow> cm_inv (cm_Set k v m)"
  unfolding cm_Set_def
  by (rule put_shard_inv)
    (auto simp: GetShard_distinct distinct_update dom_update dest: GetShard_keys)

lemma cm_inv_Remove [inv_intros]: "cm_inv m \<Longrightarrow> cm_inv (cm_Remove k m)"
  unfolding cm_Remove_def
  by (rule put_shard_inv)
    (simp_all add: GetShard_distinct distinct_delete keys_delete, auto dest: GetShard_keys)

lemma cm_Get_Set [store_simps]: "cm_inv m \<Longrightarrow> cm_Get (cm_Set k v m) = (cm_Get m)(k \<mapsto> v)"
  by (rule ext)
    (auto simp: cm_Get_def cm_Set_def cm_inv_length update_conv' dest: GetShard_cong [of _ k m])

lemma cm_Get_Remove [store_simps]: "cm_inv m \<Longrightarrow> cm_Get (cm_Remove k m) = (cm_Get m)(k := None)"
  by (rule ext)
    (auto simp: cm_Get_def cm_Remove_def cm_inv_length delete_conv' dest: GetShard_cong [of _ k m])

interpretation cm: store cm_Get cm_Set cm_Remove cm_inv
  by unfold_locales (simp_all add: store_simps inv_intros)

text \<open>The other methods in terms of set and remove.\<close>

lemma cm_SetIfAbsent_spec:
  "cm_SetIfAbsent k v m = (case cm_Get m k of None \<Rightarrow> (True, cm_Set k v m) | Some _ \<Rightarrow> (False, m))"
  by (simp add: cm_SetIfAbsent_def cm_Get_def cm_Set_def Let_def split: option.split)

lemma cm_Upsert_spec:
  "cm_Upsert k v cb m = (cb (cm_Get m k) v, cm_Set k (cb (cm_Get m k) v) m)"
  by (simp add: cm_Upsert_def cm_Get_def cm_Set_def Let_def)

lemma cm_Pop_spec: "cm_Pop k m = (cm_Get m k, cm_Remove k m)"
  by (simp add: cm_Pop_def cm_Get_def cm_Remove_def Let_def)

lemma cm_RemoveCb_spec:
  "cm_RemoveCb k cb m = (cb k (cm_Get m k),
     if cb k (cm_Get m k) \<and> cm_Get m k \<noteq> None then cm_Remove k m else m)"
  by (auto simp: cm_RemoveCb_def cm_Get_def cm_Remove_def Let_def)

lemma cm_Has_spec: "cm_Has m k \<longleftrightarrow> cm_Get m k \<noteq> None"
  by (simp add: cm_Has_def cm_Get_def split: option.split)

lemma cm_MSet_spec:
  "cm_inv m \<Longrightarrow> cm_inv (cm_MSet data m) \<and> cm_Get (cm_MSet data m) = cm_Get m ++ map_of (rev data)"
proof (induction data arbitrary: m)
  case Nil
  then show ?case by (simp add: cm_MSet_def)
next
  case (Cons d data)
  obtain k v where d: "d = (k, v)" by (cases d)
  have "cm_MSet (d # data) m = cm_MSet data (cm_Set k v m)" by (simp add: cm_MSet_def d)
  with Cons.IH [OF cm_inv_Set [OF Cons.prems]] Cons.prems show ?case
    by (simp add: cm_Get_Set d map_add_assoc [symmetric] fun_eq_iff map_add_def split: option.split)
qed

text \<open>Entries across the shards.\<close>

lemma cm_concat_distinct:
  assumes "cm_inv m"
  shows "distinct (map fst (concat m))"
proof -
  have "distinct (map fst (concat (take n m)))" if "n \<le> SHARD_COUNT" for n
    using that
  proof (induction n)
    case 0
    then show ?case by simp
  next
    case (Suc n)
    then have n: "n < length m" "n < SHARD_COUNT" using assms by (auto simp: cm_inv_def)
    have "fst ` set (concat (take n m)) \<inter> fst ` set (m ! n) = {}"
    proof (rule ccontr)
      assume "\<not> ?thesis"
      then obtain k s where k: "k \<in> fst ` set (m ! n)" "s \<in> set (take n m)" "k \<in> fst ` set s"
        by auto
      then obtain i where i: "i < n" "s = m ! i" using n(1) by (auto simp: in_set_conv_nth)
      have "shard_of k = n" using assms n(2) k(1) by (rule key_shard)
      moreover have "shard_of k = i" using assms less_trans [OF i(1) n(2)] k(3) [unfolded i(2)]
        by (rule key_shard)
      ultimately have "n = i" by simp
      with i(1) show False by simp
    qed
    moreover have "distinct (map fst (concat (take n m)))" using Suc by simp
    moreover have "distinct (map fst (m ! n))" using assms n(2) by (simp add: cm_inv_def)
    ultimately show ?case using n(1)
      by (simp only: take_Suc_conv_app_nth concat_append map_append distinct_append concat.simps
          append_Nil2 set_map simp_thms)
  qed
  from this [of SHARD_COUNT] assms show ?thesis by (simp add: cm_inv_def)
qed

lemma cm_entries:
  assumes "cm_inv m"
  shows "(k, v) \<in> set (concat m) \<longleftrightarrow> cm_Get m k = Some v"
proof
  assume "(k, v) \<in> set (concat m)"
  then obtain s where "s \<in> set m" "(k, v) \<in> set s" by auto
  then obtain i where i: "i < length m" "(k, v) \<in> set (m ! i)" by (metis in_set_conv_nth)
  have "shard_of k = i"
    by (rule key_shard [OF assms]) (use i assms in \<open>force simp: cm_inv_def\<close>)+
  with i assms show "cm_Get m k = Some v"
    using GetShard_distinct [OF assms, of k] by (simp add: cm_Get_def GetShard_def)
next
  assume "cm_Get m k = Some v"
  then have "(k, v) \<in> set (m ! shard_of k)"
    by (auto simp: cm_Get_def GetShard_def dest: map_of_SomeD)
  with assms show "(k, v) \<in> set (concat m)"
    by (auto simp: cm_inv_def intro: nth_mem)
qed

lemma cm_Count_concat: "length m = SHARD_COUNT \<Longrightarrow> cm_Count m = length (concat m)"
proof -
  have "foldl (\<lambda>c i. c + length (m ! i)) a [0..<n] = a + length (concat (take n m))"
    if "n \<le> length m" for a n
    using that by (induction n) (simp_all add: take_Suc_conv_app_nth)
  from this [of SHARD_COUNT 0] show "length m = SHARD_COUNT \<Longrightarrow> ?thesis"
    by (simp add: cm_Count_def)
qed

lemma fan_in_mset: "fan_in chans out \<Longrightarrow> mset out = mset (concat chans)"
proof (induction rule: fan_in.induct)
  case (finished chans)
  then show ?case by (induction chans) auto
next
  case (moved i chans x rest out)
  have "chans = take i chans @ (x # rest) # drop (Suc i) chans"
    using moved.hyps(1,2) by (metis id_take_nth_drop)
  then have "mset (concat chans) = add_mset x (mset (concat (take i chans @ rest # drop (Suc i) chans)))"
    by (metis (no_types, lifting) add_mset_add_single append_Cons concat.simps(2) concat_append mset.simps(2)
        mset_append union_mset_add_mset_left union_mset_add_mset_right)
  moreover have "chans[i := rest] = take i chans @ rest # drop (Suc i) chans"
    using moved.hyps(1) by (simp add: upd_conv_take_nth_drop)
  ultimately show ?case using moved.IH by simp
qed

lemma fold_upd_map_of:
  "distinct (map fst xs) \<Longrightarrow> fold (\<lambda>(k, v) f. f(k \<mapsto> v)) xs f = f ++ map_of xs"
proof (induction xs arbitrary: f)
  case Nil
  then show ?case by simp
next
  case (Cons x xs)
  obtain k v where x: "x = (k, v)" by (cases x)
  with Cons.prems have "map_of xs k = None" by (simp add: map_of_eq_None_iff)
  with Cons x show ?case by (simp add: fun_eq_iff map_add_def split: option.split)
qed

section \<open>Runs of the sharded map\<close>

text \<open>The calls that change or look at one key, on the sharded map and on a plain one.\<close>

datatype 'v cm_call =
    CallSet string 'v | CallSetIfAbsent string 'v | CallUpsert string 'v "'v option \<Rightarrow> 'v \<Rightarrow> 'v"
  | CallRemove string | CallRemoveCb string "string \<Rightarrow> 'v option \<Rightarrow> bool" | CallPop string
  | CallGet string | CallHas string | CallMSet "(string \<times> 'v) list"

datatype 'v cm_answer = Nothing | ABool bool | AVal 'v | AOpt "'v option"

fun do_call :: "'v cm_call \<Rightarrow> 'v cmap \<Rightarrow> 'v cm_answer \<times> 'v cmap" where
  "do_call (CallSet k v) m = (Nothing, cm_Set k v m)"
| "do_call (CallSetIfAbsent k v) m = (case cm_SetIfAbsent k v m of (b, m) \<Rightarrow> (ABool b, m))"
| "do_call (CallUpsert k v cb) m = (case cm_Upsert k v cb m of (r, m) \<Rightarrow> (AVal r, m))"
| "do_call (CallRemove k) m = (Nothing, cm_Remove k m)"
| "do_call (CallRemoveCb k cb) m = (case cm_RemoveCb k cb m of (b, m) \<Rightarrow> (ABool b, m))"
| "do_call (CallPop k) m = (case cm_Pop k m of (v, m) \<Rightarrow> (AOpt v, m))"
| "do_call (CallGet k) m = (AOpt (cm_Get m k), m)"
| "do_call (CallHas k) m = (ABool (cm_Has m k), m)"
| "do_call (CallMSet d) m = (Nothing, cm_MSet d m)"

fun map_call :: "'v cm_call \<Rightarrow> (string \<Rightarrow> 'v option) \<Rightarrow> 'v cm_answer \<times> (string \<Rightarrow> 'v option)" where
  "map_call (CallSet k v) f = (Nothing, f(k \<mapsto> v))"
| "map_call (CallSetIfAbsent k v) f = (if f k = None then (ABool True, f(k \<mapsto> v)) else (ABool False, f))"
| "map_call (CallUpsert k v cb) f = (AVal (cb (f k) v), f(k \<mapsto> cb (f k) v))"
| "map_call (CallRemove k) f = (Nothing, f(k := None))"
| "map_call (CallRemoveCb k cb) f = (ABool (cb k (f k)), if cb k (f k) then f(k := None) else f)"
| "map_call (CallPop k) f = (AOpt (f k), f(k := None))"
| "map_call (CallGet k) f = (AOpt (f k), f)"
| "map_call (CallHas k) f = (ABool (f k \<noteq> None), f)"
| "map_call (CallMSet d) f = (Nothing, f ++ map_of (rev d))"

fun calls :: "('c \<Rightarrow> 's \<Rightarrow> 'r \<times> 's) \<Rightarrow> 'c list \<Rightarrow> 's \<Rightarrow> 'r list \<times> 's" where
  "calls f [] s = ([], s)"
| "calls f (c # cs) s = (case f c s of (r, s) \<Rightarrow> case calls f cs s of (rs, s) \<Rightarrow> (r # rs, s))"

lemma do_call_refines:
  assumes "cm_inv m"
  shows "fst (do_call c m) = fst (map_call c (cm_Get m)) \<and> cm_inv (snd (do_call c m))
    \<and> cm_Get (snd (do_call c m)) = snd (map_call c (cm_Get m))"
  using assms
  by (cases c)
    (auto simp: cm_SetIfAbsent_spec cm_Upsert_spec cm_Pop_spec cm_RemoveCb_spec cm_Has_spec
      cm_MSet_spec inv_intros store_simps fun_upd_idem split: option.splits)

lemma calls_refine:
  "cm_inv m \<Longrightarrow> fst (calls do_call cs m) = fst (calls map_call cs (cm_Get m))
    \<and> cm_inv (snd (calls do_call cs m))
    \<and> cm_Get (snd (calls do_call cs m)) = snd (calls map_call cs (cm_Get m))"
proof (induction cs arbitrary: m)
  case Nil
  then show ?case by simp
next
  case (Cons c cs)
  note r = do_call_refines [OF Cons.prems, of c]
  with Cons.IH [of "snd (do_call c m)"] show ?case by (auto split: prod.splits)
qed

lemma cm_Get_New: "cm_Get cm_New = Map.empty"
proof
  fix k
  have "cm_New ! shard_of k = ([] :: 'a shard)" by (simp add: cm_New_def)
  then show "cm_Get cm_New k = (None :: 'a option)" by (simp add: cm_Get_def GetShard_def)
qed

section \<open>Properties\<close>

text \<open>
  C8: The sharded \<^verbatim>\<open>ConcurrentMap\<close> is a map: any sequence of its calls on a new map, \<^verbatim>\<open>MSet\<close> and
  the callbacks included, gives the answers a single unsharded map gives, and keeps every key
  in its own shard once.
\<close>

theorem sharded_map_is_a_map:
  "fst (calls do_call cs cm_New) = fst (calls map_call cs Map.empty)
    \<and> cm_Get (snd (calls do_call cs cm_New)) = snd (calls map_call cs Map.empty)
    \<and> cm_inv (snd (calls do_call cs cm_New))"
  using calls_refine [OF cm_inv_New, of cs] by (simp add: cm_Get_New)

text \<open>
  Iterating a \<^verbatim>\<open>ConcurrentMap\<close> gives its contents whatever the interleaving of the shards'
  goroutines: \<^verbatim>\<open>Items\<close> is the map, \<^verbatim>\<open>Keys\<close> its keys without repetition, \<^verbatim>\<open>Count\<close> their number,
  and \<^verbatim>\<open>IsEmpty\<close> says whether there are none.
\<close>

theorem iteration_gives_contents:
  assumes "cm_inv m" "fan_in (snapshot m) out"
  shows "cm_Items out = cm_Get m \<and> set (cm_Keys out) = dom (cm_Get m) \<and> distinct (cm_Keys out)
    \<and> cm_Count m = card (dom (cm_Get m)) \<and> (cm_IsEmpty m \<longleftrightarrow> cm_Get m = Map.empty)"
proof -
  have perm: "mset out = mset (concat m)" using fan_in_mset [OF assms(2)] by (simp add: snapshot_def)
  then have set: "set out = set (concat m)" by (rule mset_eq_setD)
  have "mset (map fst out) = mset (map fst (concat m))"
    by (simp only: mset_map perm)
  then have d: "distinct (map fst out)"
    using cm_concat_distinct [OF assms(1)] mset_eq_imp_distinct_iff by blast
  have look: "map_of out = cm_Get m"
  proof (rule ext, rule option.expand)
    fix k
    show "(map_of out k = None) = (cm_Get m k = None)"
    proof
      assume none: "map_of out k = None"
      show "cm_Get m k = None"
      proof (rule ccontr)
        assume "cm_Get m k \<noteq> None"
        then obtain v where "(k, v) \<in> set out" using cm_entries [OF assms(1)] set by blast
        with none show False by (metis map_of_eq_None_iff fst_conv image_eqI)
      qed
    next
      assume none: "cm_Get m k = None"
      show "map_of out k = None"
      proof (rule ccontr)
        assume "map_of out k \<noteq> None"
        then obtain v where "(k, v) \<in> set out" by (blast dest: map_of_SomeD)
        with none show False using cm_entries [OF assms(1)] set by simp
      qed
    qed
    assume "map_of out k \<noteq> None"
    then obtain v where v: "map_of out k = Some v" by blast
    then have "(k, v) \<in> set (concat m)" using set by (blast dest: map_of_SomeD)
    with v show "the (map_of out k) = the (cm_Get m k)" using cm_entries [OF assms(1)] by simp
  qed
  have items: "cm_Items out = cm_Get m"
    by (simp add: cm_Items_def fold_upd_map_of [OF d] look)
  have keys: "set (cm_Keys out) = dom (cm_Get m)"
    by (simp add: cm_Keys_def flip: look dom_map_of_conv_image_fst)
  have "cm_Count m = length (cm_Keys out)"
    by (simp only: cm_Count_concat [OF cm_inv_length [OF assms(1)]] cm_Keys_def length_map
        mset_eq_length [OF perm])
  also have "\<dots> = card (dom (cm_Get m))"
    using keys d distinct_card [of "cm_Keys out"] by (simp add: cm_Keys_def)
  finally have count: "cm_Count m = card (dom (cm_Get m))" .
  have "finite (dom (cm_Get m))" by (simp flip: keys)
  with count have "cm_IsEmpty m \<longleftrightarrow> cm_Get m = Map.empty" by (simp add: cm_IsEmpty_def)
  with items keys d count show ?thesis by (simp add: cm_Keys_def)
qed

definition two_entries :: "nat cmap" where
  "two_entries = cm_Set ''b'' 2 (cm_Set ''a'' 1 cm_New)"

lemma fan_in_empty: "fan_in chans out \<Longrightarrow> fan_in ([] # chans) out"
proof (induction rule: fan_in.induct)
  case (finished chans)
  then show ?case by (intro fan_in.finished) simp
next
  case (moved i chans x rest out)
  then show ?case by (intro fan_in.moved [of "Suc i" "[] # chans" x rest]) simp_all
qed

lemma fan_in_channel: "fan_in chans out \<Longrightarrow> fan_in (ch # chans) (ch @ out)"
proof (induction ch)
  case Nil
  then show ?case by (simp add: fan_in_empty)
next
  case (Cons x xs)
  then show ?case using fan_in.moved [of 0 "(x # xs) # chans" x xs "xs @ out"] by simp
qed

text \<open>One of the interleavings: shard after shard.\<close>

lemma fan_in_concat: "fan_in chans (concat chans)"
  by (induction chans) (simp_all add: fan_in_Nil fan_in_channel)

theorem iteration_gives_contents_witness:
  "cm_Items (concat two_entries) = cm_Get two_entries
    \<and> set (cm_Keys (concat two_entries)) = dom (cm_Get two_entries) \<and> distinct (cm_Keys (concat two_entries))
    \<and> cm_Count two_entries = card (dom (cm_Get two_entries))
    \<and> (cm_IsEmpty two_entries \<longleftrightarrow> cm_Get two_entries = Map.empty)"
  by (rule iteration_gives_contents)
    (simp_all add: two_entries_def inv_intros snapshot_def fan_in_concat)

text \<open>
  \<^verbatim>\<open>Set\<close> of a \<^verbatim>\<open>BeeMap\<close> returns true whenever it changes the map, also when it replaces the
  value of a present key (its comment says it then changes nothing), and false exactly when
  the value was already there; afterwards the key has the value. A value that cannot be
  compared panics, and only the version with the deferred unlock can be used afterwards.
\<close>

theorem bee_Set_cases:
  assumes "bee_free m"
  shows "bee_Set deferred (\<lambda>k. True) veq k v m =
    (case bm m k of None \<Rightarrow> Returns True (m\<lparr>bm := (bm m)(k \<mapsto> v)\<rparr>)
     | Some old \<Rightarrow> (case veq old v of
           Done True \<Rightarrow> Returns False m
         | Done False \<Rightarrow> Returns True (m\<lparr>bm := (bm m)(k \<mapsto> v)\<rparr>)
         | Panic s \<Rightarrow> Panics (m\<lparr>writer_in := \<not> deferred\<rparr>)))"
  using assms
  by (auto simp: bee_Set_def write_locked_def set_body_def key_access_def bee_free_def
      split: option.splits outcome.splits bool.splits)

theorem bee_Set_cases_witness:
  "bee_Set False (\<lambda>k. True) (go_eq (\<lambda>a b. Done (a = b))) ''k'' (GBytes [1])
      (NewBeeMap\<lparr>bm := [''k'' \<mapsto> GBytes [2 :: byte] :: nat go_value]\<rparr>) =
    (case bm (NewBeeMap\<lparr>bm := [''k'' \<mapsto> GBytes [2 :: byte] :: nat go_value]\<rparr>) ''k'' of
       None \<Rightarrow> Returns True (NewBeeMap\<lparr>bm := [''k'' \<mapsto> GBytes [2 :: byte] :: nat go_value]\<rparr>
         \<lparr>bm := (bm (NewBeeMap\<lparr>bm := [''k'' \<mapsto> GBytes [2 :: byte] :: nat go_value]\<rparr>))(''k'' \<mapsto> GBytes [1])\<rparr>)
     | Some old \<Rightarrow> (case go_eq (\<lambda>a b. Done (a = b)) old (GBytes [1]) of
           Done True \<Rightarrow> Returns False (NewBeeMap\<lparr>bm := [''k'' \<mapsto> GBytes [2 :: byte] :: nat go_value]\<rparr>)
         | Done False \<Rightarrow> Returns True (NewBeeMap\<lparr>bm := [''k'' \<mapsto> GBytes [2 :: byte] :: nat go_value]\<rparr>
             \<lparr>bm := (bm (NewBeeMap\<lparr>bm := [''k'' \<mapsto> GBytes [2 :: byte] :: nat go_value]\<rparr>))(''k'' \<mapsto> GBytes [1])\<rparr>)
         | Panic s \<Rightarrow> Panics (NewBeeMap\<lparr>bm := [''k'' \<mapsto> GBytes [2 :: byte] :: nat go_value]\<rparr>\<lparr>writer_in := \<not> False\<rparr>)))"
  by (rule bee_Set_cases) (simp add: bee_free_def NewBeeMap_def)

text \<open>
  After \<^verbatim>\<open>utils.BeeMap.Set\<close> has replaced a byte slice under a present key, the map is stuck:
  the call panicked with the lock held, and every later call of the map waits for ever.
\<close>

theorem bee_Set_uncomparable_blocks:
  "\<exists>m. bee_Set False (\<lambda>k. True) (go_eq app_eq) k (GBytes b)
        (NewBeeMap\<lparr>bm := [k \<mapsto> GBytes a]\<rparr>) = Panics m
    \<and> bee_Get h j m = Waits \<and> bee_Check h j m = Waits \<and> bee_Set d h veq j v m = Waits
    \<and> bee_Delete h j m = Waits \<and> bee_DeleteAll m = Waits \<and> bee_Items m = Waits"
  by (simp add: bee_Set_def write_locked_def set_body_def key_access_def NewBeeMap_def go_eq_def
      bee_Get_def bee_Check_def bee_Delete_def bee_DeleteAll_def bee_Items_def read_locked_def)

end
