(* ===== verification/Lodos_Args.thy ===== *)
theory Lodos_Args
  imports Lodos_Values
begin

text \<open>
  The argument codec of the RPC layer: the byte layouts of \<^verbatim>\<open>utils/params_bytes.go\<close> and the
  typed encoding of \<^verbatim>\<open>rpc/argsutil/argsutil.go\<close>. \<^verbatim>\<open>encoding/json\<close> and the serializers an
  application registers are parameters.
\<close>

section \<open>Byte layouts\<close>

definition BoolToBytes :: "bool \<Rightarrow> bytes" where
  "BoolToBytes v = (if v then [1] else [0])"

definition BytesToBool :: "bytes \<Rightarrow> bool outcome" where
  "BytesToBool buf = (case buf of [] \<Rightarrow> Panic ''index out of range'' | b # _ \<Rightarrow> Done (b \<noteq> 0))"

text \<open>\<^verbatim>\<open>binary.Uint32\<close> and \<^verbatim>\<open>Uint64\<close> read the first bytes of the slice and panic on a short one.\<close>

definition first_bytes :: "nat \<Rightarrow> bytes \<Rightarrow> bytes outcome" where
  "first_bytes n buf = (if length buf < n then Panic ''index out of range'' else Done (take n buf))"

definition IntToBytes :: "64 word \<Rightarrow> bytes" where
  "IntToBytes i = be_bytes 4 (ucast i :: 32 word)"

definition BytesToInt :: "bytes \<Rightarrow> 64 word outcome" where
  "BytesToInt buf = map_outcome_val (\<lambda>b. ucast (be_value b :: 32 word)) (first_bytes 4 buf)"

definition Int32ToBytes :: "32 word \<Rightarrow> bytes" where
  "Int32ToBytes i = be_bytes 4 i"

definition BytesToInt32 :: "bytes \<Rightarrow> 32 word outcome" where
  "BytesToInt32 buf = map_outcome_val be_value (first_bytes 4 buf)"

definition Int64ToBytes :: "64 word \<Rightarrow> bytes" where
  "Int64ToBytes i = be_bytes 8 i"

definition BytesToInt64 :: "bytes \<Rightarrow> 64 word outcome" where
  "BytesToInt64 buf = map_outcome_val be_value (first_bytes 8 buf)"

definition Float32ToBytes :: "32 word \<Rightarrow> bytes" where
  "Float32ToBytes bits = le_bytes 4 bits"

definition BytesToFloat32 :: "bytes \<Rightarrow> 32 word outcome" where
  "BytesToFloat32 buf = map_outcome_val le_value (first_bytes 4 buf)"

definition Float64ToBytes :: "64 word \<Rightarrow> bytes" where
  "Float64ToBytes bits = le_bytes 8 bits"

definition BytesToFloat64 :: "bytes \<Rightarrow> 64 word outcome" where
  "BytesToFloat64 buf = map_outcome_val le_value (first_bytes 8 buf)"

text \<open>
  \<^verbatim>\<open>json.Marshal\<close> and \<^verbatim>\<open>json.Unmarshal\<close> at the two map types: an error text, or the result.
\<close>

record 'a json =
  marshal_map :: "(string \<Rightarrow> 'a go_value option) \<Rightarrow> string + bytes"
  unmarshal_map :: "bytes \<Rightarrow> string + (string \<Rightarrow> 'a go_value option)"
  marshal_str :: "(string \<Rightarrow> string option) \<Rightarrow> string + bytes"
  unmarshal_str :: "bytes \<Rightarrow> string + (string \<Rightarrow> string option)"

definition MapToBytes :: "'a json \<Rightarrow> (string \<Rightarrow> 'a go_value option) \<Rightarrow> string + bytes" where
  "MapToBytes j m = marshal_map j m"

definition BytesToMap :: "'a json \<Rightarrow> bytes \<Rightarrow> string + (string \<Rightarrow> 'a go_value option)" where
  "BytesToMap j b = unmarshal_map j b"

definition MapToBytesString :: "'a json \<Rightarrow> (string \<Rightarrow> string option) \<Rightarrow> string + bytes" where
  "MapToBytesString j m = marshal_str j m"

definition BytesToMapString :: "'a json \<Rightarrow> bytes \<Rightarrow> string + (string \<Rightarrow> string option)" where
  "BytesToMapString j b = unmarshal_str j b"

section \<open>Typed arguments\<close>

abbreviation (input) T_NULL :: string where "T_NULL \<equiv> ''null''"
abbreviation (input) T_BOOL :: string where "T_BOOL \<equiv> ''bool''"
abbreviation (input) T_INT :: string where "T_INT \<equiv> ''int''"
abbreviation (input) T_INT32 :: string where "T_INT32 \<equiv> ''int32''"
abbreviation (input) T_LONG :: string where "T_LONG \<equiv> ''long''"
abbreviation (input) T_FLOAT :: string where "T_FLOAT \<equiv> ''float''"
abbreviation (input) T_DOUBLE :: string where "T_DOUBLE \<equiv> ''double''"
abbreviation (input) T_BYTES :: string where "T_BYTES \<equiv> ''bytes''"
abbreviation (input) T_STRING :: string where "T_STRING \<equiv> ''string''"
abbreviation (input) T_MAP :: string where "T_MAP \<equiv> ''map''"
abbreviation (input) T_MAPSTR :: string where "T_MAPSTR \<equiv> ''mapstr''"

text \<open>
  An application's \<^verbatim>\<open>RPCSerialize\<close>. \<^verbatim>\<open>app.GetRPCSerialize()\<close> is a map and Go visits it in any
  order: \<open>apps\<close> is the visit order of one call (\<^const>\<open>None\<close> when there is no application).
\<close>

record 'a serializer =
  Serialize :: "'a go_value \<Rightarrow> string + (string \<times> bytes)"
  Deserialize :: "string \<Rightarrow> bytes \<Rightarrow> string + 'a go_value"

fun first_serialized :: "'a serializer list \<Rightarrow> 'a go_value \<Rightarrow> (string \<times> bytes) option" where
  "first_serialized [] v = None"
| "first_serialized (s # ss) v =
     (case Serialize s v of Inr r \<Rightarrow> Some r | Inl e \<Rightarrow> first_serialized ss v)"

fun first_deserialized :: "'a serializer list \<Rightarrow> string \<Rightarrow> bytes \<Rightarrow> 'a go_value option" where
  "first_deserialized [] t b = None"
| "first_deserialized (s # ss) t b =
     (case Deserialize s t b of Inr v \<Rightarrow> Some v | Inl e \<Rightarrow> first_deserialized ss t b)"

text \<open>The type tag, the bytes and the error; a nil slice is the empty one.\<close>

definition ArgsTypeAnd2Bytes ::
  "'a json \<Rightarrow> 'a serializer list option \<Rightarrow> 'a go_value \<Rightarrow> string \<times> bytes \<times> string option" where
  "ArgsTypeAnd2Bytes j apps arg =
     (case arg of
        GBytes b \<Rightarrow> (T_BYTES, b, None)
      | GNil \<Rightarrow> (T_NULL, [], None)
      | GString s \<Rightarrow> (T_STRING, bytes_of_string s, None)
      | GBool v \<Rightarrow> (T_BOOL, BoolToBytes v, None)
      | GInt32 i \<Rightarrow> (T_INT32, Int32ToBytes i, None)
      | GInt i \<Rightarrow> (T_INT, IntToBytes i, None)
      | GInt64 i \<Rightarrow> (T_LONG, Int64ToBytes i, None)
      | GFloat32 f \<Rightarrow> (T_FLOAT, Float32ToBytes f, None)
      | GFloat64 f \<Rightarrow> (T_DOUBLE, Float64ToBytes f, None)
      | GMap m \<Rightarrow> (case MapToBytes j m of Inl e \<Rightarrow> (T_MAP, [], Some e) | Inr b \<Rightarrow> (T_MAP, b, None))
      | GMapStr m \<Rightarrow>
          (case MapToBytesString j m of Inl e \<Rightarrow> (T_MAPSTR, [], Some e) | Inr b \<Rightarrow> (T_MAPSTR, b, None))
      | GApp a \<Rightarrow>
          (case apps of
             None \<Rightarrow> (T_NULL, [], Some ''Types not allowed'')
           | Some ss \<Rightarrow>
               (case first_serialized ss arg of
                  Some (t, b) \<Rightarrow> (t, b, None)
                | None \<Rightarrow> (T_NULL, [], Some ''Types not allowed''))))"

definition Bytes2Args ::
  "'a json \<Rightarrow> 'a serializer list option \<Rightarrow> string \<Rightarrow> bytes \<Rightarrow> (string + 'a go_value) outcome" where
  "Bytes2Args j apps t args =
     (if t = T_NULL then Done (Inr GNil)
      else if t = T_STRING then Done (Inr (GString (string_of_bytes args)))
      else if t = T_BOOL then map_outcome_val (\<lambda>v. Inr (GBool v)) (BytesToBool args)
      else if t = T_INT then map_outcome_val (\<lambda>v. Inr (GInt v)) (BytesToInt args)
      else if t = T_INT32 then map_outcome_val (\<lambda>v. Inr (GInt32 v)) (BytesToInt32 args)
      else if t = T_LONG then map_outcome_val (\<lambda>v. Inr (GInt64 v)) (BytesToInt64 args)
      else if t = T_FLOAT then map_outcome_val (\<lambda>v. Inr (GFloat32 v)) (BytesToFloat32 args)
      else if t = T_DOUBLE then map_outcome_val (\<lambda>v. Inr (GFloat64 v)) (BytesToFloat64 args)
      else if t = T_BYTES then Done (Inr (GBytes args))
      else if t = T_MAP then
        (case BytesToMap j args of Inl e \<Rightarrow> Done (Inl e) | Inr m \<Rightarrow> Done (Inr (GMap m)))
      else if t = T_MAPSTR then
        (case BytesToMapString j args of Inl e \<Rightarrow> Done (Inl e) | Inr m \<Rightarrow> Done (Inr (GMapStr m)))
      else
        (case apps of
           None \<Rightarrow> Done (Inl ''Types not allowed'')
         | Some ss \<Rightarrow>
             (case first_deserialized ss t args of
                Some v \<Rightarrow> Done (Inr v)
              | None \<Rightarrow> Done (Inl ''Types not allowed''))))"

definition builtin_types :: "string list" where
  "builtin_types = [T_NULL, T_BOOL, T_INT, T_INT32, T_LONG, T_FLOAT, T_DOUBLE, T_BYTES, T_STRING, T_MAP, T_MAPSTR]"

section \<open>Round trips of the layouts\<close>

lemma first_bytes_exact [codec_simps]: "length b = n \<Longrightarrow> first_bytes n b = Done b"
  by (simp add: first_bytes_def)

lemma BytesToBool_BoolToBytes [codec_simps]: "BytesToBool (BoolToBytes v) = Done v"
  by (simp add: BytesToBool_def BoolToBytes_def)

lemma BytesToInt_IntToBytes [codec_simps]: "BytesToInt (IntToBytes i) = Done (take_bit 32 i)"
proof -
  have "(ucast (ucast i :: 32 word) :: 64 word) = take_bit 32 i"
    by (rule bit_word_eqI) (auto simp: bit_simps)
  then show ?thesis
    by (simp add: BytesToInt_def IntToBytes_def first_bytes_exact be_value_be_bytes_full)
qed

lemma BytesToInt32_Int32ToBytes [codec_simps]: "BytesToInt32 (Int32ToBytes i) = Done i"
  by (simp add: BytesToInt32_def Int32ToBytes_def first_bytes_exact be_value_be_bytes_full)

lemma BytesToInt64_Int64ToBytes [codec_simps]: "BytesToInt64 (Int64ToBytes i) = Done i"
  by (simp add: BytesToInt64_def Int64ToBytes_def first_bytes_exact be_value_be_bytes_full)

lemma BytesToFloat32_Float32ToBytes [codec_simps]: "BytesToFloat32 (Float32ToBytes f) = Done f"
  by (simp add: BytesToFloat32_def Float32ToBytes_def first_bytes_exact le_value_le_bytes)

lemma BytesToFloat64_Float64ToBytes [codec_simps]: "BytesToFloat64 (Float64ToBytes f) = Done f"
  by (simp add: BytesToFloat64_def Float64ToBytes_def first_bytes_exact le_value_le_bytes)

text \<open>Decoding by tag.\<close>

lemma decode_tags [codec_simps]:
  "Bytes2Args j apps T_NULL b = Done (Inr GNil)"
  "Bytes2Args j apps T_STRING b = Done (Inr (GString (string_of_bytes b)))"
  "Bytes2Args j apps T_BOOL b = map_outcome_val (\<lambda>v. Inr (GBool v)) (BytesToBool b)"
  "Bytes2Args j apps T_INT b = map_outcome_val (\<lambda>v. Inr (GInt v)) (BytesToInt b)"
  "Bytes2Args j apps T_INT32 b = map_outcome_val (\<lambda>v. Inr (GInt32 v)) (BytesToInt32 b)"
  "Bytes2Args j apps T_LONG b = map_outcome_val (\<lambda>v. Inr (GInt64 v)) (BytesToInt64 b)"
  "Bytes2Args j apps T_FLOAT b = map_outcome_val (\<lambda>v. Inr (GFloat32 v)) (BytesToFloat32 b)"
  "Bytes2Args j apps T_DOUBLE b = map_outcome_val (\<lambda>v. Inr (GFloat64 v)) (BytesToFloat64 b)"
  "Bytes2Args j apps T_BYTES b = Done (Inr (GBytes b))"
  "Bytes2Args j apps T_MAP b =
     (case BytesToMap j b of Inl e \<Rightarrow> Done (Inl e) | Inr m \<Rightarrow> Done (Inr (GMap m)))"
  "Bytes2Args j apps T_MAPSTR b =
     (case BytesToMapString j b of Inl e \<Rightarrow> Done (Inl e) | Inr m \<Rightarrow> Done (Inr (GMapStr m)))"
  by (simp_all add: Bytes2Args_def)

text \<open>
  The contract of a set of serializers: the tags they make are their own, and whichever
  answers for a tag answers with the value it was made from, or what \<open>nf\<close> says the encoding
  makes of it.
\<close>

locale serializers =
  fixes ss :: "'a serializer list" and nf :: "'a go_value \<Rightarrow> 'a go_value"
  assumes own_tags: "s \<in> set ss \<Longrightarrow> Serialize s v = Inr (t, b) \<Longrightarrow> t \<notin> set builtin_types"
    and answers: "s \<in> set ss \<Longrightarrow> Serialize s v = Inr (t, b) \<Longrightarrow> \<exists>s' \<in> set ss. Deserialize s' t b = Inr (nf v)"
    and agree: "s \<in> set ss \<Longrightarrow> s' \<in> set ss \<Longrightarrow> Serialize s v = Inr (t, b)
      \<Longrightarrow> Deserialize s' t b = Inr v' \<Longrightarrow> v' = nf v"
begin

lemma first_serialized_in:
  "set xs \<subseteq> set ss \<Longrightarrow> first_serialized xs v = Some (t, b) \<Longrightarrow> \<exists>s \<in> set ss. Serialize s v = Inr (t, b)"
  by (induction xs) (auto split: sum.splits)

lemma first_deserialized_unique:
  assumes "\<exists>s \<in> set xs. Deserialize s t b = Inr v" "\<And>s v'. s \<in> set xs \<Longrightarrow> Deserialize s t b = Inr v' \<Longrightarrow> v' = v"
  shows "first_deserialized xs t b = Some v"
  using assms by (induction xs) (auto split: sum.splits)

text \<open>A value of the application survives, in whatever order the two sides visit the serializers.\<close>

lemma app_value_roundtrip:
  assumes "set xs = set ss" "set ys = set ss" "first_serialized xs (GApp a) = Some (t, b)"
  shows "Bytes2Args j (Some ys) t b = Done (Inr (nf (GApp a)))"
proof -
  from first_serialized_in [of xs "GApp a" t b] assms obtain s where
    s: "s \<in> set ss" "Serialize s (GApp a) = Inr (t, b)" by auto
  have "first_deserialized ys t b = Some (nf (GApp a))"
    using answers [OF s] agree [OF s(1) _ s(2)] assms(2)
    by (intro first_deserialized_unique) auto
  moreover have "t \<notin> set builtin_types" using own_tags [OF s] .
  ultimately show ?thesis by (simp add: Bytes2Args_def builtin_types_def)
qed

end

section \<open>Properties\<close>

text \<open>
  C25: Every argument of a built-in type but \<^verbatim>\<open>int\<close> and \<^verbatim>\<open>map[string]interface{}\<close> is decoded as
  it was encoded, bit for bit for the floats; an \<^verbatim>\<open>int\<close> comes back modulo 2 to the 32 and
  never negative, for it travels as an unsigned 32-bit number.
\<close>

theorem arguments_roundtrip:
  assumes "\<And>a. v \<noteq> GApp a" "\<And>m. v \<noteq> GMap m"
    and "\<And>m. v = GMapStr m \<Longrightarrow> \<exists>b. marshal_str j m = Inr b \<and> unmarshal_str j b = Inr m"
  shows "\<exists>t b. ArgsTypeAnd2Bytes j apps v = (t, b, None)
    \<and> Bytes2Args j apps' t b = Done (Inr (case v of GInt i \<Rightarrow> GInt (take_bit 32 i) | _ \<Rightarrow> v))"
proof (cases v)
  case (GApp a)
  with assms(1) [of a] show ?thesis by simp
next
  case (GMap m)
  with assms(2) [of m] show ?thesis by simp
next
  case (GMapStr m)
  with assms(3) obtain b where "marshal_str j m = Inr b" "unmarshal_str j b = Inr m" by blast
  with GMapStr show ?thesis
    by (simp add: ArgsTypeAnd2Bytes_def decode_tags MapToBytesString_def BytesToMapString_def)
qed (simp_all add: ArgsTypeAnd2Bytes_def decode_tags codec_simps)

text \<open>A JSON package that refuses maps of values and writes a string map with one entry.\<close>

definition tiny_json :: "nat json" where
  "tiny_json = \<lparr>marshal_map = (\<lambda>m. Inl ''unsupported type''), unmarshal_map = (\<lambda>b. Inl ''syntax error''),
     marshal_str = (\<lambda>m. Inr (bytes_of_string (case m ''k'' of Some v \<Rightarrow> v | None \<Rightarrow> []))),
     unmarshal_str = (\<lambda>b. Inr [''k'' \<mapsto> string_of_bytes b])\<rparr>"

theorem arguments_roundtrip_witness:
  "(\<exists>t b. ArgsTypeAnd2Bytes tiny_json None (GInt (- 1)) = (t, b, None)
     \<and> Bytes2Args tiny_json None t b = Done (Inr (case GInt (- 1) :: nat go_value of
        GInt i \<Rightarrow> GInt (take_bit 32 i) | _ \<Rightarrow> GInt (- 1))))
   \<and> (\<exists>t b. ArgsTypeAnd2Bytes tiny_json None (GMapStr [''k'' \<mapsto> ''v'']) = (t, b, None)
     \<and> Bytes2Args tiny_json None t b = Done (Inr (case GMapStr [''k'' \<mapsto> ''v''] :: nat go_value of
        GInt i \<Rightarrow> GInt (take_bit 32 i) | _ \<Rightarrow> GMapStr [''k'' \<mapsto> ''v''])))"
  by (intro conjI arguments_roundtrip) (simp_all add: tiny_json_def)

section \<open>Types\<close>

text \<open>The tag of a value's dynamic type, and how many bytes a tag needs.\<close>

definition value_type :: "'a go_value \<Rightarrow> string option" where
  "value_type v =
     (case v of
        GNil \<Rightarrow> Some T_NULL | GString s \<Rightarrow> Some T_STRING | GBool b \<Rightarrow> Some T_BOOL | GInt32 i \<Rightarrow> Some T_INT32
      | GInt i \<Rightarrow> Some T_INT | GInt64 i \<Rightarrow> Some T_LONG | GFloat32 f \<Rightarrow> Some T_FLOAT | GFloat64 f \<Rightarrow> Some T_DOUBLE
      | GBytes b \<Rightarrow> Some T_BYTES | GMap m \<Rightarrow> Some T_MAP | GMapStr m \<Rightarrow> Some T_MAPSTR | GApp a \<Rightarrow> None)"

definition tag_width :: "string \<Rightarrow> nat" where
  "tag_width t = (if t \<in> {T_INT, T_INT32, T_FLOAT} then 4 else if t \<in> {T_LONG, T_DOUBLE} then 8 else if t = T_BOOL then 1 else 0)"

lemmas fixed_width_decoders = BytesToBool_def BytesToInt_def BytesToInt32_def BytesToInt64_def BytesToFloat32_def BytesToFloat64_def

text \<open>
  C26: Whatever bytes come with a built-in tag, what is decoded has the dynamic type of the tag;
  it is refused only for a map that is not JSON, and decoding panics exactly when a tag of fixed width
  comes with fewer bytes.
\<close>

theorem decoded_type:
  assumes "t \<in> set builtin_types"
  shows "case Bytes2Args j apps t b of
      Done (Inr v) \<Rightarrow> value_type v = Some t \<and> tag_width t \<le> length b
    | Done (Inl e) \<Rightarrow> t \<in> {T_MAP, T_MAPSTR}
    | Panic e \<Rightarrow> length b < tag_width t"
proof -
  have "t \<in> {T_NULL, T_BOOL, T_INT, T_INT32, T_LONG, T_FLOAT, T_DOUBLE, T_BYTES, T_STRING, T_MAP, T_MAPSTR}"
    using assms by (simp add: builtin_types_def)
  then show ?thesis
    by (elim insertE emptyE)
      (simp_all add: decode_tags value_type_def tag_width_def fixed_width_decoders first_bytes_def not_less split: sum.split list.split)
qed

theorem decoded_type_witness:
  "case Bytes2Args tiny_json None T_INT [0, 0, 1, 2, 9] of
      Done (Inr v) \<Rightarrow> value_type v = Some T_INT \<and> tag_width T_INT \<le> length [0, 0, 1, 2, 9 :: byte]
    | Done (Inl e) \<Rightarrow> T_INT \<in> {T_MAP, T_MAPSTR}
    | Panic e \<Rightarrow> length [0, 0, 1, 2, 9 :: byte] < tag_width T_INT"
  by (rule decoded_type) (simp add: builtin_types_def)

end
