(* ===== verification/Lodos_Uuid.thy ===== *)
theory Lodos_Uuid
  imports Lodos_Prelude
begin

text \<open>
  \<^verbatim>\<open>utils/uuid/uuid.go\<close>: a UUID is its 16 bytes; the hexadecimal text with its dashes, the parser of
  the three accepted forms (the regular expression written out), and the version and variant
  bits of a random one. And \<^verbatim>\<open>RandInt64\<close> of \<^verbatim>\<open>utils/randInt.go\<close>. The random source is a parameter.
\<close>

definition hex_char :: "nat \<Rightarrow> char" where
  "hex_char n = (if n < 10 then char_of (48 + n) else char_of (87 + n))"

text \<open>\<^verbatim>\<open>[a-fA-F0-9]\<close>.\<close>

definition hex_value :: "char \<Rightarrow> nat option" where
  "hex_value c =
     (let n = of_char c :: nat in
      if 48 \<le> n \<and> n \<le> 57 then Some (n - 48)
      else if 97 \<le> n \<and> n \<le> 102 then Some (n - 87)
      else if 65 \<le> n \<and> n \<le> 70 then Some (n - 55)
      else None)"

text \<open>\<^verbatim>\<open>%02x\<close> of a byte.\<close>

definition hex_byte :: "byte \<Rightarrow> string" where
  "hex_byte b = [hex_char (unat b div 16), hex_char (unat b mod 16)]"

definition Hex :: "bytes \<Rightarrow> string" where
  "Hex x =
     concat (map hex_byte (take 4 x)) @ ''-'' @
     concat (map hex_byte (take 2 (drop 4 x))) @ ''-'' @
     concat (map hex_byte (take 2 (drop 6 x))) @ ''-'' @
     concat (map hex_byte (take 2 (drop 8 x))) @ ''-'' @
     concat (map hex_byte (take 6 (drop 10 x)))"

text \<open>
  The pieces of the regular expression: a group of exactly \<open>n\<close> digits, and an optional
  character. No alternative needs backtracking, for no digit is a dash or a brace.
\<close>

fun digits :: "nat \<Rightarrow> string \<Rightarrow> (nat list \<times> string) option" where
  "digits 0 s = Some ([], s)"
| "digits (Suc n) [] = None"
| "digits (Suc n) (c # s) =
     (case hex_value c of None \<Rightarrow> None
      | Some d \<Rightarrow> map_option (\<lambda>(ds, rest). (d # ds, rest)) (digits n s))"

definition optional :: "char \<Rightarrow> string \<Rightarrow> string" where
  "optional c s = (case s of d # rest \<Rightarrow> if d = c then rest else s | [] \<Rightarrow> [])"

definition uuid_match :: "string \<Rightarrow> nat list option" where
  "uuid_match s =
     (case digits 8 (optional CHR ''{'' s) of None \<Rightarrow> None | Some (a, s) \<Rightarrow>
      case digits 4 (optional CHR ''-'' s) of None \<Rightarrow> None | Some (b, s) \<Rightarrow>
      case digits 4 (optional CHR ''-'' s) of None \<Rightarrow> None | Some (c, s) \<Rightarrow>
      case digits 4 (optional CHR ''-'' s) of None \<Rightarrow> None | Some (d, s) \<Rightarrow>
      case digits 12 (optional CHR ''-'' s) of None \<Rightarrow> None | Some (e, s) \<Rightarrow>
      if optional CHR ''}'' s = [] then Some (a @ b @ c @ d @ e) else None)"

text \<open>\<^verbatim>\<open>hex.DecodeString\<close> of an even number of digits.\<close>

fun hex_decode :: "nat list \<Rightarrow> bytes" where
  "hex_decode (a # b # ds) = of_nat (16 * a + b) # hex_decode ds"
| "hex_decode _ = []"

definition FromStr :: "string \<Rightarrow> string + bytes" where
  "FromStr s =
     (if s = [] then Inl ''Empty string''
      else case uuid_match s of
        None \<Rightarrow> Inl ''Invalid string format''
      | Some ds \<Rightarrow> Inr (take 16 (hex_decode ds @ replicate 16 0)))"

definition MustFromStr :: "string \<Rightarrow> bytes outcome" where
  "MustFromStr s = (case FromStr s of Inl e \<Rightarrow> Panic e | Inr u \<Rightarrow> Done u)"

text \<open>
  \<^verbatim>\<open>randBytes\<close>: \<open>crand\<close> is what \<^verbatim>\<open>crypto/rand\<close> filled in, when it succeeded, else \<open>mrand\<close> gives
  the bytes one by one from the last.
\<close>

definition randBytes :: "nat \<Rightarrow> bytes option \<Rightarrow> (nat \<Rightarrow> byte) \<Rightarrow> bytes" where
  "randBytes n crand mrand =
     (case crand of Some bs \<Rightarrow> if length bs = n then bs else map (\<lambda>i. mrand (n - 1 - i)) [0..<n]
      | None \<Rightarrow> map (\<lambda>i. mrand (n - 1 - i)) [0..<n])"

definition Rand :: "bytes option \<Rightarrow> (nat \<Rightarrow> byte) \<Rightarrow> bytes" where
  "Rand crand mrand =
     (let x = randBytes 16 crand mrand;
          x = x[6 := (x ! 6 AND 0x0F) OR 0x40]
      in x[8 := (x ! 8 AND 0x3F) OR 0x80])"

text \<open>\<^verbatim>\<open>RandInt64\<close>: \<open>r n\<close> is \<^verbatim>\<open>rand.Int63n(n)\<close>, at least 0 and below \<open>n\<close>.\<close>

definition RandInt64 :: "(int \<Rightarrow> int) \<Rightarrow> int \<Rightarrow> int \<Rightarrow> int" where
  "RandInt64 r mn mx = (if mn \<ge> mx \<or> mn = 0 \<or> mx = 0 then mx else r (mx - mn) + mn)"

section \<open>Round trip\<close>

lemma hex_value_char [simp]: "n < 16 \<Longrightarrow> hex_value (hex_char n) = Some n"
  by (auto simp: hex_value_def hex_char_def Let_def)

definition nibbles :: "bytes \<Rightarrow> nat list" where
  "nibbles x = concat (map (\<lambda>b. [unat b div 16, unat b mod 16]) x)"

lemma nibbles_simps [simp]:
  "nibbles [] = []" "nibbles (b # x) = unat b div 16 # unat b mod 16 # nibbles x"
  "nibbles (x @ y) = nibbles x @ nibbles y"
  by (simp_all add: nibbles_def)

lemma digits_hex [codec_simps]:
  "n = 2 * length x \<Longrightarrow> digits n (concat (map hex_byte x) @ s) = Some (nibbles x, s)"
proof (induction x arbitrary: n)
  case Nil
  then show ?case by simp
next
  case (Cons b x)
  have "unat b div 16 < 16" by (simp add: less_mult_imp_div_less)
  with Cons show ?case by (simp add: hex_byte_def)
qed

lemma hex_decode_nibbles [codec_simps]: "hex_decode (nibbles x) = x"
  by (induction x) simp_all

lemma optional_hex:
  assumes "x \<noteq> []" "hex_value c = None"
  shows "optional c (concat (map hex_byte x) @ s) = concat (map hex_byte x) @ s"
proof -
  obtain b y where x: "x = b # y" using assms(1) by (cases x) auto
  have "hex_value (hex_char (unat b div 16)) = Some (unat b div 16)"
    by (rule hex_value_char) (simp add: less_mult_imp_div_less)
  with assms(2) have "hex_char (unat b div 16) \<noteq> c" by (metis option.distinct(1))
  with x show ?thesis by (simp add: optional_def hex_byte_def)
qed

lemma hex_value_marks: "hex_value CHR ''{'' = None" "hex_value CHR ''-'' = None"
  by code_simp+

lemma optional_dash [simp]: "optional c (c # s) = s"
  by (simp add: optional_def)

lemma optional_Nil [simp]: "optional c [] = []"
  by (simp add: optional_def)

definition hex_groups :: "string \<Rightarrow> bytes \<Rightarrow> string" where
  "hex_groups dash x =
     concat (map hex_byte (take 4 x)) @ dash @
     concat (map hex_byte (take 2 (drop 4 x))) @ dash @
     concat (map hex_byte (take 2 (drop 6 x))) @ dash @
     concat (map hex_byte (take 2 (drop 8 x))) @ dash @
     concat (map hex_byte (take 6 (drop 10 x)))"

lemma uuid_match_parts:
  assumes "length a = 4" "length b = 2" "length c = 2" "length d = 2" "length e = 6"
    and "dash \<in> {[], ''-''}" "left \<in> {[], ''{''}" "right \<in> {[], ''}''}"
  shows "uuid_match (left @ concat (map hex_byte a) @ dash @ concat (map hex_byte b) @ dash
      @ concat (map hex_byte c) @ dash @ concat (map hex_byte d) @ dash
      @ concat (map hex_byte e) @ right) = Some (nibbles (a @ b @ c @ d @ e))"
proof -
  have ne: "a \<noteq> []" "b \<noteq> []" "c \<noteq> []" "d \<noteq> []" "e \<noteq> []" using assms by auto
  have d8: "digits 8 (optional CHR ''{'' (left @ concat (map hex_byte a) @ s)) = Some (nibbles a, s)" for s
  proof -
    have "optional CHR ''{'' (left @ concat (map hex_byte a) @ s) = concat (map hex_byte a) @ s"
      using assms(7) optional_hex [OF ne(1) hex_value_marks(1), of s] by (elim insertE emptyE) simp_all
    then show ?thesis using digits_hex [of 8 a s] assms(1) by simp
  qed
  have d: "digits n (optional CHR ''-'' (dash @ concat (map hex_byte x) @ s)) = Some (nibbles x, s)"
    if "x \<noteq> []" "n = 2 * length x" for x s n
  proof -
    have "optional CHR ''-'' (dash @ concat (map hex_byte x) @ s) = concat (map hex_byte x) @ s"
      using assms(6) optional_hex [OF that(1) hex_value_marks(2), of s] by (elim insertE emptyE) simp_all
    then show ?thesis by (simp only: digits_hex [OF that(2)])
  qed
  have d4: "digits 4 (optional CHR ''-'' (dash @ concat (map hex_byte b) @ s)) = Some (nibbles b, s)"
    "digits 4 (optional CHR ''-'' (dash @ concat (map hex_byte c) @ s)) = Some (nibbles c, s)"
    "digits 4 (optional CHR ''-'' (dash @ concat (map hex_byte d) @ s)) = Some (nibbles d, s)"
    "digits 12 (optional CHR ''-'' (dash @ concat (map hex_byte e) @ s)) = Some (nibbles e, s)" for s
    using d [OF ne(2), of 4] d [OF ne(3), of 4] d [OF ne(4), of 4] d [OF ne(5), of 12] assms(2-5)
    by simp_all
  have right: "optional CHR ''}'' right = []" using assms(8) by auto
  show ?thesis
    unfolding uuid_match_def
    by (simp only: d8 d4 right option.case prod.case if_True nibbles_simps simp_thms)
qed

lemma take_parts:
  assumes "length x = 16"
  shows "take 4 x @ take 2 (drop 4 x) @ take 2 (drop 6 x) @ take 2 (drop 8 x) @ take 6 (drop 10 x) = x"
proof -
  have "take 6 (drop 10 x) = drop 10 x" using assms by simp
  moreover have "take 2 (drop n x) @ drop (n + 2) x = drop n x" for n
    by (metis append_take_drop_id drop_drop add.commute)
  from this [of 4] this [of 6] this [of 8] have "take 2 (drop 8 x) @ drop 10 x = drop 8 x"
      "take 2 (drop 6 x) @ drop 8 x = drop 6 x" "take 2 (drop 4 x) @ drop 6 x = drop 4 x" by simp_all
  ultimately show ?thesis by simp
qed

lemma uuid_match_groups:
  assumes "length x = 16" "dash \<in> {[], ''-''}" "left \<in> {[], ''{''}" "right \<in> {[], ''}''}"
  shows "uuid_match (left @ hex_groups dash x @ right) = Some (nibbles x)"
  using uuid_match_parts [OF _ _ _ _ _ assms(2-4), of "take 4 x" "take 2 (drop 4 x)" "take 2 (drop 6 x)"
      "take 2 (drop 8 x)" "take 6 (drop 10 x)"] take_parts [OF assms(1)] assms(1)
  by (simp add: hex_groups_def del: nibbles_simps(3))

lemma Hex_groups: "Hex x = hex_groups ''-'' x"
  by (simp add: Hex_def hex_groups_def)

section \<open>Properties\<close>

text \<open>
  \<^verbatim>\<open>FromStr\<close> reads back \<^verbatim>\<open>Hex\<close>, and the same digits without dashes or in braces, in every
  combination.
\<close>

theorem uuid_text_roundtrip:
  assumes "length u = 16" "dash \<in> {[], ''-''}" "left \<in> {[], ''{''}" "right \<in> {[], ''}''}"
  shows "FromStr (Hex u) = Inr u \<and> FromStr (left @ hex_groups dash u @ right) = Inr u"
proof -
  have d: "take 16 (hex_decode (nibbles u) @ replicate 16 0) = u"
    using assms(1) by (simp add: hex_decode_nibbles)
  have ne: "hex_groups s u \<noteq> []" for s using assms(1) by (cases u) (auto simp: hex_groups_def hex_byte_def)
  from uuid_match_groups [OF assms] uuid_match_groups [of u "''-''" "[]" "[]"] assms d ne show ?thesis
    by (auto simp: FromStr_def Hex_groups)
qed

theorem uuid_text_roundtrip_witness:
  "FromStr (Hex (replicate 16 0xAB)) = Inr (replicate 16 0xAB)
    \<and> FromStr (''{'' @ hex_groups [] (replicate 16 0xAB) @ ''}'') = Inr (replicate 16 0xAB)"
  by (rule uuid_text_roundtrip) simp_all

end
