(* ===== verification/Lodos_Rpc_Server.thy ===== *)
theory Lodos_Rpc_Server
  imports Lodos_Args
begin

text \<open>
  \<^verbatim>\<open>rpc/base/rpc_server.go\<close> with \<^verbatim>\<open>error.go\<close> and the messages of \<^verbatim>\<open>rpc/pb\<close>: registration of
  functions, the check of a request's deadline, and \<^verbatim>\<open>runFunc\<close>: what is sent to the callback
  channel on each of its branches, whether the process dies of a panic nobody recovers, and
  whether a handler's goroutine is left behind. Times are parameters: \<open>now\<close> in nanoseconds,
  and how long a handler takes.
\<close>

section \<open>Messages\<close>

record rpc_info =
  Cid :: string
  Fn :: string
  ReplyTo :: string
  Expired :: int
  Reply :: bool
  ArgsType :: "string list"
  Args :: "bytes list"

record result_info =
  res_cid :: string
  res_error :: string
  res_code :: int
  res_types :: "string list"
  res_values :: "bytes list"

definition NewResultInfo ::
  "string \<Rightarrow> int \<Rightarrow> string \<Rightarrow> string list \<Rightarrow> bytes list \<Rightarrow> result_info" where
  "NewResultInfo c code e ts vs =
     \<lparr>res_cid = c, res_error = e, res_code = code, res_types = ts, res_values = vs\<rparr>"

text \<open>\<^verbatim>\<open>int32(code)\<close>.\<close>

definition int32 :: "int \<Rightarrow> int" where
  "int32 i = sint (word_of_int i :: 32 word)"

definition ClientParamNotAdapted :: int where "ClientParamNotAdapted = - 1"
definition ClientFormatError :: int where "ClientFormatError = - 2"
definition ServerParamMiss :: int where "ServerParamMiss = - ClientParamNotAdapted"
definition ServerFormatError :: int where "ServerFormatError = - ClientFormatError"
definition ServerExpired :: int where "ServerExpired = 102"

section \<open>Registered functions\<close>

text \<open>
  A handler as \<^verbatim>\<open>reflect\<close> sees it: the number of its parameters, which values its k-th
  parameter takes, the zero value of each, and what a call does: it returns its results or
  panics after some nanoseconds, or never ends. A registered value need not be a function.
\<close>

datatype 'a call_end = Yields int "'a list" | Panics_after int string | Never

record 'a rpc_func =
  is_func :: bool
  num_in :: nat
  assignable :: "nat \<Rightarrow> 'a go_value \<Rightarrow> bool"
  zero_in :: "nat \<Rightarrow> 'a go_value"
  body :: "'a go_value list \<Rightarrow> 'a go_value call_end"
  goroutine :: bool

type_synonym 'a function_table = "string \<Rightarrow> 'a rpc_func option"

definition Register :: "string \<Rightarrow> 'a rpc_func \<Rightarrow> 'a function_table \<Rightarrow> 'a function_table outcome" where
  "Register fid f fs =
     (if fs fid \<noteq> None then Panic (''function id '' @ fid @ '': already registered'')
      else Done (fs(fid \<mapsto> f\<lparr>goroutine := False\<rparr>)))"

definition RegisterGo :: "string \<Rightarrow> 'a rpc_func \<Rightarrow> 'a function_table \<Rightarrow> 'a function_table outcome" where
  "RegisterGo fid f fs =
     (if fs fid \<noteq> None then Panic (''function id '' @ fid @ '': already registered'')
      else Done (fs(fid \<mapsto> f\<lparr>goroutine := True\<rparr>)))"

section \<open>Running a call\<close>

text \<open>What is sent to \<^verbatim>\<open>callback_chan\<close>, the process's death, a handler goroutine left blocked.\<close>

record run_out =
  replies :: "result_info list"
  crashes :: bool
  left_behind :: bool

definition reply_with :: "result_info \<Rightarrow> run_out" where
  "reply_with r = \<lparr>replies = [r], crashes = False, left_behind = False\<rparr>"

definition errorCallback :: "rpc_info \<Rightarrow> int \<Rightarrow> string \<Rightarrow> run_out" where
  "errorCallback ci code e = reply_with (NewResultInfo (Cid ci) (int32 code) e [] [])"

text \<open>
  The loop over \<^verbatim>\<open>argsType\<close>. An argument without a type stays the zero \<^verbatim>\<open>reflect.Value\<close>, which is
  \<^const>\<open>None\<close> here; with no types at all there is no argument list.
\<close>

fun decode_args ::
  "'a json \<Rightarrow> 'a serializer list option \<Rightarrow> 'a rpc_func \<Rightarrow> nat \<Rightarrow> string list \<Rightarrow> bytes list
    \<Rightarrow> (string + 'a go_value list) outcome" where
  "decode_args j apps f k [] args = Done (Inr [])"
| "decode_args j apps f k (t # ts) args =
     (if length args \<le> k then Panic ''index out of range''
      else outcome_bind (Bytes2Args j apps t (args ! k))
        (\<lambda>r. case r of
           Inl e \<Rightarrow> Done (Inl e)
         | Inr v \<Rightarrow>
             map_outcome_val
               (\<lambda>rest. case rest of Inl e \<Rightarrow> Inl e
                  | Inr vs \<Rightarrow> Inr ((case v of GNil \<Rightarrow> zero_in f k | _ \<Rightarrow> v) # vs))
               (decode_args j apps f (k + 1) ts args)))"

definition call_args :: "nat \<Rightarrow> 'a go_value list \<Rightarrow> 'a go_value option list" where
  "call_args n vs = (if vs = [] then [] else map Some vs @ replicate (n - length vs) None)"

text \<open>\<^verbatim>\<open>f.Call(in)\<close> panics at once when the arguments do not fit.\<close>

definition reflect_call :: "'a rpc_func \<Rightarrow> 'a go_value option list \<Rightarrow> 'a go_value call_end" where
  "reflect_call f ins =
     (if length ins \<noteq> num_in f then Panics_after 0 ''reflect: Call with wrong number of arguments''
      else if None \<in> set ins then Panics_after 0 ''reflect: Call using zero Value argument''
      else if \<not> (\<forall>k < length ins. assignable f k (the (ins ! k))) then
        Panics_after 0 ''reflect: Call using value as another type''
      else body f (map the ins))"

text \<open>The results but the last, encoded, or the first error.\<close>

fun encode_results ::
  "'a json \<Rightarrow> 'a serializer list option \<Rightarrow> 'a go_value list \<Rightarrow> string + (string list \<times> bytes list)" where
  "encode_results j apps [] = Inr ([], [])"
| "encode_results j apps (v # vs) =
     (case ArgsTypeAnd2Bytes j apps v of
        (t, b, Some e) \<Rightarrow> Inl e
      | (t, b, None) \<Rightarrow>
          (case encode_results j apps vs of Inl e \<Rightarrow> Inl e | Inr (ts, bs) \<Rightarrow> Inr (t # ts, b # bs)))"

text \<open>The last result: nil, a string, an error, an \<^verbatim>\<open>*Error\<close> with its code, or none of these.\<close>

definition result_error :: "'a dyn go_value \<Rightarrow> (int \<times> string) option" where
  "result_error v =
     (case v of
        GNil \<Rightarrow> Some (0, [])
      | GString s \<Rightarrow> Some (0, s)
      | GApp (PlainError s) \<Rightarrow> Some (0, s)
      | GApp (CodeError code reason) \<Rightarrow> Some (int32 code, error_text code reason)
      | _ \<Rightarrow> None)"

definition finish_results ::
  "'a dyn json \<Rightarrow> 'a dyn serializer list option \<Rightarrow> rpc_info \<Rightarrow> 'a dyn go_value list \<Rightarrow> run_out" where
  "finish_results j apps ci out =
     (if out = [] then errorCallback ci 0 ''the number of result output is less than 1.''
      else case encode_results j apps (butlast out) of
        Inl e \<Rightarrow> errorCallback ci ServerFormatError e
      | Inr (ts, vs) \<Rightarrow>
          (case result_error (last out) of
             None \<Rightarrow> errorCallback ci ServerFormatError ''the error.(type) is not as string neither error''
           | Some (code, e) \<Rightarrow> reply_with (NewResultInfo (Cid ci) code e ts vs)))"

definition expired_text :: "rpc_info \<Rightarrow> string" where
  "expired_text ci = ''!!! func['' @ Fn ci @ ''] expired in rpc_server''"

text \<open>
  \<^verbatim>\<open>_runFunc\<close>. The handler runs in a goroutine of its own, which no deferred function guards:
  its panic ends the process. When the deadline comes first, the reply is the expiry, and a
  handler that returns later blocks for ever on the channel nobody reads.
\<close>

definition run_body ::
  "'a dyn json \<Rightarrow> 'a dyn serializer list option \<Rightarrow> int \<Rightarrow> rpc_info \<Rightarrow> 'a dyn rpc_func \<Rightarrow> run_out" where
  "run_body j apps now ci f =
     (case decode_args j apps f 0 (ArgsType ci) (Args ci) of
        Panic s \<Rightarrow> errorCallback ci 0 s
      | Done (Inl e) \<Rightarrow> errorCallback ci ServerFormatError e
      | Done (Inr vs) \<Rightarrow>
          let expired = Expired ci * 1000 * 1000 - now in
          if expired < 0 then errorCallback ci ServerExpired (expired_text ci)
          else case reflect_call f (call_args (length (Args ci)) vs) of
            Yields d out \<Rightarrow>
              (if d < expired then finish_results j apps ci out
               else (errorCallback ci ServerExpired (expired_text ci))\<lparr>left_behind := True\<rparr>)
          | Panics_after d s \<Rightarrow>
              (if d < expired then \<lparr>replies = [], crashes = True, left_behind = False\<rparr>
               else (errorCallback ci ServerExpired (expired_text ci))\<lparr>crashes := True\<rparr>)
          | Never \<Rightarrow> (errorCallback ci ServerExpired (expired_text ci))\<lparr>left_behind := True\<rparr>)"

definition runFunc ::
  "'a dyn json \<Rightarrow> 'a dyn serializer list option \<Rightarrow> 'a dyn function_table \<Rightarrow> int \<Rightarrow> rpc_info \<Rightarrow> run_out" where
  "runFunc j apps fs now ci =
     (case fs (Fn ci) of
        None \<Rightarrow> errorCallback ci 0 (''Remote function('' @ Fn ci @ '') not found'')
      | Some f \<Rightarrow>
          if \<not> is_func f then errorCallback ci 0 ''reflect: NumIn of non-func type''
          else if length (Args ci) \<noteq> num_in f then
            errorCallback ci ClientParamNotAdapted ''The number of args is not adapted.''
          else run_body j apps now ci f)"

text \<open>
  \<^verbatim>\<open>on_call_handle\<close> on one request: one that is already too late is dropped without a reply;
  \<^verbatim>\<open>on_callback_handle\<close>: a result goes back when the caller wants one and the request has an
  agent.
\<close>

definition on_call_handle ::
  "'a dyn json \<Rightarrow> 'a dyn serializer list option \<Rightarrow> 'a dyn function_table \<Rightarrow> int \<Rightarrow> int \<Rightarrow> rpc_info \<Rightarrow> run_out" where
  "on_call_handle j apps fs now run_at ci =
     (if Expired ci < now div 1000 div 1000 then \<lparr>replies = [], crashes = False, left_behind = False\<rparr>
      else runFunc j apps fs run_at ci)"

definition on_callback_handle :: "rpc_info \<Rightarrow> bool \<Rightarrow> result_info list \<Rightarrow> result_info list" where
  "on_callback_handle ci has_agent rs = (if Reply ci then (if has_agent then rs else []) else [])"

section \<open>The coroutine limit\<close>

text \<open>
  \<^verbatim>\<open>Wait\<close> sends into a channel of \<open>max\<close> places (at least 100) and blocks when it is full, \<^verbatim>\<open>Finish\<close>
  takes one out; \<^verbatim>\<open>executing\<close> counts the \<^verbatim>\<open>_runFunc\<close>s in progress.
\<close>

record limiter =
  slots :: nat
  max_slots :: nat
  executing :: nat

definition new_limiter :: "nat \<Rightarrow> limiter" where
  "new_limiter maxCoroutine =
     \<lparr>slots = 0, max_slots = (if maxCoroutine < 100 then 100 else maxCoroutine), executing = 0\<rparr>"

definition begin_run :: "limiter \<Rightarrow> limiter option" where
  "begin_run l =
     (if slots l < max_slots l then Some (l\<lparr>slots := slots l + 1, executing := executing l + 1\<rparr>) else None)"

definition end_run :: "limiter \<Rightarrow> limiter option" where
  "end_run l = (if slots l = 0 then None
     else Some (l\<lparr>slots := slots l - 1, executing := executing l - 1\<rparr>))"

section \<open>Times\<close>

text \<open>\<^verbatim>\<open>timeConversion\<close>: \<^verbatim>\<open>%.2f\<close> of a whole number below 1000.\<close>

definition unit_text :: "int \<Rightarrow> string \<Rightarrow> string" where
  "unit_text n u = dec_int n @ ''.00 '' @ u"

definition timeConversion :: "int \<Rightarrow> string" where
  "timeConversion ns =
     (let q = (\<lambda>d. quot ns d) in
      if q 1000 < 1 then dec_int ns @ '' ns''
      else if 1 < q 1000 \<and> q 1000 < 1000 then unit_text (q 1000) (string_of_bytes [0xCE, 0xBC, 0x73])
      else if 1 < q 1000000 \<and> q 1000000 < 1000 then unit_text (q 1000000) ''ms''
      else if 1 < q 1000000000 \<and> q 1000000000 < 1000 then unit_text (q 1000000000) ''s''
      else if 1 < q 60000000000 \<and> q 60000000000 < 1000 then unit_text (q 60000000000) ''m''
      else if 1 < q 3600000000000 \<and> q 3600000000000 < 1000 then unit_text (q 3600000000000) ''m''
      else dec_int ns @ '' ns'')"

end
