(* ===== verification/Lodos_Rpc_Calls.thy ===== *)
theory Lodos_Rpc_Calls
  imports Lodos_Rpc_Server Lodos_Maps
begin

text \<open>
  The calls a client waits for: the pending-call tables of \<^verbatim>\<open>rpc/base/local_client.go\<close>,
  \<^verbatim>\<open>amqp_client.go\<close> and \<^verbatim>\<open>redis_client.go\<close>. A call registers its result channel under its
  correlation id; a response or a timeout takes it out, sends into the channel and closes it;
  \<^verbatim>\<open>Done\<close> closes the rest. The channels (of one place each) live in a heap, so that a send on a
  closed channel and a second close are panics of the model as they are of the code.
\<close>

section \<open>Result channels\<close>

record rchan =
  rc_buf :: "result_info list"
  rc_closed :: bool

type_synonym chans = "nat \<Rightarrow> rchan"

datatype 'a went = Went 'a | WentPanic string | WentBlock

definition new_chan :: rchan where "new_chan = \<lparr>rc_buf = [], rc_closed = False\<rparr>"

definition chan_send :: "nat \<Rightarrow> result_info \<Rightarrow> chans \<Rightarrow> chans went" where
  "chan_send c r H =
     (if rc_closed (H c) then WentPanic ''send on closed channel''
      else if length (rc_buf (H c)) \<ge> 1 then WentBlock
      else Went (H(c := (H c)\<lparr>rc_buf := rc_buf (H c) @ [r]\<rparr>)))"

definition chan_close :: "nat \<Rightarrow> chans \<Rightarrow> chans went" where
  "chan_close c H =
     (if rc_closed (H c) then WentPanic ''close of closed channel''
      else Went (H(c := (H c)\<lparr>rc_closed := True\<rparr>)))"

fun went_bind :: "'a went \<Rightarrow> ('a \<Rightarrow> 'b went) \<Rightarrow> 'b went" where
  "went_bind (Went a) f = f a"
| "went_bind (WentPanic s) f = WentPanic s"
| "went_bind WentBlock f = WentBlock"

record client_call =
  cc_cid :: string
  cc_timeout :: int
  cc_chan :: nat

text \<open>\<^verbatim>\<open>call_chan <- result; close(call_chan)\<close>.\<close>

definition answer :: "result_info \<Rightarrow> client_call \<Rightarrow> chans \<Rightarrow> chans went" where
  "answer r ci H = went_bind (chan_send (cc_chan ci) r H) (chan_close (cc_chan ci))"

text \<open>
  A loop over a snapshot of the table: \<open>order\<close> is the order in which Go's \<^verbatim>\<open>range\<close> visits its
  keys. Each entry that passes the test is taken out and its channel acted upon.
\<close>

fun sweep ::
  "(string \<Rightarrow> client_call option) \<Rightarrow> (client_call \<Rightarrow> bool) \<Rightarrow> (client_call \<Rightarrow> chans \<Rightarrow> chans went)
    \<Rightarrow> (string \<Rightarrow> 'm \<Rightarrow> 'm) \<Rightarrow> string list \<Rightarrow> 'm \<times> chans \<Rightarrow> ('m \<times> chans) went" where
  "sweep snap test action remove [] s = Went s"
| "sweep snap test action remove (k # order) (m, H) =
     (case snap k of
        None \<Rightarrow> sweep snap test action remove order (m, H)
      | Some ci \<Rightarrow>
          if test ci then
            went_bind (action ci H) (\<lambda>H. sweep snap test action remove order (remove k m, H))
          else sweep snap test action remove order (m, H))"

section \<open>The local client\<close>

type_synonym local_table = "(string, client_call) beemap"

text \<open>\<^verbatim>\<open>Call\<close>: the entry, and whether the request goes to the server is not looked at.\<close>

definition local_Call :: "bool \<Rightarrow> rpc_info \<Rightarrow> nat \<Rightarrow> local_table \<Rightarrow> string option \<times> local_table" where
  "local_Call isClose ci c m =
     (if isClose then (Some ''MQClient is isClose'', m)
      else (None, bee_set (Cid ci) \<lparr>cc_cid = Cid ci, cc_timeout = Expired ci, cc_chan = c\<rparr> m))"

definition WriteToRpcServer :: "bool \<Rightarrow> rpc_info \<Rightarrow> rpc_info option" where
  "WriteToRpcServer server_closed ci = (if server_closed then None else Some ci)"

definition local_on_response :: "result_info \<Rightarrow> local_table \<times> chans \<Rightarrow> (local_table \<times> chans) went" where
  "local_on_response r s =
     (case s of (m, H) \<Rightarrow>
        (case bm m (res_cid r) of
           None \<Rightarrow> Went (m, H)
         | Some ci \<Rightarrow> went_bind (answer r ci H) (\<lambda>H. Went (bee_delete (res_cid r) m, H))))"

definition local_timeout_result :: "client_call \<Rightarrow> result_info" where
  "local_timeout_result ci =
     NewResultInfo [] ServerExpired (''timeout: This CallInfo : '' @ cc_cid ci @ '' timeout!'') [] []"

definition local_on_timeout ::
  "int \<Rightarrow> string list \<Rightarrow> local_table \<times> chans \<Rightarrow> (local_table \<times> chans) went" where
  "local_on_timeout now order s =
     sweep (bm (fst s)) (\<lambda>ci. cc_timeout ci < now div 1000000)
       (\<lambda>ci. answer (local_timeout_result ci) ci) bee_delete order s"

definition local_Done :: "string list \<Rightarrow> local_table \<times> chans \<Rightarrow> (local_table \<times> chans) went" where
  "local_Done order s =
     sweep (bm (fst s)) (\<lambda>ci. True) (\<lambda>ci. chan_close (cc_chan ci)) bee_delete order s"

section \<open>The AMQP client\<close>

text \<open>
  The same table. \<^verbatim>\<open>proto.Marshal\<close>, \<^verbatim>\<open>proto.Unmarshal\<close> and the broker's agent are parameters: the
  callback queue's name or an error, and what publishing answers.
\<close>

record amqp_env =
  callback_queue :: "string + string"
  marshal_info :: "rpc_info \<Rightarrow> string + bytes"
  publish :: "bytes \<Rightarrow> string option"
  unmarshal_result :: "bytes \<Rightarrow> string + result_info"

definition amqp_Call ::
  "amqp_env \<Rightarrow> bool \<Rightarrow> rpc_info \<Rightarrow> nat \<Rightarrow> local_table \<Rightarrow> string option \<times> local_table" where
  "amqp_Call env isClose ci c m =
     (if isClose then (Some ''amqpClient is isClose'', m)
      else case callback_queue env of
        Inl e \<Rightarrow> (Some e, m)
      | Inr q \<Rightarrow>
          let ci = ci\<lparr>ReplyTo := q\<rparr>;
              m = bee_set (Cid ci) \<lparr>cc_cid = Cid ci, cc_timeout = Expired ci, cc_chan = c\<rparr> m
          in (case marshal_info env ci of Inl e \<Rightarrow> (Some e, m) | Inr b \<Rightarrow> (publish env b, m)))"

definition amqp_CallNR :: "amqp_env \<Rightarrow> bool \<Rightarrow> rpc_info \<Rightarrow> string option" where
  "amqp_CallNR env isClose ci =
     (if isClose then Some ''amqpClient is isClose''
      else case marshal_info env ci of Inl e \<Rightarrow> Some e | Inr b \<Rightarrow> publish env b)"

definition amqp_on_response ::
  "amqp_env \<Rightarrow> bytes \<Rightarrow> local_table \<times> chans \<Rightarrow> (local_table \<times> chans) went" where
  "amqp_on_response env d s =
     (case unmarshal_result env d of Inl e \<Rightarrow> Went s
      | Inr r \<Rightarrow>
         (case s of (m, H) \<Rightarrow>
            (case bm m (res_cid r) of
               None \<Rightarrow> Went (m, H)
             | Some ci \<Rightarrow> went_bind (answer r ci H) (\<lambda>H. Went (bee_delete (res_cid r) m, H)))))"

definition amqp_on_timeout ::
  "int \<Rightarrow> string list \<Rightarrow> local_table \<times> chans \<Rightarrow> (local_table \<times> chans) went" where
  "amqp_on_timeout now order s =
     sweep (bm (fst s)) (\<lambda>ci. cc_timeout ci < now div 1000000)
       (\<lambda>ci. answer (NewResultInfo (cc_cid ci) 0
          (''timeout: This CallInfo : '' @ cc_cid ci @ '' timeout!'') [] []) ci) bee_delete order s"

section \<open>The redis client\<close>

text \<open>
  Its table is a \<^verbatim>\<open>ConcurrentMap\<close> of \<^verbatim>\<open>interface{}\<close> values, so an entry has a dynamic type: the
  client stores pointers, and its two readers assert different types.
\<close>

datatype redis_entry = Pointer client_call | Struct client_call

fun entry_call :: "redis_entry \<Rightarrow> client_call" where
  "entry_call (Pointer ci) = ci" | "entry_call (Struct ci) = ci"

type_synonym redis_table = "redis_entry cmap"

definition redis_lookup :: "redis_table \<Rightarrow> string \<Rightarrow> client_call option" where
  "redis_lookup m k = map_option entry_call (cm_Get m k)"

definition redis_store :: "string \<Rightarrow> client_call \<Rightarrow> redis_table \<Rightarrow> redis_table" where
  "redis_store k ci m = cm_Set k (Pointer ci) m"

definition redis_Call ::
  "amqp_env \<Rightarrow> bool \<Rightarrow> string \<Rightarrow> rpc_info \<Rightarrow> nat \<Rightarrow> redis_table \<Rightarrow> string option \<times> redis_table" where
  "redis_Call env isClose callbackQueueName ci c m =
     (if isClose then (Some ''RedisClient is isClose'', m)
      else
        let ci = ci\<lparr>ReplyTo := callbackQueueName\<rparr> in
        case marshal_info env ci of
          Inl e \<Rightarrow> (Some e, m)
        | Inr b \<Rightarrow>
            (publish env b,
             redis_store (Cid ci) \<lparr>cc_cid = Cid ci, cc_timeout = Expired ci, cc_chan = c\<rparr> m))"

text \<open>\<^verbatim>\<open>info.(ClientCallInfo)\<close> on a pointer panics, in a goroutine without a deferred function.\<close>

definition redis_on_response ::
  "amqp_env \<Rightarrow> bytes \<Rightarrow> redis_table \<times> chans \<Rightarrow> (redis_table \<times> chans) went" where
  "redis_on_response env d s =
     (case unmarshal_result env d of Inl e \<Rightarrow> Went s
      | Inr r \<Rightarrow>
         (case s of (m, H) \<Rightarrow>
            (case cm_Get m (res_cid r) of
               None \<Rightarrow> Went (m, H)
             | Some (Pointer ci) \<Rightarrow> WentPanic ''interface conversion''
             | Some (Struct ci) \<Rightarrow>
                 went_bind (answer r ci H) (\<lambda>H. Went (cm_Remove (res_cid r) m, H)))))"

definition redis_on_timeout ::
  "int \<Rightarrow> string list \<Rightarrow> redis_table \<times> chans \<Rightarrow> (redis_table \<times> chans) went" where
  "redis_on_timeout now order s =
     sweep (redis_lookup (fst s)) (\<lambda>ci. cc_timeout ci < now div 1000000)
       (\<lambda>ci. answer (NewResultInfo [] 0 ''timeout: This is Call'' [] []) ci) cm_Remove order s"

definition redis_Done :: "string list \<Rightarrow> redis_table \<times> chans \<Rightarrow> (redis_table \<times> chans) went" where
  "redis_Done order s =
     sweep (redis_lookup (fst s)) (\<lambda>ci. True) (\<lambda>ci. chan_close (cc_chan ci)) cm_Remove order s"

section \<open>The contract of a table of calls\<close>

text \<open>Pending calls own distinct channels that are open and empty.\<close>

definition calls_ok :: "(string \<Rightarrow> client_call option) \<Rightarrow> chans \<Rightarrow> bool" where
  "calls_ok L H \<longleftrightarrow>
     (\<forall>k ci. L k = Some ci \<longrightarrow> H (cc_chan ci) = new_chan)
   \<and> (\<forall>j k ci cj. L j = Some cj \<longrightarrow> L k = Some ci \<longrightarrow> cc_chan cj = cc_chan ci \<longrightarrow> j = k)"

lemma answer_new:
  "H (cc_chan ci) = new_chan \<Longrightarrow>
    answer r ci H = Went (H(cc_chan ci := \<lparr>rc_buf = [r], rc_closed = True\<rparr>))"
  by (simp add: answer_def chan_send_def chan_close_def new_chan_def)

lemma close_new:
  "H c = new_chan \<Longrightarrow> chan_close c H = Went (H(c := \<lparr>rc_buf = [], rc_closed = True\<rparr>))"
  by (simp add: chan_close_def new_chan_def)

text \<open>An action on a pending call's channel that puts a finished channel in its place.\<close>

definition settles :: "(client_call \<Rightarrow> chans \<Rightarrow> chans went) \<Rightarrow> bool" where
  "settles action \<longleftrightarrow> (\<forall>ci H. H (cc_chan ci) = new_chan \<longrightarrow>
     (\<exists>ch. rc_closed ch \<and> length (rc_buf ch) \<le> 1 \<and> action ci H = Went (H(cc_chan ci := ch))))"

lemma settles_answer [intro]: "settles (\<lambda>ci. answer (f ci) ci)"
  by (auto simp: settles_def answer_new intro!: exI [of _ "\<lparr>rc_buf = [r], rc_closed = True\<rparr>" for r])

lemma settles_close [intro]: "settles (\<lambda>ci. chan_close (cc_chan ci))"
  by (auto simp: settles_def close_new intro!: exI [of _ "\<lparr>rc_buf = [], rc_closed = True\<rparr>"])

text \<open>What handling the table \<open>L\<close> does to the heap: a channel is untouched, or settled for good.\<close>

definition settled_from :: "(string \<Rightarrow> client_call option) \<Rightarrow> chans \<Rightarrow> chans \<Rightarrow> bool" where
  "settled_from L H H' \<longleftrightarrow> (\<forall>c. H' c = H c
     \<or> (\<exists>k ci. L k = Some ci \<and> cc_chan ci = c \<and> rc_closed (H' c) \<and> length (rc_buf (H' c)) \<le> 1))"

lemma settled_from_refl [simp]: "settled_from L H H"
  by (simp add: settled_from_def)

lemma settled_from_trans:
  assumes "settled_from L H1 H2" "settled_from L' H2 H3" "\<And>k ci. L' k = Some ci \<Longrightarrow> L k = Some ci"
  shows "settled_from L H1 H3"
  unfolding settled_from_def
proof
  fix c
  show "H3 c = H1 c \<or> (\<exists>k ci. L k = Some ci \<and> cc_chan ci = c \<and> rc_closed (H3 c) \<and> length (rc_buf (H3 c)) \<le> 1)"
    using assms unfolding settled_from_def by metis
qed

locale call_table = store lookup update delete inv
  for lookup :: "'m \<Rightarrow> string \<Rightarrow> client_call option"
    and update :: "string \<Rightarrow> client_call \<Rightarrow> 'm \<Rightarrow> 'm"
    and delete :: "string \<Rightarrow> 'm \<Rightarrow> 'm"
    and inv :: "'m \<Rightarrow> bool"
begin

definition ok :: "'m \<times> chans \<Rightarrow> bool" where
  "ok s \<longleftrightarrow> inv (fst s) \<and> calls_ok (lookup (fst s)) (snd s)"

lemma register_ok:
  assumes "ok (m, H)" "H c = new_chan" "\<forall>k ci. lookup m k = Some ci \<longrightarrow> cc_chan ci \<noteq> c"
  shows "ok (update k \<lparr>cc_cid = i, cc_timeout = t, cc_chan = c\<rparr> m, H)"
  using assms by (auto simp: ok_def calls_ok_def lookup_update inv_update)

lemma take_out_ok:
  assumes "ok (m, H)" "lookup m k = Some ci"
  shows "ok (delete k m, H(cc_chan ci := ch))"
  using assms unfolding ok_def calls_ok_def
  by (simp add: lookup_delete inv_delete) blast

lemma settle_ok:
  assumes "ok (m, H)" "lookup m k = Some ci" "settles action"
  obtains H' where "action ci H = Went H'" "ok (delete k m, H')" "settled_from (lookup m) H H'"
    "rc_closed (H' (cc_chan ci))"
proof -
  have new: "H (cc_chan ci) = new_chan" using assms(1,2) by (auto simp: ok_def calls_ok_def)
  with assms(3) obtain ch where ch: "rc_closed ch" "length (rc_buf ch) \<le> 1"
      "action ci H = Went (H(cc_chan ci := ch))" by (auto simp: settles_def)
  show thesis
    by (rule that [OF ch(3)]) (use take_out_ok [OF assms(1,2)] ch new assms(2) in \<open>auto simp: settled_from_def\<close>)
qed

lemma sweep_ok:
  assumes "settles action" "ok (m, H)" "distinct order"
    and "\<And>k ci. k \<in> set order \<Longrightarrow> snap k = Some ci \<Longrightarrow> lookup m k = Some ci"
  shows "\<exists>m' H'. sweep snap test action delete order (m, H) = Went (m', H') \<and> ok (m', H')
    \<and> settled_from (lookup m) H H'
    \<and> lookup m' = (\<lambda>k. if k \<in> set order \<and> (\<exists>ci. snap k = Some ci \<and> test ci) then None else lookup m k)"
  using assms(2-)
proof (induction order arbitrary: m H)
  case Nil
  then show ?case by simp
next
  case (Cons k order)
  show ?case
  proof (cases "\<exists>ci. snap k = Some ci \<and> test ci")
    case False
    then have "sweep snap test action delete (k # order) (m, H) = sweep snap test action delete order (m, H)"
      by (auto split: option.split)
    moreover from Cons.IH [OF Cons.prems(1)] Cons.prems(2,3) obtain m' H' where
      r: "sweep snap test action delete order (m, H) = Went (m', H')" "ok (m', H')" "settled_from (lookup m) H H'"
        "lookup m' = (\<lambda>k. if k \<in> set order \<and> (\<exists>ci. snap k = Some ci \<and> test ci) then None else lookup m k)"
      by auto
    moreover have "lookup m' = (\<lambda>j. if j \<in> set (k # order) \<and> (\<exists>ci. snap j = Some ci \<and> test ci)
        then None else lookup m j)"
      unfolding r(4) using False by (auto simp: fun_eq_iff)
    ultimately show ?thesis by simp
  next
    case True
    then obtain ci where ci: "snap k = Some ci" "test ci" by blast
    with Cons.prems(3) have "lookup m k = Some ci" by simp
    from settle_ok [OF Cons.prems(1) this assms(1)] obtain H1 where
      H1: "action ci H = Went H1" "ok (delete k m, H1)" "settled_from (lookup m) H H1" .
    have look: "lookup (delete k m) = (lookup m)(k := None)"
      using Cons.prems(1) by (simp add: ok_def lookup_delete)
    have snap': "lookup (delete k m) j = Some cj" if "j \<in> set order" "snap j = Some cj" for j cj
      using that Cons.prems(2,3) by (auto simp: look)
    have "distinct order" using Cons.prems(2) by simp
    from Cons.IH [OF H1(2) this snap'] obtain m' H' where
      r: "sweep snap test action delete order (delete k m, H1) = Went (m', H')" "ok (m', H')"
        "settled_from (lookup (delete k m)) H1 H'"
        "lookup m' = (\<lambda>j. if j \<in> set order \<and> (\<exists>ci. snap j = Some ci \<and> test ci) then None else lookup (delete k m) j)"
      by blast
    have "settled_from (lookup m) H H'"
      by (rule settled_from_trans [OF H1(3) r(3)]) (auto simp: look split: if_splits)
    moreover have "lookup m' = (\<lambda>j. if j \<in> set (k # order) \<and> (\<exists>ci. snap j = Some ci \<and> test ci)
        then None else lookup m j)"
      unfolding r(4) look using ci by (auto simp: fun_eq_iff)
    ultimately show ?thesis using ci H1(1) r(1,2) by simp
  qed
qed

end

interpretation bee_calls: call_table bm bee_set bee_delete bee_free
  by unfold_locales

interpretation redis_calls: call_table redis_lookup redis_store cm_Remove cm_inv
  by unfold_locales
    (auto simp: redis_lookup_def redis_store_def store_simps inv_intros fun_eq_iff)

section \<open>Histories of a client\<close>

text \<open>
  What happens to a local (or AMQP) client's table, in the order its goroutines do it: a call
  registered with a channel made for it (\<open>next\<close> numbers the channels), a response, a timeout
  sweep in some visit order.
\<close>

datatype call_event = Registered rpc_info | Response result_info | Timeout int "string list"

record call_state =
  table :: local_table
  heap :: chans
  next_chan :: nat

definition new_calls :: call_state where
  "new_calls = \<lparr>table = NewBeeMap, heap = (\<lambda>c. new_chan), next_chan = 0\<rparr>"

definition call_event :: "call_event \<Rightarrow> call_state \<Rightarrow> call_state went" where
  "call_event ev s =
     (case ev of
        Registered ci \<Rightarrow>
          Went (s\<lparr>table := snd (local_Call False ci (next_chan s) (table s)), next_chan := next_chan s + 1\<rparr>)
      | Response r \<Rightarrow>
          went_bind (local_on_response r (table s, heap s)) (\<lambda>(m, H). Went (s\<lparr>table := m, heap := H\<rparr>))
      | Timeout now order \<Rightarrow>
          went_bind (local_on_timeout now order (table s, heap s)) (\<lambda>(m, H). Went (s\<lparr>table := m, heap := H\<rparr>)))"

fun call_events :: "call_event list \<Rightarrow> call_state \<Rightarrow> call_state went" where
  "call_events [] s = Went s"
| "call_events (ev # evs) s = went_bind (call_event ev s) (call_events evs)"

definition call_inv :: "call_state \<Rightarrow> bool" where
  "call_inv s \<longleftrightarrow> bee_calls.ok (table s, heap s)
     \<and> (\<forall>k ci. bm (table s) k = Some ci \<longrightarrow> cc_chan ci < next_chan s)
     \<and> (\<forall>c. next_chan s \<le> c \<longrightarrow> heap s c = new_chan)
     \<and> (\<forall>c. heap s c = new_chan \<or> (rc_closed (heap s c) \<and> length (rc_buf (heap s c)) \<le> 1))"

text \<open>The visit order of a sweep lists the keys of the table, each once.\<close>

definition good_event :: "call_event \<Rightarrow> bool" where
  "good_event ev = (case ev of Timeout now order \<Rightarrow> distinct order | _ \<Rightarrow> True)"

lemma call_inv_settled:
  assumes "call_inv s" "bee_calls.ok (m, H)" "settled_from (bm (table s)) (heap s) H"
    and "\<And>k ci. bm m k = Some ci \<Longrightarrow> bm (table s) k = Some ci"
  shows "call_inv (s\<lparr>table := m, heap := H\<rparr>)"
proof -
  have fresh: "H c = new_chan" if "next_chan s \<le> c" for c
    using assms(1,3) that unfolding call_inv_def settled_from_def by (metis leD)
  have "H c = new_chan \<or> (rc_closed (H c) \<and> length (rc_buf (H c)) \<le> 1)" for c
    using assms(1,3) unfolding call_inv_def settled_from_def by metis
  with fresh assms(1,2,4) show ?thesis unfolding call_inv_def by simp blast
qed

lemma settled_pending:
  assumes "call_inv s" "bm (table s) k = Some ci"
  shows "cc_chan ci < next_chan s" "heap s (cc_chan ci) = new_chan"
  using assms by (auto simp: call_inv_def bee_calls.ok_def calls_ok_def)

lemma local_response_ok:
  assumes "bee_calls.ok (m, H)"
  shows "\<exists>m' H'. local_on_response r (m, H) = Went (m', H') \<and> bee_calls.ok (m', H')
    \<and> settled_from (bm m) H H' \<and> bm m' = (bm m)(res_cid r := None)
    \<and> (\<forall>ci. bm m (res_cid r) = Some ci \<longrightarrow> H' (cc_chan ci) = \<lparr>rc_buf = [r], rc_closed = True\<rparr>)"
proof (cases "bm m (res_cid r)")
  case None
  with assms show ?thesis by (auto simp: local_on_response_def fun_upd_idem)
next
  case (Some ci)
  with assms have new: "H (cc_chan ci) = new_chan" by (auto simp: bee_calls.ok_def calls_ok_def)
  have "bee_free m" using assms by (simp add: bee_calls.ok_def)
  with Some new bee_calls.take_out_ok [OF assms Some] show ?thesis
    by (auto simp: local_on_response_def answer_new store_simps settled_from_def)
qed

lemma local_timeout_ok:
  assumes "bee_calls.ok (m, H)" "distinct order"
  shows "\<exists>m' H'. local_on_timeout now order (m, H) = Went (m', H') \<and> bee_calls.ok (m', H')
    \<and> settled_from (bm m) H H'
    \<and> bm m' = (\<lambda>k. if k \<in> set order \<and> (\<exists>ci. bm m k = Some ci \<and> cc_timeout ci < now div 1000000)
        then None else bm m k)"
  unfolding local_on_timeout_def
  using bee_calls.sweep_ok [OF settles_answer assms, of "bm m" "\<lambda>ci. cc_timeout ci < now div 1000000"
      local_timeout_result] by simp

lemma call_event_inv:
  assumes "call_inv s" "good_event ev"
  shows "\<exists>s'. call_event ev s = Went s' \<and> call_inv s'"
proof (cases ev)
  case (Registered ci)
  have ok: "bee_calls.ok (table s, heap s)" using assms(1) by (simp add: call_inv_def)
  have "bee_calls.ok (bee_set (Cid ci) \<lparr>cc_cid = Cid ci, cc_timeout = Expired ci, cc_chan = next_chan s\<rparr> (table s), heap s)"
    by (rule bee_calls.register_ok [OF ok]) (use assms(1) in \<open>auto simp: call_inv_def dest: less_imp_neq\<close>)
  moreover have "bee_free (table s)" using ok by (simp add: bee_calls.ok_def)
  ultimately show ?thesis
    using assms(1) Registered by (auto simp: call_event_def local_Call_def call_inv_def store_simps intro: less_SucI split: if_splits)
next
  case (Response r)
  have ok: "bee_calls.ok (table s, heap s)" using assms(1) by (simp add: call_inv_def)
  from local_response_ok [OF ok, of r] obtain m H where
    "local_on_response r (table s, heap s) = Went (m, H)" "bee_calls.ok (m, H)"
    "settled_from (bm (table s)) (heap s) H" "bm m = (bm (table s))(res_cid r := None)" by blast
  moreover from this have "call_inv (s\<lparr>table := m, heap := H\<rparr>)"
    by (intro call_inv_settled [OF assms(1)]) (auto split: if_splits)
  ultimately show ?thesis using Response by (simp add: call_event_def)
next
  case (Timeout now order)
  have ok: "bee_calls.ok (table s, heap s)" using assms(1) by (simp add: call_inv_def)
  have "distinct order" using assms(2) Timeout by (simp add: good_event_def)
  from local_timeout_ok [OF ok this, of now] obtain m H where
    "local_on_timeout now order (table s, heap s) = Went (m, H)" "bee_calls.ok (m, H)"
    "settled_from (bm (table s)) (heap s) H"
    "bm m = (\<lambda>k. if k \<in> set order \<and> (\<exists>ci. bm (table s) k = Some ci \<and> cc_timeout ci < now div 1000000)
        then None else bm (table s) k)" by blast
  moreover from this have "call_inv (s\<lparr>table := m, heap := H\<rparr>)"
    by (intro call_inv_settled [OF assms(1)]) (auto split: if_splits)
  ultimately show ?thesis using Timeout by (simp add: call_event_def)
qed

lemma call_events_inv:
  assumes "call_inv s" "\<forall>ev \<in> set evs. good_event ev"
  shows "\<exists>s'. call_events evs s = Went s' \<and> call_inv s'"
  using assms
proof (induction evs arbitrary: s)
  case Nil
  then show ?case by simp
next
  case (Cons ev evs)
  from call_event_inv [OF Cons.prems(1)] Cons.prems(2) obtain s1 where
    "call_event ev s = Went s1" "call_inv s1" by auto
  with Cons.IH [of s1] Cons.prems(2) show ?case by auto
qed

lemma call_inv_new: "call_inv new_calls"
  by (simp add: call_inv_def new_calls_def bee_calls.ok_def calls_ok_def bee_free_def NewBeeMap_def)

section \<open>Properties\<close>

text \<open>
  C14: Whatever calls, responses and timeout sweeps a local client goes through, in any order and
  with any repeated or foreign correlation ids, none of them panics or blocks, and every call's
  channel ends up with at most one result: it is open and empty, or closed with what it got.
\<close>

theorem calls_answered_at_most_once:
  assumes "\<forall>ev \<in> set evs. good_event ev"
  shows "\<exists>s. call_events evs new_calls = Went s
    \<and> (\<forall>c. heap s c = new_chan \<or> (rc_closed (heap s c) \<and> length (rc_buf (heap s c)) \<le> 1))
    \<and> (\<forall>k ci. bm (table s) k = Some ci \<longrightarrow> heap s (cc_chan ci) = new_chan)"
proof -
  from call_events_inv [OF call_inv_new assms] obtain s where
    s: "call_events evs new_calls = Went s" "call_inv s" by blast
  with settled_pending(2) [OF s(2)] show ?thesis by (auto simp: call_inv_def)
qed

theorem calls_answered_at_most_once_witness:
  "\<exists>s. call_events [Registered \<lparr>Cid = ''1'', Fn = ''f'', ReplyTo = [], Expired = 5, Reply = True, ArgsType = [], Args = []\<rparr>,
        Timeout 7000000 [''1''], Response (NewResultInfo ''1'' 0 [] [] [])] new_calls = Went s
    \<and> (\<forall>c. heap s c = new_chan \<or> (rc_closed (heap s c) \<and> length (rc_buf (heap s c)) \<le> 1))"
  using calls_answered_at_most_once [of "[Registered \<lparr>Cid = ''1'', Fn = ''f'', ReplyTo = [], Expired = 5,
        Reply = True, ArgsType = [], Args = []\<rparr>, Timeout 7000000 [''1''], Response (NewResultInfo ''1'' 0 [] [] [])]"]
  by (auto simp: good_event_def)

text \<open>
  In every such history, a response takes exactly its own call out of the table: the call's
  channel is closed with that result, no other pending call is touched, and a response with
  an unknown id changes nothing.
\<close>

theorem response_reaches_its_call:
  assumes "\<forall>ev \<in> set evs. good_event ev" "call_events evs new_calls = Went s"
  shows "\<exists>s'. call_event (Response r) s = Went s'
    \<and> bm (table s') = (bm (table s))(res_cid r := None)
    \<and> (case bm (table s) (res_cid r) of
         None \<Rightarrow> heap s' = heap s
       | Some ci \<Rightarrow> heap s' = (heap s)(cc_chan ci := \<lparr>rc_buf = [r], rc_closed = True\<rparr>))"
proof -
  from call_events_inv [OF call_inv_new assms(1)] assms(2) have inv: "call_inv s" by simp
  then have free: "bee_free (table s)" by (simp add: call_inv_def bee_calls.ok_def)
  show ?thesis
  proof (cases "bm (table s) (res_cid r)")
    case None
    then show ?thesis by (simp add: call_event_def local_on_response_def fun_upd_idem)
  next
    case (Some ci)
    with settled_pending(2) [OF inv] free show ?thesis
      by (simp add: call_event_def local_on_response_def answer_new store_simps)
  qed
qed

theorem response_reaches_its_call_witness:
  "\<exists>s'. call_event (Response (NewResultInfo ''1'' 0 [] [] [])) new_calls = Went s'
    \<and> bm (table s') = (bm (table new_calls))(''1'' := None)
    \<and> (case bm (table new_calls) ''1'' of
         None \<Rightarrow> heap s' = heap new_calls
       | Some ci \<Rightarrow> heap s' = (heap new_calls)(cc_chan ci := \<lparr>rc_buf = [NewResultInfo ''1'' 0 [] [] []], rc_closed = True\<rparr>))"
  using response_reaches_its_call [of "[]" new_calls "NewResultInfo ''1'' 0 [] [] []"]
  by (simp add: NewResultInfo_def)

text \<open>
  The redis client cannot take an answer: it stores pointers to its calls and its response
  loop asserts a struct, so every response to a pending call is a panic that nothing recovers,
  while its timeout sweep, which asserts the pointer, settles the same calls.
\<close>

theorem redis_response_panics:
  assumes "redis_calls.ok (m, H)" "distinct order"
    and "unmarshal_result env d = Inr r"
    and "m = snd (redis_Call env' False q ci c before)" "marshal_info env' (ci\<lparr>ReplyTo := q\<rparr>) = Inr b"
    and "cm_inv before" "res_cid r = Cid ci"
  shows "redis_on_response env d (m, H) = WentPanic ''interface conversion''
    \<and> (\<exists>m' H'. redis_on_timeout now order (m, H) = Went (m', H') \<and> redis_calls.ok (m', H'))"
proof -
  have "cm_Get m (res_cid r) = Some (Pointer \<lparr>cc_cid = Cid ci, cc_timeout = Expired ci, cc_chan = c\<rparr>)"
    using assms(4-7) by (simp add: redis_Call_def redis_store_def store_simps Let_def)
  then have "redis_on_response env d (m, H) = WentPanic ''interface conversion''"
    using assms(3) by (simp add: redis_on_response_def)
  moreover have "\<exists>m' H'. redis_on_timeout now order (m, H) = Went (m', H') \<and> redis_calls.ok (m', H')"
    unfolding redis_on_timeout_def
    using redis_calls.sweep_ok [OF settles_answer assms(1,2), of "redis_lookup m"] by fastforce
  ultimately show ?thesis by simp
qed

definition ok_env :: amqp_env where
  "ok_env = \<lparr>callback_queue = Inr ''q'', marshal_info = (\<lambda>ci. Inr [1]), publish = (\<lambda>b. None),
     unmarshal_result = (\<lambda>b. Inr (NewResultInfo ''1'' 0 [] [] []))\<rparr>"

definition one_call :: rpc_info where
  "one_call = \<lparr>Cid = ''1'', Fn = ''f'', ReplyTo = [], Expired = 5, Reply = True, ArgsType = [], Args = []\<rparr>"

lemma redis_one_call_ok:
  "redis_calls.ok (snd (redis_Call ok_env False ''q'' one_call 0 cm_New), \<lambda>c. new_chan)"
proof -
  have "redis_calls.ok (cm_New, \<lambda>c. new_chan)"
    by (simp add: redis_calls.ok_def inv_intros calls_ok_def redis_lookup_def cm_Get_New)
  from redis_calls.register_ok [OF this, of 0 "Cid one_call" "Cid one_call" "Expired one_call"] show ?thesis
    by (simp add: redis_Call_def ok_env_def redis_lookup_def cm_Get_New one_call_def)
qed

theorem redis_response_panics_witness:
  "redis_on_response ok_env [7] (snd (redis_Call ok_env False ''q'' one_call 0 cm_New), \<lambda>c. new_chan)
      = WentPanic ''interface conversion''
    \<and> (\<exists>m' H'. redis_on_timeout 0 [''1''] (snd (redis_Call ok_env False ''q'' one_call 0 cm_New), \<lambda>c. new_chan)
        = Went (m', H') \<and> redis_calls.ok (m', H'))"
  by (rule redis_response_panics [OF redis_one_call_ok, where env = ok_env and r = "NewResultInfo ''1'' 0 [] [] []"
        and env' = ok_env and q = "''q''" and ci = one_call and c = 0 and b = "[1]" and before = cm_New])
    (simp_all add: ok_env_def cm_inv_New one_call_def NewResultInfo_def)

end
