(* ===== verification/Lodos_Rpc_Client.thy ===== *)
theory Lodos_Rpc_Client
  imports Lodos_Rpc_Calls
begin

text \<open>
  \<^verbatim>\<open>rpc/base/rpc_client.go\<close>: which connection a call takes, how its parameters are encoded, and
  what the caller makes of the result; then the whole way of a local call, from its parameters
  through the server's \<^verbatim>\<open>runFunc\<close> to its results. The connection is a parameter where it is
  remote: \<open>deliver\<close> gives the error of handing the request over, and the result that reaches
  the callback channel (\<^const>\<open>None\<close> when the channel is closed instead).
\<close>

section \<open>Connections\<close>

record rpc_conn =
  local_client :: bool
  remote_client :: bool
  redis_client :: bool

datatype via = ViaLocal | ViaRemote | ViaRedis

definition NewRPCClient :: rpc_conn where
  "NewRPCClient = \<lparr>local_client = False, remote_client = False, redis_client = False\<rparr>"

text \<open>Each is made once; \<open>dialled\<close> says whether the dial succeeded.\<close>

definition NewLocalRpcClient :: "bool \<Rightarrow> bool \<Rightarrow> rpc_conn \<Rightarrow> rpc_conn" where
  "NewLocalRpcClient given dialled c =
     (if given \<and> \<not> local_client c then c\<lparr>local_client := dialled\<rparr> else c)"

definition NewRabbitmqRpcClient :: "bool \<Rightarrow> bool \<Rightarrow> rpc_conn \<Rightarrow> rpc_conn" where
  "NewRabbitmqRpcClient given dialled c =
     (if given \<and> \<not> remote_client c then c\<lparr>remote_client := dialled\<rparr> else c)"

definition NewRedisRpcClient :: "bool \<Rightarrow> bool \<Rightarrow> rpc_conn \<Rightarrow> rpc_conn" where
  "NewRedisRpcClient given dialled c =
     (if given \<and> \<not> redis_client c then c\<lparr>redis_client := dialled\<rparr> else c)"

text \<open>The local connection first, then RabbitMQ, then redis.\<close>

definition pick :: "rpc_conn \<Rightarrow> via option" where
  "pick c =
     (if local_client c then Some ViaLocal
      else if remote_client c then Some ViaRemote
      else if redis_client c then Some ViaRedis else None)"

section \<open>Calls\<close>

record 'a call_env =
  ce_json :: "'a dyn json"
  ce_apps :: "'a dyn serializer list option"
  RpcExpired :: int
  serverId :: string

text \<open>\<open>now\<close> is \<^verbatim>\<open>time.Now()\<close> in nanoseconds, \<open>cid\<close> the fresh \<^verbatim>\<open>uuid.Rand().Hex()\<close>.\<close>

definition make_info ::
  "'a call_env \<Rightarrow> int \<Rightarrow> string \<Rightarrow> bool \<Rightarrow> string \<Rightarrow> string list \<Rightarrow> bytes list \<Rightarrow> rpc_info" where
  "make_info env now cid reply fn ts args =
     \<lparr>Cid = cid, Fn = fn, ReplyTo = [], Expired = (now + RpcExpired env * 1000000000) div 1000000,
      Reply = reply, ArgsType = ts, Args = args\<rparr>"

definition no_connection :: "'a call_env \<Rightarrow> 'a dyn" where
  "no_connection env = PlainError (''rpc service ('' @ serverId env @ '') connection failed'')"

fun decode_results ::
  "'a dyn json \<Rightarrow> 'a dyn serializer list option \<Rightarrow> string \<Rightarrow> string list \<Rightarrow> bytes list
    \<Rightarrow> ('a dyn + 'a dyn go_value list) outcome" where
  "decode_results j apps err (t # ts) (b # bs) =
     outcome_bind (Bytes2Args j apps t b)
       (\<lambda>r. case r of
          Inl e \<Rightarrow> Done (Inl (PlainError (err @ '', FormatError: '' @ e)))
        | Inr v \<Rightarrow> map_outcome_val (\<lambda>rest. case rest of Inl e \<Rightarrow> Inl e | Inr vs \<Rightarrow> Inr (v # vs))
            (decode_results j apps err ts bs))"
| "decode_results j apps err _ _ = Done (Inr [])"

text \<open>What \<^verbatim>\<open>CallArgs\<close> and \<^verbatim>\<open>ResolveCallbackChan\<close> make of the callback channel.\<close>

definition resolve ::
  "'a call_env \<Rightarrow> string \<Rightarrow> result_info option \<Rightarrow> ('a dyn + 'a dyn go_value list) outcome" where
  "resolve env closed_text received =
     (case received of
        None \<Rightarrow> Done (Inl (PlainError closed_text))
      | Some r \<Rightarrow>
          if res_error r \<noteq> [] then Done (Inl (NewError (res_code r) (GString (res_error r))))
          else if length (res_values r) \<noteq> length (res_types r) then
            Done (Inl (PlainError '' ###len(resultInfo.Results) != len(resultInfo.ResultsType)### ''))
          else decode_results (ce_json env) (ce_apps env) (res_error r) (res_types r) (res_values r))"

definition ResolveCallbackChan ::
  "'a call_env \<Rightarrow> result_info option \<Rightarrow> ('a dyn + 'a dyn go_value list) outcome" where
  "ResolveCallbackChan env received = resolve env ''client closed'' received"

definition CallArgs ::
  "'a call_env \<Rightarrow> rpc_conn \<Rightarrow> (via \<Rightarrow> rpc_info \<Rightarrow> string option \<times> result_info option) \<Rightarrow> int \<Rightarrow> string
    \<Rightarrow> string \<Rightarrow> string list \<Rightarrow> bytes list \<Rightarrow> ('a dyn + 'a dyn go_value list) outcome" where
  "CallArgs env conn deliver now cid fn ts args =
     (case pick conn of
        None \<Rightarrow> Done (Inl (no_connection env))
      | Some v \<Rightarrow>
          (case deliver v (make_info env now cid True fn ts args) of
             (Some e, _) \<Rightarrow> Done (Inl (PlainError e))
           | (None, received) \<Rightarrow> resolve env ''rpc client closed'' received))"

text \<open>\<^verbatim>\<open>SyncCallArgs\<close> returns the callback channel itself: here the request it belongs to.\<close>

definition SyncCallArgs ::
  "'a call_env \<Rightarrow> rpc_conn \<Rightarrow> (via \<Rightarrow> rpc_info \<Rightarrow> string option) \<Rightarrow> int \<Rightarrow> string
    \<Rightarrow> string \<Rightarrow> string list \<Rightarrow> bytes list \<Rightarrow> 'a dyn + (via \<times> rpc_info)" where
  "SyncCallArgs env conn send now cid fn ts args =
     (case pick conn of
        None \<Rightarrow> Inl (no_connection env)
      | Some v \<Rightarrow>
          (let ci = make_info env now cid True fn ts args in
           case send v ci of Some e \<Rightarrow> Inl (PlainError e) | None \<Rightarrow> Inr (v, ci)))"

text \<open>\<^verbatim>\<open>CallArgsNR\<close> assigns the connection's error and then returns nil.\<close>

definition CallArgsNR ::
  "'a call_env \<Rightarrow> rpc_conn \<Rightarrow> (via \<Rightarrow> rpc_info \<Rightarrow> string option) \<Rightarrow> int \<Rightarrow> string
    \<Rightarrow> string \<Rightarrow> string list \<Rightarrow> bytes list \<Rightarrow> 'a dyn option" where
  "CallArgsNR env conn send now cid fn ts args =
     (case pick conn of
        None \<Rightarrow> Some (no_connection env)
      | Some v \<Rightarrow> (let err = send v (make_info env now cid False fn ts args) in None))"

text \<open>The parameters' loop; a session is replaced by its copy (\<open>clone\<close>) first.\<close>

fun encode_params ::
  "'a call_env \<Rightarrow> ('a dyn go_value \<Rightarrow> 'a dyn go_value) \<Rightarrow> nat \<Rightarrow> 'a dyn go_value list
    \<Rightarrow> string + (string list \<times> bytes list)" where
  "encode_params env clone k [] = Inr ([], [])"
| "encode_params env clone k (p # ps) =
     (case ArgsTypeAnd2Bytes (ce_json env) (ce_apps env) (clone p) of
        (t, b, Some e) \<Rightarrow> Inl (''args['' @ dec_nat k @ ''] error '' @ e)
      | (t, b, None) \<Rightarrow>
          (case encode_params env clone (k + 1) ps of
             Inl e \<Rightarrow> Inl e | Inr (ts, bs) \<Rightarrow> Inr (t # ts, b # bs)))"

definition Call ::
  "'a call_env \<Rightarrow> rpc_conn \<Rightarrow> (via \<Rightarrow> rpc_info \<Rightarrow> string option \<times> result_info option)
    \<Rightarrow> ('a dyn go_value \<Rightarrow> 'a dyn go_value) \<Rightarrow> int \<Rightarrow> string \<Rightarrow> string \<Rightarrow> 'a dyn go_value list
    \<Rightarrow> ('a dyn + 'a dyn go_value list) outcome" where
  "Call env conn deliver clone now cid fn params =
     (case encode_params env clone 0 params of
        Inl e \<Rightarrow> Done (Inl (PlainError e))
      | Inr (ts, args) \<Rightarrow> CallArgs env conn deliver now cid fn ts args)"

definition SyncCall ::
  "'a call_env \<Rightarrow> rpc_conn \<Rightarrow> (via \<Rightarrow> rpc_info \<Rightarrow> string option)
    \<Rightarrow> ('a dyn go_value \<Rightarrow> 'a dyn go_value) \<Rightarrow> int \<Rightarrow> string \<Rightarrow> string \<Rightarrow> 'a dyn go_value list
    \<Rightarrow> 'a dyn + (via \<times> rpc_info)" where
  "SyncCall env conn send clone now cid fn params =
     (case encode_params env clone 0 params of
        Inl e \<Rightarrow> Inl (PlainError e)
      | Inr (ts, args) \<Rightarrow> SyncCallArgs env conn send now cid fn ts args)"

definition CallNR ::
  "'a call_env \<Rightarrow> rpc_conn \<Rightarrow> (via \<Rightarrow> rpc_info \<Rightarrow> string option)
    \<Rightarrow> ('a dyn go_value \<Rightarrow> 'a dyn go_value) \<Rightarrow> int \<Rightarrow> string \<Rightarrow> string \<Rightarrow> 'a dyn go_value list
    \<Rightarrow> 'a dyn option" where
  "CallNR env conn send clone now cid fn params =
     (case encode_params env clone 0 params of
        Inl e \<Rightarrow> Some (PlainError e)
      | Inr (ts, args) \<Rightarrow> CallArgsNR env conn send now cid fn ts args)"

section \<open>A local call\<close>

text \<open>
  The request goes to the server of the same process: it is checked at \<open>now'\<close>, run at
  \<open>run_at\<close>, and the first result sent back for its id is the one the caller's channel gets.
\<close>

definition local_deliver ::
  "'a dyn json \<Rightarrow> 'a dyn serializer list option \<Rightarrow> 'a dyn function_table \<Rightarrow> int \<Rightarrow> int
    \<Rightarrow> via \<Rightarrow> rpc_info \<Rightarrow> string option \<times> result_info option" where
  "local_deliver j apps fs now' run_at v ci =
     (None, (case on_callback_handle ci True (replies (on_call_handle j apps fs now' run_at ci)) of
        [] \<Rightarrow> None | r # rs \<Rightarrow> Some r))"

text \<open>What a value becomes on the wire, and the values that survive it.\<close>

definition wire :: "'a go_value \<Rightarrow> 'a go_value" where
  "wire v = (case v of GInt i \<Rightarrow> GInt (take_bit 32 i) | _ \<Rightarrow> v)"

definition carries_value :: "'a json \<Rightarrow> 'a serializer list option \<Rightarrow> 'a go_value \<Rightarrow> bool" where
  "carries_value j apps v \<longleftrightarrow> (\<exists>t b. ArgsTypeAnd2Bytes j apps v = (t, b, None)
     \<and> Bytes2Args j apps t b = Done (Inr (wire v)))"

lemma carries_builtin [simp]:
  "carries_value j apps GNil" "carries_value j apps (GString s)" "carries_value j apps (GBool b)"
  "carries_value j apps (GInt32 i)" "carries_value j apps (GInt k)" "carries_value j apps (GInt64 l)"
  "carries_value j apps (GFloat32 f)" "carries_value j apps (GFloat64 g)" "carries_value j apps (GBytes bs)"
  by (simp_all add: carries_value_def wire_def ArgsTypeAnd2Bytes_def decode_tags codec_simps)

lemma encode_decode_params:
  assumes "list_all (carries_value (ce_json env) (ce_apps env)) ps" "list_all (\<lambda>p. clone p = p \<and> p \<noteq> GNil) ps"
  shows "\<exists>ts bs. encode_params env clone k ps = Inr (ts, bs) \<and> length ts = length ps \<and> length bs = length ps
    \<and> (\<forall>pre. decode_args (ce_json env) (ce_apps env) f (length pre) ts (pre @ bs) = Done (Inr (map wire ps)))"
  using assms
proof (induction ps arbitrary: k)
  case Nil
  then show ?case by simp
next
  case (Cons p ps)
  from Cons.prems obtain t b where p: "ArgsTypeAnd2Bytes (ce_json env) (ce_apps env) p = (t, b, None)"
      "Bytes2Args (ce_json env) (ce_apps env) t b = Done (Inr (wire p))" "clone p = p" "p \<noteq> GNil"
    by (auto simp: carries_value_def)
  from Cons.IH [of "k + 1"] Cons.prems obtain ts bs where
    ps: "encode_params env clone (k + 1) ps = Inr (ts, bs)" "length ts = length ps" "length bs = length ps"
      "\<And>pre. decode_args (ce_json env) (ce_apps env) f (length pre) ts (pre @ bs) = Done (Inr (map wire ps))"
    by auto
  have "wire p \<noteq> GNil" using p(4) by (auto simp: wire_def split: go_value.splits)
  then have zero: "(case wire p of GNil \<Rightarrow> z | _ \<Rightarrow> wire p) = wire p" for z
    by (cases "wire p") auto
  have "decode_args (ce_json env) (ce_apps env) f (length pre) (t # ts) (pre @ b # bs)
      = Done (Inr (map wire (p # ps)))" for pre
    using ps(4) [of "pre @ [b]"] p(2) zero by simp
  with p(1,3) ps(1-3) show ?case by simp
qed

lemma encode_decode_results:
  assumes "list_all (carries_value j apps) vs"
  shows "\<exists>ts bs. encode_results j apps vs = Inr (ts, bs) \<and> length ts = length vs \<and> length bs = length vs
    \<and> (\<forall>err. decode_results j apps err ts bs = Done (Inr (map wire vs)))"
  using assms
proof (induction vs)
  case Nil
  then show ?case by simp
next
  case (Cons v vs)
  then obtain t b ts bs where "ArgsTypeAnd2Bytes j apps v = (t, b, None)"
      "Bytes2Args j apps t b = Done (Inr (wire v))" "encode_results j apps vs = Inr (ts, bs)"
      "length ts = length vs" "length bs = length vs"
      "\<And>err. decode_results j apps err ts bs = Done (Inr (map wire vs))"
    by (auto simp: carries_value_def)
  then show ?case by simp
qed

lemma run_body_yields:
  assumes "decode_args j apps f 0 (ArgsType ci) (Args ci) = Done (Inr vs)"
    and "reflect_call f (call_args (length (Args ci)) vs) = Yields d out"
    and "d < Expired ci * 1000 * 1000 - now" "0 \<le> d"
  shows "run_body j apps now ci f = finish_results j apps ci out"
  using assms by (simp add: run_body_def)

text \<open>The queue for the reply plays no part in running a request.\<close>

lemma finish_results_ReplyTo [simp]: "finish_results j apps (ci\<lparr>ReplyTo := q\<rparr>) out = finish_results j apps ci out"
  by (simp add: finish_results_def errorCallback_def split: sum.split option.split)

lemma run_body_ReplyTo [simp]: "run_body j apps now (ci\<lparr>ReplyTo := q\<rparr>) f = run_body j apps now ci f"
  by (simp add: run_body_def Let_def errorCallback_def expired_text_def split: outcome.split sum.split call_end.split)

lemma on_call_handle_ReplyTo [simp]:
  "on_call_handle j apps fs now' run_at (ci\<lparr>ReplyTo := q\<rparr>) = on_call_handle j apps fs now' run_at ci"
  by (simp add: on_call_handle_def runFunc_def errorCallback_def split: option.split)

text \<open>A request that is picked up in time for a handler that ends in time, from its parameters to its reply.\<close>

lemma call_handled:
  assumes "fs fn = Some f" "is_func f" "num_in f = length ps"
    and "list_all (carries_value (ce_json env) (ce_apps env)) ps"
    and "list_all (\<lambda>p. clone p = p \<and> p \<noteq> GNil) ps"
    and "\<forall>k < length ps. assignable f k (wire (ps ! k))"
    and "body f (map wire ps) = Yields d (rs @ [e])" "0 \<le> d"
    and "list_all (carries_value (ce_json env) (ce_apps env)) rs" "result_error e = Some (code, txt)"
    and "now' div 1000 div 1000 \<le> (now + RpcExpired env * 1000000000) div 1000000"
    and "run_at + d < (now + RpcExpired env * 1000000000) div 1000000 * 1000000"
  obtains ts bs ts' bs' where "encode_params env clone 0 ps = Inr (ts, bs)"
    "on_call_handle (ce_json env) (ce_apps env) fs now' run_at (make_info env now cid True fn ts bs)
      = reply_with (NewResultInfo cid code txt ts' bs')"
    "\<And>closed. resolve env closed (Some (NewResultInfo cid code txt ts' bs'))
      = Done (if txt = [] then Inr (map wire rs) else Inl (CodeError code txt))"
proof -
  from encode_decode_params [OF assms(4,5), of 0 f] obtain ts bs where
    enc: "encode_params env clone 0 ps = Inr (ts, bs)" "length ts = length ps" "length bs = length ps"
      "\<And>pre. decode_args (ce_json env) (ce_apps env) f (length pre) ts (pre @ bs) = Done (Inr (map wire ps))"
    by blast
  from encode_decode_results [OF assms(9)] obtain ts' bs' where
    res: "encode_results (ce_json env) (ce_apps env) rs = Inr (ts', bs')" "length ts' = length rs"
      "length bs' = length rs"
      "\<And>err. decode_results (ce_json env) (ce_apps env) err ts' bs' = Done (Inr (map wire rs))"
    by blast
  define ci where "ci = make_info env now cid True fn ts bs"
  have args: "call_args (length bs) (map wire ps) = map Some (map wire ps)"
    using enc(3) by (simp add: call_args_def)
  have call: "reflect_call f (call_args (length (Args ci)) (map wire ps)) = Yields d (rs @ [e])"
    using assms(3,6,7) enc(3) args
    by (auto simp: reflect_call_def ci_def make_info_def o_def)
  have "run_body (ce_json env) (ce_apps env) run_at ci f
      = finish_results (ce_json env) (ce_apps env) ci (rs @ [e])"
    by (rule run_body_yields [OF _ call]) (use enc(4) [of "[]"] assms(8,12) in \<open>simp_all add: ci_def make_info_def\<close>)
  also have "\<dots> = reply_with (NewResultInfo cid code txt ts' bs')"
    using res(1) assms(10) by (simp add: finish_results_def ci_def make_info_def)
  finally have run: "run_body (ce_json env) (ce_apps env) run_at ci f = \<dots>" .
  have "on_call_handle (ce_json env) (ce_apps env) fs now' run_at ci = \<dots>"
    using run assms(1,2,3,11) enc(3) by (simp add: on_call_handle_def runFunc_def ci_def make_info_def)
  then show thesis
    using enc(1) res(2-4) by (intro that [of ts bs ts' bs']) (simp_all add: ci_def resolve_def NewResultInfo_def NewError_def)
qed

text \<open>The whole way of a local call.\<close>

lemma local_call:
  assumes "local_client conn" "fs fn = Some f" "is_func f" "num_in f = length ps"
    and "list_all (carries_value (ce_json env) (ce_apps env)) ps"
    and "list_all (\<lambda>p. clone p = p \<and> p \<noteq> GNil) ps"
    and "\<forall>k < length ps. assignable f k (wire (ps ! k))"
    and "body f (map wire ps) = Yields d (rs @ [e])" "0 \<le> d"
    and "list_all (carries_value (ce_json env) (ce_apps env)) rs" "result_error e = Some (code, txt)"
    and "now' div 1000 div 1000 \<le> (now + RpcExpired env * 1000000000) div 1000000"
    and "run_at + d < (now + RpcExpired env * 1000000000) div 1000000 * 1000000"
  shows "Call env conn (local_deliver (ce_json env) (ce_apps env) fs now' run_at) clone now cid fn ps
    = Done (if txt = [] then Inr (map wire rs) else Inl (CodeError code txt))"
proof -
  obtain ts bs ts' bs' where h: "encode_params env clone 0 ps = Inr (ts, bs)"
      "on_call_handle (ce_json env) (ce_apps env) fs now' run_at (make_info env now cid True fn ts bs)
        = reply_with (NewResultInfo cid code txt ts' bs')"
      "\<And>closed. resolve env closed (Some (NewResultInfo cid code txt ts' bs'))
        = Done (if txt = [] then Inr (map wire rs) else Inl (CodeError code txt))"
    using call_handled [where fs = fs and f = f and env = env and clone = clone and d = d and rs = rs and e = e
        and now' = now' and run_at = run_at and cid = cid, OF assms(2-13)] by metis
  have "local_deliver (ce_json env) (ce_apps env) fs now' run_at ViaLocal (make_info env now cid True fn ts bs)
      = (None, Some (NewResultInfo cid code txt ts' bs'))"
    using h(2) by (simp add: local_deliver_def on_callback_handle_def reply_with_def make_info_def)
  then show ?thesis using h(1,3) assms(1) by (simp add: Call_def CallArgs_def pick_def)
qed

section \<open>Properties\<close>

text \<open>
  C5: A local call runs the registered handler on the parameters as the wire carries them and
  returns its results but the last; the last one decides: nil or an empty string is success,
  any other string or error comes back as an \<^verbatim>\<open>*Error\<close> with its text, and the code of an
  \<^verbatim>\<open>*Error\<close> as a 32-bit number (0 for the rest). For a handler that ends before the deadline of
  a request that is picked up in time.
\<close>

theorem local_call_roundtrip:
  assumes "local_client conn" "fs fn = Some f" "is_func f" "num_in f = length ps"
    and "list_all (carries_value (ce_json env) (ce_apps env)) ps"
    and "list_all (\<lambda>p. clone p = p \<and> p \<noteq> GNil) ps"
    and "\<forall>k < length ps. assignable f k (wire (ps ! k))"
    and "body f (map wire ps) = Yields d (rs @ [e])" "0 \<le> d"
    and "list_all (carries_value (ce_json env) (ce_apps env)) rs" "result_error e = Some (code, txt)"
    and "now' div 1000 div 1000 \<le> (now + RpcExpired env * 1000000000) div 1000000"
    and "run_at + d < (now + RpcExpired env * 1000000000) div 1000000 * 1000000"
  shows "Call env conn (local_deliver (ce_json env) (ce_apps env) fs now' run_at) clone now cid fn ps
    = Done (if txt = [] then Inr (map wire rs) else Inl (CodeError code txt))"
  using assms by (rule local_call)

text \<open>A handler with two parameters that answers their order and an error with a code.\<close>

definition demo_func :: "nat dyn rpc_func" where
  "demo_func = \<lparr>is_func = True, num_in = 2, assignable = (\<lambda>k v. True), zero_in = (\<lambda>k. GNil),
     body = (\<lambda>vs. Yields 1000 (rev vs @ [GApp (CodeError 7 ''bad'')])), goroutine = True\<rparr>"

definition demo_env :: "nat call_env" where
  "demo_env = \<lparr>ce_json = \<lparr>marshal_map = (\<lambda>m. Inl []), unmarshal_map = (\<lambda>b. Inl []),
       marshal_str = (\<lambda>m. Inl []), unmarshal_str = (\<lambda>b. Inl [])\<rparr>,
     ce_apps = None, RpcExpired = 5, serverId = ''s''\<rparr>"

theorem local_call_roundtrip_witness:
  "Call demo_env \<lparr>local_client = True, remote_client = True, redis_client = False\<rparr>
      (local_deliver (ce_json demo_env) (ce_apps demo_env) [''f'' \<mapsto> demo_func] 2000000 2000000)
      id 1000000 ''id'' ''f'' [GString ''a'', GInt (- 1)]
    = Done (if error_text 7 ''bad'' = [] then Inr (map wire [GInt (take_bit 32 (- 1)), GString ''a''])
        else Inl (CodeError 7 (error_text 7 ''bad'')))"
  by (rule local_call_roundtrip [where f = demo_func and d = 1000 and e = "GApp (CodeError 7 ''bad'')"])
    (simp_all add: demo_func_def demo_env_def result_error_def int32_def wire_def)

text \<open>
  Every request the server runs gets exactly one result, under its own correlation id, on
  every branch: unknown function, wrong number of arguments, undecodable argument, expiry,
  unencodable result, success; the one exception is a handler that panics before its deadline,
  which ends the process instead.
\<close>

theorem one_result_per_request:
  "(\<exists>r. replies (runFunc j apps fs now ci) = [r] \<and> res_cid r = Cid ci)
   \<or> (replies (runFunc j apps fs now ci) = [] \<and> crashes (runFunc j apps fs now ci))"
proof -
  have one: "\<exists>r. replies (errorCallback ci c e) = [r] \<and> res_cid r = Cid ci" for c e
    by (simp add: errorCallback_def reply_with_def NewResultInfo_def)
  have fin: "\<exists>r. replies (finish_results j apps ci out) = [r] \<and> res_cid r = Cid ci" for out
    using one by (auto simp: finish_results_def reply_with_def NewResultInfo_def split: sum.split option.split)
  show ?thesis
    using one fin
    by (auto simp: runFunc_def run_body_def Let_def split: option.split outcome.split sum.split call_end.split)
qed

text \<open>
  A panic in a handler is not recovered, although \<^verbatim>\<open>_runFunc\<close> has a deferred recovery: the
  handler runs in a goroutine of its own. For a call that decodes, and at any time before the
  deadline, the process ends without a reply; a \<^verbatim>\<open>reflect\<close> panic of arguments that do not fit
  the handler is one of these.
\<close>

theorem handler_panic_ends_process:
  assumes "fs (Fn ci) = Some f" "is_func f" "length (Args ci) = num_in f"
    and "decode_args j apps f 0 (ArgsType ci) (Args ci) = Done (Inr vs)"
    and "reflect_call f (call_args (length (Args ci)) vs) = Panics_after d s"
    and "0 \<le> d" "now + d < Expired ci * 1000 * 1000"
  shows "runFunc j apps fs now ci = \<lparr>replies = [], crashes = True, left_behind = False\<rparr>"
  using assms by (simp add: runFunc_def run_body_def)

text \<open>A request whose argument is a string for a handler that wants a number.\<close>

definition misfit_call :: rpc_info where
  "misfit_call = \<lparr>Cid = ''1'', Fn = ''f'', ReplyTo = [], Expired = 5, Reply = True,
     ArgsType = [T_STRING], Args = [bytes_of_string ''a'']\<rparr>"

definition int_func :: "nat dyn rpc_func" where
  "int_func = \<lparr>is_func = True, num_in = 1, assignable = (\<lambda>k v. case v of GInt i \<Rightarrow> True | _ \<Rightarrow> False),
     zero_in = (\<lambda>k. GInt 0), body = (\<lambda>vs. Yields 10 (vs @ [GNil])), goroutine = False\<rparr>"

theorem handler_panic_ends_process_witness:
  "runFunc (ce_json demo_env) None [''f'' \<mapsto> int_func] 1000000 misfit_call
    = \<lparr>replies = [], crashes = True, left_behind = False\<rparr>"
  by (rule handler_panic_ends_process [where f = int_func and d = 0
        and s = "''reflect: Call using value as another type''" and vs = "[GString ''a'']"])
    (simp_all add: misfit_call_def int_func_def decode_tags call_args_def reflect_call_def)

text \<open>
  \<^verbatim>\<open>CallNR\<close> hides every delivery error: with any connection and parameters that encode, it
  returns nil whatever the connection answered.
\<close>

theorem CallNR_hides_errors:
  assumes "pick conn \<noteq> None" "encode_params env clone 0 ps = Inr (ts, bs)"
  shows "CallNR env conn (\<lambda>v ci. Some e) clone now cid fn ps = None"
  using assms by (auto simp: CallNR_def CallArgsNR_def)

theorem CallNR_hides_errors_witness:
  "CallNR demo_env \<lparr>local_client = False, remote_client = True, redis_client = False\<rparr>
     (\<lambda>v ci. Some ''amqpClient is isClose'') id 0 ''id'' ''f'' [GString ''a''] = None"
  by (rule CallNR_hides_errors [where ts = "[T_STRING]" and bs = "[bytes_of_string ''a'']"])
    (simp_all add: pick_def ArgsTypeAnd2Bytes_def)

end
