(* ===== verification/Lodos_Steps.thy ===== *)
theory Lodos_Steps
  imports Lodos_Prelude
begin

text \<open>
  Systems of goroutines that come to an end: a step relation with an invariant and a measure that
  every step lowers, in which only finished states have no step. Every schedule is then bounded,
  and one leads to a finished state.
\<close>

locale draining =
  fixes step :: "'s \<Rightarrow> 's \<Rightarrow> bool" and inv :: "'s \<Rightarrow> bool" and work :: "'s \<Rightarrow> nat" and finished :: "'s \<Rightarrow> bool"
  assumes inv_step: "step s s' \<Longrightarrow> inv s \<Longrightarrow> inv s'"
    and work_step: "step s s' \<Longrightarrow> inv s \<Longrightarrow> work s' < work s"
    and stuck_finished: "inv s \<Longrightarrow> (\<And>s'. \<not> step s s') \<Longrightarrow> finished s"
begin

lemma after: "(step ^^ n) s t \<Longrightarrow> inv s \<Longrightarrow> inv t \<and> work t + n \<le> work s"
proof (induction n arbitrary: t)
  case (Suc n)
  from Suc.prems(1) obtain u where u: "(step ^^ n) s u" "step u t" by auto
  have ih: "inv u" "work u + n \<le> work s" using Suc.IH [OF u(1) Suc.prems(2)] by simp_all
  show ?case using inv_step [OF u(2) ih(1)] work_step [OF u(2) ih(1)] ih(2) by simp
qed simp

lemma bounded: "(step ^^ n) s t \<Longrightarrow> inv s \<Longrightarrow> n \<le> work s \<and> inv t \<and> (finished t \<or> (\<exists>u. step t u))"
  using after [of n s t] stuck_finished [of t] by auto

lemma finishes: "inv s \<Longrightarrow> \<exists>t. step\<^sup>*\<^sup>* s t \<and> inv t \<and> finished t"
proof (induction "work s" arbitrary: s rule: less_induct)
  case less
  show ?case
  proof (cases "\<exists>u. step s u")
    case True
    then obtain u where u: "step s u" by auto
    have "\<exists>t. step\<^sup>*\<^sup>* u t \<and> inv t \<and> finished t"
      using less.hyps [OF work_step [OF u less.prems]] inv_step [OF u less.prems] by blast
    then show ?thesis using converse_rtranclp_into_rtranclp [of step, OF u] by blast
  next
    case False
    then show ?thesis using stuck_finished [OF less.prems] less.prems by blast
  qed
qed

end

text \<open>A sum of weights over the goroutines, when one of them moves.\<close>

lemma sum_upd:
  assumes "finite A" "c \<in> A"
  shows "(\<Sum>x \<in> A. w ((f(c := p)) x)) + w (f c) = (\<Sum>x \<in> A. w (f x)) + (w p :: nat)"
proof -
  have "(\<Sum>x \<in> A - {c}. w ((f(c := p)) x)) = (\<Sum>x \<in> A - {c}. w (f x))" by (rule sum.cong) auto
  then show ?thesis
    using sum.remove [OF assms, of "\<lambda>x. w ((f(c := p)) x)"] sum.remove [OF assms, of "\<lambda>x. w (f x)"] by simp
qed

end
