(* ===== verification/Lodos_Rpc_Life.thy ===== *)
theory Lodos_Rpc_Life
  imports Lodos_Rpc_Server Lodos_Steps
begin

text \<open>
  The goroutines of an RPC server (\<^verbatim>\<open>rpc/base/rpc_server.go\<close>): the loop that takes requests and
  starts a goroutine for each, these goroutines with the coroutine limit and the wait group, the
  loop that passes results on, and \<^verbatim>\<open>Done\<close>, which stops them. What a request makes of its
  arguments is \<^verbatim>\<open>runFunc\<close>, modelled with the server; here a goroutine is the number of its place.
\<close>

datatype done_phase = Not_done | Waits_runs | Stops_calls | Stops_callbacks | Closes | Done_over

text \<open>
  \<open>rl_taken\<close>: the requests taken so far, expired ones left aside (they are only logged).
  \<open>rl_fresh\<close>: goroutines of \<^verbatim>\<open>runFunc\<close> up to \<^verbatim>\<open>control.Wait\<close>; \<open>rl_admitted\<close>: past it, before
  \<^verbatim>\<open>wg.Add\<close>; \<open>rl_running\<close>: counted and without a result yet; \<open>rl_replied\<close>: with the result sent, before
  \<^verbatim>\<open>wg.Done\<close>; \<open>rl_leaving\<close>: between \<^verbatim>\<open>wg.Done\<close> and \<^verbatim>\<open>control.Finish\<close>. \<open>rl_sent\<close>: the results in
  \<^verbatim>\<open>callback_chan\<close>, which has one place; \<open>rl_passed\<close>: those passed on.
\<close>

record rpc_life =
  rl_limit :: limiter
  rl_call_loop :: bool
  rl_callback_loop :: bool
  rl_taken :: nat
  rl_fresh :: nat
  rl_admitted :: nat
  rl_running :: nat
  rl_replied :: nat
  rl_leaving :: nat
  rl_wg :: nat
  rl_sent :: nat
  rl_closed :: bool
  rl_passed :: nat
  rl_done :: done_phase
  rl_crashed :: bool

definition NewRPCServer :: "nat \<Rightarrow> rpc_life" where
  "NewRPCServer maxCoroutine =
     \<lparr>rl_limit = new_limiter maxCoroutine, rl_call_loop = True, rl_callback_loop = True, rl_taken = 0, rl_fresh = 0,
      rl_admitted = 0, rl_running = 0, rl_replied = 0, rl_leaving = 0, rl_wg = 0, rl_sent = 0, rl_closed = False, rl_passed = 0, rl_done = Not_done, rl_crashed = False\<rparr>"

text \<open>
  The steps. A request can arrive until the loop ends, for \<^verbatim>\<open>StopConsume\<close> of the AMQP server does
  nothing and a sender may wait at the channel. A request that names no function, or has the wrong
  number of arguments, is answered before it is counted. A send on the closed channel panics; the
  recovery sends on it again, and the process ends.
\<close>

inductive life_step :: "rpc_life \<Rightarrow> rpc_life \<Rightarrow> bool" where
  receives: "rl_call_loop s \<Longrightarrow> life_step s (s\<lparr>rl_taken := rl_taken s + 1, rl_fresh := rl_fresh s + 1\<rparr>)"
| rejects: "rl_fresh s > 0 \<Longrightarrow> \<not> rl_closed s \<Longrightarrow> rl_sent s = 0 \<Longrightarrow>
    life_step s (s\<lparr>rl_fresh := rl_fresh s - 1, rl_sent := 1\<rparr>)"
| rejects_late: "rl_fresh s > 0 \<Longrightarrow> rl_closed s \<Longrightarrow> life_step s (s\<lparr>rl_crashed := True\<rparr>)"
| admits: "rl_fresh s > 0 \<Longrightarrow> begin_run (rl_limit s) = Some l \<Longrightarrow>
    life_step s (s\<lparr>rl_limit := l, rl_fresh := rl_fresh s - 1, rl_admitted := rl_admitted s + 1\<rparr>)"
| counts: "rl_admitted s > 0 \<Longrightarrow>
    life_step s (s\<lparr>rl_admitted := rl_admitted s - 1, rl_running := rl_running s + 1, rl_wg := rl_wg s + 1\<rparr>)"
| replies: "rl_running s > 0 \<Longrightarrow> \<not> rl_closed s \<Longrightarrow> rl_sent s = 0 \<Longrightarrow>
    life_step s (s\<lparr>rl_running := rl_running s - 1, rl_replied := rl_replied s + 1, rl_sent := 1\<rparr>)"
| replies_late: "rl_running s > 0 \<Longrightarrow> rl_closed s \<Longrightarrow> life_step s (s\<lparr>rl_crashed := True\<rparr>)"
| ends: "rl_replied s > 0 \<Longrightarrow>
    life_step s (s\<lparr>rl_replied := rl_replied s - 1, rl_leaving := rl_leaving s + 1, rl_wg := rl_wg s - 1\<rparr>)"
| leaves: "rl_leaving s > 0 \<Longrightarrow> end_run (rl_limit s) = Some l \<Longrightarrow>
    life_step s (s\<lparr>rl_limit := l, rl_leaving := rl_leaving s - 1\<rparr>)"
| passes_on: "rl_callback_loop s \<Longrightarrow> rl_sent s > 0 \<Longrightarrow>
    life_step s (s\<lparr>rl_sent := rl_sent s - 1, rl_passed := rl_passed s + 1\<rparr>)"
| done_called: "rl_done s = Not_done \<Longrightarrow> life_step s (s\<lparr>rl_done := Waits_runs\<rparr>)"
| runs_waited: "rl_done s = Waits_runs \<Longrightarrow> rl_wg s = 0 \<Longrightarrow> life_step s (s\<lparr>rl_done := Stops_calls\<rparr>)"
| calls_stopped: "rl_done s = Stops_calls \<Longrightarrow> rl_call_loop s \<Longrightarrow>
    life_step s (s\<lparr>rl_done := Stops_callbacks, rl_call_loop := False\<rparr>)"
| callbacks_stopped: "rl_done s = Stops_callbacks \<Longrightarrow> rl_callback_loop s \<Longrightarrow>
    life_step s (s\<lparr>rl_done := Closes, rl_callback_loop := False\<rparr>)"
| chan_closed: "rl_done s = Closes \<Longrightarrow> life_step s (s\<lparr>rl_done := Done_over, rl_closed := True\<rparr>)"

section \<open>Invariant\<close>

text \<open>What holds of every server: the counters agree, and \<^verbatim>\<open>Done\<close> stops the loops one after the other.\<close>

fun loops_of :: "done_phase \<Rightarrow> bool \<times> bool \<times> bool" where
  "loops_of Stops_callbacks = (False, True, False)"
| "loops_of Closes = (False, False, False)"
| "loops_of Done_over = (False, False, True)"
| "loops_of _ = (True, True, False)"

definition life_inv :: "rpc_life \<Rightarrow> bool" where
  "life_inv s \<longleftrightarrow> rl_wg s = rl_running s + rl_replied s \<and> slots (rl_limit s) = rl_admitted s + rl_wg s + rl_leaving s
     \<and> slots (rl_limit s) \<le> max_slots (rl_limit s) \<and> 0 < max_slots (rl_limit s) \<and> rl_sent s \<le> 1
     \<and> rl_taken s = rl_fresh s + rl_admitted s + rl_running s + rl_sent s + rl_passed s
     \<and> (rl_call_loop s, rl_callback_loop s, rl_closed s) = loops_of (rl_done s)"

lemma life_inv_new: "life_inv (NewRPCServer n)"
  by (simp add: life_inv_def NewRPCServer_def new_limiter_def)

lemma life_step_inv: "life_step s s' \<Longrightarrow> life_inv s \<Longrightarrow> life_inv s'"
proof (induction rule: life_step.induct)
  case (admits s l)
  then show ?case by (auto simp: life_inv_def begin_run_def split: if_splits)
next
  case (leaves s l)
  then show ?case by (auto simp: life_inv_def end_run_def split: if_splits)
qed (auto simp: life_inv_def)

inductive life_reachable :: "nat \<Rightarrow> rpc_life \<Rightarrow> bool" for n where
  start: "life_reachable n (NewRPCServer n)"
| step: "life_reachable n s \<Longrightarrow> life_step s s' \<Longrightarrow> life_reachable n s'"

lemma life_reachable_inv: "life_reachable n s \<Longrightarrow> life_inv s"
  by (induction rule: life_reachable.induct) (auto simp: life_inv_new dest: life_step_inv)

section \<open>Every request is answered\<close>

text \<open>A step of the work on the requests taken: no new request, and nothing of \<^verbatim>\<open>Done\<close>.\<close>

definition works :: "rpc_life \<Rightarrow> rpc_life \<Rightarrow> bool" where
  "works s s' \<longleftrightarrow> life_step s s' \<and> rl_taken s' = rl_taken s \<and> rl_done s' = rl_done s"

definition life_work :: "rpc_life \<Rightarrow> nat" where
  "life_work s = 6 * rl_fresh s + 5 * rl_admitted s + 4 * rl_running s + 2 * rl_replied s + rl_leaving s + rl_sent s"

lemma step_decreases:
  "life_step s s' \<Longrightarrow> rl_taken s' = rl_taken s \<Longrightarrow> rl_done s' = rl_done s \<Longrightarrow> rl_done s = Not_done
    \<Longrightarrow> life_inv s \<Longrightarrow> life_work s' < life_work s"
  by (induction rule: life_step.induct) (auto simp: life_work_def life_inv_def)

lemma works_progress:
  assumes "life_inv s" "rl_done s = Not_done" "\<not> (\<exists>u. works s u)"
  shows "rl_passed s = rl_taken s \<and> slots (rl_limit s) = 0"
proof -
  have open_: "rl_callback_loop s" "\<not> rl_closed s" using assms(1,2) by (auto simp: life_inv_def)
  have stuck: "life_step s u \<Longrightarrow> rl_taken u = rl_taken s \<Longrightarrow> rl_done u \<noteq> rl_done s" for u
    using assms(3) by (auto simp: works_def)
  have sent: "rl_sent s = 0" using stuck [OF life_step.passes_on [OF open_(1)]] by auto
  have "rl_fresh s = 0" using stuck [OF life_step.rejects [OF _ open_(2) sent]] by auto
  moreover have "rl_admitted s = 0" using stuck [OF life_step.counts] by auto
  moreover have "rl_running s = 0" using stuck [OF life_step.replies [OF _ open_(2) sent]] by auto
  moreover have "rl_replied s = 0" using stuck [OF life_step.ends] by auto
  moreover have "rl_leaving s = 0"
  proof (rule ccontr)
    assume pos: "rl_leaving s \<noteq> 0"
    then have "slots (rl_limit s) \<noteq> 0" using assms(1) by (simp add: life_inv_def)
    then obtain l where "end_run (rl_limit s) = Some l" by (simp add: end_run_def)
    from stuck [OF life_step.leaves [OF _ this]] pos show False by auto
  qed
  ultimately show ?thesis using assms(1) sent by (simp add: life_inv_def)
qed

interpretation life: draining works "\<lambda>s. life_inv s \<and> rl_done s = Not_done" life_work
  "\<lambda>s. rl_passed s = rl_taken s \<and> slots (rl_limit s) = 0"
proof
  fix s s'
  assume w: "works s s'" and i: "life_inv s \<and> rl_done s = Not_done"
  then show "life_inv s' \<and> rl_done s' = Not_done" using life_step_inv [of s s'] by (simp add: works_def)
  show "life_work s' < life_work s" using w i step_decreases [of s s'] by (simp add: works_def)
qed (use works_progress in blast)


definition one_request :: rpc_life where
  "one_request = (NewRPCServer 0)\<lparr>rl_taken := 1, rl_fresh := 1\<rparr>"

lemma one_request_reachable: "life_reachable 0 one_request"
  using life_reachable.step [OF life_reachable.start life_step.receives, of 0]
  by (simp add: one_request_def NewRPCServer_def)


section \<open>Stopping\<close>

lemma reach2: "life_reachable n s \<Longrightarrow> life_step s t \<Longrightarrow> t = u \<Longrightarrow> life_reachable n u"
  using life_reachable.step by blast

text \<open>\<^verbatim>\<open>Done\<close> of a server in a state, when nothing else happens meanwhile.\<close>

lemma done_runs_through:
  assumes "life_reachable n s" "rl_done s = Not_done" "rl_wg s = 0"
  shows "life_reachable n (s\<lparr>rl_done := Done_over, rl_call_loop := False, rl_callback_loop := False, rl_closed := True\<rparr>)"
proof -
  have loops: "rl_call_loop s" "rl_callback_loop s"
    using life_reachable_inv [OF assms(1)] assms(2) by (auto simp: life_inv_def)
  have "life_reachable n (s\<lparr>rl_done := Waits_runs\<rparr>)"
    using assms life_step.done_called life_reachable.step by blast
  then have "life_reachable n (s\<lparr>rl_done := Stops_calls\<rparr>)"
    by (rule reach2 [OF _ life_step.runs_waited]) (simp_all add: assms(3))
  then have "life_reachable n (s\<lparr>rl_done := Stops_callbacks, rl_call_loop := False\<rparr>)"
    by (rule reach2 [OF _ life_step.calls_stopped]) (simp_all add: loops)
  then have "life_reachable n (s\<lparr>rl_done := Closes, rl_call_loop := False, rl_callback_loop := False\<rparr>)"
    by (rule reach2 [OF _ life_step.callbacks_stopped]) (simp_all add: loops)
  then show ?thesis by (rule reach2 [OF _ life_step.chan_closed]) simp_all
qed

text \<open>
  Stopping a server is not safe. A request taken before \<^verbatim>\<open>Done\<close> is called whose goroutine has not
  yet been counted is not waited for: there is a schedule in which it sends on the closed channel
  and ends the process. And there is one in which \<^verbatim>\<open>Done\<close> returns with a result that is never
  passed on, for the loop that passes results on is stopped without looking at its channel.
\<close>

theorem Done_may_crash_or_drop:
  "(\<exists>s. life_reachable n s \<and> rl_crashed s)
    \<and> (\<exists>s. life_reachable n s \<and> rl_done s = Done_over \<and> rl_fresh s = 0 \<and> rl_wg s = 0 \<and> rl_passed s < rl_taken s
         \<and> \<not> rl_callback_loop s)"
proof
  define s where "s = (NewRPCServer n)\<lparr>rl_taken := 1, rl_fresh := 1\<rparr>"
  have s: "life_reachable n s"
    by (rule reach2 [OF life_reachable.start life_step.receives]) (simp_all add: s_def NewRPCServer_def)
  have "rl_done s = Not_done" "rl_wg s = 0" by (simp_all add: s_def NewRPCServer_def)
  note over = done_runs_through [OF s this]
  have "life_reachable n (s\<lparr>rl_done := Done_over, rl_call_loop := False, rl_callback_loop := False, rl_closed := True, rl_crashed := True\<rparr>)"
    by (rule reach2 [OF over life_step.rejects_late]) (simp_all add: s_def)
  then show "\<exists>s. life_reachable n s \<and> rl_crashed s" by fastforce
  define r where "r = s\<lparr>rl_fresh := 0, rl_sent := 1\<rparr>"
  have "life_reachable n r"
    by (rule reach2 [OF s life_step.rejects]) (simp_all add: s_def r_def NewRPCServer_def)
  moreover have "rl_done r = Not_done" "rl_wg r = 0" by (simp_all add: r_def s_def NewRPCServer_def)
  ultimately have
    "life_reachable n (r\<lparr>rl_done := Done_over, rl_call_loop := False, rl_callback_loop := False, rl_closed := True\<rparr>)"
    by (rule done_runs_through)
  then show "\<exists>s. life_reachable n s \<and> rl_done s = Done_over \<and> rl_fresh s = 0 \<and> rl_wg s = 0 \<and> rl_passed s < rl_taken s
      \<and> \<not> rl_callback_loop s"
    by (rule_tac exI, rule_tac conjI, assumption) (simp add: r_def s_def NewRPCServer_def)
qed

end
