(* ===== verification/Lodos_Session.thy ===== *)
theory Lodos_Session
  imports Lodos_Rpc_Client
begin

text \<open>
  The session of a connected client, \<^verbatim>\<open>gate/base/session.go\<close>: its fields, the ways it is made
  and changed, and its calls to the gate that owns the connection. The protobuf library, the
  tracer and the module session a server id leads to are parameters. A session is a value
  here: the code's \<^verbatim>\<open>Clone\<close> and \<^verbatim>\<open>update\<close> copy the reference to the settings map.
\<close>

section \<open>Data\<close>

text \<open>\<^verbatim>\<open>Sessionpb\<close>; a nil map is \<^const>\<open>None\<close>.\<close>

type_synonym str_map = "string \<Rightarrow> string option"

record sessionpb =
  IP :: string
  Network :: string
  Userid :: string
  Sessionid :: string
  Serverid :: string
  Settings :: "str_map option"
  Carrier :: "str_map option"
  Token :: string

definition empty_pb :: sessionpb where
  "empty_pb = \<lparr>IP = [], Network = [], Userid = [], Sessionid = [], Serverid = [],
     Settings = None, Carrier = None, Token = []\<rparr>"

text \<open>The values the gate adds to those an RPC carries.\<close>

datatype 'o app_value = SessionV sessionpb | MarshalV bytes | AppV 'o

type_synonym 'o rpc_value = "'o app_value dyn go_value"

abbreviation session_value :: "sessionpb \<Rightarrow> 'o rpc_value" where
  "session_value s \<equiv> GApp (Other (SessionV s))"

text \<open>\<^verbatim>\<open>opentracing\<close>: contexts of spans, text carriers, new spans with an optional parent.\<close>

record ('sp, 'cx) tracer =
  context_of :: "'sp \<Rightarrow> 'cx"
  inject_text :: "'cx \<Rightarrow> str_map option"
  extract_text :: "str_map \<Rightarrow> 'cx option"
  start_span :: "string \<Rightarrow> 'cx option \<Rightarrow> 'sp"

text \<open>
  What a session uses of the application: \<open>server_call id\<close> is \<^verbatim>\<open>GetServerById(id)\<close> and, when
  there is one, what a call of a function of that server returns: an error or its results.
\<close>

type_synonym 'o call_result = "'o app_value dyn + 'o rpc_value list"

record ('o, 'sp, 'cx) app_env =
  app_tracer :: "('sp, 'cx) tracer option"
  app_judge :: "(sessionpb \<Rightarrow> bool) option"
  server_call :: "string \<Rightarrow> (string \<Rightarrow> 'o rpc_value list \<Rightarrow> 'o call_result outcome) option"
  server_callNR :: "string \<Rightarrow> string \<Rightarrow> 'o rpc_value list \<Rightarrow> 'o app_value dyn option outcome"

record ('o, 'sp, 'cx) session =
  s_app :: "('o, 'sp, 'cx) app_env option"
  pb :: sessionpb
  span :: "'sp option"
  judgeGuest :: "(sessionpb \<Rightarrow> bool) option"

text \<open>The errors of its methods: their own, by kind, and the one a call returned.\<close>

datatype 'o sess_err = AppNil | ServiceNotFound string | NotASession | UnsupportedResult
  | CallFailed "'o app_value dyn"

section \<open>Making a session\<close>

text \<open>
  \<^verbatim>\<open>proto.Marshal\<close> and \<^verbatim>\<open>proto.Unmarshal\<close> at \<^verbatim>\<open>Sessionpb\<close>. What the library documents: what was
  marshalled unmarshals to the same message, a map without entries to a nil map.
\<close>

definition nil_if_empty :: "str_map option \<Rightarrow> str_map option" where
  "nil_if_empty m = (if m = Some Map.empty then None else m)"

definition pb_norm :: "sessionpb \<Rightarrow> sessionpb" where
  "pb_norm s = s\<lparr>Settings := nil_if_empty (Settings s), Carrier := nil_if_empty (Carrier s)\<rparr>"

typedef pb_codec =
  "{c :: (sessionpb \<Rightarrow> string + bytes) \<times> (bytes \<Rightarrow> string + sessionpb).
     \<forall>s b. fst c s = Inr b \<longrightarrow> snd c b = Inr (pb_norm s)}"
  by (rule exI [of _ "(\<lambda>s. Inl [], \<lambda>b. Inl [])"]) simp

definition proto_Marshal :: "pb_codec \<Rightarrow> sessionpb \<Rightarrow> string + bytes" where
  "proto_Marshal c = fst (Rep_pb_codec c)"

definition proto_Unmarshal :: "pb_codec \<Rightarrow> bytes \<Rightarrow> string + sessionpb" where
  "proto_Unmarshal c = snd (Rep_pb_codec c)"

lemma proto_roundtrip [codec_simps]:
  "proto_Marshal c s = Inr b \<Longrightarrow> proto_Unmarshal c b = Inr (pb_norm s)"
  using Rep_pb_codec [of c] by (auto simp: proto_Marshal_def proto_Unmarshal_def)

text \<open>\<^verbatim>\<open>NewSession\<close>; \<^verbatim>\<open>app.GetJudgeGuest()\<close> panics on a nil application.\<close>

definition NewSession ::
  "pb_codec \<Rightarrow> ('o, 'sp, 'cx) app_env option \<Rightarrow> bytes \<Rightarrow> (string + ('o, 'sp, 'cx) session) outcome" where
  "NewSession c app data =
     (case proto_Unmarshal c data of
        Inl e \<Rightarrow> Done (Inl e)
      | Inr se \<Rightarrow>
          (case app of None \<Rightarrow> Panic ''nil pointer dereference''
           | Some a \<Rightarrow> Done (Inr \<lparr>s_app = app, pb = se, span = None, judgeGuest = app_judge a\<rparr>)))"

text \<open>
  One field of \<^verbatim>\<open>updateMap\<close>: absent or nil leaves it, a string sets it, anything else is an error
  that replaces an earlier one and does not stop the later fields.
\<close>

definition string_field ::
  "(string \<Rightarrow> 'o rpc_value option) \<Rightarrow> string \<Rightarrow> string \<Rightarrow> ((string \<Rightarrow> string) \<Rightarrow> sessionpb \<Rightarrow> sessionpb)
    \<Rightarrow> sessionpb \<times> string option \<Rightarrow> sessionpb \<times> string option" where
  "string_field settings key label upd = (\<lambda>(s, err).
     case settings key of
       None \<Rightarrow> (s, err)
     | Some GNil \<Rightarrow> (s, err)
     | Some (GString v) \<Rightarrow> (upd (\<lambda>_. v) s, err)
     | Some v \<Rightarrow> (s, Some (label @ '' can not format to string'')))"

definition settings_field ::
  "(string \<Rightarrow> 'o rpc_value option) \<Rightarrow> sessionpb \<times> string option \<Rightarrow> sessionpb \<times> string option" where
  "settings_field settings = (\<lambda>(s, err).
     case settings ''Settings'' of
       None \<Rightarrow> (s, err)
     | Some GNil \<Rightarrow> (s, err)
     | Some (GMapStr m) \<Rightarrow> (s\<lparr>Settings := Some m\<rparr>, err)
     | Some v \<Rightarrow> (s, Some ''Settings can not format to map[string]string''))"

definition updateMap ::
  "(string \<Rightarrow> 'o rpc_value option) \<Rightarrow> sessionpb \<Rightarrow> sessionpb \<times> string option" where
  "updateMap settings s =
     settings_field settings
      (string_field settings ''Serverid'' ''Serverid'' Serverid_update
      (string_field settings ''Sessionid'' ''Sessionid'' Sessionid_update
      (string_field settings ''Network'' ''Network'' Network_update
      (string_field settings ''IP'' ''IP'' IP_update
      (string_field settings ''Userid'' ''UserId'' Userid_update (s, None))))))"

definition NewSessionByMap ::
  "('o, 'sp, 'cx) app_env option \<Rightarrow> (string \<Rightarrow> 'o rpc_value option)
    \<Rightarrow> (string + ('o, 'sp, 'cx) session) outcome" where
  "NewSessionByMap app data =
     (case updateMap data empty_pb of
        (se, Some e) \<Rightarrow> Done (Inl e)
      | (se, None) \<Rightarrow>
          (case app of None \<Rightarrow> Panic ''nil pointer dereference''
           | Some a \<Rightarrow> Done (Inr \<lparr>s_app = app, pb = se, span = None, judgeGuest = app_judge a\<rparr>)))"

text \<open>\<^verbatim>\<open>update\<close>: six fields are taken over, the carrier and the token stay.\<close>

definition update_from :: "sessionpb \<Rightarrow> sessionpb \<Rightarrow> sessionpb" where
  "update_from r s = s\<lparr>Userid := Userid r, IP := IP r, Network := Network r,
     Sessionid := Sessionid r, Serverid := Serverid r, Settings := Settings r\<rparr>"

definition Serializable :: "pb_codec \<Rightarrow> ('o, 'sp, 'cx) session \<Rightarrow> string + bytes" where
  "Serializable c s = (case proto_Marshal c (pb s) of Inl e \<Rightarrow> Inl e | Inr data \<Rightarrow> Inr data)"

section \<open>Settings\<close>

definition settings_or_new :: "sessionpb \<Rightarrow> str_map" where
  "settings_or_new s = (case Settings s of None \<Rightarrow> Map.empty | Some m \<Rightarrow> m)"

definition session_Set ::
  "string \<Rightarrow> string \<Rightarrow> ('o, 'sp, 'cx) session \<Rightarrow> 'o sess_err option \<times> ('o, 'sp, 'cx) session" where
  "session_Set key value s =
     (if s_app s = None then (Some AppNil, s)
      else (None, s\<lparr>pb := (pb s)\<lparr>Settings := Some ((settings_or_new (pb s))(key \<mapsto> value))\<rparr>\<rparr>))"

definition session_Get :: "string \<Rightarrow> ('o, 'sp, 'cx) session \<Rightarrow> string" where
  "session_Get key s =
     (case Settings (pb s) of None \<Rightarrow> []
      | Some m \<Rightarrow> (case m key of Some v \<Rightarrow> v | None \<Rightarrow> []))"

definition session_Remove ::
  "string \<Rightarrow> ('o, 'sp, 'cx) session \<Rightarrow> 'o sess_err option \<times> ('o, 'sp, 'cx) session" where
  "session_Remove key s =
     (if s_app s = None then (Some AppNil, s)
      else (None, s\<lparr>pb := (pb s)\<lparr>Settings := Some ((settings_or_new (pb s))(key := None))\<rparr>\<rparr>))"

section \<open>Calls to the gate\<close>

text \<open>What \<^verbatim>\<open>Push\<close> sends; \<^const>\<open>GMapStr\<close> does not tell a nil map from an empty one.\<close>

definition settings_arg :: "sessionpb \<Rightarrow> 'o rpc_value" where
  "settings_arg s = (case Settings s of None \<Rightarrow> GMapStr Map.empty | Some m \<Rightarrow> GMapStr m)"

text \<open>The first result, taken over when it is a session.\<close>

definition take_over ::
  "'o rpc_value list \<Rightarrow> ('o, 'sp, 'cx) session \<Rightarrow> 'o sess_err option \<times> ('o, 'sp, 'cx) session" where
  "take_over results s =
     (case results of
        [] \<Rightarrow> (None, s)
      | GApp (Other (SessionV r)) # rest \<Rightarrow> (None, s\<lparr>pb := update_from r (pb s)\<rparr>)
      | v # rest \<Rightarrow> (Some NotASession, s))"

text \<open>
  The frame the methods share: the application, the server, the call. A panic passes through
  \<^verbatim>\<open>Push\<close> and the sends; \<^verbatim>\<open>Update\<close>, \<^verbatim>\<open>Bind\<close> and \<^verbatim>\<open>UnBind\<close> recover from it, and as the variable
  the deferred function sets is not the result, they return nil.
\<close>

definition with_server ::
  "('o, 'sp, 'cx) session \<Rightarrow> (sessionpb \<Rightarrow> (string \<Rightarrow> 'o rpc_value list \<Rightarrow> 'o call_result outcome) \<Rightarrow> 'r outcome)
    \<Rightarrow> ('o sess_err \<Rightarrow> 'r) \<Rightarrow> 'r outcome" where
  "with_server s use fail =
     (case s_app s of
        None \<Rightarrow> Done (fail AppNil)
      | Some a \<Rightarrow>
          (case server_call a (Serverid (pb s)) of
             None \<Rightarrow> Done (fail (ServiceNotFound (Serverid (pb s))))
           | Some call \<Rightarrow> use (pb s) call))"

definition recovered :: "('o, 'sp, 'cx) session \<Rightarrow> ('o sess_err option \<times> ('o, 'sp, 'cx) session) outcome
    \<Rightarrow> 'o sess_err option \<times> ('o, 'sp, 'cx) session" where
  "recovered s r = (case r of Panic e \<Rightarrow> (None, s) | Done x \<Rightarrow> x)"

definition call_and_take ::
  "string \<Rightarrow> (sessionpb \<Rightarrow> 'o rpc_value list) \<Rightarrow> ('o, 'sp, 'cx) session
    \<Rightarrow> ('o sess_err option \<times> ('o, 'sp, 'cx) session) outcome" where
  "call_and_take fn args s =
     with_server s
      (\<lambda>p call. map_outcome_val
         (\<lambda>r. case r of Inl e \<Rightarrow> (Some (CallFailed e), s) | Inr results \<Rightarrow> take_over results s)
         (call fn (args p)))
      (\<lambda>e. (Some e, s))"

definition session_Update :: "('o, 'sp, 'cx) session \<Rightarrow> 'o sess_err option \<times> ('o, 'sp, 'cx) session" where
  "session_Update s = recovered s (call_and_take ''Update'' (\<lambda>p. [GString (Sessionid p)]) s)"

text \<open>
  In \<^verbatim>\<open>Bind\<close> the error names the result's type, and \<^verbatim>\<open>reflect.TypeOf(nil).String()\<close> panics, which
  makes a nil first result a silent success.
\<close>

definition session_Bind ::
  "string \<Rightarrow> ('o, 'sp, 'cx) session \<Rightarrow> 'o sess_err option \<times> ('o, 'sp, 'cx) session" where
  "session_Bind uid s =
     recovered s
      (with_server s
        (\<lambda>p call. outcome_bind (call ''Bind'' [GString (Sessionid p), GString uid])
           (\<lambda>r. case r of
              Inl e \<Rightarrow> Done (Some (CallFailed e), s)
            | Inr (GNil # rest) \<Rightarrow> Panic ''nil pointer dereference''
            | Inr results \<Rightarrow> Done (take_over results s)))
        (\<lambda>e. (Some e, s)))"

definition session_UnBind :: "('o, 'sp, 'cx) session \<Rightarrow> 'o sess_err option \<times> ('o, 'sp, 'cx) session" where
  "session_UnBind s = recovered s (call_and_take ''UnBind'' (\<lambda>p. [GString (Sessionid p)]) s)"

definition session_Push ::
  "('o, 'sp, 'cx) session \<Rightarrow> ('o sess_err option \<times> ('o, 'sp, 'cx) session) outcome" where
  "session_Push s = call_and_take ''Push'' (\<lambda>p. [GString (Sessionid p), settings_arg p]) s"

definition session_SetPush ::
  "string \<Rightarrow> string \<Rightarrow> ('o, 'sp, 'cx) session
    \<Rightarrow> ('o sess_err option \<times> ('o, 'sp, 'cx) session) outcome" where
  "session_SetPush key value s =
     (if s_app s = None then Done (Some AppNil, s)
      else session_Push (s\<lparr>pb := (pb s)\<lparr>Settings := Some ((settings_or_new (pb s))(key \<mapsto> value))\<rparr>\<rparr>))"

definition error_only :: "'o call_result \<Rightarrow> 'o sess_err option" where
  "error_only r = (case r of Inl e \<Rightarrow> Some (CallFailed e) | Inr results \<Rightarrow> None)"

definition session_Send ::
  "string \<Rightarrow> bytes \<Rightarrow> ('o, 'sp, 'cx) session \<Rightarrow> 'o sess_err option outcome" where
  "session_Send topic msg s =
     with_server s
      (\<lambda>p call. map_outcome_val error_only (call ''Send'' [GString (Sessionid p), GString topic, GBytes msg]))
      Some"

text \<open>\<^verbatim>\<open>count[0].(int64)\<close> panics without a result and on one of another type.\<close>

definition session_SendBatch ::
  "string \<Rightarrow> string \<Rightarrow> bytes \<Rightarrow> ('o, 'sp, 'cx) session \<Rightarrow> (64 word \<times> 'o sess_err option) outcome" where
  "session_SendBatch ids topic msg s =
     with_server s
      (\<lambda>p call. outcome_bind (call ''SendBatch'' [GString ids, GString topic, GBytes msg])
         (\<lambda>r. case r of
            Inl e \<Rightarrow> Done (0, Some (CallFailed e))
          | Inr [] \<Rightarrow> Panic ''index out of range''
          | Inr (GInt64 n # rest) \<Rightarrow> Done (n, None)
          | Inr (v # rest) \<Rightarrow> Panic ''interface conversion''))
      (\<lambda>e. (0, Some e))"

definition session_SendNR ::
  "string \<Rightarrow> bytes \<Rightarrow> ('o, 'sp, 'cx) session \<Rightarrow> 'o sess_err option outcome" where
  "session_SendNR topic msg s =
     with_server s
      (\<lambda>p call. map_outcome_val (map_option CallFailed)
         (server_callNR (the (s_app s)) (Serverid p) ''Send'' [GString (Sessionid p), GString topic, GBytes msg]))
      Some"

definition session_Close :: "('o, 'sp, 'cx) session \<Rightarrow> 'o sess_err option outcome" where
  "session_Close s =
     with_server s
      (\<lambda>p call. map_outcome_val error_only (call ''Close'' [GInt 5, GString (Sessionid p)]))
      Some"

definition session_IsConnect ::
  "string \<Rightarrow> ('o, 'sp, 'cx) session \<Rightarrow> (bool \<times> 'o sess_err option) outcome" where
  "session_IsConnect uid s =
     with_server s
      (\<lambda>p call. map_outcome_val
         (\<lambda>r. case r of
            Inl e \<Rightarrow> (False, Some (CallFailed e))
          | Inr (GBool b # rest) \<Rightarrow> (b, None)
          | Inr results \<Rightarrow> (False, Some UnsupportedResult))
         (call ''IsConnect'' [GString (Sessionid p), GString uid]))
      (\<lambda>e. (False, Some e))"

text \<open>\<^verbatim>\<open>IsGuest\<close>: the session's judge, else the application's (kept for the next time), else the user id.\<close>

definition IsGuest :: "('o, 'sp, 'cx) session \<Rightarrow> bool \<times> ('o, 'sp, 'cx) session" where
  "IsGuest s =
     (case judgeGuest s of
        Some j \<Rightarrow> (j (pb s), s)
      | None \<Rightarrow>
          (case (case s_app s of None \<Rightarrow> None | Some a \<Rightarrow> app_judge a) of
             Some j \<Rightarrow> (j (pb s), s\<lparr>judgeGuest := Some j\<rparr>)
           | None \<Rightarrow> (Userid (pb s) = [], s)))"

section \<open>Tracing\<close>

text \<open>\<^verbatim>\<open>this.app.GetTracer()\<close> panics when the application is nil.\<close>

definition with_tracer ::
  "('o, 'sp, 'cx) session \<Rightarrow> 'r \<Rightarrow> (('sp, 'cx) tracer \<Rightarrow> 'r) \<Rightarrow> 'r outcome" where
  "with_tracer s none use =
     (case s_app s of
        None \<Rightarrow> Panic ''nil pointer dereference''
      | Some a \<Rightarrow> Done (case app_tracer a of None \<Rightarrow> none | Some t \<Rightarrow> use t))"

definition inject :: "('o, 'sp, 'cx) session \<Rightarrow> str_map option outcome" where
  "inject s =
     with_tracer s None
      (\<lambda>t. case span s of None \<Rightarrow> None | Some sp \<Rightarrow> inject_text t (context_of t sp))"

definition LoadSpan ::
  "string \<Rightarrow> ('o, 'sp, 'cx) session \<Rightarrow> ('sp option \<times> ('o, 'sp, 'cx) session) outcome" where
  "LoadSpan op s =
     with_tracer s (None, s)
      (\<lambda>t. if span s = None then
            (case Carrier (pb s) of
               None \<Rightarrow> (None, s)
             | Some c \<Rightarrow>
                 (case extract_text t c of
                    None \<Rightarrow> (None, s)
                  | Some cx \<Rightarrow> let sp = start_span t op (Some cx) in (Some sp, s\<lparr>span := Some sp\<rparr>)))
          else (span s, s))"

definition CreateRootSpan ::
  "string \<Rightarrow> ('o, 'sp, 'cx) session \<Rightarrow> ('sp option \<times> ('o, 'sp, 'cx) session) outcome" where
  "CreateRootSpan op s =
     with_tracer s (None, s)
      (\<lambda>t. let sp = start_span t op None; s' = s\<lparr>span := Some sp\<rparr> in
         (Some sp, s'\<lparr>pb := (pb s')\<lparr>Carrier := inject_text t (context_of t sp)\<rparr>\<rparr>))"

definition ExtractSpan :: "string \<Rightarrow> ('o, 'sp, 'cx) session \<Rightarrow> 'sp option outcome" where
  "ExtractSpan op s =
     with_tracer s None
      (\<lambda>t. case span s of None \<Rightarrow> None | Some sp \<Rightarrow> Some (start_span t op (Some (context_of t sp))))"

definition TracingId :: "('o, 'sp, 'cx) session \<Rightarrow> string" where
  "TracingId s =
     (case Carrier (pb s) of
        None \<Rightarrow> []
      | Some c \<Rightarrow> (case c ''ot-tracer-traceid'' of Some tid \<Rightarrow> tid | None \<Rightarrow> []))"

text \<open>\<^verbatim>\<open>Clone\<close>: a new session with the same application and span; token and judge are not copied.\<close>

definition session_Clone :: "('o, 'sp, 'cx) session \<Rightarrow> ('o, 'sp, 'cx) session outcome" where
  "session_Clone s =
     map_outcome_val
      (\<lambda>carrier. \<lparr>s_app = s_app s,
         pb = \<lparr>IP = IP (pb s), Network = Network (pb s), Userid = Userid (pb s),
           Sessionid = Sessionid (pb s), Serverid = Serverid (pb s), Settings = Settings (pb s),
           Carrier = carrier, Token = []\<rparr>,
         span = span s, judgeGuest = None\<rparr>)
      (inject s)"

end
