(* ===== verification/Lodos_Gate.thy ===== *)
theory Lodos_Gate
  imports Lodos_Session Lodos_Client
begin

text \<open>
  \<^verbatim>\<open>gate/base/gate_handler.go\<close> and the codec and registrations of \<^verbatim>\<open>gate/base/mqtt_gate.go\<close>: the
  table of connections, the operations on it that other modules call over RPC, and the
  \<^verbatim>\<open>SESSION\<close> serializer. The application's storage and session learner are parameters.
\<close>

section \<open>State\<close>

text \<open>The fields of an agent (\<^verbatim>\<open>mqtt_agent.go\<close>) the gate touches; \<open>conn_closed\<close>: \<^verbatim>\<open>conn.Close()\<close> was called.\<close>

record ('o, 'sp, 'cx) agent =
  ag_session :: "('o, 'sp, 'cx) session option"
  ag_client :: "client option"
  isclose :: bool
  conn_closed :: bool
  last_storage_heartbeat_data_time :: int
  rev_num :: int
  send_num :: int

text \<open>\<^verbatim>\<open>OnInit\<close> of an agent.\<close>

definition agent_OnInit :: "('o, 'sp, 'cx) agent" where
  "agent_OnInit = \<lparr>ag_session = None, ag_client = None, isclose = False, conn_closed = False,
     last_storage_heartbeat_data_time = 0, rev_num = 0, send_num = 0\<rparr>"

text \<open>The application's \<^verbatim>\<open>StorageHandler\<close>: each call may fail or panic and moves its state.\<close>

record 'st storage =
  st_Storage :: "string \<Rightarrow> sessionpb \<Rightarrow> 'st \<Rightarrow> string option outcome \<times> 'st"
  st_Query :: "string \<Rightarrow> 'st \<Rightarrow> (string + bytes option) outcome \<times> 'st"
  st_Heartbeat :: "string \<Rightarrow> 'st \<Rightarrow> unit outcome \<times> 'st"

record 'st learner =
  ln_Connect :: "sessionpb option \<Rightarrow> 'st \<Rightarrow> 'st"
  ln_DisConnect :: "sessionpb option \<Rightarrow> 'st \<Rightarrow> 'st"

record ('o, 'sp, 'cx, 'st) gate_env =
  g_app :: "('o, 'sp, 'cx) app_env option"
  g_proto :: pb_codec
  g_storage :: "'st storage option"
  g_learner :: "'st learner option"
  g_MinStorageHeartbeat :: int

text \<open>Agents are pointers: \<open>agents\<close> is what they point to, \<open>conns\<close> the \<^verbatim>\<open>BeeMap\<close> of session ids.\<close>

record ('o, 'sp, 'cx, 'st) gate =
  conns :: "(string, nat) beemap"
  agents :: "nat \<Rightarrow> ('o, 'sp, 'cx) agent"
  app_state :: 'st

definition get_agent :: "string \<Rightarrow> ('o, 'sp, 'cx, 'st) gate \<Rightarrow> nat option" where
  "get_agent sid g =
     (case bee_Get (\<lambda>k. True) sid (conns g) of Returns v m \<Rightarrow> v | Panics m \<Rightarrow> None | Waits \<Rightarrow> None)"

definition put_agent ::
  "nat \<Rightarrow> ('o, 'sp, 'cx) agent \<Rightarrow> ('o, 'sp, 'cx, 'st) gate \<Rightarrow> ('o, 'sp, 'cx, 'st) gate" where
  "put_agent a x g = g\<lparr>agents := (agents g)(a := x)\<rparr>"

definition put_session ::
  "nat \<Rightarrow> ('o, 'sp, 'cx) session \<Rightarrow> ('o, 'sp, 'cx, 'st) gate \<Rightarrow> ('o, 'sp, 'cx, 'st) gate" where
  "put_session a s g = put_agent a ((agents g a)\<lparr>ag_session := Some s\<rparr>) g"

section \<open>Connections\<close>

definition handler_Connect ::
  "('o, 'sp, 'cx, 'st) gate_env \<Rightarrow> nat \<Rightarrow> ('o, 'sp, 'cx, 'st) gate \<Rightarrow> ('o, 'sp, 'cx, 'st) gate" where
  "handler_Connect env a g =
     (let g = (case ag_session (agents g a) of None \<Rightarrow> g
               | Some s \<Rightarrow> g\<lparr>conns := bee_set (Sessionid (pb s)) a (conns g)\<rparr>)
      in case g_learner env of None \<Rightarrow> g
         | Some l \<Rightarrow> g\<lparr>app_state := ln_Connect l (map_option pb (ag_session (agents g a))) (app_state g)\<rparr>)"

definition handler_DisConnect ::
  "('o, 'sp, 'cx, 'st) gate_env \<Rightarrow> nat \<Rightarrow> ('o, 'sp, 'cx, 'st) gate \<Rightarrow> ('o, 'sp, 'cx, 'st) gate" where
  "handler_DisConnect env a g =
     (let g = (case ag_session (agents g a) of None \<Rightarrow> g
               | Some s \<Rightarrow> g\<lparr>conns := bee_delete (Sessionid (pb s)) (conns g)\<rparr>)
      in case g_learner env of None \<Rightarrow> g
         | Some l \<Rightarrow> g\<lparr>app_state := ln_DisConnect l (map_option pb (ag_session (agents g a))) (app_state g)\<rparr>)"

section \<open>Operations on a session\<close>

text \<open>What a handler returns: the session or nil, the error or nil; or it panics. The state stays changed.\<close>

type_synonym ('o, 'sp, 'cx) reply = "(('o, 'sp, 'cx) session option \<times> string option) outcome"

definition no_session :: string where "no_session = ''No Sesssion found''"

definition on_agent ::
  "string \<Rightarrow> ('o, 'sp, 'cx, 'st) gate
    \<Rightarrow> (nat \<Rightarrow> ('o, 'sp, 'cx) session \<Rightarrow> ('o, 'sp, 'cx) reply \<times> ('o, 'sp, 'cx, 'st) gate)
    \<Rightarrow> ('o, 'sp, 'cx) reply \<times> ('o, 'sp, 'cx, 'st) gate" where
  "on_agent sid g f =
     (case get_agent sid g of
        None \<Rightarrow> (Done (None, Some no_session), g)
      | Some a \<Rightarrow>
          (case ag_session (agents g a) of
             None \<Rightarrow> (Panic ''nil pointer dereference'', g)
           | Some s \<Rightarrow> f a s))"

text \<open>The session goes to the storage when there is one and a user is bound; an error is only logged.\<close>

definition persist ::
  "('o, 'sp, 'cx, 'st) gate_env \<Rightarrow> ('o, 'sp, 'cx) session \<Rightarrow> ('o, 'sp, 'cx, 'st) gate
    \<Rightarrow> ('o, 'sp, 'cx) reply \<times> ('o, 'sp, 'cx, 'st) gate" where
  "persist env s g =
     (case g_storage env of
        None \<Rightarrow> (Done (Some s, None), g)
      | Some st \<Rightarrow>
          if Userid (pb s) = [] then (Done (Some s, None), g)
          else case st_Storage st (Userid (pb s)) (pb s) (app_state g) of
            (r, t) \<Rightarrow> (map_outcome_val (\<lambda>e. (Some s, None)) r, g\<lparr>app_state := t\<rparr>))"

definition with_userid :: "string \<Rightarrow> ('o, 'sp, 'cx) session \<Rightarrow> ('o, 'sp, 'cx) session" where
  "with_userid uid s = s\<lparr>pb := (pb s)\<lparr>Userid := uid\<rparr>\<rparr>"

definition with_settings :: "str_map option \<Rightarrow> ('o, 'sp, 'cx) session \<Rightarrow> ('o, 'sp, 'cx) session" where
  "with_settings m s = s\<lparr>pb := (pb s)\<lparr>Settings := m\<rparr>\<rparr>"

text \<open>
  \<^verbatim>\<open>Bind\<close> on data found in the storage: a session without settings takes the stored ones;
  otherwise the two are merged, the connection's own winning, and the session is stored.
\<close>

definition bind_stored ::
  "('o, 'sp, 'cx, 'st) gate_env \<Rightarrow> 'st storage \<Rightarrow> string \<Rightarrow> nat \<Rightarrow> ('o, 'sp, 'cx) session \<Rightarrow> str_map option
    \<Rightarrow> ('o, 'sp, 'cx, 'st) gate \<Rightarrow> ('o, 'sp, 'cx) reply \<times> ('o, 'sp, 'cx, 'st) gate" where
  "bind_stored env st uid a s old g =
     (case Settings (pb s) of
        None \<Rightarrow> (let s' = with_settings old s in (Done (Some s', None), put_session a s' g))
      | Some new \<Rightarrow>
          (let s' = (case old of None \<Rightarrow> s | Some m \<Rightarrow> with_settings (Some (m ++ new)) s);
               g' = put_session a s' g
           in case st_Storage st uid (pb s') (app_state g') of
             (r, t) \<Rightarrow> (map_outcome_val (\<lambda>e. (Some s', None)) r, g'\<lparr>app_state := t\<rparr>)))"

definition bind_found ::
  "('o, 'sp, 'cx, 'st) gate_env \<Rightarrow> string \<Rightarrow> nat \<Rightarrow> ('o, 'sp, 'cx) session
    \<Rightarrow> ('o, 'sp, 'cx, 'st) gate \<Rightarrow> ('o, 'sp, 'cx) reply \<times> ('o, 'sp, 'cx, 'st) gate" where
  "bind_found env uid a s0 g =
     (let s = with_userid uid s0; g = put_session a s g; plain = Done (Some s, None) in
      case g_storage env of
        None \<Rightarrow> (plain, g)
      | Some st \<Rightarrow>
          if uid = [] then (plain, g)
          else case st_Query st uid (app_state g) of
            (q, t) \<Rightarrow>
              (let g = g\<lparr>app_state := t\<rparr> in
               case q of
                 Panic e \<Rightarrow> (Panic e, g)
               | Done (Inl e) \<Rightarrow> (plain, g)
               | Done (Inr None) \<Rightarrow> (plain, g)
               | Done (Inr (Some data)) \<Rightarrow>
                   (case NewSession (g_proto env) (g_app env) data of
                      Panic e \<Rightarrow> (Panic e, g)
                    | Done (Inl e) \<Rightarrow> (plain, g)
                    | Done (Inr old) \<Rightarrow> bind_stored env st uid a s (Settings (pb old)) g)))"

text \<open>\<^verbatim>\<open>Bind\<close> recovers from a panic and then returns its results as they were: nil and nil.\<close>

definition handler_Bind ::
  "('o, 'sp, 'cx, 'st) gate_env \<Rightarrow> string \<Rightarrow> string \<Rightarrow> ('o, 'sp, 'cx, 'st) gate
    \<Rightarrow> ('o, 'sp, 'cx) reply \<times> ('o, 'sp, 'cx, 'st) gate" where
  "handler_Bind env sid uid g =
     (case on_agent sid g (\<lambda>a s. bind_found env uid a s g) of
        (Panic e, g') \<Rightarrow> (Done (None, None), g')
      | (Done r, g') \<Rightarrow> (Done r, g'))"

definition handler_UnBind ::
  "string \<Rightarrow> ('o, 'sp, 'cx, 'st) gate \<Rightarrow> ('o, 'sp, 'cx) reply \<times> ('o, 'sp, 'cx, 'st) gate" where
  "handler_UnBind sid g =
     on_agent sid g (\<lambda>a s. let s' = with_userid [] s in (Done (Some s', None), put_session a s' g))"

definition handler_Set ::
  "('o, 'sp, 'cx, 'st) gate_env \<Rightarrow> string \<Rightarrow> string \<Rightarrow> string \<Rightarrow> ('o, 'sp, 'cx, 'st) gate
    \<Rightarrow> ('o, 'sp, 'cx) reply \<times> ('o, 'sp, 'cx, 'st) gate" where
  "handler_Set env sid key v g =
     on_agent sid g (\<lambda>a s. let s' = snd (session_Set key v s) in persist env s' (put_session a s' g))"

definition handler_Remove ::
  "('o, 'sp, 'cx, 'st) gate_env \<Rightarrow> string \<Rightarrow> string \<Rightarrow> ('o, 'sp, 'cx, 'st) gate
    \<Rightarrow> ('o, 'sp, 'cx) reply \<times> ('o, 'sp, 'cx, 'st) gate" where
  "handler_Remove env sid key g =
     on_agent sid g (\<lambda>a s. let s' = snd (session_Remove key s) in persist env s' (put_session a s' g))"

definition handler_Push ::
  "('o, 'sp, 'cx, 'st) gate_env \<Rightarrow> string \<Rightarrow> str_map option \<Rightarrow> ('o, 'sp, 'cx, 'st) gate
    \<Rightarrow> ('o, 'sp, 'cx) reply \<times> ('o, 'sp, 'cx, 'st) gate" where
  "handler_Push env sid m g =
     on_agent sid g (\<lambda>a s. let s' = with_settings m s in persist env s' (put_session a s' g))"

definition handler_Update ::
  "string \<Rightarrow> ('o, 'sp, 'cx, 'st) gate \<Rightarrow> ('o, 'sp, 'cx) reply \<times> ('o, 'sp, 'cx, 'st) gate" where
  "handler_Update sid g = on_agent sid g (\<lambda>a s. (Done (Some s, None), g))"

section \<open>Sending\<close>

text \<open>\<^verbatim>\<open>agent.WriteMsg\<close>: the count goes up whatever happens.\<close>

definition agent_WriteMsg ::
  "nat \<Rightarrow> string \<Rightarrow> bytes \<Rightarrow> ('o, 'sp, 'cx, 'st) gate \<Rightarrow> go_err option outcome \<times> ('o, 'sp, 'cx, 'st) gate" where
  "agent_WriteMsg a topic data g =
     (let x = (agents g a)\<lparr>send_num := send_num (agents g a) + 1\<rparr> in
      case ag_client x of
        None \<Rightarrow> (Panic ''nil pointer dereference'', put_agent a x g)
      | Some c \<Rightarrow>
          (case WriteMsg topic data c of (e, c') \<Rightarrow> (Done e, put_agent a (x\<lparr>ag_client := Some c'\<rparr>) g)))"

definition handler_Send ::
  "string \<Rightarrow> string \<Rightarrow> bytes \<Rightarrow> ('o, 'sp, 'cx, 'st) gate \<Rightarrow> go_err option outcome \<times> ('o, 'sp, 'cx, 'st) gate" where
  "handler_Send sid topic data g =
     (case get_agent sid g of
        None \<Rightarrow> (Done (Some (AppErr no_session)), g)
      | Some a \<Rightarrow> agent_WriteMsg a topic data g)"

text \<open>The loop of \<^verbatim>\<open>SendBatch\<close> and \<^verbatim>\<open>BroadCast\<close>: the successes and the error of the last attempt.\<close>

fun send_each ::
  "string \<Rightarrow> bytes \<Rightarrow> nat option list \<Rightarrow> int \<Rightarrow> go_err option \<Rightarrow> ('o, 'sp, 'cx, 'st) gate
    \<Rightarrow> (int \<times> go_err option) outcome \<times> ('o, 'sp, 'cx, 'st) gate" where
  "send_each topic data [] n err g = (Done (n, err), g)"
| "send_each topic data (None # as) n err g = send_each topic data as n err g"
| "send_each topic data (Some a # as) n err g =
     (case agent_WriteMsg a topic data g of
        (Panic e, g') \<Rightarrow> (Panic e, g')
      | (Done (Some e), g') \<Rightarrow> send_each topic data as n (Some e) g'
      | (Done None, g') \<Rightarrow> send_each topic data as (n + 1) None g')"

definition handler_SendBatch ::
  "string \<Rightarrow> string \<Rightarrow> bytes \<Rightarrow> ('o, 'sp, 'cx, 'st) gate
    \<Rightarrow> (int \<times> go_err option) outcome \<times> ('o, 'sp, 'cx, 'st) gate" where
  "handler_SendBatch sids topic data g =
     send_each topic data (map (\<lambda>sid. get_agent sid g) (split_on CHR '','' sids)) 0 None g"

text \<open>\<open>order\<close>: the connections of \<^verbatim>\<open>h.sessions.Items()\<close> as the loop meets them.\<close>

definition handler_BroadCast ::
  "nat list \<Rightarrow> string \<Rightarrow> bytes \<Rightarrow> ('o, 'sp, 'cx, 'st) gate
    \<Rightarrow> (int \<times> go_err option) outcome \<times> ('o, 'sp, 'cx, 'st) gate" where
  "handler_BroadCast order topic data g = send_each topic data (map Some order) 0 None g"

definition no_user :: "string \<Rightarrow> string" where
  "no_user uid = ''The gateway did not find the corresponding userId '' @
     string_of_bytes [0xE3, 0x80, 0x90] @ uid @ string_of_bytes [0xE3, 0x80, 0x91]"

fun handler_IsConnect ::
  "nat list \<Rightarrow> string \<Rightarrow> ('o, 'sp, 'cx, 'st) gate \<Rightarrow> (bool \<times> string option) outcome" where
  "handler_IsConnect [] uid g = Done (False, Some (no_user uid))"
| "handler_IsConnect (a # as) uid g =
     (case ag_session (agents g a) of
        None \<Rightarrow> Panic ''nil pointer dereference''
      | Some s \<Rightarrow>
          if Userid (pb s) = uid then Done (\<not> isclose (agents g a), None)
          else handler_IsConnect as uid g)"

section \<open>Closing\<close>

definition agent_Close :: "nat \<Rightarrow> ('o, 'sp, 'cx, 'st) gate \<Rightarrow> ('o, 'sp, 'cx, 'st) gate" where
  "agent_Close a g = put_agent a ((agents g a)\<lparr>conn_closed := True\<rparr>) g"

definition handler_Close ::
  "string \<Rightarrow> ('o, 'sp, 'cx, 'st) gate \<Rightarrow> string option \<times> ('o, 'sp, 'cx, 'st) gate" where
  "handler_Close sid g =
     (case get_agent sid g of
        None \<Rightarrow> (Some no_session, g)
      | Some a \<Rightarrow> (None, agent_Close a g))"

definition handler_OnDestroy :: "nat list \<Rightarrow> ('o, 'sp, 'cx, 'st) gate \<Rightarrow> ('o, 'sp, 'cx, 'st) gate" where
  "handler_OnDestroy order g =
     (let g = fold agent_Close order g in
      case bee_DeleteAll (conns g) of Returns u m \<Rightarrow> g\<lparr>conns := m\<rparr> | Panics m \<Rightarrow> g\<lparr>conns := m\<rparr> | Waits \<Rightarrow> g)"

text \<open>\<^verbatim>\<open>agent.OnClose\<close>, which the network layer calls when the connection ends.\<close>

definition agent_OnClose ::
  "('o, 'sp, 'cx, 'st) gate_env \<Rightarrow> nat \<Rightarrow> ('o, 'sp, 'cx, 'st) gate \<Rightarrow> ('o, 'sp, 'cx, 'st) gate" where
  "agent_OnClose env a g = handler_DisConnect env a (put_agent a ((agents g a)\<lparr>isclose := True\<rparr>) g)"

section \<open>The serializer\<close>

abbreviation (input) RPC_PARAM_SESSION_TYPE :: string where
  "RPC_PARAM_SESSION_TYPE \<equiv> ''SESSION''"

abbreviation (input) RPC_PARAM_ProtocolMarshal_TYPE :: string where
  "RPC_PARAM_ProtocolMarshal_TYPE \<equiv> ''ProtocolMarshal''"

definition gate_Serialize :: "pb_codec \<Rightarrow> 'o rpc_value \<Rightarrow> string + (string \<times> bytes)" where
  "gate_Serialize c param =
     (case param of
        GApp (Other (SessionV s)) \<Rightarrow>
          (case proto_Marshal c s of Inl e \<Rightarrow> Inl e | Inr b \<Rightarrow> Inr (RPC_PARAM_SESSION_TYPE, b))
      | _ \<Rightarrow> Inl ''Types not allowed'')"

definition gate_Deserialize ::
  "pb_codec \<Rightarrow> ('o, 'sp, 'cx) app_env \<Rightarrow> string \<Rightarrow> bytes \<Rightarrow> string + 'o rpc_value" where
  "gate_Deserialize c app ptype b =
     (if ptype = RPC_PARAM_SESSION_TYPE then
        (case NewSession c (Some app) b of
           Done (Inr s) \<Rightarrow> Inr (session_value (pb s))
         | Done (Inl e) \<Rightarrow> Inl e
         | Panic e \<Rightarrow> Inl e)
      else if ptype = RPC_PARAM_ProtocolMarshal_TYPE then Inr (GApp (Other (MarshalV b)))
      else Inl ''Types not allowed'')"

definition gate_serializer :: "pb_codec \<Rightarrow> ('o, 'sp, 'cx) app_env \<Rightarrow> 'o app_value dyn serializer" where
  "gate_serializer c app = \<lparr>Serialize = gate_Serialize c, Deserialize = gate_Deserialize c app\<rparr>"

section \<open>The functions the gate registers\<close>

text \<open>Their names and numbers of parameters, in the order of \<^verbatim>\<open>OnInit\<close>; \<open>f\<close> gives the functions.\<close>

definition gate_arities :: "(string \<times> nat) list" where
  "gate_arities = [(''Update'', 1), (''Bind'', 2), (''UnBind'', 1), (''Push'', 2), (''Set'', 3),
     (''Remove'', 2), (''Send'', 3), (''SendBatch'', 3), (''BroadCast'', 2), (''IsConnect'', 2), (''Close'', 1)]"

definition gate_func ::
  "(string \<Rightarrow> nat \<Rightarrow> 'a go_value \<Rightarrow> bool) \<Rightarrow> (string \<Rightarrow> nat \<Rightarrow> 'a go_value)
    \<Rightarrow> (string \<Rightarrow> 'a go_value list \<Rightarrow> 'a go_value call_end) \<Rightarrow> string \<times> nat \<Rightarrow> 'a rpc_func" where
  "gate_func fits zero handler = (\<lambda>(name, n).
     \<lparr>is_func = True, num_in = n, assignable = fits name, zero_in = zero name, body = handler name, goroutine = False\<rparr>)"

fun register_all :: "(string \<times> 'a rpc_func) list \<Rightarrow> 'a function_table \<Rightarrow> 'a function_table outcome" where
  "register_all [] fs = Done fs"
| "register_all ((fid, f) # rest) fs = outcome_bind (Register fid f fs) (register_all rest)"

definition gate_register ::
  "(string \<Rightarrow> nat \<Rightarrow> 'a go_value \<Rightarrow> bool) \<Rightarrow> (string \<Rightarrow> nat \<Rightarrow> 'a go_value)
    \<Rightarrow> (string \<Rightarrow> 'a go_value list \<Rightarrow> 'a go_value call_end) \<Rightarrow> 'a function_table \<Rightarrow> 'a function_table outcome" where
  "gate_register fits zero handler fs =
     register_all (map (\<lambda>p. (fst p, gate_func fits zero handler p)) gate_arities) fs"

text \<open>
  What a call of a registered function does: the results as \<^verbatim>\<open>reflect\<close> hands them back (a nil
  interface is \<^const>\<open>GNil\<close>), with \<open>order\<close> the visit order of the table.
\<close>

definition error_value :: "string option \<Rightarrow> 'o rpc_value" where
  "error_value e = (case e of None \<Rightarrow> GNil | Some s \<Rightarrow> GApp (PlainError s))"

definition session_results :: "('o, 'sp, 'cx) reply \<Rightarrow> 'o rpc_value list outcome" where
  "session_results r = map_outcome_val
     (\<lambda>(s, e). [case s of None \<Rightarrow> GNil | Some s \<Rightarrow> session_value (pb s), error_value e]) r"

definition count_results ::
  "(go_err \<Rightarrow> string) \<Rightarrow> (int \<times> go_err option) outcome \<Rightarrow> 'o rpc_value list outcome" where
  "count_results txt r = map_outcome_val
     (\<lambda>(n, e). [GInt64 (word_of_int n), error_value (map_option txt e)]) r"

definition gate_dispatch ::
  "('o, 'sp, 'cx, 'st) gate_env \<Rightarrow> (go_err \<Rightarrow> string) \<Rightarrow> nat list \<Rightarrow> string \<Rightarrow> 'o rpc_value list
    \<Rightarrow> ('o, 'sp, 'cx, 'st) gate \<Rightarrow> ('o rpc_value list outcome \<times> ('o, 'sp, 'cx, 'st) gate) option" where
  "gate_dispatch env txt order fn args g =
     (case args of
        [GString sid] \<Rightarrow>
          (if fn = ''Update'' then Some (apfst session_results (handler_Update sid g))
           else if fn = ''UnBind'' then Some (apfst session_results (handler_UnBind sid g))
           else if fn = ''Close'' then
             Some (case handler_Close sid g of (e, g') \<Rightarrow> (Done [error_value e], g'))
           else None)
      | [GString sid, GString x] \<Rightarrow>
          (if fn = ''Bind'' then Some (apfst session_results (handler_Bind env sid x g))
           else if fn = ''Remove'' then Some (apfst session_results (handler_Remove env sid x g))
           else if fn = ''IsConnect'' then
             Some (map_outcome_val (\<lambda>(b, e). [GBool b, error_value e]) (handler_IsConnect order x g), g)
           else None)
      | [GString sid, GMapStr m] \<Rightarrow>
          (if fn = ''Push'' then Some (apfst session_results (handler_Push env sid (Some m) g)) else None)
      | [GString topic, GBytes data] \<Rightarrow>
          (if fn = ''BroadCast'' then Some (apfst (count_results txt) (handler_BroadCast order topic data g))
           else None)
      | [GString sid, GString key, GString v] \<Rightarrow>
          (if fn = ''Set'' then Some (apfst session_results (handler_Set env sid key v g)) else None)
      | [GString sid, GString topic, GBytes data] \<Rightarrow>
          (if fn = ''Send'' then
             Some (apfst (map_outcome_val (\<lambda>e. [error_value (map_option txt e)])) (handler_Send sid topic data g))
           else if fn = ''SendBatch'' then
             Some (apfst (count_results txt) (handler_SendBatch sid topic data g))
           else None)
      | _ \<Rightarrow> None)"

end
