(* ===== verification/Lodos_Gate_Props.thy ===== *)
theory Lodos_Gate_Props
  imports Lodos_Gate
begin

text \<open>
  The gate as a directory of sessions: its operations against a description on the map from
  session ids to sessions, the invariant of its table, and what binding, storing and sending do.
\<close>

section \<open>The description\<close>

type_synonym directory = "string \<Rightarrow> sessionpb option"

definition gate_directory :: "('o, 'sp, 'cx, 'st) gate \<Rightarrow> directory" where
  "gate_directory g sid =
     (case bm (conns g) sid of None \<Rightarrow> None | Some a \<Rightarrow> map_option pb (ag_session (agents g a)))"

definition modify :: "string \<Rightarrow> (sessionpb \<Rightarrow> sessionpb) \<Rightarrow> directory \<Rightarrow> directory" where
  "modify sid f d = (case d sid of None \<Rightarrow> d | Some s \<Rightarrow> d(sid \<mapsto> f s))"

text \<open>
  One operation of the gate: a new connection with its session and client, the end of the
  connection of a session, and the calls of other modules. \<open>order\<close> is the visit order of a loop.
\<close>

datatype ('o, 'sp, 'cx) gate_op =
    OpConnect nat "('o, 'sp, 'cx) session" client
  | OpDisConnect string
  | OpBind string string
  | OpUnBind string
  | OpSet string string string
  | OpRemove string string
  | OpPush string "str_map option"
  | OpUpdate string
  | OpSend string string bytes
  | OpSendBatch string string bytes
  | OpBroadCast "nat list" string bytes
  | OpClose string
  | OpDestroy "nat list"

text \<open>
  A connection gets an agent of its own and a session with the application, as \<^verbatim>\<open>agent.Run\<close>
  makes them.
\<close>

definition gate_perform ::
  "('o, 'sp, 'cx, 'st) gate_env \<Rightarrow> ('o, 'sp, 'cx) gate_op \<Rightarrow> ('o, 'sp, 'cx, 'st) gate \<Rightarrow> ('o, 'sp, 'cx, 'st) gate" where
  "gate_perform env op g =
     (case op of
        OpConnect a s c \<Rightarrow>
          (if a \<in> ran (bm (conns g)) \<or> s_app s = None then g
           else handler_Connect env a (put_agent a (agent_OnInit\<lparr>ag_session := Some s, ag_client := Some c\<rparr>) g))
      | OpDisConnect sid \<Rightarrow> (case get_agent sid g of None \<Rightarrow> g | Some a \<Rightarrow> agent_OnClose env a g)
      | OpBind sid uid \<Rightarrow> snd (handler_Bind env sid uid g)
      | OpUnBind sid \<Rightarrow> snd (handler_UnBind sid g)
      | OpSet sid k v \<Rightarrow> snd (handler_Set env sid k v g)
      | OpRemove sid k \<Rightarrow> snd (handler_Remove env sid k g)
      | OpPush sid m \<Rightarrow> snd (handler_Push env sid m g)
      | OpUpdate sid \<Rightarrow> snd (handler_Update sid g)
      | OpSend sid topic data \<Rightarrow> snd (handler_Send sid topic data g)
      | OpSendBatch sids topic data \<Rightarrow> snd (handler_SendBatch sids topic data g)
      | OpBroadCast order topic data \<Rightarrow> snd (handler_BroadCast order topic data g)
      | OpClose sid \<Rightarrow> snd (handler_Close sid g)
      | OpDestroy order \<Rightarrow> handler_OnDestroy order g)"

text \<open>
  The description. What \<^verbatim>\<open>Bind\<close> makes of the settings depends on what is stored for the user;
  a connection may be refused when its agent is in use.
\<close>

fun directory_spec :: "('o, 'sp, 'cx) gate_op \<Rightarrow> directory \<Rightarrow> directory \<Rightarrow> bool" where
  "directory_spec (OpConnect a s c) d d' \<longleftrightarrow> d' = d(Sessionid (pb s) \<mapsto> pb s) \<or> d' = d"
| "directory_spec (OpDisConnect sid) d d' \<longleftrightarrow> d' = d(sid := None)"
| "directory_spec (OpBind sid uid) d d' \<longleftrightarrow>
     (\<exists>m. d' = modify sid (\<lambda>s. s\<lparr>Userid := uid, Settings := m\<rparr>) d)"
| "directory_spec (OpUnBind sid) d d' \<longleftrightarrow> d' = modify sid (\<lambda>s. s\<lparr>Userid := []\<rparr>) d"
| "directory_spec (OpSet sid k v) d d' \<longleftrightarrow>
     d' = modify sid (\<lambda>s. s\<lparr>Settings := Some ((settings_or_new s)(k \<mapsto> v))\<rparr>) d"
| "directory_spec (OpRemove sid k) d d' \<longleftrightarrow>
     d' = modify sid (\<lambda>s. s\<lparr>Settings := Some ((settings_or_new s)(k := None))\<rparr>) d"
| "directory_spec (OpPush sid m) d d' \<longleftrightarrow> d' = modify sid (\<lambda>s. s\<lparr>Settings := m\<rparr>) d"
| "directory_spec (OpDestroy order) d d' \<longleftrightarrow> d' = Map.empty"
| "directory_spec _ d d' \<longleftrightarrow> d' = d"

section \<open>The invariant\<close>

text \<open>
  No lock is taken, every entry is the agent of a session with that very id, that session has
  its application, and the agent has not been told that its connection ended.
\<close>

definition entry_ok :: "('o, 'sp, 'cx, 'st) gate \<Rightarrow> string \<Rightarrow> nat \<Rightarrow> bool" where
  "entry_ok g sid a \<longleftrightarrow> \<not> isclose (agents g a) \<and>
     (case ag_session (agents g a) of None \<Rightarrow> False | Some s \<Rightarrow> Sessionid (pb s) = sid \<and> s_app s \<noteq> None)"

definition gate_inv :: "('o, 'sp, 'cx, 'st) gate \<Rightarrow> bool" where
  "gate_inv g \<longleftrightarrow> bee_free (conns g) \<and> (\<forall>sid a. bm (conns g) sid = Some a \<longrightarrow> entry_ok g sid a)"

definition new_gate :: "'st \<Rightarrow> ('o, 'sp, 'cx, 'st) gate" where
  "new_gate st = \<lparr>conns = NewBeeMap, agents = (\<lambda>a. agent_OnInit), app_state = st\<rparr>"

lemma new_gate_inv [simp]: "gate_inv (new_gate st)"
  by (simp add: gate_inv_def new_gate_def NewBeeMap_def bee_free_def)

lemma new_gate_directory [simp]: "gate_directory (new_gate st) = Map.empty"
  by (simp add: fun_eq_iff gate_directory_def new_gate_def NewBeeMap_def)

text \<open>What the operations touch.\<close>

lemma get_agent_free: "bee_free (conns g) \<Longrightarrow> get_agent sid g = bm (conns g) sid"
  by (simp add: get_agent_def bee_Get_def read_locked_def key_access_def bee_free_def)

lemma get_agent_inv: "gate_inv g \<Longrightarrow> get_agent sid g = bm (conns g) sid"
  by (simp add: gate_inv_def get_agent_free)

lemma gate_inv_entry:
  "gate_inv g \<Longrightarrow> bm (conns g) sid = Some a \<Longrightarrow>
    \<exists>s. ag_session (agents g a) = Some s \<and> Sessionid (pb s) = sid \<and> s_app s \<noteq> None \<and> \<not> isclose (agents g a)"
  by (cases "ag_session (agents g a)") (force simp: gate_inv_def entry_ok_def)+

definition same_sessions :: "('o, 'sp, 'cx, 'st) gate \<Rightarrow> ('o, 'sp, 'cx, 'st) gate \<Rightarrow> bool" where
  "same_sessions g g' \<longleftrightarrow> conns g' = conns g \<and> (\<forall>a. ag_session (agents g' a) = ag_session (agents g a)
     \<and> isclose (agents g' a) = isclose (agents g a))"

lemma same_sessions_refl [simp]: "same_sessions g g"
  by (simp add: same_sessions_def)

lemma same_sessions_app [simp]: "same_sessions g (g'\<lparr>app_state := t\<rparr>) = same_sessions g g'"
  by (simp add: same_sessions_def)

lemma same_sessions_trans: "same_sessions g g' \<Longrightarrow> same_sessions g' g'' \<Longrightarrow> same_sessions g g''"
  by (simp add: same_sessions_def)

lemma same_sessions_inv: "same_sessions g g' \<Longrightarrow> gate_inv g' = gate_inv g"
  by (simp add: same_sessions_def gate_inv_def entry_ok_def)

lemma same_sessions_directory: "same_sessions g g' \<Longrightarrow> gate_directory g' = gate_directory g"
  by (simp add: same_sessions_def gate_directory_def fun_eq_iff split: option.split)

lemma agent_WriteMsg_sessions: "same_sessions g (snd (agent_WriteMsg a topic data g))"
  by (auto simp: agent_WriteMsg_def put_agent_def same_sessions_def Let_def split: option.split prod.split)

lemma send_each_sessions: "same_sessions g (snd (send_each topic data as n err g))"
proof (induction topic data as n err g rule: send_each.induct)
  case (3 topic data a as n err g)
  obtain r g' where w: "agent_WriteMsg a topic data g = (r, g')" by fastforce
  then have s: "same_sessions g g'" using agent_WriteMsg_sessions [of g a topic data] by simp
  show ?case
  proof (cases r)
    case (Panic e)
    then show ?thesis using s by (simp add: w)
  next
    case (Done e)
    show ?thesis
    proof (cases e)
      case None
      with 3(1) [OF w [symmetric]] Done same_sessions_trans [OF s] show ?thesis by (simp add: w)
    next
      case (Some x)
      with 3(2) [OF w [symmetric]] Done same_sessions_trans [OF s] show ?thesis by (simp add: w)
    qed
  qed
qed simp_all

lemma agent_Close_sessions: "same_sessions g (agent_Close a g)"
  by (simp add: agent_Close_def put_agent_def same_sessions_def)

lemma fold_Close_sessions: "same_sessions g (fold agent_Close as g)"
  by (induction as arbitrary: g) (auto intro: same_sessions_trans agent_Close_sessions)

lemma persist_sessions: "same_sessions g (snd (persist env s g))"
  by (auto simp: persist_def split: option.split prod.split)

text \<open>A new session in place of an agent's, with the same id: the one change the calls make.\<close>

lemma put_session_simps [simp]:
  "conns (put_session a s g) = conns g"
  "agents (put_session a s g) b = (if b = a then (agents g a)\<lparr>ag_session := Some s\<rparr> else agents g b)"
  "app_state (put_session a s g) = app_state g"
  "entry_ok (put_session a s g) sid b = 
    (if b = a then Sessionid (pb s) = sid \<and> s_app s \<noteq> None \<and> \<not> isclose (agents g a) else entry_ok g sid b)"
  by (auto simp add: put_session_def put_agent_def entry_ok_def)

lemma put_session_ok:
  assumes "gate_inv g" "bm (conns g) sid = Some a" "Sessionid (pb s') = sid" "s_app s' \<noteq> None"
  shows "gate_inv (put_session a s' g)"
    and "gate_directory (put_session a s' g) = (gate_directory g)(sid \<mapsto> pb s')"
proof -
  have own: "sid' = sid" if "bm (conns g) sid' = Some a" for sid'
    using gate_inv_entry [OF assms(1,2)] gate_inv_entry [OF assms(1) that] by (metis option.inject)
  show "gate_inv (put_session a s' g)"
    unfolding gate_inv_def
  proof (intro conjI allI impI)
    show "bee_free (conns (put_session a s' g))" using assms(1) by (simp add: gate_inv_def)
    fix x b assume "bm (conns (put_session a s' g)) x = Some b"
    then have b: "bm (conns g) x = Some b" by simp
    show "entry_ok (put_session a s' g) x b"
    proof (cases "b = a")
      case True
      then show ?thesis using own [of x] b assms(3,4) gate_inv_entry [OF assms(1,2)] by auto
    next
      case False
      then show ?thesis using assms(1) b by (simp add: gate_inv_def)
    qed
  qed
  show "gate_directory (put_session a s' g) = (gate_directory g)(sid \<mapsto> pb s')"
  proof
    fix x
    show "gate_directory (put_session a s' g) x = ((gate_directory g)(sid \<mapsto> pb s')) x"
    proof (cases "bm (conns g) x")
      case None
      then show ?thesis using assms(2) by (auto simp: gate_directory_def)
    next
      case (Some b)
      then show ?thesis using assms(2) own [of x] by (cases "b = a") (auto simp: gate_directory_def)
    qed
  qed
qed

text \<open>The shape of every call on one session.\<close>

lemma on_agent_ok:
  assumes inv: "gate_inv g"
    and step: "\<And>a s. bm (conns g) sid = Some a \<Longrightarrow> ag_session (agents g a) = Some s \<Longrightarrow> s_app s \<noteq> None
      \<Longrightarrow> \<exists>s'. Sessionid (pb s') = Sessionid (pb s) \<and> s_app s' \<noteq> None \<and> pb s' = f (pb s)
          \<and> same_sessions (put_session a s' g) (snd (h a s))"
  shows "gate_inv (snd (on_agent sid g h))"
    and "gate_directory (snd (on_agent sid g h)) = modify sid f (gate_directory g)"
proof -
  have "gate_inv (snd (on_agent sid g h)) \<and>
    gate_directory (snd (on_agent sid g h)) = modify sid f (gate_directory g)"
  proof (cases "bm (conns g) sid")
    case None
    with inv show ?thesis by (simp add: on_agent_def get_agent_inv modify_def gate_directory_def)
  next
    case (Some a)
    from gate_inv_entry [OF inv Some] obtain s where
      s: "ag_session (agents g a) = Some s" "Sessionid (pb s) = sid" "s_app s \<noteq> None" by blast
    from step [OF Some s(1,3)] obtain s' where
      s': "Sessionid (pb s') = sid" "s_app s' \<noteq> None" "pb s' = f (pb s)"
        "same_sessions (put_session a s' g) (snd (h a s))" unfolding s(2) by blast
    note ok = put_session_ok [OF inv Some s'(1,2)]
    have "snd (on_agent sid g h) = snd (h a s)"
      using inv Some s(1) by (simp add: on_agent_def get_agent_inv)
    moreover have "gate_directory g sid = Some (pb s)"
      using Some s(1) by (simp add: gate_directory_def)
    ultimately show ?thesis
      using ok s'(3,4) by (simp add: same_sessions_inv same_sessions_directory modify_def)
  qed
  then show "gate_inv (snd (on_agent sid g h))"
    and "gate_directory (snd (on_agent sid g h)) = modify sid f (gate_directory g)" by simp_all
qed

section \<open>Every operation keeps the invariant and does what the description says\<close>

definition step_ok ::
  "('o, 'sp, 'cx) gate_op \<Rightarrow> ('o, 'sp, 'cx, 'st) gate \<Rightarrow> ('o, 'sp, 'cx, 'st) gate \<Rightarrow> bool" where
  "step_ok op g g' \<longleftrightarrow> gate_inv g' \<and> directory_spec op (gate_directory g) (gate_directory g')"

lemma same_sessions_step_ok:
  assumes "gate_inv g" "same_sessions g g'" "directory_spec op (gate_directory g) (gate_directory g)"
  shows "step_ok op g g'"
  using assms by (simp add: step_ok_def same_sessions_inv same_sessions_directory)

lemma learner_same [simp]:
  "same_sessions g (case l of None \<Rightarrow> g | Some x \<Rightarrow> g\<lparr>app_state := f x\<rparr>)"
  by (simp split: option.split)

lemma connect_ok:
  assumes inv: "gate_inv g" and fresh: "a \<notin> ran (bm (conns g))" and s: "s_app s \<noteq> None"
  shows "step_ok (OpConnect a s c) g
    (handler_Connect env a (put_agent a (agent_OnInit\<lparr>ag_session := Some s, ag_client := Some c\<rparr>) g))"
proof -
  define g1 where "g1 = put_agent a (agent_OnInit\<lparr>ag_session := Some s, ag_client := Some c\<rparr>) g"
  define g2 where "g2 = g1\<lparr>conns := bee_set (Sessionid (pb s)) a (conns g1)\<rparr>"
  have free: "bee_free (conns g)" using inv by (simp add: gate_inv_def)
  have m: "bm (conns g2) = (bm (conns g))(Sessionid (pb s) \<mapsto> a)"
    using bee.lookup_update [OF free] by (simp add: g2_def g1_def put_agent_def)
  have other: "bm (conns g) sid = Some b \<Longrightarrow> b \<noteq> a" for sid b
    using fresh by (auto simp: ran_def)
  have own: "ag_session (agents g2 a) = Some s" "\<not> isclose (agents g2 a)"
    by (simp_all add: g2_def g1_def put_agent_def agent_OnInit_def)
  have rest: "b \<noteq> a \<Longrightarrow> agents g2 b = agents g b" for b by (simp add: g2_def g1_def put_agent_def)
  have "gate_inv g2"
    unfolding gate_inv_def
  proof (intro conjI allI impI)
    show "bee_free (conns g2)"
      using bee.inv_update [OF free] by (simp add: g2_def g1_def put_agent_def)
    fix sid b assume b: "bm (conns g2) sid = Some b"
    show "entry_ok g2 sid b"
    proof (cases "sid = Sessionid (pb s)")
      case True
      then show ?thesis using b m own s by (simp add: entry_ok_def)
    next
      case False
      with b m have old: "bm (conns g) sid = Some b" by simp
      have "entry_ok g sid b" using inv old by (simp add: gate_inv_def)
      then show ?thesis using rest other [OF old] by (simp add: entry_ok_def)
    qed
  qed
  moreover have "gate_directory g2 = (gate_directory g)(Sessionid (pb s) \<mapsto> pb s)"
  proof
    fix sid
    show "gate_directory g2 sid = ((gate_directory g)(Sessionid (pb s) \<mapsto> pb s)) sid"
      using m own rest other by (auto simp: gate_directory_def split: option.split)
  qed
  moreover have "same_sessions g2 (handler_Connect env a g1)"
    by (simp add: handler_Connect_def Let_def g2_def g1_def put_agent_def)
  ultimately show ?thesis
    by (simp add: step_ok_def same_sessions_inv same_sessions_directory flip: g1_def)
qed

lemma disconnect_ok:
  assumes inv: "gate_inv g" and a: "bm (conns g) sid = Some a"
  shows "step_ok (OpDisConnect sid) g (agent_OnClose env a g)"
proof -
  from gate_inv_entry [OF inv a] obtain s where
    s: "ag_session (agents g a) = Some s" "Sessionid (pb s) = sid" by blast
  define g1 where "g1 = put_agent a ((agents g a)\<lparr>isclose := True\<rparr>) g"
  define g2 where "g2 = g1\<lparr>conns := bee_delete sid (conns g1)\<rparr>"
  have free: "bee_free (conns g)" using inv by (simp add: gate_inv_def)
  have m: "bm (conns g2) = (bm (conns g))(sid := None)"
    using bee.lookup_delete [OF free] by (simp add: g2_def g1_def put_agent_def)
  have ag: "b \<noteq> a \<Longrightarrow> agents g2 b = agents g b" for b by (simp add: g2_def g1_def put_agent_def)
  have other: "b \<noteq> a" if "bm (conns g2) x = Some b" for x b
    using that m gate_inv_entry [OF inv, of x b] s by (auto split: if_splits)
  have "gate_inv g2"
    unfolding gate_inv_def
  proof (intro conjI allI impI)
    show "bee_free (conns g2)"
      using bee.inv_delete [OF free] by (simp add: g2_def g1_def put_agent_def)
    fix x b assume b: "bm (conns g2) x = Some b"
    then have "bm (conns g) x = Some b" using m by (simp split: if_splits)
    then have "entry_ok g x b" using inv by (simp add: gate_inv_def)
    then show "entry_ok g2 x b" using ag [OF other [OF b]] by (simp add: entry_ok_def)
  qed
  moreover have "gate_directory g2 = (gate_directory g)(sid := None)"
  proof
    fix x
    show "gate_directory g2 x = ((gate_directory g)(sid := None)) x"
    proof (cases "bm (conns g2) x")
      case None
      then show ?thesis using m by (auto simp: gate_directory_def split: if_splits)
    next
      case (Some b)
      then show ?thesis using m ag [OF other [OF Some]] by (auto simp: gate_directory_def split: if_splits)
    qed
  qed
  moreover have "ag_session (agents g1 a) = Some s" using s(1) by (simp add: g1_def put_agent_def)
  then have "same_sessions g2 (agent_OnClose env a g)"
    using s(2) by (simp add: agent_OnClose_def handler_DisConnect_def Let_def g2_def flip: g1_def)
  ultimately show ?thesis
    by (simp add: step_ok_def same_sessions_inv same_sessions_directory)
qed

lemma bind_stored_shape:
  "\<exists>m. same_sessions (put_session a (with_settings m s) g) (snd (bind_stored env st uid a s old g))"
proof (cases "Settings (pb s)")
  case None
  then show ?thesis by (intro exI [of _ old]) (simp add: bind_stored_def Let_def)
next
  case (Some new)
  have keep: "with_settings (Some new) s = s" using Some by (simp add: with_settings_def)
  show ?thesis
  proof (cases old)
    case None
    then show ?thesis
      using Some keep by (intro exI [of _ "Some new"]) (simp add: bind_stored_def Let_def split: prod.split)
  next
    case old: (Some m)
    then show ?thesis
      using Some by (intro exI [of _ "Some (m ++ new)"]) (simp add: bind_stored_def Let_def split: prod.split)
  qed
qed

lemma put_session_twice [simp]: "put_session a t (put_session a s g) = put_session a t g"
  by (simp add: put_session_def put_agent_def)

lemma put_session_app [simp]: "put_session a t (g\<lparr>app_state := x\<rparr>) = (put_session a t g)\<lparr>app_state := x\<rparr>"
  by (simp add: put_session_def put_agent_def)

lemma same_sessions_app_left [simp]: "same_sessions (g\<lparr>app_state := x\<rparr>) g' = same_sessions g g'"
  by (simp add: same_sessions_def)

lemma bind_found_shape:
  "\<exists>m. same_sessions (put_session a (with_settings m (with_userid uid s)) g) (snd (bind_found env uid a s g))"
proof -
  define s1 where "s1 = with_userid uid s"
  define g1 where "g1 = put_session a s1 g"
  have keep: "with_settings (Settings (pb s1)) s1 = s1" by (simp add: with_settings_def)
  have plain: "\<exists>m. same_sessions (put_session a (with_settings m s1) g) g1"
    by (rule exI [of _ "Settings (pb s1)"]) (simp add: keep g1_def)
  have stored: "\<exists>m. same_sessions (put_session a (with_settings m s1) g)
      (snd (bind_stored env st uid a s1 old (g1\<lparr>app_state := x\<rparr>)))" for st old x
    using bind_stored_shape [of a s1 "g1\<lparr>app_state := x\<rparr>" env st uid old]
    by (simp add: g1_def)
  show ?thesis
    using plain stored
    by (auto simp: bind_found_def Let_def simp flip: s1_def g1_def
        split: option.split prod.split outcome.split sum.split)
qed

lemma bind_ok:
  assumes "gate_inv g"
  shows "step_ok (OpBind sid uid) g (snd (handler_Bind env sid uid g))"
proof -
  have state: "snd (handler_Bind env sid uid g) = snd (on_agent sid g (\<lambda>a s. bind_found env uid a s g))"
    by (simp add: handler_Bind_def split: prod.split outcome.split)
  show ?thesis
  proof (cases "bm (conns g) sid")
    case None
    then have "snd (on_agent sid g (\<lambda>a s. bind_found env uid a s g)) = g"
      using assms by (simp add: on_agent_def get_agent_inv)
    moreover have "gate_directory g sid = None" using None by (simp add: gate_directory_def)
    ultimately show ?thesis using assms by (simp add: step_ok_def state modify_def)
  next
    case (Some a)
    from gate_inv_entry [OF assms Some] obtain s where
      s: "ag_session (agents g a) = Some s" "Sessionid (pb s) = sid" "s_app s \<noteq> None" by blast
    from bind_found_shape [of a uid s g env] obtain m where
      m: "same_sessions (put_session a (with_settings m (with_userid uid s)) g) (snd (bind_found env uid a s g))"
      by blast
    have shape: "\<exists>s'. Sessionid (pb s') = Sessionid (pb t) \<and> s_app s' \<noteq> None
        \<and> pb s' = (pb t)\<lparr>Userid := uid, Settings := m\<rparr>
        \<and> same_sessions (put_session b s' g) (snd (bind_found env uid b t g))"
      if "bm (conns g) sid = Some b" "ag_session (agents g b) = Some t" for b t
    proof (rule exI [of _ "with_settings m (with_userid uid s)"])
      have "b = a" "t = s" using that Some s(1) by auto
      then show "Sessionid (pb (with_settings m (with_userid uid s))) = Sessionid (pb t)
          \<and> s_app (with_settings m (with_userid uid s)) \<noteq> None
          \<and> pb (with_settings m (with_userid uid s)) = (pb t)\<lparr>Userid := uid, Settings := m\<rparr>
          \<and> same_sessions (put_session b (with_settings m (with_userid uid s)) g) (snd (bind_found env uid b t g))"
        using m s(3) by (simp add: with_settings_def with_userid_def)
    qed
    note ok = on_agent_ok [OF assms, where f = "\<lambda>s. s\<lparr>Userid := uid, Settings := m\<rparr>"
      and h = "\<lambda>a s. bind_found env uid a s g", OF shape]
    have "step_ok (OpBind sid uid) g (snd (on_agent sid g (\<lambda>a s. bind_found env uid a s g)))"
      unfolding step_ok_def directory_spec.simps using ok by blast
    then show ?thesis by (simp add: state)
  qed
qed

text \<open>The calls that put \<open>F s\<close> in place of the session \<open>s\<close>, whatever else they do.\<close>

lemma change_ok:
  assumes "gate_inv g"
    and spec: "\<And>d d'. directory_spec op d d' = (d' = modify sid f d)"
    and F: "\<And>s. s_app s \<noteq> None \<Longrightarrow> Sessionid (pb (F s)) = Sessionid (pb s) \<and> s_app (F s) \<noteq> None \<and> pb (F s) = f (pb s)"
    and h: "\<And>a s. same_sessions (put_session a (F s) g) (snd (h a s))"
  shows "step_ok op g (snd (on_agent sid g h))"
proof -
  have "\<exists>s'. Sessionid (pb s') = Sessionid (pb s) \<and> s_app s' \<noteq> None \<and> pb s' = f (pb s)
      \<and> same_sessions (put_session a s' g) (snd (h a s))" if "s_app s \<noteq> None" for a s
    using F [OF that] h [of a s] by blast
  note ok = on_agent_ok [OF assms(1), of sid f h, OF this]
  then show ?thesis using spec by (simp add: step_ok_def)
qed

lemma unbind_ok: "gate_inv g \<Longrightarrow> step_ok (OpUnBind sid) g (snd (handler_UnBind sid g))"
  unfolding handler_UnBind_def
  by (rule change_ok [where F = "with_userid []" and f = "\<lambda>s. s\<lparr>Userid := []\<rparr>"])
    (simp_all add: Let_def with_userid_def)

lemma set_ok: "gate_inv g \<Longrightarrow> step_ok (OpSet sid k v) g (snd (handler_Set env sid k v g))"
  unfolding handler_Set_def Let_def
  by (rule change_ok [where F = "\<lambda>s. snd (session_Set k v s)"
        and f = "\<lambda>s. s\<lparr>Settings := Some ((settings_or_new s)(k \<mapsto> v))\<rparr>"])
    (simp_all add: session_Set_def persist_sessions)

lemma remove_ok: "gate_inv g \<Longrightarrow> step_ok (OpRemove sid k) g (snd (handler_Remove env sid k g))"
  unfolding handler_Remove_def Let_def
  by (rule change_ok [where F = "\<lambda>s. snd (session_Remove k s)"
        and f = "\<lambda>s. s\<lparr>Settings := Some ((settings_or_new s)(k := None))\<rparr>"])
    (simp_all add: session_Remove_def persist_sessions)

lemma push_ok: "gate_inv g \<Longrightarrow> step_ok (OpPush sid m) g (snd (handler_Push env sid m g))"
  unfolding handler_Push_def Let_def
  by (rule change_ok [where F = "with_settings m" and f = "\<lambda>s. s\<lparr>Settings := m\<rparr>"])
    (simp_all add: with_settings_def persist_sessions)

lemma destroy_ok:
  assumes "gate_inv g"
  shows "step_ok (OpDestroy order) g (handler_OnDestroy order g)"
proof -
  have "gate_inv (fold agent_Close order g)"
    using assms fold_Close_sessions [of g order] by (simp add: same_sessions_inv)
  then have "bee_free (conns (fold agent_Close order g))" by (simp add: gate_inv_def)
  then have "bm (conns (handler_OnDestroy order g)) = Map.empty" "bee_free (conns (handler_OnDestroy order g))"
    by (simp_all add: handler_OnDestroy_def Let_def bee_DeleteAll_def write_locked_def bee_free_def)
  then show ?thesis by (simp add: step_ok_def gate_inv_def gate_directory_def fun_eq_iff)
qed

lemma gate_step_ok: "gate_inv g \<Longrightarrow> step_ok op g (gate_perform env op g)"
proof (cases op)
  case (OpConnect a s c)
  assume "gate_inv g"
  with OpConnect show ?thesis
    using connect_ok [of g a s c env] by (auto simp: gate_perform_def step_ok_def)
next
  case (OpDisConnect sid)
  assume inv: "gate_inv g"
  show ?thesis
  proof (cases "bm (conns g) sid")
    case None
    then have "gate_directory g sid = None" by (simp add: gate_directory_def)
    then show ?thesis
      using OpDisConnect None inv by (auto simp: gate_perform_def step_ok_def get_agent_inv fun_eq_iff)
  next
    case (Some a)
    then show ?thesis
      using OpDisConnect inv disconnect_ok [OF inv Some, of env] by (simp add: gate_perform_def get_agent_inv)
  qed
next
  case (OpSend sid topic data)
  assume "gate_inv g"
  with OpSend show ?thesis
    by (auto simp: gate_perform_def handler_Send_def
        intro!: same_sessions_step_ok agent_WriteMsg_sessions split: option.split)
next
  case (OpClose sid)
  assume "gate_inv g"
  with OpClose show ?thesis
    by (auto simp: gate_perform_def handler_Close_def
        intro!: same_sessions_step_ok agent_Close_sessions split: option.split)
next
  case (OpUpdate sid)
  assume "gate_inv g"
  with OpUpdate show ?thesis
    by (auto simp: gate_perform_def handler_Update_def on_agent_def
        intro!: same_sessions_step_ok split: option.split)
qed (simp_all add: gate_perform_def bind_ok unbind_ok set_ok remove_ok push_ok destroy_ok
    handler_SendBatch_def handler_BroadCast_def same_sessions_step_ok send_each_sessions)

interpretation gate_sim: simulation gate_inv gate_directory "gate_perform env" directory_spec for env
  using gate_step_ok by unfold_locales (auto simp: step_ok_def)

text \<open>The description itself keeps every session under its own id and finite in number.\<close>

definition keyed :: "directory \<Rightarrow> bool" where
  "keyed d \<longleftrightarrow> (\<forall>sid s. d sid = Some s \<longrightarrow> Sessionid s = sid)"

lemma modify_keyed: "keyed d \<Longrightarrow> (\<And>s. Sessionid (f s) = Sessionid s) \<Longrightarrow> keyed (modify sid f d)"
  by (auto simp: keyed_def modify_def split: option.split)

lemma spec_keyed: "keyed d \<Longrightarrow> directory_spec op d d' \<Longrightarrow> keyed d'"
  by (cases op) (auto intro: modify_keyed, auto simp: keyed_def)

section \<open>Properties of the directory\<close>


text \<open>The sessions an operation is about; the end of the gate is about all of them.\<close>

fun touched :: "('o, 'sp, 'cx) gate_op \<Rightarrow> string set" where
  "touched (OpConnect a s c) = {Sessionid (pb s)}"
| "touched (OpDisConnect sid) = {sid}"
| "touched (OpBind sid uid) = {sid}"
| "touched (OpUnBind sid) = {sid}"
| "touched (OpSet sid k v) = {sid}"
| "touched (OpRemove sid k) = {sid}"
| "touched (OpPush sid m) = {sid}"
| "touched (OpDestroy order) = UNIV"
| "touched _ = {}"

lemma spec_isolated: "directory_spec op d d' \<Longrightarrow> sid \<notin> touched op \<Longrightarrow> d' sid = d sid"
  by (cases op) (auto simp: modify_def split: option.split)

text \<open>
  C9: Sessions do not interfere: after any history, operations that are about other sessions
  (and messages, broadcasts, closings and queries about any) leave a session's data as it was.
\<close>

theorem sessions_isolated:
  assumes "sid \<notin> \<Union> (touched ` set later)"
  shows "gate_directory (fold (gate_perform env) (early @ later) (new_gate st)) sid
    = gate_directory (fold (gate_perform env) early (new_gate st)) sid"
proof -
  have "gate_directory (fold (gate_perform env) later g) sid = gate_directory g sid" if "gate_inv g" for g
    using that assms
  proof (induction later arbitrary: g)
    case (Cons op later)
    have "gate_directory (gate_perform env op g) sid = gate_directory g sid"
      using spec_isolated [OF gate_sim.simulates [OF Cons.prems(1)]] Cons.prems(2) by simp
    then show ?case using Cons.IH [OF gate_sim.keeps [OF Cons.prems(1)]] Cons.prems(2) by simp
  qed simp
  from this [OF gate_sim.run_keeps [OF new_gate_inv]] show ?thesis by simp
qed

text \<open>An application without tracing, storage or judge, and sessions of it.\<close>

definition plain_app :: "(nat, nat, nat) app_env" where
  "plain_app = \<lparr>app_tracer = None, app_judge = None, server_call = (\<lambda>i. None),
     server_callNR = (\<lambda>i f a. Done None)\<rparr>"

definition demo_session :: "string \<Rightarrow> (nat, nat, nat) session" where
  "demo_session sid = \<lparr>s_app = Some plain_app, pb = empty_pb\<lparr>Sessionid := sid\<rparr>, span = None, judgeGuest = None\<rparr>"

definition demo_client :: client where
  "demo_client = NewClient \<lparr>WirteLoopChanNum = 1, ReadPackLoop = 1, ReadTimeout = 10, WriteTimeout = 10\<rparr>
     \<lparr>r_in = [], r_end = EOF\<rparr> \<lparr>w_sent = [], w_buf = [], w_err = None, w_size = 256, w_conn = None\<rparr> 10"

definition plain_env :: "pb_codec \<Rightarrow> (nat, nat, nat, nat) gate_env" where
  "plain_env c = \<lparr>g_app = Some plain_app, g_proto = c, g_storage = None, g_learner = None,
     g_MinStorageHeartbeat = 60\<rparr>"

theorem sessions_isolated_witness:
  "gate_directory (fold (gate_perform (plain_env undefined))
      ([OpConnect 1 (demo_session ''a'') demo_client] @ [OpConnect 2 (demo_session ''b'') demo_client, OpSet ''b'' ''k'' ''v''])
      (new_gate 0)) ''a''
    = gate_directory (fold (gate_perform (plain_env undefined))
      [OpConnect 1 (demo_session ''a'') demo_client] (new_gate 0)) ''a''"
  by (rule sessions_isolated) (simp add: demo_session_def)

lemma IsConnect_found:
  assumes "\<And>a. a \<in> set order \<Longrightarrow> \<not> isclose (agents g a) \<and> ag_session (agents g a) \<noteq> None"
  shows "handler_IsConnect order uid g =
    (if \<exists>a \<in> set order. map_option (\<lambda>s. Userid (pb s)) (ag_session (agents g a)) = Some uid then Done (True, None)
     else Done (False, Some (no_user uid)))"
  using assms
proof (induction order)
  case (Cons a order)
  from Cons.prems [of a] obtain s where "ag_session (agents g a) = Some s" "\<not> isclose (agents g a)" by auto
  with Cons show ?case by simp
qed simp

text \<open>
  \<^verbatim>\<open>IsConnect\<close> answers true exactly when the gate has a session of that user, and the
  error otherwise, in whatever order Go visits the table.
\<close>

theorem IsConnect_correct:
  fixes env :: "('o, 'sp, 'cx, 'st) gate_env"
  assumes "set order = ran (bm (conns g))" "g = fold (gate_perform env) ops (new_gate st)"
  shows "handler_IsConnect order uid g =
    (if Some uid \<in> range (\<lambda>sid. map_option Userid (gate_directory g sid)) then Done (True, None)
     else Done (False, Some (no_user uid)))"
proof -
  have inv: "gate_inv g" unfolding assms(2) by (rule gate_sim.run_keeps) simp
  have entry: "\<not> isclose (agents g a) \<and> ag_session (agents g a) \<noteq> None" if "a \<in> set order" for a
    using that gate_inv_entry [OF inv] unfolding assms(1) ran_def by auto
  have "(\<exists>a \<in> set order. map_option (\<lambda>s. Userid (pb s)) (ag_session (agents g a)) = Some uid)
      \<longleftrightarrow> Some uid \<in> range (\<lambda>sid. map_option Userid (gate_directory g sid))"
    unfolding assms(1)
  proof
    assume "\<exists>a \<in> ran (bm (conns g)). map_option (\<lambda>s. Userid (pb s)) (ag_session (agents g a)) = Some uid"
    then obtain sid a where "bm (conns g) sid = Some a"
        "map_option (\<lambda>s. Userid (pb s)) (ag_session (agents g a)) = Some uid" by (auto simp: ran_def)
    then have "map_option Userid (gate_directory g sid) = Some uid"
      by (simp add: gate_directory_def option.map_comp o_def)
    then show "Some uid \<in> range (\<lambda>sid. map_option Userid (gate_directory g sid))"
      by (metis rangeI)
  next
    assume "Some uid \<in> range (\<lambda>sid. map_option Userid (gate_directory g sid))"
    then obtain sid where "Some uid = map_option Userid (gate_directory g sid)" by (rule rangeE)
    then show "\<exists>a \<in> ran (bm (conns g)). map_option (\<lambda>s. Userid (pb s)) (ag_session (agents g a)) = Some uid"
      by (cases "bm (conns g) sid") (auto simp: gate_directory_def ran_def option.map_comp o_def)
  qed
  then show ?thesis using IsConnect_found [of order g uid, OF entry] by simp
qed

theorem IsConnect_correct_witness:
  "handler_IsConnect [1] [] (fold (gate_perform (plain_env undefined))
      [OpConnect 1 (demo_session ''a'') demo_client] (new_gate 0)) =
    (if Some [] \<in> range (\<lambda>sid. map_option Userid (gate_directory (fold (gate_perform (plain_env undefined))
      [OpConnect 1 (demo_session ''a'') demo_client] (new_gate 0)) sid)) then Done (True, None)
     else Done (False, Some (no_user [])))"
  by (rule IsConnect_correct [OF _ refl])
    (simp add: gate_perform_def new_gate_def NewBeeMap_def demo_session_def handler_Connect_def put_agent_def
      plain_env_def bee_set_simp bee_free_def)

section \<open>What binding, storing and sending do\<close>

lemma on_agent_found:
  assumes "gate_inv g" "bm (conns g) sid = Some a" "ag_session (agents g a) = Some s"
  shows "on_agent sid g f = f a s"
  using assms by (simp add: on_agent_def get_agent_inv)

text \<open>
  Binding a user with stored data merges the settings: the connection's own value wins, the
  stored one fills in, the user id is the new one, nothing else changes; and the merged session
  is what is stored. Whatever the storage then answers, also an error, the caller gets it.
\<close>

theorem Bind_merges_settings:
  assumes "gate_inv g" "bm (conns g) sid = Some a" "ag_session (agents g a) = Some s"
    and "g_storage env = Some st" "uid \<noteq> []"
    and "st_Query st uid (app_state g) = (Done (Inr (Some data)), t)"
    and "NewSession (g_proto env) (g_app env) data = Done (Inr old)"
    and "Settings (pb s) = Some own" "Settings (pb old) = Some stored"
    and "merged = s\<lparr>pb := (pb s)\<lparr>Userid := uid,
        Settings := Some (\<lambda>k. case own k of Some v \<Rightarrow> Some v | None \<Rightarrow> stored k)\<rparr>\<rparr>"
    and "st_Storage st uid (pb merged) t = (Done e, t')"
  shows "fst (handler_Bind env sid uid g) = Done (Some merged, None)
    \<and> app_state (snd (handler_Bind env sid uid g)) = t'
    \<and> ag_session (agents (snd (handler_Bind env sid uid g)) a) = Some merged"
proof -
  have m: "merged = with_settings (Some (stored ++ own)) (with_userid uid s)"
    unfolding assms(10) by (simp add: with_settings_def with_userid_def map_add_def)
  have "bind_found env uid a s g = (Done (Some merged, None), (put_session a merged g)\<lparr>app_state := t'\<rparr>)"
    using assms(4-9,11) unfolding m
    by (simp add: bind_found_def bind_stored_def Let_def with_userid_def)
  then show ?thesis by (simp add: handler_Bind_def on_agent_found [OF assms(1-3)])
qed

text \<open>
  A protobuf library that knows one message, the stored session of a user, and a storage that
  keeps the last session stored.
\<close>

definition stored_pb :: sessionpb where
  "stored_pb = empty_pb\<lparr>Userid := ''u'', Settings := Some [''old'' \<mapsto> ''1'', ''k'' \<mapsto> ''2'']\<rparr>"

definition demo_codec :: pb_codec where
  "demo_codec = Abs_pb_codec (\<lambda>s. if s = stored_pb then Inr [7] else Inl ''unknown'',
     \<lambda>b. if b = [7] then Inr stored_pb else Inl ''unknown'')"

lemma stored_pb_norm: "pb_norm stored_pb = stored_pb"
proof -
  have "[''old'' \<mapsto> ''1'', ''k'' \<mapsto> ''2''] \<noteq> (Map.empty :: str_map)" by (simp add: fun_eq_iff) blast
  then show ?thesis by (simp add: pb_norm_def nil_if_empty_def stored_pb_def empty_pb_def)
qed

lemma demo_codec_simps [simp]:
  "proto_Marshal demo_codec s = (if s = stored_pb then Inr [7] else Inl ''unknown'')"
  "proto_Unmarshal demo_codec b = (if b = [7] then Inr stored_pb else Inl ''unknown'')"
  by (simp_all add: proto_Marshal_def proto_Unmarshal_def demo_codec_def Abs_pb_codec_inverse stored_pb_norm)

definition demo_storage :: "sessionpb list storage" where
  "demo_storage = \<lparr>st_Storage = (\<lambda>uid s t. (Done None, [s])),
     st_Query = (\<lambda>uid t. (Done (Inr (if uid = ''u'' then Some [7] else None)), t)),
     st_Heartbeat = (\<lambda>uid t. (Done (), t))\<rparr>"

definition demo_gate_env :: "(nat, nat, nat, sessionpb list) gate_env" where
  "demo_gate_env = \<lparr>g_app = Some plain_app, g_proto = demo_codec, g_storage = Some demo_storage,
     g_learner = None, g_MinStorageHeartbeat = 60\<rparr>"

definition own_session :: "(nat, nat, nat) session" where
  "own_session = \<lparr>s_app = Some plain_app, pb = empty_pb\<lparr>Sessionid := ''a'', Settings := Some [''k'' \<mapsto> ''new'']\<rparr>,
     span = None, judgeGuest = None\<rparr>"

definition gate_with :: "(nat, nat, nat) session \<Rightarrow> (nat, nat, nat, sessionpb list) gate" where
  "gate_with s = \<lparr>conns = NewBeeMap\<lparr>bm := [''a'' \<mapsto> 1]\<rparr>,
     agents = (\<lambda>a. agent_OnInit\<lparr>ag_session := Some s, ag_client := Some demo_client\<rparr>),
     app_state = []\<rparr>"

lemma gate_with_inv: "s_app s \<noteq> None \<Longrightarrow> Sessionid (pb s) = ''a'' \<Longrightarrow> gate_inv (gate_with s)"
  by (simp add: gate_inv_def gate_with_def entry_ok_def bee_free_def NewBeeMap_def agent_OnInit_def)

definition merged_session :: "(nat, nat, nat) session" where
  "merged_session = own_session\<lparr>pb := (pb own_session)\<lparr>Userid := ''u'',
     Settings := Some (\<lambda>k. case [''k'' \<mapsto> ''new''] k of Some v \<Rightarrow> Some v | None \<Rightarrow> [''old'' \<mapsto> ''1'', ''k'' \<mapsto> ''2''] k)\<rparr>\<rparr>"

theorem Bind_merges_settings_witness:
  "fst (handler_Bind demo_gate_env ''a'' ''u'' (gate_with own_session)) = Done (Some merged_session, None)
    \<and> app_state (snd (handler_Bind demo_gate_env ''a'' ''u'' (gate_with own_session))) = [pb merged_session]
    \<and> ag_session (agents (snd (handler_Bind demo_gate_env ''a'' ''u'' (gate_with own_session))) 1) = Some merged_session"
  by (rule Bind_merges_settings [OF gate_with_inv, where st = demo_storage and data = "[7]" and t = "[]" and e = None
        and old = "\<lparr>s_app = Some plain_app, pb = stored_pb, span = None, judgeGuest = None\<rparr>"
        and own = "[''k'' \<mapsto> ''new'']" and stored = "[''old'' \<mapsto> ''1'', ''k'' \<mapsto> ''2'']" and s = own_session])
    (simp_all add: gate_with_def own_session_def demo_gate_env_def demo_storage_def NewSession_def plain_app_def
      stored_pb_def merged_session_def)

lemma persist_state:
  assumes "g_storage env = Some st"
  shows "app_state (snd (persist env s g)) =
    (if Userid (pb s) = [] then app_state g else snd (st_Storage st (Userid (pb s)) (pb s) (app_state g)))"
  using assms by (simp add: persist_def split: prod.split)

text \<open>
  The changes a bound user's session undergoes reach the storage: \<^verbatim>\<open>Set\<close>, \<^verbatim>\<open>Remove\<close>
  and \<^verbatim>\<open>Push\<close> hand the new session to it once, under the user id, and its error is not the
  caller's; a session without a user is not stored.
\<close>

theorem bound_changes_are_stored:
  assumes "gate_inv g" "bm (conns g) sid = Some a" "ag_session (agents g a) = Some s" "s_app s \<noteq> None"
    and "g_storage env = Some st"
    and "stored = (\<lambda>m. if Userid (pb s) = [] then app_state g
        else snd (st_Storage st (Userid (pb s)) ((pb s)\<lparr>Settings := m\<rparr>) (app_state g)))"
  shows "app_state (snd (handler_Set env sid k v g)) = stored (Some ((settings_or_new (pb s))(k \<mapsto> v)))
    \<and> app_state (snd (handler_Remove env sid k g)) = stored (Some ((settings_or_new (pb s))(k := None)))
    \<and> app_state (snd (handler_Push env sid m g)) = stored m"
  using assms(4)
  by (auto simp: handler_Set_def handler_Remove_def handler_Push_def on_agent_found [OF assms(1-3)] Let_def
      persist_state [OF assms(5)] session_Set_def session_Remove_def with_settings_def assms(6))

theorem bound_changes_are_stored_witness:
  "app_state (snd (handler_Set demo_gate_env ''a'' ''x'' ''y'' (gate_with merged_session)))
      = [(pb merged_session)\<lparr>Settings := Some ((settings_or_new (pb merged_session))(''x'' \<mapsto> ''y''))\<rparr>]
    \<and> app_state (snd (handler_Remove demo_gate_env ''a'' ''x'' (gate_with merged_session)))
      = [(pb merged_session)\<lparr>Settings := Some ((settings_or_new (pb merged_session))(''x'' := None))\<rparr>]
    \<and> app_state (snd (handler_Push demo_gate_env ''a'' None (gate_with merged_session)))
      = [(pb merged_session)\<lparr>Settings := None\<rparr>]"
  by (rule bound_changes_are_stored [OF gate_with_inv, where st = demo_storage and a = 1 and s = merged_session])
    (simp_all add: gate_with_def merged_session_def own_session_def demo_gate_env_def demo_storage_def)

definition send_error :: "('o, 'sp, 'cx, 'st) gate \<Rightarrow> nat \<Rightarrow> go_err option" where
  "send_error g a = (case ag_client (agents g a) of None \<Rightarrow> None
     | Some c \<Rightarrow> if isStop c then Some (AppErr ''connection is closed'') else writeError (queue c))"

lemma WriteMsg_result:
  "fst (WriteMsg topic data c) = (if isStop c then Some (AppErr ''connection is closed'') else writeError (queue c))"
  by (simp add: WriteMsg_def pushMsg_def queue_WritePack_def queue_send_def getOnlineMsgId_def Let_def split: option.split)

lemma WriteMsg_same:
  "isStop (snd (WriteMsg topic data c)) = isStop c \<and> queue (snd (WriteMsg topic data c)) = queue c"
  by (simp add: WriteMsg_def pushMsg_def queue_WritePack_def queue_send_def getOnlineMsgId_def Let_def split: option.split)

lemma agent_WriteMsg_result:
  assumes "ag_client (agents g a) \<noteq> None"
  shows "fst (agent_WriteMsg a topic data g) = Done (send_error g a)"
    and "send_error (snd (agent_WriteMsg a topic data g)) = send_error g"
    and "(ag_client (agents (snd (agent_WriteMsg a topic data g)) b) \<noteq> None) = (ag_client (agents g b) \<noteq> None)"
proof -
  from assms obtain c where c: "ag_client (agents g a) = Some c" by blast
  obtain e c' where w: "WriteMsg topic data c = (e, c')" by fastforce
  have e: "e = (if isStop c then Some (AppErr ''connection is closed'') else writeError (queue c))"
    using WriteMsg_result [of topic data c] w by simp
  have k: "isStop c' = isStop c" "queue c' = queue c"
    using WriteMsg_same [of topic data c] w by simp_all
  show "fst (agent_WriteMsg a topic data g) = Done (send_error g a)"
    using c w e by (simp add: agent_WriteMsg_def Let_def send_error_def)
  show "send_error (snd (agent_WriteMsg a topic data g)) = send_error g"
    using c w k by (auto simp: fun_eq_iff agent_WriteMsg_def Let_def send_error_def put_agent_def)
  show "(ag_client (agents (snd (agent_WriteMsg a topic data g)) b) \<noteq> None) = (ag_client (agents g b) \<noteq> None)"
    using c w by (simp add: agent_WriteMsg_def Let_def put_agent_def)
qed

definition found :: "nat option list \<Rightarrow> nat list" where
  "found as = map the (filter (\<lambda>a. a \<noteq> None) as)"

lemma found_simps [simp]: "found [] = []" "found (None # as) = found as" "found (Some a # as) = a # found as"
  by (simp_all add: found_def)

lemma send_each_result:
  assumes "list_all (\<lambda>a. ag_client (agents g a) \<noteq> None) (found as)"
  shows "fst (send_each topic data as n err g) =
    Done (n + int (length (filter (\<lambda>a. send_error g a = None) (found as))),
      if found as = [] then err else send_error g (last (found as)))"
  using assms
proof (induction as arbitrary: n err g)
  case (Cons x as)
  show ?case
  proof (cases x)
    case None
    with Cons show ?thesis by simp
  next
    case (Some a)
    with Cons.prems have a: "ag_client (agents g a) \<noteq> None" by simp
    obtain g' where w: "agent_WriteMsg a topic data g = (Done (send_error g a), g')"
      using agent_WriteMsg_result(1) [OF a, of topic data] by (metis prod.collapse)
    have same: "send_error g' = send_error g"
      and clients: "\<And>b. (ag_client (agents g' b) \<noteq> None) = (ag_client (agents g b) \<noteq> None)"
      using agent_WriteMsg_result(2,3) [OF a, of topic data] w by simp_all
    have all: "list_all (\<lambda>b. ag_client (agents g' b) \<noteq> None) (found as)"
      using Cons.prems Some clients by simp
    show ?thesis
      using Some w same Cons.IH [OF all] by (cases "send_error g a") simp_all
  qed
qed simp

text \<open>
  The count of \<^verbatim>\<open>SendBatch\<close> is the number of found connections whose client took the
  message, and the error that of the last found one alone: nil when it succeeded though others
  failed, and an error when only it failed. Unknown session ids are skipped.
\<close>

theorem SendBatch_result:
  assumes "as = found (map (\<lambda>sid. get_agent sid g) (split_on CHR '','' sids))"
    and "list_all (\<lambda>a. ag_client (agents g a) \<noteq> None) as"
  shows "fst (handler_SendBatch sids topic data g) =
    Done (int (length (filter (\<lambda>a. send_error g a = None) as)), if as = [] then None else send_error g (last as))"
  using assms by (simp add: handler_SendBatch_def send_each_result)

theorem SendBatch_result_witness:
  "fst (handler_SendBatch ''a,b,a'' ''t'' [1, 2] (gate_with own_session)) =
    Done (int (length (filter (\<lambda>a. send_error (gate_with own_session) a = None) [1, 1])),
      if [1, 1 :: nat] = [] then None else send_error (gate_with own_session) (last [1, 1]))"
  by (rule SendBatch_result)
    (simp_all add: gate_with_def get_agent_free bee_free_def NewBeeMap_def)

end
