(* ===== verification/Lodos_Gate_Rpc.thy ===== *)
theory Lodos_Gate_Rpc
  imports Lodos_Gate_Props
begin

text \<open>
  The gate as an RPC server: its serializer under the contract of \<^verbatim>\<open>argsutil\<close>, the functions it
  registers, and what a session's calls through the RPC layer come to.
\<close>

section \<open>The serializer\<close>

definition gate_normal :: "'o rpc_value \<Rightarrow> 'o rpc_value" where
  "gate_normal v = (case v of GApp (Other (SessionV s)) \<Rightarrow> session_value (pb_norm s) | _ \<Rightarrow> v)"

lemma gate_Serialize_cases:
  "gate_Serialize c v = Inr (t, b) \<Longrightarrow>
    \<exists>s. v = session_value s \<and> t = ''SESSION'' \<and> proto_Marshal c s = Inr b"
  by (auto simp: gate_Serialize_def split: go_value.splits dyn.splits app_value.splits sum.splits)

lemma gate_roundtrip [codec_simps]:
  "proto_Marshal c s = Inr b \<Longrightarrow> gate_Deserialize c app ''SESSION'' b = Inr (session_value (pb_norm s))"
  by (simp add: gate_Deserialize_def NewSession_def proto_roundtrip)

interpretation gate_codec: serializers "[gate_serializer c app]" gate_normal for c app
  by unfold_locales
    (auto simp: gate_serializer_def gate_normal_def builtin_types_def codec_simps dest!: gate_Serialize_cases)

lemma session_travels:
  assumes "proto_Marshal c s = Inr b"
  shows "ArgsTypeAnd2Bytes j (Some [gate_serializer c app]) (session_value s) = (''SESSION'', b, None)"
    and "Bytes2Args j (Some [gate_serializer c app]) ''SESSION'' b = Done (Inr (session_value (pb_norm s)))"
proof -
  have first: "first_serialized [gate_serializer c app] (session_value s) = Some (''SESSION'', b)"
    using assms by (simp add: gate_serializer_def gate_Serialize_def)
  then show "ArgsTypeAnd2Bytes j (Some [gate_serializer c app]) (session_value s) = (''SESSION'', b, None)"
    by (simp add: ArgsTypeAnd2Bytes_def)
  show "Bytes2Args j (Some [gate_serializer c app]) ''SESSION'' b = Done (Inr (session_value (pb_norm s)))"
    using gate_codec.app_value_roundtrip [OF refl refl first, of j] by (simp add: gate_normal_def)
qed

text \<open>
  A session travels as an RPC argument: it is encoded under the gate's own tag, which no
  built-in type has, and decoded, by a gate of another application too, as the same session,
  its empty maps as nil ones.
\<close>

theorem session_argument_roundtrip:
  assumes "proto_Marshal c s = Inr b"
  shows "ArgsTypeAnd2Bytes j (Some [gate_serializer c app]) (session_value s) = (''SESSION'', b, None)
    \<and> Bytes2Args j (Some [gate_serializer c app']) ''SESSION'' b = Done (Inr (session_value (pb_norm s)))
    \<and> ''SESSION'' \<notin> set builtin_types"
  using session_travels(1) [OF assms, of j app] session_travels(2) [OF assms, of j app']
  by (simp add: builtin_types_def)

definition no_json :: "'a json" where
  "no_json = \<lparr>marshal_map = (\<lambda>m. Inl []), unmarshal_map = (\<lambda>b. Inl []),
     marshal_str = (\<lambda>m. Inl []), unmarshal_str = (\<lambda>b. Inl [])\<rparr>"

theorem session_argument_roundtrip_witness:
  "ArgsTypeAnd2Bytes no_json (Some [gate_serializer demo_codec plain_app]) (session_value stored_pb)
      = (''SESSION'', [7], None)
    \<and> Bytes2Args no_json (Some [gate_serializer demo_codec plain_app]) ''SESSION'' [7]
      = Done (Inr (session_value (pb_norm stored_pb)))
    \<and> ''SESSION'' \<notin> set builtin_types"
  by (rule session_argument_roundtrip) simp

section \<open>Registration\<close>

lemma gate_register_table:
  "gate_register fits zero handler Map.empty
    = Done (\<lambda>name. map_option (\<lambda>n. gate_func fits zero handler (name, n)) (map_of gate_arities name))"
  by (simp add: gate_register_def gate_arities_def Register_def gate_func_def fun_eq_iff)

lemma gate_registered:
  assumes "gate_register fits zero handler Map.empty = Done fs"
  shows "fs ''Close'' = Some (gate_func fits zero handler (''Close'', 1))"
    and "fs ''Bind'' = Some (gate_func fits zero handler (''Bind'', 2))"
proof -
  have "fs = (\<lambda>name. map_option (\<lambda>n. gate_func fits zero handler (name, n)) (map_of gate_arities name))"
    using assms by (simp only: gate_register_table outcome.inject)
  then show "fs ''Close'' = Some (gate_func fits zero handler (''Close'', 1))"
    and "fs ''Bind'' = Some (gate_func fits zero handler (''Bind'', 2))"
    by (simp_all add: gate_arities_def)
qed

text \<open>
  \<^verbatim>\<open>session.Close\<close> never closes anything through the RPC layer: it calls \<^verbatim>\<open>Close\<close> with two
  arguments, a 5 before the session id, and the gate registers a function of one, so the call
  comes back as the error about the number of arguments, whatever the gate's state.
\<close>

theorem session_Close_fails:
  fixes env :: "'o app_value call_env"
  assumes "gate_register fits zero handler Map.empty = Done fs"
    and "s_app s = Some a"
    and "server_call a (Serverid (pb s)) = Some (\<lambda>fn ps. Call env conn
        (local_deliver (ce_json env) (ce_apps env) fs now' run_at) clone now corr fn ps)"
    and "local_client conn" "\<And>p. clone p = p"
    and "now' div 1000 div 1000 \<le> (now + RpcExpired env * 1000000000) div 1000000"
  shows "session_Close s = Done (Some (CallFailed
      (CodeError ClientParamNotAdapted ''The number of args is not adapted.'')))"
proof -
  note fs = gate_registered [OF assms(1)]
  define ps :: "'o rpc_value list" where "ps = [GInt 5, GString (Sessionid (pb s))]"
  define ci where "ci = make_info env now corr True ''Close'' [T_INT, T_STRING]
    [IntToBytes 5, bytes_of_string (Sessionid (pb s))]"
  have "on_call_handle (ce_json env) (ce_apps env) fs now' run_at ci
      = errorCallback ci ClientParamNotAdapted ''The number of args is not adapted.''"
    using assms(6) fs by (simp add: on_call_handle_def runFunc_def ci_def make_info_def gate_func_def)
  then have deliver: "local_deliver (ce_json env) (ce_apps env) fs now' run_at ViaLocal ci
      = (None, Some (NewResultInfo corr (int32 ClientParamNotAdapted) ''The number of args is not adapted.'' [] []))"
    by (simp add: local_deliver_def on_callback_handle_def errorCallback_def reply_with_def ci_def make_info_def)
  have enc: "encode_params env clone 0 ps = Inr ([T_INT, T_STRING], [IntToBytes 5, bytes_of_string (Sessionid (pb s))])"
    using assms(5) by (simp add: ps_def ArgsTypeAnd2Bytes_def)
  have "Call env conn (local_deliver (ce_json env) (ce_apps env) fs now' run_at) clone now corr ''Close'' ps
      = Done (Inl (CodeError ClientParamNotAdapted ''The number of args is not adapted.''))"
    using enc assms(4) deliver
    by (simp add: Call_def CallArgs_def pick_def resolve_def NewResultInfo_def NewError_def
        int32_def ClientParamNotAdapted_def flip: ci_def)
  then show ?thesis
    using assms(2,3) by (simp add: session_Close_def with_server_def error_only_def ps_def)
qed

text \<open>An application whose one server is a gate of the same process.\<close>

definition wire_env :: "nat app_value call_env" where
  "wire_env = \<lparr>ce_json = no_json, ce_apps = Some [gate_serializer demo_codec plain_app], RpcExpired = 5, serverId = ''s''\<rparr>"

definition local_conn :: rpc_conn where
  "local_conn = \<lparr>local_client = True, remote_client = False, redis_client = False\<rparr>"

definition gate_table ::
  "(string \<Rightarrow> nat rpc_value list \<Rightarrow> nat rpc_value call_end) \<Rightarrow> nat app_value dyn function_table" where
  "gate_table handler = (\<lambda>name. map_option
     (\<lambda>n. gate_func (\<lambda>f k v. True) (\<lambda>f k. GNil) handler (name, n)) (map_of gate_arities name))"

definition call_gate ::
  "(string \<Rightarrow> nat rpc_value list \<Rightarrow> nat rpc_value call_end) \<Rightarrow> string \<Rightarrow> nat rpc_value list \<Rightarrow> nat call_result outcome" where
  "call_gate handler fn ps = Call wire_env local_conn
     (local_deliver (ce_json wire_env) (ce_apps wire_env) (gate_table handler) 2000000 2000000) (\<lambda>p. p) 1000000 ''id'' fn ps"

definition remote_session ::
  "(string \<Rightarrow> nat rpc_value list \<Rightarrow> nat rpc_value call_end) \<Rightarrow> (nat, nat, nat) session" where
  "remote_session handler = own_session\<lparr>s_app := Some (plain_app\<lparr>server_call := (\<lambda>id. Some (call_gate handler))\<rparr>)\<rparr>"

theorem session_Close_fails_witness:
  "session_Close (remote_session (\<lambda>fn args. Never)) = Done (Some (CallFailed
      (CodeError ClientParamNotAdapted ''The number of args is not adapted.'')))"
  by (rule session_Close_fails [where fs = "gate_table (\<lambda>fn args. Never)" and handler = "\<lambda>fn args. Never"
        and fits = "\<lambda>f k v. True" and zero = "\<lambda>f k. GNil" and env = wire_env and conn = local_conn
        and now' = 2000000 and now = 1000000 and run_at = 2000000 and corr = "''id''" and clone = "\<lambda>p. p"
        and a = "plain_app\<lparr>server_call := (\<lambda>id. Some (call_gate (\<lambda>fn args. Never)))\<rparr>"])
    (simp_all add: gate_register_table gate_table_def remote_session_def fun_eq_iff call_gate_def
      local_conn_def wire_env_def)

section \<open>A call from a session to its gate\<close>

text \<open>The registered function: the handler's method on the gate's state, ending after \<open>d\<close> nanoseconds.\<close>

definition gate_handler ::
  "('o, 'sp, 'cx, 'st) gate_env \<Rightarrow> (go_err \<Rightarrow> string) \<Rightarrow> nat list \<Rightarrow> ('o, 'sp, 'cx, 'st) gate \<Rightarrow> int
    \<Rightarrow> string \<Rightarrow> 'o rpc_value list \<Rightarrow> 'o rpc_value call_end" where
  "gate_handler genv errtext order g d fn args =
     (case gate_dispatch genv errtext order fn args g of
        Some (Done out, g') \<Rightarrow> Yields d out
      | Some (Panic e, g') \<Rightarrow> Panics_after d e
      | None \<Rightarrow> Never)"

lemma carries_session:
  assumes "proto_Marshal c p = Inr b" "pb_norm p = p"
  shows "carries_value j (Some [gate_serializer c app]) (session_value p)"
  using session_travels [OF assms(1), of j app] assms(2)
  by (simp add: carries_value_def wire_def)

text \<open>
  C3: \<^verbatim>\<open>session.Bind\<close> through the whole stack: the arguments are encoded, the request is delivered
  to the gate of the process, \<^verbatim>\<open>runFunc\<close> decodes them and runs the gate handler, the session it
  returns is encoded by the gate's serializer and decoded by the caller, and the caller's
  session takes over its six fields. For a call that ends before its deadline and a session
  without empty maps.
\<close>

theorem session_Bind_over_rpc:
  fixes env :: "'o app_value call_env"
  assumes "gate_register fits zero (gate_handler genv errtext order g d) Map.empty = Done fs"
    and "s_app s = Some a"
    and "server_call a (Serverid (pb s)) = Some (\<lambda>fn ps. Call env conn
        (local_deliver (ce_json env) (ce_apps env) fs now' run_at) clone now corr fn ps)"
    and "local_client conn" "\<And>p. clone p = p" "\<And>k x. fits ''Bind'' k (GString x)"
    and "ce_apps env = Some [gate_serializer c app]"
    and "fst (handler_Bind genv (Sessionid (pb s)) uid g) = Done (Some s', None)"
    and "proto_Marshal c (pb s') = Inr b" "pb_norm (pb s') = pb s'"
    and "0 \<le> d" "now' div 1000 div 1000 \<le> (now + RpcExpired env * 1000000000) div 1000000"
    and "run_at + d < (now + RpcExpired env * 1000000000) div 1000000 * 1000000"
  shows "session_Bind uid s = (None, s\<lparr>pb := update_from (pb s') (pb s)\<rparr>)"
proof -
  define ps :: "'o rpc_value list" where "ps = [GString (Sessionid (pb s)), GString uid]"
  define f where "f = gate_func fits zero (gate_handler genv errtext order g d) (''Bind'', 2)"
  have f: "is_func f" "num_in f = 2" "assignable f = fits ''Bind''"
      "body f = gate_handler genv errtext order g d ''Bind''"
    by (simp_all add: f_def gate_func_def)
  have fs: "fs ''Bind'' = Some f" using gate_registered [OF assms(1)] by (simp add: f_def)
  obtain g' where "handler_Bind genv (Sessionid (pb s)) uid g = (Done (Some s', None), g')"
    using assms(8) by (metis prod.collapse)
  then have run: "body f ps = Yields d ([session_value (pb s')] @ [GNil])"
    by (simp add: f ps_def gate_handler_def gate_dispatch_def session_results_def error_value_def)
  have wires: "map wire ps = ps" by (simp add: ps_def wire_def)
  have "Call env conn (local_deliver (ce_json env) (ce_apps env) fs now' run_at) clone now corr ''Bind'' ps
      = Done (if ([] :: string) = [] then Inr (map wire [session_value (pb s')]) else Inl (CodeError 0 []))"
  proof (rule local_call [where f = f and d = d and e = GNil])
    show "\<forall>k<length ps. assignable f k (wire (ps ! k))"
      using assms(6) by (simp add: f ps_def wire_def less_Suc_eq nth_Cons')
    show "list_all (carries_value (ce_json env) (ce_apps env)) [session_value (pb s')]"
      using carries_session [OF assms(9,10)] assms(7) by simp
  qed (use fs f run wires assms(4,5,11-13) in \<open>simp_all add: ps_def result_error_def\<close>)
  then show ?thesis
    using assms(2,3)
    by (simp add: session_Bind_def with_server_def recovered_def take_over_def ps_def wire_def)
qed

text \<open>A gate with the session of \<^const>\<open>stored_pb\<close> before its user was bound, and a caller that only knows its id.\<close>

definition guest :: "(nat, nat, nat) session" where
  "guest = \<lparr>s_app = Some plain_app, pb = stored_pb\<lparr>Userid := []\<rparr>, span = None, judgeGuest = None\<rparr>"

definition guest_gate :: "(nat, nat, nat, nat) gate" where
  "guest_gate = \<lparr>conns = NewBeeMap\<lparr>bm := [[] \<mapsto> 1]\<rparr>, agents = (\<lambda>a. agent_OnInit\<lparr>ag_session := Some guest\<rparr>),
     app_state = 0\<rparr>"

abbreviation (input) guest_handler :: "string \<Rightarrow> nat rpc_value list \<Rightarrow> nat rpc_value call_end" where
  "guest_handler \<equiv> gate_handler (plain_env demo_codec) (\<lambda>e. []) [] guest_gate 1000"

definition caller :: "(nat, nat, nat) session" where
  "caller = \<lparr>s_app = Some (plain_app\<lparr>server_call := (\<lambda>id. Some (call_gate guest_handler))\<rparr>),
     pb = empty_pb, span = None, judgeGuest = None\<rparr>"

theorem session_Bind_over_rpc_witness:
  "session_Bind ''u'' caller = (None, caller\<lparr>pb := update_from (pb (with_userid ''u'' guest)) (pb caller)\<rparr>)"
proof (rule session_Bind_over_rpc [where fs = "gate_table guest_handler" and genv = "plain_env demo_codec"
      and errtext = "\<lambda>e. []" and order = "[]" and g = guest_gate and d = 1000 and app = plain_app
      and fits = "\<lambda>f k v. True" and zero = "\<lambda>f k. GNil" and env = wire_env and conn = local_conn
      and now' = 2000000 and now = 1000000 and run_at = 2000000 and corr = "''id''" and clone = "\<lambda>p. p"
      and a = "plain_app\<lparr>server_call := (\<lambda>id. Some (call_gate guest_handler))\<rparr>" and c = demo_codec and b = "[7]"])
  have pb: "pb (with_userid ''u'' guest) = stored_pb"
    by (simp add: with_userid_def guest_def stored_pb_def)
  show "proto_Marshal demo_codec (pb (with_userid ''u'' guest)) = Inr [7]" by (simp add: pb)
  show "pb_norm (pb (with_userid ''u'' guest)) = pb (with_userid ''u'' guest)" by (simp add: pb stored_pb_norm)
  show "fst (handler_Bind (plain_env demo_codec) (Sessionid (pb caller)) ''u'' guest_gate)
      = Done (Some (with_userid ''u'' guest), None)"
    by (simp add: handler_Bind_def on_agent_def get_agent_free guest_gate_def bee_free_def NewBeeMap_def
        caller_def empty_pb_def bind_found_def Let_def plain_env_def)
qed (simp_all add: gate_register_table gate_table_def caller_def fun_eq_iff call_gate_def local_conn_def wire_env_def)

end
