(* ===== verification/Lodos_App.thy ===== *)
theory Lodos_App
  imports Lodos_Rpc_Client
begin

text \<open>
  The application: \<^verbatim>\<open>app/app.go\<close> (the servers it knows and how a call finds one),
  \<^verbatim>\<open>app/module_manager.go\<close> and \<^verbatim>\<open>module/base\<close> (which modules run here and how they stop), and the
  reading of the configuration in \<^verbatim>\<open>conf/conf.go\<close>. Go visits a map in any order: every loop over
  a map takes the order as an argument.
\<close>

section \<open>Configuration\<close>

record module_settings =
  ms_Id :: string
  ms_ProcessID :: string
  ms_Rabbitmq :: bool
  ms_Redis :: "string option"

type_synonym module_config = "(string \<times> module_settings list) list"

text \<open>
  \<^verbatim>\<open>ReadSlice('\n')\<close> with a buffer of 4096 bytes: the line with its newline, or an error and what
  there is: a full buffer without a newline, or the end of the file.
\<close>

definition BUFSIZE :: nat where "BUFSIZE = 4096"

definition ReadSlice :: "bytes \<Rightarrow> (bytes \<times> bytes) + bytes" where
  "ReadSlice bs =
     (let line = takeWhile (\<lambda>b. b \<noteq> 10) (take BUFSIZE bs) in
      if length line < length (take BUFSIZE bs) then Inl (line @ [10], drop (length line + 1) bs)
      else Inr (take BUFSIZE bs))"

definition is_comment :: "bytes \<Rightarrow> bool" where
  "is_comment line = has_prefix (dropWhile (\<lambda>b. b = 9 \<or> b = 32) line) [47, 47]"

text \<open>The loop of \<^verbatim>\<open>readFileInto\<close>: what is left of the file for the JSON parser.\<close>

function config_text :: "bytes \<Rightarrow> bytes" where
  "config_text bs =
     (case ReadSlice bs of
        Inr line \<Rightarrow> line
      | Inl (line, rest) \<Rightarrow> (if is_comment line then [] else line) @ config_text rest)"
  by pat_completeness auto

lemma ReadSlice_shorter: "ReadSlice bs = Inl (line, rest) \<Longrightarrow> length rest < length bs"
  by (auto simp: ReadSlice_def Let_def split: if_splits)

termination config_text
  by (relation "measure length") (auto dest: ReadSlice_shorter)

declare config_text.simps [simp del]

record rpc_conf =
  MaxCoroutine :: int
  conf_RpcExpired :: int

text \<open>\<^verbatim>\<open>LoadConfig\<close>, with \<open>parse\<close> for \<^verbatim>\<open>json.Unmarshal\<close> and \<^const>\<open>None\<close> for a file that does not open.\<close>

definition LoadConfig :: "(bytes \<Rightarrow> string + rpc_conf) \<Rightarrow> bytes option \<Rightarrow> rpc_conf outcome" where
  "LoadConfig parse file =
     (case file of
        None \<Rightarrow> Panic ''no such file or directory''
      | Some bs \<Rightarrow>
          (case parse (config_text bs) of
             Inl e \<Rightarrow> Panic e
           | Inr c \<Rightarrow>
               (let c = (if MaxCoroutine c = 0 then c\<lparr>MaxCoroutine := 100\<rparr> else c)
                in Done (if conf_RpcExpired c = 0 then c\<lparr>conf_RpcExpired := 2\<rparr> else c))))"

record ssh =
  ssh_Host :: string
  ssh_Port :: int

definition GetSSHHost :: "ssh \<Rightarrow> string" where
  "GetSSHHost s = ssh_Host s @ '':'' @ dec_int (ssh_Port s)"

fun GetSSH :: "ssh list \<Rightarrow> string \<Rightarrow> ssh option" where
  "GetSSH [] host = None"
| "GetSSH (s # ss) host = (if ssh_Host s = host then Some s else GetSSH ss host)"

section \<open>Servers\<close>

record server =
  sv_id :: string
  sv_type :: string
  sv_conn :: rpc_conn

type_synonym server_list = "string \<Rightarrow> server option"

text \<open>
  \<^verbatim>\<open>OnInit\<close>: one server per module of the configuration; those of other processes get the remote
  clients configured for them (\<open>amqp\<close>, \<open>redis\<close>: whether the client could be made).
\<close>

definition new_server ::
  "(module_settings \<Rightarrow> bool) \<Rightarrow> (module_settings \<Rightarrow> bool) \<Rightarrow> string \<Rightarrow> string \<Rightarrow> module_settings \<Rightarrow> server" where
  "new_server amqp redis pid Type mi =
     \<lparr>sv_id = ms_Id mi, sv_type = Type,
      sv_conn =
        (if pid = ms_ProcessID mi then NewRPCClient
         else let c = NewRabbitmqRpcClient (ms_Rabbitmq mi) (amqp mi) NewRPCClient in
           if ms_Redis mi \<noteq> None \<and> ms_Redis mi \<noteq> Some [] then NewRedisRpcClient True (redis mi) c else c)\<rparr>"

fun init_servers ::
  "(module_settings \<Rightarrow> bool) \<Rightarrow> (module_settings \<Rightarrow> bool) \<Rightarrow> string \<Rightarrow> (string \<times> module_settings) list
    \<Rightarrow> server_list \<Rightarrow> server_list outcome" where
  "init_servers amqp redis pid [] sl = Done sl"
| "init_servers amqp redis pid ((Type, mi) # rest) sl =
     (case sl (ms_Id mi) of
        Some m \<Rightarrow> Panic (''ServerId ('' @ sv_id m @ '') Type ('' @ sv_type m @
          '') of the modules already exist Can not be reused ServerId ('' @ ms_Id mi @ '') Type ('' @ Type @ '')'')
      | None \<Rightarrow> init_servers amqp redis pid rest (sl(ms_Id mi \<mapsto> new_server amqp redis pid Type mi)))"

definition all_settings :: "module_config \<Rightarrow> (string \<times> module_settings) list" where
  "all_settings cfg = concat (map (\<lambda>(Type, infos). map (\<lambda>mi. (Type, mi)) infos) cfg)"

definition app_OnInit ::
  "(module_settings \<Rightarrow> bool) \<Rightarrow> (module_settings \<Rightarrow> bool) \<Rightarrow> string \<Rightarrow> module_config \<Rightarrow> server_list outcome" where
  "app_OnInit amqp redis pid cfg = init_servers amqp redis pid (all_settings cfg) Map.empty"

text \<open>\<^verbatim>\<open>NewLocalClient\<close> never fails.\<close>

definition RegisterLocalClient :: "string \<Rightarrow> server_list \<Rightarrow> string option \<times> server_list" where
  "RegisterLocalClient sid sl =
     (case sl sid of
        Some s \<Rightarrow> (None, sl(sid \<mapsto> s\<lparr>sv_conn := NewLocalRpcClient True True (sv_conn s)\<rparr>))
      | None \<Rightarrow> (Some (''Server('' @ sid @ '') Not Found''), sl))"

definition GetServerById :: "server_list \<Rightarrow> string \<Rightarrow> string + server" where
  "GetServerById sl mid = (case sl mid of Some ms \<Rightarrow> Inr ms | None \<Rightarrow> Inl (mid @ '' not found.''))"

fun GetServersByType :: "string list \<Rightarrow> server_list \<Rightarrow> string \<Rightarrow> server list" where
  "GetServersByType [] sl t = []"
| "GetServersByType (i # is) sl t =
     (case sl i of
        None \<Rightarrow> GetServersByType is sl t
      | Some s \<Rightarrow> (if sv_type s = t then s # GetServersByType is sl t else GetServersByType is sl t))"

section \<open>Routing\<close>

text \<open>\<^verbatim>\<open>crc32.ChecksumIEEE\<close>: the reflected polynomial, bit by bit.\<close>

definition crc_bit :: "32 word \<Rightarrow> 32 word" where
  "crc_bit c = (if bit c 0 then drop_bit 1 c XOR 0xEDB88320 else drop_bit 1 c)"

definition crc_byte :: "32 word \<Rightarrow> byte \<Rightarrow> 32 word" where
  "crc_byte c b = (crc_bit ^^ 8) (c XOR ucast b)"

definition ChecksumIEEE :: "bytes \<Rightarrow> 32 word" where
  "ChecksumIEEE bs = NOT (foldl crc_byte (NOT 0) bs)"

definition route_index :: "string \<Rightarrow> nat \<Rightarrow> nat" where
  "route_index hash n = unat (ChecksumIEEE (bytes_of_string hash)) mod n"

text \<open>\<open>order\<close>: the ids of the server list as the loop of \<^verbatim>\<open>GetServersByType\<close> meets them.\<close>

definition defaultRoute :: "string list \<Rightarrow> server_list \<Rightarrow> string \<Rightarrow> string \<Rightarrow> string + server" where
  "defaultRoute order sl mType hash =
     (let servers = GetServersByType order sl mType in
      if servers = [] then Inl (''has no servers of '' @ mType)
      else Inr (servers ! route_index hash (length servers)))"

text \<open>A route the application set for a module type; it may also return nil.\<close>

type_synonym route = "string \<Rightarrow> string \<Rightarrow> server option"

definition SetRoute :: "string \<Rightarrow> route \<Rightarrow> (string \<Rightarrow> route option) \<Rightarrow> string \<Rightarrow> route option" where
  "SetRoute t fn routes = routes(t \<mapsto> fn)"

definition GetRoute :: "string list \<Rightarrow> server_list \<Rightarrow> (string \<Rightarrow> route option) \<Rightarrow> string \<Rightarrow> route" where
  "GetRoute order sl routes t =
     (case routes t of
        Some fn \<Rightarrow> fn
      | None \<Rightarrow> (\<lambda>t hash. case defaultRoute order sl t hash of Inl e \<Rightarrow> None | Inr s \<Rightarrow> Some s))"

definition route_by_type ::
  "string list \<Rightarrow> server_list \<Rightarrow> (string \<Rightarrow> route option) \<Rightarrow> string \<Rightarrow> string \<Rightarrow> string + server" where
  "route_by_type order sl routes t hash =
     (case GetRoute order sl routes t t hash of
        None \<Rightarrow> Inl (''Server(type : '' @ t @ '') Not Found'')
      | Some s \<Rightarrow> Inr s)"

definition GetRouteServer ::
  "string list \<Rightarrow> server_list \<Rightarrow> (string \<Rightarrow> route option) \<Rightarrow> string \<Rightarrow> string \<Rightarrow> string + server" where
  "GetRouteServer order sl routes flt hash =
     (let parts = split_on CHR ''@'' flt in
      if length parts = 2 \<and> parts ! 1 \<noteq> [] then GetServerById sl (parts ! 1)
      else route_by_type order sl routes (parts ! 0) hash)"

section \<open>Calls through a server\<close>

text \<open>What the client of a server needs for a call, and the delivery over its connection.\<close>

record 'a rpc_world =
  w_env :: "server \<Rightarrow> 'a call_env"
  w_deliver :: "server \<Rightarrow> via \<Rightarrow> rpc_info \<Rightarrow> string option \<times> result_info option"
  w_send :: "server \<Rightarrow> via \<Rightarrow> rpc_info \<Rightarrow> string option"
  w_clone :: "'a dyn go_value \<Rightarrow> 'a dyn go_value"
  w_now :: int
  w_corr :: string

text \<open>\<^verbatim>\<open>moduleSession\<close>.\<close>

definition ms_Call where
  "ms_Call w s fn params = Call (w_env w s) (sv_conn s) (w_deliver w s) (w_clone w) (w_now w) (w_corr w) fn params"

definition ms_SyncCall where
  "ms_SyncCall w s fn params = SyncCall (w_env w s) (sv_conn s) (w_send w s) (w_clone w) (w_now w) (w_corr w) fn params"

definition ms_CallNR where
  "ms_CallNR w s fn params = CallNR (w_env w s) (sv_conn s) (w_send w s) (w_clone w) (w_now w) (w_corr w) fn params"

definition ms_CallArgs where
  "ms_CallArgs w s fn ts args = CallArgs (w_env w s) (sv_conn s) (w_deliver w s) (w_now w) (w_corr w) fn ts args"

definition ms_SyncCallArgs where
  "ms_SyncCallArgs w s fn ts args = SyncCallArgs (w_env w s) (sv_conn s) (w_send w s) (w_now w) (w_corr w) fn ts args"

definition ms_CallArgsNR where
  "ms_CallArgsNR w s fn ts args = CallArgsNR (w_env w s) (sv_conn s) (w_send w s) (w_now w) (w_corr w) fn ts args"

text \<open>
  The calls of the application and of a module (\<^verbatim>\<open>BaseModule\<close>): \<open>route\<close> is \<^verbatim>\<open>GetRouteServer\<close> for a
  filter and the caller's server id as the hash.
\<close>

definition RpcCall where
  "RpcCall w route sid mType fn params =
     (case route mType sid of Inl e \<Rightarrow> Done (Inl (PlainError e)) | Inr s \<Rightarrow> ms_Call w s fn params)"

definition RpcSyncCall where
  "RpcSyncCall w route sid mType fn params =
     (case route mType sid of Inl e \<Rightarrow> Inl (PlainError e) | Inr s \<Rightarrow> ms_SyncCall w s fn params)"

definition RpcCallNR where
  "RpcCallNR w route sid mType fn params =
     (case route mType sid of Inl e \<Rightarrow> Some (PlainError e) | Inr s \<Rightarrow> ms_CallNR w s fn params)"

definition RpcCallArgs where
  "RpcCallArgs w route sid mType fn ts args =
     (case route mType sid of Inl e \<Rightarrow> Done (Inl (PlainError e)) | Inr s \<Rightarrow> ms_CallArgs w s fn ts args)"

definition RpcSyncCallArgs where
  "RpcSyncCallArgs w route sid mType fn ts args =
     (case route mType sid of Inl e \<Rightarrow> Inl (PlainError e) | Inr s \<Rightarrow> ms_SyncCallArgs w s fn ts args)"

definition RpcCallArgsNR where
  "RpcCallArgsNR w route sid mType fn ts args =
     (case route mType sid of Inl e \<Rightarrow> Some (PlainError e) | Inr s \<Rightarrow> ms_CallArgsNR w s fn ts args)"

text \<open>
  \<^verbatim>\<open>AddRPCSerialize\<close>, and \<^verbatim>\<open>ProtocolMarshal\<close>: the application's own, or JSON of the error text and
  the results (\<^const>\<open>None\<close> is a nil slice).
\<close>

definition AddRPCSerialize ::
  "string \<Rightarrow> 's \<Rightarrow> (string \<Rightarrow> 's option) \<Rightarrow> string option \<times> (string \<Rightarrow> 's option)" where
  "AddRPCSerialize name rs m =
     (case m name of
        Some x \<Rightarrow> (Some (''The name('' @ name @ '') has been occupied''), m)
      | None \<Rightarrow> (None, m(name \<mapsto> rs)))"

type_synonym 'v marshaller = "'v list option \<Rightarrow> string \<Rightarrow> string + bytes"

definition ProtocolMarshal :: "'v marshaller \<Rightarrow> 'v marshaller option \<Rightarrow> 'v marshaller" where
  "ProtocolMarshal json custom results err =
     (case custom of Some f \<Rightarrow> f results err | None \<Rightarrow> json results err)"

section \<open>Modules\<close>

text \<open>
  \<^verbatim>\<open>CheckModuleSettings\<close>: ids unique over all types, process ids unique within a type; \<open>gid\<close> and
  \<open>pid\<close> are the maps the loops fill.
\<close>

fun check_type ::
  "string \<Rightarrow> module_settings list \<Rightarrow> (string \<Rightarrow> string option) \<Rightarrow> (string \<Rightarrow> string option)
    \<Rightarrow> (string \<Rightarrow> string option) outcome" where
  "check_type Type [] gid pid = Done gid"
| "check_type Type (s # ss) gid pid =
     (case gid (ms_Id s) of
        Some Stype \<Rightarrow> Panic (''ID ('' @ ms_Id s @ '') been used in modules of type ['' @ Stype @ ''] and cannot be reused'')
      | None \<Rightarrow>
          (case pid (ms_ProcessID s) of
             Some i \<Rightarrow> Panic (''In the list of modules of type ['' @ Type @ ''], ProcessID ('' @ ms_ProcessID s @
               '') has been used for ID module for ('' @ i @ '')'')
           | None \<Rightarrow> check_type Type ss (gid(ms_Id s \<mapsto> Type)) (pid(ms_ProcessID s \<mapsto> ms_Id s))))"

fun check_types :: "module_config \<Rightarrow> (string \<Rightarrow> string option) \<Rightarrow> (string \<Rightarrow> string option) outcome" where
  "check_types [] gid = Done gid"
| "check_types ((Type, ss) # rest) gid =
     outcome_bind (check_type Type ss gid Map.empty) (check_types rest)"

definition CheckModuleSettings :: "module_config \<Rightarrow> unit outcome" where
  "CheckModuleSettings cfg = map_outcome_val (\<lambda>gid. ()) (check_types cfg Map.empty)"

text \<open>
  \<^verbatim>\<open>Init\<close>: the modules that run here. A module entry is added once per setting of this process,
  and as all the entries are one object, each has the last of these settings.
\<close>

definition matching :: "module_config \<Rightarrow> string \<Rightarrow> string \<Rightarrow> module_settings list" where
  "matching cfg pid Type =
     (case map_of cfg Type of None \<Rightarrow> [] | Some ss \<Rightarrow> filter (\<lambda>s. pid = ms_ProcessID s) ss)"

definition run_mods ::
  "('m \<Rightarrow> string) \<Rightarrow> (nat \<Rightarrow> module_config) \<Rightarrow> string \<Rightarrow> 'm list \<Rightarrow> ('m \<times> module_settings) list" where
  "run_mods GetType order pid mods =
     concat (map (\<lambda>i. let ss = matching (order i) pid (GetType (mods ! i))
       in map (\<lambda>s. (mods ! i, last ss)) ss) [0..<length mods])"

definition manager_Init ::
  "('m \<Rightarrow> string) \<Rightarrow> module_config \<Rightarrow> (nat \<Rightarrow> module_config) \<Rightarrow> string \<Rightarrow> 'm list
    \<Rightarrow> ('m \<times> module_settings) list outcome" where
  "manager_Init GetType cfg order pid mods =
     outcome_bind (CheckModuleSettings cfg) (\<lambda>u. Done (run_mods GetType order pid mods))"

text \<open>
  \<^verbatim>\<open>Run\<close> and \<^verbatim>\<open>Destroy\<close> of the manager: the modules are told to stop in reverse order, and each is
  waited for before it is destroyed. A module whose \<^verbatim>\<open>Run\<close> panics never reaches \<^verbatim>\<open>Wg.Done\<close>.
\<close>

datatype run_end = Run_returns | Run_panics | Run_ignores_signal

datatype shutdown = Finished | Waits_for_ever

fun stop_modules :: "('m \<Rightarrow> run_end) \<Rightarrow> 'm list \<Rightarrow> 'm list \<times> shutdown" where
  "stop_modules ends [] = ([], Finished)"
| "stop_modules ends (m # ms) =
     (case ends m of
        Run_returns \<Rightarrow> (case stop_modules ends ms of (destroyed, e) \<Rightarrow> (m # destroyed, e))
      | _ \<Rightarrow> ([], Waits_for_ever))"

definition manager_Destroy :: "('m \<Rightarrow> run_end) \<Rightarrow> 'm list \<Rightarrow> 'm list \<times> shutdown" where
  "manager_Destroy ends runMods = stop_modules ends (rev runMods)"

end
