(* ===== verification/Lodos_App_Props.thy ===== *)
theory Lodos_App_Props
  imports Lodos_App "HOL-Library.Multiset"
begin

text \<open>
  What the application's start and routing come to: the text the configuration parser sees, the
  check of the module settings, the modules that run, and the server a call is routed to.
\<close>

section \<open>Configuration text\<close>

lemma ReadSlice_line:
  assumes "10 \<notin> set l" "length l < BUFSIZE"
  shows "ReadSlice (l @ 10 # rest) = Inl (l @ [10], rest)"
proof -
  obtain k where k: "BUFSIZE = length l + Suc k" using assms(2) less_iff_Suc_add by auto
  have t: "takeWhile (\<lambda>b. b \<noteq> 10) (l @ 10 # x) = l" for x
    using assms(1) by (subst takeWhile_append2) auto
  show ?thesis
    unfolding ReadSlice_def Let_def k
    by (simp add: t)
qed

lemma ReadSlice_last:
  assumes "10 \<notin> set (take BUFSIZE rest)"
  shows "ReadSlice rest = Inr (take BUFSIZE rest)"
proof -
  have "takeWhile (\<lambda>b. b \<noteq> 10) (take BUFSIZE rest) = take BUFSIZE rest"
    using assms by (auto simp: takeWhile_eq_all_conv)
  then show ?thesis by (simp only: ReadSlice_def Let_def) simp
qed

lemma comment_newline: "10 \<notin> set l \<Longrightarrow> is_comment (l @ [10]) = is_comment l"
  unfolding is_comment_def has_prefix_def
  by (induction l) (auto simp: take_Suc_conv_app_nth Suc_le_eq take_Cons' append_eq_Cons_conv split: if_splits)

text \<open>
  The configuration reader gives the parser the lines that are not comments, unchanged and in
  order, and of what follows the last newline the first 4096 bytes, also when they are a
  comment. In particular, from a line of more than 4095 bytes on, all but that line's first
  4096 bytes is cut off, without an error.
\<close>

theorem config_text_drops_comments:
  assumes "list_all (\<lambda>l. 10 \<notin> set l \<and> length l < BUFSIZE) ls" "10 \<notin> set (take BUFSIZE rest)"
  shows "config_text (concat (map (\<lambda>l. l @ [10]) ls) @ rest)
    = concat (map (\<lambda>l. l @ [10]) (filter (\<lambda>l. \<not> is_comment l) ls)) @ take BUFSIZE rest"
  using assms(1)
proof (induction ls)
  case Nil
  then show ?case by (subst config_text.simps) (simp add: ReadSlice_last [OF assms(2)])
next
  case (Cons l ls)
  then show ?case
    by (subst config_text.simps) (simp add: ReadSlice_line comment_newline)
qed

theorem config_text_drops_comments_witness:
  "config_text (concat (map (\<lambda>l. l @ [10]) [[32, 47, 47, 65], [66, 47, 47]]) @ [47, 47, 67])
    = concat (map (\<lambda>l. l @ [10]) (filter (\<lambda>l. \<not> is_comment l) [[32, 47, 47, 65], [66, 47, 47]]))
      @ take BUFSIZE [47, 47, 67]"
  by (rule config_text_drops_comments) (simp_all add: BUFSIZE_def)

section \<open>The check of the settings\<close>

lemma check_type_Done:
  "(check_type Type ss gid pid = Done gid') \<longleftrightarrow>
    distinct (map ms_Id ss) \<and> (\<forall>s \<in> set ss. gid (ms_Id s) = None)
    \<and> distinct (map ms_ProcessID ss) \<and> (\<forall>s \<in> set ss. pid (ms_ProcessID s) = None)
    \<and> gid' = (\<lambda>i. if i \<in> ms_Id ` set ss then Some Type else gid i)"
proof (induction ss arbitrary: gid pid)
  case Nil
  then show ?case by auto
next
  case (Cons s ss)
  have upd: "(\<lambda>i. if i \<in> ms_Id ` set ss then Some Type else (gid(ms_Id s \<mapsto> Type)) i)
      = (\<lambda>i. if i \<in> ms_Id ` set (s # ss) then Some Type else gid i)"
    by (auto simp: fun_eq_iff)
  show ?case
  proof (cases "gid (ms_Id s) = None \<and> pid (ms_ProcessID s) = None")
    case True
    then have step: "check_type Type (s # ss) gid pid
        = check_type Type ss (gid(ms_Id s \<mapsto> Type)) (pid(ms_ProcessID s \<mapsto> ms_Id s))" by simp
    have "(\<forall>t \<in> set ss. (gid(ms_Id s \<mapsto> Type)) (ms_Id t) = None)
        \<longleftrightarrow> ms_Id s \<notin> ms_Id ` set ss \<and> (\<forall>t \<in> set ss. gid (ms_Id t) = None)"
      "(\<forall>t \<in> set ss. (pid(ms_ProcessID s \<mapsto> ms_Id s)) (ms_ProcessID t) = None)
        \<longleftrightarrow> ms_ProcessID s \<notin> ms_ProcessID ` set ss \<and> (\<forall>t \<in> set ss. pid (ms_ProcessID t) = None)"
      by (auto simp: image_iff)
    then show ?thesis
      unfolding step Cons.IH upd using True by (simp add: conj_ac)
  next
    case False
    then show ?thesis by (auto split: option.split)
  qed
qed

definition all_ids :: "module_config \<Rightarrow> string list" where
  "all_ids cfg = map ms_Id (concat (map snd cfg))"

lemma check_types_Done:
  "(\<exists>gid'. check_types cfg gid = Done gid') \<longleftrightarrow>
    distinct (all_ids cfg) \<and> (\<forall>i \<in> set (all_ids cfg). gid i = None)
    \<and> list_all (\<lambda>(t, ss). distinct (map ms_ProcessID ss)) cfg"
proof (induction cfg arbitrary: gid)
  case Nil
  then show ?case by (simp add: all_ids_def)
next
  case (Cons p cfg)
  obtain Type ss where p: "p = (Type, ss)" by fastforce
  have rest: "(\<exists>gid''. outcome_bind (Done gid') (check_types cfg) = Done gid'') \<longleftrightarrow>
      distinct (all_ids cfg) \<and> (\<forall>i \<in> set (all_ids cfg). gid' i = None)
      \<and> list_all (\<lambda>(t, ss). distinct (map ms_ProcessID ss)) cfg" for gid'
    using Cons.IH [of gid'] by simp
  have ids: "all_ids ((Type, ss) # cfg) = map ms_Id ss @ all_ids cfg" by (simp add: all_ids_def p)
  show ?case
  proof (cases "check_type Type ss gid Map.empty")
    case (Panic e)
    then have no: "check_type Type ss gid Map.empty \<noteq> Done x" for x by simp
    have "\<not> (distinct (map ms_Id ss) \<and> (\<forall>s \<in> set ss. gid (ms_Id s) = None) \<and> distinct (map ms_ProcessID ss))"
      using no check_type_Done [of Type ss gid Map.empty] by blast
    then show ?thesis by (auto simp: p Panic all_ids_def)
  next
    case (Done gid')
    from Done [unfolded check_type_Done] have g: "distinct (map ms_Id ss)" "\<forall>s \<in> set ss. gid (ms_Id s) = None"
      "distinct (map ms_ProcessID ss)" "gid' = (\<lambda>i. if i \<in> ms_Id ` set ss then Some Type else gid i)"
      by auto
    have "(\<forall>i \<in> set (all_ids cfg). gid' i = None) \<longleftrightarrow>
        set (map ms_Id ss) \<inter> set (all_ids cfg) = {} \<and> (\<forall>i \<in> set (all_ids cfg). gid i = None)"
      by (auto simp: g(4) split: if_splits)
    then show ?thesis
      using rest [of gid'] g(1-3) by (auto simp: p Done ids)
  qed
qed

lemma CheckModuleSettings_cond:
  "CheckModuleSettings cfg = Done () \<longleftrightarrow>
    distinct (all_ids cfg) \<and> list_all (\<lambda>(t, ss). distinct (map ms_ProcessID ss)) cfg"
  using check_types_Done [of cfg Map.empty]
  by (cases "check_types cfg Map.empty") (simp_all add: CheckModuleSettings_def)

text \<open>
  The check of the module settings lets the process start exactly when the ids are distinct
  over all types and the process ids distinct within each, whatever order Go visits the types in.
\<close>

theorem CheckModuleSettings_iff:
  "CheckModuleSettings cfg = Done () \<longleftrightarrow>
    distinct (map ms_Id (concat (map snd cfg))) \<and> list_all (\<lambda>ss. distinct (map ms_ProcessID ss)) (map snd cfg)"
  by (simp add: CheckModuleSettings_cond all_ids_def list.pred_map o_def case_prod_unfold)

lemma map_of_eqI':
  assumes "distinct (map fst xs)" "distinct (map fst ys)" "set xs = set ys"
  shows "map_of xs = map_of ys"
  using assms by (metis map_of_inject_set)

section \<open>The modules that run\<close>

text \<open>The setting of a module type in a process.\<close>

definition own_setting :: "module_config \<Rightarrow> string \<Rightarrow> string \<Rightarrow> module_settings option" where
  "own_setting cfg pid Type =
     (case map_of cfg Type of None \<Rightarrow> None | Some ss \<Rightarrow> List.find (\<lambda>s. ms_ProcessID s = pid) ss)"

lemma filter_distinct_find:
  assumes "distinct (map f xs)"
  shows "filter (\<lambda>x. y = f x) xs = (case List.find (\<lambda>x. f x = y) xs of None \<Rightarrow> [] | Some x \<Rightarrow> [x])"
  using assms
proof (induction xs)
  case (Cons x xs)
  show ?case
  proof (cases "f x = y")
    case True
    with Cons.prems have "filter (\<lambda>x. y = f x) xs = []" by (auto simp: filter_empty_conv)
    with True show ?thesis by simp
  next
    case False
    with Cons show ?thesis by auto
  qed
qed simp

text \<open>
  When the settings pass the check, each registered module whose type has a setting for this
  process runs exactly once and with that setting, the others do not run, and the modules keep
  the order of their registration, for every visit order of the configuration.
\<close>

theorem modules_run_once:
  assumes "manager_Init GetType cfg order pid mods = Done ms" "distinct (map fst cfg)"
    and "\<And>i. mset (order i) = mset cfg"
  shows "ms = concat (map (\<lambda>m. case own_setting cfg pid (GetType m) of None \<Rightarrow> [] | Some s \<Rightarrow> [(m, s)]) mods)"
proof -
  from assms(1) have chk: "CheckModuleSettings cfg = Done ()" and ms: "ms = run_mods GetType order pid mods"
    by (simp_all add: manager_Init_def outcome_bind_Done_iff)
  have pids: "distinct (map ms_ProcessID ss)" if "map_of cfg t = Some ss" for t ss
    using chk map_of_SomeD [OF that] unfolding CheckModuleSettings_cond by (auto simp: list_all_iff)
  have same: "map_of (order i) = map_of cfg" for i
  proof (rule map_of_eqI')
    show "distinct (map fst (order i))"
      using assms(2) assms(3) [of i] by (metis mset_eq_imp_distinct_iff mset_map)
  qed (use assms(2,3) in \<open>auto dest: mset_eq_setD\<close>)
  have one: "(let ss = matching (order i) pid t in map (\<lambda>s. (m, last ss)) ss)
      = (case own_setting cfg pid t of None \<Rightarrow> [] | Some s \<Rightarrow> [(m, s)])" for i t and m :: 'a
    by (auto simp: matching_def own_setting_def same filter_distinct_find [OF pids] split: option.split)
  have "ms = concat (map (\<lambda>i. case own_setting cfg pid (GetType (mods ! i)) of None \<Rightarrow> [] | Some s \<Rightarrow> [(mods ! i, s)])
      [0..<length mods])"
    unfolding ms run_mods_def one ..
  also have "\<dots> = concat (map (\<lambda>m. case own_setting cfg pid (GetType m) of None \<Rightarrow> [] | Some s \<Rightarrow> [(m, s)])
      (map ((!) mods) [0..<length mods]))" by (simp add: o_def)
  finally show ?thesis by (simp only: map_nth)
qed

text \<open>Two types; the process \<^verbatim>\<open>p\<close> has a gate and a chat module.\<close>

definition demo_setting :: "string \<Rightarrow> string \<Rightarrow> module_settings" where
  "demo_setting i pid = \<lparr>ms_Id = i, ms_ProcessID = pid, ms_Rabbitmq = True, ms_Redis = None\<rparr>"

definition demo_config :: module_config where
  "demo_config = [(''Gate'', [demo_setting ''g1'' ''p'', demo_setting ''g2'' ''q'']), (''Chat'', [demo_setting ''c1'' ''p''])]"

theorem modules_run_once_witness:
  "[(''Chat'', demo_setting ''c1'' ''p''), (''Gate'', demo_setting ''g1'' ''p'')]
    = concat (map (\<lambda>m. case own_setting demo_config ''p'' m of None \<Rightarrow> [] | Some s \<Rightarrow> [(m, s)]) [''Chat'', ''Master'', ''Gate''])"
  by (rule modules_run_once [where GetType = "\<lambda>m. m" and order = "\<lambda>i. rev demo_config"])
    (simp_all add: manager_Init_def CheckModuleSettings_def demo_config_def demo_setting_def run_mods_def matching_def
      upt_rec)

section \<open>Routing\<close>

lemma init_servers_Done:
  "init_servers amqp redis pid xs sl = Done sl' \<Longrightarrow> (\<And>i s. sl i = Some s \<Longrightarrow> sv_id s = i) \<Longrightarrow>
    (\<forall>i s. sl' i = Some s \<longrightarrow> sv_id s = i)
    \<and> (\<forall>i t. (\<exists>s. sl' i = Some s \<and> sv_type s = t) \<longleftrightarrow>
        (\<exists>s. sl i = Some s \<and> sv_type s = t) \<or> (t, i) \<in> set (map (apsnd ms_Id) xs))"
proof (induction amqp redis pid xs sl rule: init_servers.induct)
  case (2 amqp redis pid Type mi rest sl)
  from 2(2) have new: "sl (ms_Id mi) = None"
    and rest: "init_servers amqp redis pid rest (sl(ms_Id mi \<mapsto> new_server amqp redis pid Type mi)) = Done sl'"
    by (auto split: option.splits)
  have fields: "sv_id (new_server amqp redis pid Type mi) = ms_Id mi" "sv_type (new_server amqp redis pid Type mi) = Type"
    by (simp_all add: new_server_def)
  have ids: "\<And>i s. (sl(ms_Id mi \<mapsto> new_server amqp redis pid Type mi)) i = Some s \<Longrightarrow> sv_id s = i"
    using 2(3) fields by (auto split: if_splits)
  from 2(1) [OF new rest ids] show ?case
    using new fields by (auto split: if_splits)
qed simp

text \<open>The servers of the configuration, by type and id.\<close>

definition configured :: "module_config \<Rightarrow> (string \<times> string) set" where
  "configured cfg = set (map (apsnd ms_Id) (all_settings cfg))"

lemma app_OnInit_servers:
  assumes "app_OnInit amqp redis pid cfg = Done sl"
  shows "sl i = Some s \<Longrightarrow> sv_id s = i"
    and "(\<exists>s. sl i = Some s \<and> sv_type s = t) \<longleftrightarrow> (t, i) \<in> configured cfg"
  using init_servers_Done [OF assms [unfolded app_OnInit_def]] by (simp_all add: configured_def)

lemma GetServersByType_set:
  "set (GetServersByType order sl t) = {s. \<exists>i \<in> set order. sl i = Some s \<and> sv_type s = t}"
  by (induction order) (auto split: option.split)

lemma defaultRoute_Inr:
  "defaultRoute order sl t hash = Inr s \<Longrightarrow> s \<in> set (GetServersByType order sl t)"
  by (auto simp: defaultRoute_def Let_def route_index_def split: if_splits)

lemma defaultRoute_Inl:
  "(\<exists>e. defaultRoute order sl t hash = Inl e) \<longleftrightarrow> GetServersByType order sl t = []"
  by (simp add: defaultRoute_def Let_def)

text \<open>Routing over servers that are those of a configuration, whatever connections they have.\<close>

lemma GetRouteServer_step:
  assumes servers: "\<And>i s. sl i = Some s \<Longrightarrow> sv_id s = i"
      "\<And>i t. (\<exists>s. sl i = Some s \<and> sv_type s = t) \<longleftrightarrow> (t, i) \<in> configured cfg"
    and order: "set order = dom sl"
    and wanted: "wanted = (case split_on CHR ''@'' flt of [t, i] \<Rightarrow> if i = [] then {x \<in> configured cfg. fst x = t}
          else {x \<in> configured cfg. snd x = i} | t # ts \<Rightarrow> {x \<in> configured cfg. fst x = t} | [] \<Rightarrow> {})"
  shows "case GetRouteServer order sl Map.empty flt hash of
      Inr s \<Rightarrow> (sv_type s, sv_id s) \<in> wanted \<and> sl (sv_id s) = Some s
    | Inl e \<Rightarrow> wanted = {}"
proof -
  have type: "case route_by_type order sl Map.empty t hash of
      Inr s \<Rightarrow> (sv_type s, sv_id s) \<in> {x \<in> configured cfg. fst x = t} \<and> sl (sv_id s) = Some s
    | Inl e \<Rightarrow> {x \<in> configured cfg. fst x = t} = {}" for t
  proof (cases "defaultRoute order sl t hash")
    case (Inl e)
    then have "GetServersByType order sl t = []" using defaultRoute_Inl by blast
    then have none: "sl i = Some s \<Longrightarrow> sv_type s \<noteq> t" for i s
      using GetServersByType_set [of order sl t] order by (auto simp: domI)
    have "{x \<in> configured cfg. fst x = t} = {}" using servers(2) none by auto
    then show ?thesis using Inl by (simp add: route_by_type_def GetRoute_def)
  next
    case (Inr s)
    then have "s \<in> set (GetServersByType order sl t)" by (rule defaultRoute_Inr)
    then obtain i where i: "sl i = Some s" "sv_type s = t" unfolding GetServersByType_set by blast
    then have "sv_id s = i" "(t, i) \<in> configured cfg" using servers by blast+
    then show ?thesis using Inr i by (simp add: route_by_type_def GetRoute_def)
  qed
  have ident: "case GetServerById sl i of
      Inr s \<Rightarrow> (sv_type s, sv_id s) \<in> {x \<in> configured cfg. snd x = i} \<and> sl (sv_id s) = Some s
    | Inl e \<Rightarrow> {x \<in> configured cfg. snd x = i} = {}" for i
  proof (cases "sl i")
    case None
    then have "{x \<in> configured cfg. snd x = i} = {}" using servers(2) [of i] by auto
    then show ?thesis using None by (simp add: GetServerById_def)
  next
    case (Some s)
    then show ?thesis using servers(1) [OF Some] servers(2) [of i "sv_type s"] by (simp add: GetServerById_def)
  qed
  obtain t ts where parts: "split_on CHR ''@'' flt = t # ts" by (cases "split_on CHR ''@'' flt") auto
  show ?thesis
  proof (cases "\<exists>i. ts = [i] \<and> i \<noteq> []")
    case True
    then obtain i where i: "ts = [i]" "i \<noteq> []" by blast
    then have w: "wanted = {x \<in> configured cfg. snd x = i}" by (simp add: wanted parts)
    have "GetRouteServer order sl Map.empty flt hash = GetServerById sl i"
      using i by (simp add: parts GetRouteServer_def)
    then show ?thesis unfolding w using ident [of i] by simp
  next
    case False
    then have w: "wanted = {x \<in> configured cfg. fst x = t}" by (auto simp: wanted parts split: list.split)
    have "GetRouteServer order sl Map.empty flt hash = route_by_type order sl Map.empty t hash"
      using False by (cases ts) (auto simp: parts GetRouteServer_def)
    then show ?thesis unfolding w using type [of t] by simp
  qed
qed

text \<open>
  C21: After a start that accepted the configuration, routing with the default route finds a
  configured server, by its id for a filter \<^verbatim>\<open>type@id\<close> (the type is then not looked at) and else
  one of the type before the first \<^verbatim>\<open>@\<close>, for every hash and visit order; and it fails exactly
  when the configuration has none.
\<close>

theorem GetRouteServer_correct:
  assumes "app_OnInit amqp redis pid cfg = Done sl" "set order = dom sl"
    and "wanted = (case split_on CHR ''@'' flt of [t, i] \<Rightarrow> if i = [] then {x \<in> configured cfg. fst x = t}
          else {x \<in> configured cfg. snd x = i} | t # ts \<Rightarrow> {x \<in> configured cfg. fst x = t} | [] \<Rightarrow> {})"
  shows "case GetRouteServer order sl Map.empty flt hash of
      Inr s \<Rightarrow> (sv_type s, sv_id s) \<in> wanted \<and> sl (sv_id s) = Some s
    | Inl e \<Rightarrow> wanted = {}"
  using app_OnInit_servers [OF assms(1)] assms(2,3) by (rule GetRouteServer_step)

definition demo_servers :: server_list where
  "demo_servers = (\<lambda>i. if i = ''g1'' then Some (new_server (\<lambda>s. True) (\<lambda>s. True) ''p'' ''Gate'' (demo_setting ''g1'' ''p''))
     else if i = ''g2'' then Some (new_server (\<lambda>s. True) (\<lambda>s. True) ''p'' ''Gate'' (demo_setting ''g2'' ''q''))
     else if i = ''c1'' then Some (new_server (\<lambda>s. True) (\<lambda>s. True) ''p'' ''Chat'' (demo_setting ''c1'' ''p'')) else None)"

theorem GetRouteServer_correct_witness:
  "case GetRouteServer [''c1'', ''g2'', ''g1''] demo_servers Map.empty ''Chat@g2'' ''u'' of
      Inr s \<Rightarrow> (sv_type s, sv_id s) \<in> {(''Gate'', ''g2'')} \<and> demo_servers (sv_id s) = Some s
    | Inl e \<Rightarrow> {(''Gate'', ''g2'')} = {}"
proof (rule GetRouteServer_correct [where cfg = demo_config])
  show "app_OnInit (\<lambda>s. True) (\<lambda>s. True) ''p'' demo_config = Done demo_servers"
    by (simp add: app_OnInit_def all_settings_def demo_config_def demo_setting_def demo_servers_def fun_eq_iff)
  show "set [''c1'', ''g2'', ''g1''] = dom demo_servers"
    by (auto simp: demo_servers_def dom_def)
  show "{(''Gate'', ''g2'')} = (case split_on CHR ''@'' ''Chat@g2'' of
      [t, i] \<Rightarrow> if i = [] then {x \<in> configured demo_config. fst x = t} else {x \<in> configured demo_config. snd x = i}
    | t # ts \<Rightarrow> {x \<in> configured demo_config. fst x = t} | [] \<Rightarrow> {})"
    by (auto simp: configured_def all_settings_def demo_config_def demo_setting_def)
qed

text \<open>
  The default route is not a function of the hash: with two servers of a type, two visit
  orders of Go's map send every hash to different ones.
\<close>

theorem default_route_depends_on_order:
  assumes "sl i = Some s" "sl j = Some s'" "sv_type s = t" "sv_type s' = t" "s \<noteq> s'"
  shows "defaultRoute [i, j] sl t hash \<noteq> defaultRoute [j, i] sl t hash"
proof -
  have types: "GetServersByType [i, j] sl t = [s, s']" "GetServersByType [j, i] sl t = [s', s]"
    by (simp_all add: assms(1-4))
  have "route_index hash (Suc (Suc 0)) < Suc (Suc 0)" by (simp add: route_index_def)
  then consider "route_index hash (Suc (Suc 0)) = 0" | "route_index hash (Suc (Suc 0)) = 1" by linarith
  then show ?thesis
    using assms(5) unfolding defaultRoute_def types by cases (simp_all add: Let_def)
qed

theorem default_route_depends_on_order_witness:
  "defaultRoute [''g1'', ''g2''] demo_servers ''Gate'' ''user'' \<noteq> defaultRoute [''g2'', ''g1''] demo_servers ''Gate'' ''user''"
  by (rule default_route_depends_on_order
      [where s = "new_server (\<lambda>s. True) (\<lambda>s. True) ''p'' ''Gate'' (demo_setting ''g1'' ''p'')"
        and s' = "new_server (\<lambda>s. True) (\<lambda>s. True) ''p'' ''Gate'' (demo_setting ''g2'' ''q'')"])
    (simp_all add: demo_servers_def new_server_def demo_setting_def)

end
