(* ===== verification/Lodos_Agent.thy ===== *)
theory Lodos_Agent
  imports Lodos_Gate_Props Lodos_App
begin

text \<open>
  The MQTT agent of a connection, \<^verbatim>\<open>gate/base/mqtt_agent.go\<close>: the handshake that makes its
  client and session, the routing of a client's PUBLISH to a module over RPC with the answer to
  the client, the storage heartbeat, and the number and text helpers.
\<close>

section \<open>Handshake\<close>

text \<open>How \<^verbatim>\<open>Run\<close> goes on: it returns, is stopped by a panic it recovers, or listens. It closes the
  connection at the end in each case.\<close>

datatype handshake = Refused "go_err option" | Recovered string | Listening

definition credentials :: "string \<Rightarrow> string \<Rightarrow> str_map" where
  "credentials u pw =
     (let m = (if u \<noteq> [] then [''username'' \<mapsto> u] else Map.empty)
      in if pw \<noteq> [] then m(''password'' \<mapsto> pw) else m)"

definition session_map :: "string \<Rightarrow> string \<Rightarrow> string \<Rightarrow> string \<Rightarrow> str_map \<Rightarrow> string \<Rightarrow> 'o rpc_value option" where
  "session_map uuid net ip sid carrier =
     [''Sessionid'' \<mapsto> GString uuid, ''Network'' \<mapsto> GString net, ''IP'' \<mapsto> GString ip,
      ''Serverid'' \<mapsto> GString sid, ''Settings'' \<mapsto> GMapStr Map.empty, ''Carrier'' \<mapsto> GMapStr carrier]"

text \<open>After the CONNECT: client, session, entry in the table, CONNACK.\<close>

definition accept_connect ::
  "('o, 'sp, 'cx, 'st) gate_env \<Rightarrow> mqtt_conf \<Rightarrow> string \<Rightarrow> nat \<Rightarrow> string \<Rightarrow> string \<Rightarrow> string \<Rightarrow> reader \<Rightarrow> writer
    \<Rightarrow> connect \<Rightarrow> str_map \<Rightarrow> ('o, 'sp, 'cx, 'st) gate \<Rightarrow> handshake \<times> ('o, 'sp, 'cx, 'st) gate" where
  "accept_connect env cf sid a uuid net ip r w info carrier g =
     (let c = NewClient cf r w (keep_alive_timer info);
          g = put_agent a ((agents g a)\<lparr>ag_client := Some c\<rparr>) g
      in case NewSessionByMap (g_app env) (session_map uuid net ip sid carrier) of
           Panic e \<Rightarrow> (Recovered e, g)
         | Done (Inl e) \<Rightarrow> (Refused (Some (AppErr e)), g)
         | Done (Inr s) \<Rightarrow>
             (let g = handler_Connect env a (put_session a s g) in
              case WritePack (GetConnAckPack 0) w of
                Panic e \<Rightarrow> (Recovered e, g)
              | Done (e, w') \<Rightarrow>
                  (let g = put_agent a ((agents g a)\<lparr>ag_client := Some (c\<lparr>queue := (queue c)\<lparr>q_w := w'\<rparr>\<rparr>)\<rparr>) g
                   in (case e of Some e \<Rightarrow> Refused (Some e) | None \<Rightarrow> Listening, g))))"

definition agent_Run ::
  "('o, 'sp, 'cx, 'st) gate_env \<Rightarrow> mqtt_conf \<Rightarrow> string \<Rightarrow> nat \<Rightarrow> string \<Rightarrow> string \<Rightarrow> string \<Rightarrow> reader \<Rightarrow> writer
    \<Rightarrow> ('o, 'sp, 'cx, 'st) gate \<Rightarrow> handshake \<times> ('o, 'sp, 'cx, 'st) gate" where
  "agent_Run env cf sid a uuid net ip r w g =
     (case ReadPack r of
        (p, Some e, r') \<Rightarrow> (Refused (Some e), g)
      | (None, None, r') \<Rightarrow> (Recovered ''nil pointer dereference'', g)
      | (Some p, None, r') \<Rightarrow>
          if msg_type p \<noteq> CONNECT then (Refused None, g)
          else (case variable p of
             VConnect info \<Rightarrow>
               (case (GetUserName info, GetPassword info) of
                  (Some u, Some pw) \<Rightarrow> accept_connect env cf sid a uuid net ip r' w info (credentials u pw) g
                | _ \<Rightarrow> (Recovered ''nil pointer dereference'', g))
           | _ \<Rightarrow> (Refused None, g)))"

section \<open>Requests of the client\<close>

text \<open>
  What the agent uses of the application and its module: the JSON check, the marshaller of
  answers, routing, and the calls, during which other calls may reach the gate and change it.
\<close>

record ('o, 'sp, 'cx, 'st) agent_env =
  ae_gate :: "('o, 'sp, 'cx, 'st) gate_env"
  ae_serverId :: string
  ae_json :: "bytes \<Rightarrow> string option"
  ae_marshal :: "'o rpc_value marshaller"
  ae_tracing :: "(sessionpb \<Rightarrow> string \<Rightarrow> bytes \<Rightarrow> bool) option"
  ae_route :: "string \<Rightarrow> string \<Rightarrow> string + server"
  ae_CallArgs :: "server \<Rightarrow> string \<Rightarrow> string list \<Rightarrow> bytes list \<Rightarrow> ('o, 'sp, 'cx, 'st) gate
    \<Rightarrow> 'o call_result outcome \<times> ('o, 'sp, 'cx, 'st) gate"
  ae_CallArgsNR :: "server \<Rightarrow> string \<Rightarrow> string list \<Rightarrow> bytes list \<Rightarrow> ('o, 'sp, 'cx, 'st) gate
    \<Rightarrow> 'o app_value dyn option outcome \<times> ('o, 'sp, 'cx, 'st) gate"

definition write_back :: "nat \<Rightarrow> string \<Rightarrow> bytes \<Rightarrow> (unit, ('o, 'sp, 'cx, 'st) gate) act" where
  "write_back a topic data = act_bind (agent_WriteMsg a topic data) (\<lambda>e. skip)"

text \<open>A failed \<^verbatim>\<open>ProtocolMarshal\<close> whose error is dropped leaves a nil value, and \<^verbatim>\<open>GetData\<close> panics.\<close>

definition write_error ::
  "('o, 'sp, 'cx, 'st) agent_env \<Rightarrow> nat \<Rightarrow> string \<Rightarrow> string \<Rightarrow> (unit, ('o, 'sp, 'cx, 'st) gate) act" where
  "write_error env a topic err g =
     (case ae_marshal env None err of
        Inl e \<Rightarrow> (Panic ''nil pointer dereference'', g)
      | Inr b \<Rightarrow> write_back a topic b g)"

definition toResult ::
  "('o, 'sp, 'cx, 'st) agent_env \<Rightarrow> nat \<Rightarrow> string \<Rightarrow> 'o rpc_value list \<Rightarrow> string
    \<Rightarrow> (unit, ('o, 'sp, 'cx, 'st) gate) act" where
  "toResult env a topic results err =
     (case results of
        [] \<Rightarrow> write_error env a topic err
      | GApp (Other (MarshalV d)) # rest \<Rightarrow> write_back a topic d
      | _ \<Rightarrow> (case ae_marshal env (Some results) err of
           Inl e \<Rightarrow> write_error env a topic e
         | Inr b \<Rightarrow> write_back a topic b))"

text \<open>The text of an RPC error for the client: codes from 0 on are not told.\<close>

definition client_error :: "'o app_value dyn \<Rightarrow> string" where
  "client_error e =
     (case e of
        CodeError code reason \<Rightarrow> if code \<ge> 0 then ''error occur in server'' else reason
      | PlainError s \<Rightarrow> s
      | Other x \<Rightarrow> [])"

text \<open>\<open>now\<close>, \<open>now'\<close>: the clock in nanoseconds at the check and after the call of the storage.\<close>

definition heartbeat ::
  "('o, 'sp, 'cx, 'st) agent_env \<Rightarrow> int \<Rightarrow> int \<Rightarrow> nat \<Rightarrow> (unit, ('o, 'sp, 'cx, 'st) gate) act" where
  "heartbeat env now now' a g =
     (case ag_session (agents g a) of
        None \<Rightarrow> (Panic ''nil pointer dereference'', g)
      | Some s \<Rightarrow>
          if Userid (pb s) = [] then (Done (), g)
          else if now div 1000 div 1000 div 1000 - last_storage_heartbeat_data_time (agents g a)
            > g_MinStorageHeartbeat (ae_gate env)
          then (case g_storage (ae_gate env) of
             None \<Rightarrow> (Done (), g)
           | Some st \<Rightarrow>
               (case st_Heartbeat st (Userid (pb s)) (app_state g) of
                  (Panic e, t) \<Rightarrow> (Panic e, g\<lparr>app_state := t\<rparr>)
                | (Done u, t) \<Rightarrow> (Done (), put_agent a ((agents g a)
                    \<lparr>last_storage_heartbeat_data_time := now' div 1000 div 1000 div 1000\<rparr>) (g\<lparr>app_state := t\<rparr>))))
          else (Done (), g))"

text \<open>The tracing handler may ask for a root span, which the session then carries.\<close>

definition trace_request ::
  "('o, 'sp, 'cx, 'st) agent_env \<Rightarrow> nat \<Rightarrow> ('o, 'sp, 'cx) session \<Rightarrow> string \<Rightarrow> bytes
    \<Rightarrow> (('o, 'sp, 'cx) session, ('o, 'sp, 'cx, 'st) gate) act" where
  "trace_request env a s topic data g =
     (case ae_tracing env of
        None \<Rightarrow> (Done s, g)
      | Some t \<Rightarrow>
          if \<not> t (pb s) topic data then (Done s, g)
          else (case CreateRootSpan ''gate'' s of
             Panic e \<Rightarrow> (Panic e, g)
           | Done (sp, s') \<Rightarrow> (Done s', put_session a s' g)))"

text \<open>The call, with an answer to the client when the topic has a message id.\<close>

definition call_module ::
  "('o, 'sp, 'cx, 'st) agent_env \<Rightarrow> nat \<Rightarrow> server \<Rightarrow> string \<Rightarrow> string \<Rightarrow> string \<Rightarrow> string \<Rightarrow> bytes \<Rightarrow> bytes
    \<Rightarrow> (unit, ('o, 'sp, 'cx, 'st) gate) act" where
  "call_module env a srv fn msgid topic ty sess data =
     (let types = [RPC_PARAM_SESSION_TYPE, ty]; args = [sess, data] in
      if msgid \<noteq> [] then
        act_bind (ae_CallArgs env srv fn types args)
          (\<lambda>r. case r of
             Inl e \<Rightarrow> toResult env a topic [] (client_error e)
           | Inr results \<Rightarrow> toResult env a topic results [])
      else act_bind (ae_CallArgsNR env srv fn types args) (\<lambda>e. skip))"

definition bad_method :: "string \<Rightarrow> string" where
  "bad_method m = ''Method('' @ m @ '') must begin with '' @ [CHR 0x27] @ ''HD_'' @ [CHR 0x27]"

definition reply_if :: "string \<Rightarrow> (unit, 'g) act \<Rightarrow> (unit, 'g) act" where
  "reply_if msgid m = (if msgid \<noteq> [] then m else skip)"

text \<open>From the routing on; each early return skips the heartbeat at the end.\<close>

definition route_request ::
  "('o, 'sp, 'cx, 'st) agent_env \<Rightarrow> int \<Rightarrow> int \<Rightarrow> nat \<Rightarrow> string list \<Rightarrow> string \<Rightarrow> string \<Rightarrow> string \<Rightarrow> bytes
    \<Rightarrow> ('o, 'sp, 'cx) session \<Rightarrow> (unit, ('o, 'sp, 'cx, 'st) gate) act" where
  "route_request env now now' a topics msgid topic ty data s0 g =
     (let hash = (if Userid (pb s0) \<noteq> [] then Userid (pb s0) else ae_serverId env) in
      act_bind (trace_request env a s0 topic data)
       (\<lambda>s. case ae_route env (topics ! 0) hash of
          Inl e \<Rightarrow> reply_if msgid (toResult env a topic [] (''Service(type:'' @ topics ! 0 @ '') not found''))
        | Inr srv \<Rightarrow>
            if \<not> has_prefix (topics ! 1) ''HD_'' then
              reply_if msgid (toResult env a topic [] (bad_method (topics ! 1)))
            else (case Serializable (g_proto (ae_gate env)) s of
               Inl e \<Rightarrow> skip
             | Inr sess \<Rightarrow>
                 act_bind (call_module env a srv (topics ! 1) msgid topic ty sess data)
                   (\<lambda>u. heartbeat env now now' a)))
       g)"

definition looks_like_json :: "bytes \<Rightarrow> bool" where
  "looks_like_json data = (hd data = 0x7B \<and> last data = 0x7D)"

definition on_publish ::
  "('o, 'sp, 'cx, 'st) agent_env \<Rightarrow> int \<Rightarrow> int \<Rightarrow> nat \<Rightarrow> publish \<Rightarrow> (unit, ('o, 'sp, 'cx, 'st) gate) act" where
  "on_publish env now now' a pub g =
     (case topic_name pub of
        None \<Rightarrow> (Panic ''nil pointer dereference'', g)
      | Some topic \<Rightarrow>
          let topics = split_on CHR ''/'' topic; data = msg pub;
              msgid = (if length topics = 3 then topics ! 2 else [])
          in if length topics < 2 then (Done (), g)
             else if data = [] then (Panic ''index out of range'', g)
             else if looks_like_json data \<and> ae_json env data \<noteq> None then
               reply_if msgid (toResult env a topic [] ''The JSON format is incorrect'') g
             else (case ag_session (agents g a) of
                None \<Rightarrow> (Panic ''nil pointer dereference'', g)
              | Some s \<Rightarrow> route_request env now now' a topics msgid topic
                  (if looks_like_json data then T_MAP else T_BYTES) data s g))"

text \<open>\<^verbatim>\<open>OnRecover\<close>; it recovers from any panic, and what was done stays done.\<close>

definition agent_OnRecover ::
  "('o, 'sp, 'cx, 'st) agent_env \<Rightarrow> int \<Rightarrow> int \<Rightarrow> nat \<Rightarrow> pack \<Rightarrow> ('o, 'sp, 'cx, 'st) gate \<Rightarrow> ('o, 'sp, 'cx, 'st) gate" where
  "agent_OnRecover env now now' a p g =
     (if msg_type p = PUBLISH then
        (let g = put_agent a ((agents g a)\<lparr>rev_num := rev_num (agents g a) + 1\<rparr>) g in
         case variable p of VPublish pub \<Rightarrow> snd (on_publish env now now' a pub g) | _ \<Rightarrow> g)
      else if msg_type p = PINGREQ then snd (heartbeat env now now' a g)
      else g)"

section \<open>Numbers as text\<close>

text \<open>The digits, most significant first, with Go's division and remainder.\<close>

function digits62 :: "int \<Rightarrow> int list \<Rightarrow> int list" where
  "digits62 num out =
     (if quot num 62 \<noteq> 0 then digits62 (quot num 62) ((num - 62 * quot num 62) # out)
      else (num - 62 * quot num 62) # out)"
  by pat_completeness auto

lemma quot_abs_less: "quot num 62 \<noteq> 0 \<Longrightarrow> \<bar>quot num 62\<bar> < \<bar>num\<bar>"
  by (auto simp: quot_def abs_mult sgn_if)

termination digits62
  by (relation "measure (\<lambda>(num, out). nat \<bar>num\<bar>)") (auto dest: quot_abs_less)

declare digits62.simps [simp del]

definition baseHex :: string where
  "baseHex = ''0123456789ABCDEFGHIJKLMNOPQRSTUVWXYZabcdefghijklmnopqrstuvwxyz''"

fun digit_texts :: "int list \<Rightarrow> string outcome" where
  "digit_texts [] = Done []"
| "digit_texts (d # ds) =
     (if d < 0 \<or> int (length baseHex) \<le> d then Panic ''index out of range''
      else map_outcome_val (\<lambda>s. baseHex ! nat d # s) (digit_texts ds))"

definition TransNumToString :: "int \<Rightarrow> string outcome" where
  "TransNumToString num = digit_texts (digits62 num [])"

text \<open>\<^verbatim>\<open>RandInt64\<close> of the gate; \<open>r n\<close> is \<^verbatim>\<open>rand.Int63n(n)\<close>.\<close>

definition gate_RandInt64 :: "(int \<Rightarrow> int) \<Rightarrow> int \<Rightarrow> int \<Rightarrow> int" where
  "gate_RandInt64 r mn mx = (if mn \<ge> mx then mx else r (mx - mn) + mn)"

end
