(* ===== verification/Lodos_Agent_Props.thy ===== *)
theory Lodos_Agent_Props
  imports Lodos_Agent
begin

text \<open>
  The agent: what a handshake adds to the gate, that a client's request is answered once, and
  that the base-62 text of a number is its unique numeral.
\<close>

section \<open>The handshake\<close>

lemma session_of_map:
  "updateMap (session_map uuid net ip sid carrier) empty_pb =
    (empty_pb\<lparr>Userid := [], IP := ip, Network := net, Sessionid := uuid, Serverid := sid, Settings := Some Map.empty\<rparr>, None)"
  by (simp add: updateMap_def session_map_def string_field_def settings_field_def empty_pb_def)

definition connected_pb :: "string \<Rightarrow> string \<Rightarrow> string \<Rightarrow> string \<Rightarrow> sessionpb" where
  "connected_pb uuid net ip sid = \<lparr>IP = ip, Network = net, Userid = [], Sessionid = uuid, Serverid = sid,
     Settings = Some Map.empty, Carrier = None, Token = []\<rparr>"

text \<open>
  C33: A client whose first packet is a CONNECT, on a connection that takes the CONNACK, is
  connected: the gate gets a session under the fresh id with the connection's addresses, no user
  and empty settings, and the client listens. The user name and password of the packet, which
  the code passes as the carrier, are nowhere in it.
\<close>

theorem handshake_connects:
  assumes "gate_inv g" "a \<notin> ran (bm (conns g))" "agents g a = agent_OnInit"
    and "ReadPack r = (Some p, None, r')" "msg_type p = CONNECT" "variable p = VConnect info"
    and "GetUserName info = Some u" "GetPassword info = Some pw"
    and "g_app env = Some app" "WritePack (GetConnAckPack 0) w = Done (None, w')"
  shows "fst (agent_Run env cf sid a uuid net ip r w g) = Listening
    \<and> gate_inv (snd (agent_Run env cf sid a uuid net ip r w g))
    \<and> gate_directory (snd (agent_Run env cf sid a uuid net ip r w g))
      = (gate_directory g)(uuid \<mapsto> connected_pb uuid net ip sid)"
proof -
  define c where "c = NewClient cf r' w (keep_alive_timer info)"
  define s where "s = \<lparr>s_app = Some app, pb = connected_pb uuid net ip sid, span = None, judgeGuest = app_judge app\<rparr>"
  define g1 where "g1 = handler_Connect env a (put_agent a (agent_OnInit\<lparr>ag_session := Some s, ag_client := Some c\<rparr>) g)"
  define g2 where "g2 = put_agent a ((agents g1 a)\<lparr>ag_client := Some (c\<lparr>queue := (queue c)\<lparr>q_w := w'\<rparr>\<rparr>)\<rparr>) g1"
  have new: "NewSessionByMap (g_app env) (session_map uuid net ip sid (credentials u pw)) = Done (Inr s)"
    unfolding NewSessionByMap_def session_of_map assms(9)
    by (simp add: s_def connected_pb_def empty_pb_def)
  have put: "put_session a s (put_agent a ((agents g a)\<lparr>ag_client := Some c\<rparr>) g)
      = put_agent a (agent_OnInit\<lparr>ag_session := Some s, ag_client := Some c\<rparr>) g"
    by (simp add: put_session_def put_agent_def assms(3) agent_OnInit_def)
  have "agent_Run env cf sid a uuid net ip r w g = (Listening, g2)"
    using assms(4-8,10) new put
    by (simp add: agent_Run_def accept_connect_def Let_def g1_def g2_def flip: c_def)
  moreover have "step_ok (OpConnect a s c) g g1"
  proof -
    have "handler_Connect env a (put_agent a (agent_OnInit\<lparr>ag_session := Some s, ag_client := Some c\<rparr>) g) = g1"
      by (simp add: g1_def)
    then show ?thesis using connect_ok [OF assms(1,2), of s c env] by (simp add: s_def)
  qed
  moreover have "same_sessions g1 g2" by (simp add: same_sessions_def g2_def put_agent_def)
  moreover have "gate_directory g1 = (gate_directory g)(uuid \<mapsto> connected_pb uuid net ip sid)"
  proof -
    have "bm (conns g1) = (bm (conns g))(uuid \<mapsto> a)" "ag_session (agents g1 a) = Some s"
      "\<And>b. b \<noteq> a \<Longrightarrow> agents g1 b = agents g b"
      using bee.lookup_update [of "conns g"] assms(1)
      by (auto simp: g1_def handler_Connect_def put_agent_def Let_def s_def connected_pb_def gate_inv_def
          split: option.split)
    then show ?thesis
      using assms(2) by (fastforce simp: gate_directory_def fun_eq_iff s_def ran_def split: option.split)
  qed
  ultimately show ?thesis by (simp add: step_ok_def same_sessions_inv same_sessions_directory)
qed

section \<open>Base 62\<close>

definition value62 :: "int list \<Rightarrow> int" where
  "value62 ds = foldl (\<lambda>v d. 62 * v + d) 0 ds"

lemma value62_append: "value62 (xs @ ys) = value62 xs * 62 ^ length ys + value62 ys"
proof (induction ys rule: rev_induct)
  case (snoc y ys)
  then show ?case by (simp add: value62_def algebra_simps flip: append_assoc)
qed (simp add: value62_def)

lemma digits62_append: "digits62 num out = digits62 num [] @ out"
proof (induction "nat \<bar>num\<bar>" arbitrary: num out rule: less_induct)
  case less
  show ?case
  proof (cases "quot num 62 = 0")
    case True
    then have "digits62 num out' = (num - 62 * quot num 62) # out'" for out'
      by (subst digits62.simps) simp
    then show ?thesis by (simp only: append.simps)
  next
    case False
    have IH: "digits62 (quot num 62) out' = digits62 (quot num 62) [] @ out'" for out'
      by (rule less) (use quot_abs_less [OF False] in simp)
    define r where "r = num - 62 * quot num 62"
    have step: "digits62 num out' = digits62 (quot num 62) (r # out')" for out'
      unfolding r_def using False by (subst digits62.simps) simp
    have "digits62 num out = digits62 (quot num 62) [] @ r # out"
      unfolding step by (rule IH)
    moreover have "digits62 num [] = digits62 (quot num 62) [] @ [r]"
      unfolding step by (rule IH)
    ultimately show ?thesis by (simp only: append_assoc append.simps)
  qed
qed

lemma digits62_rec:
  "digits62 num [] = (if quot num 62 \<noteq> 0 then digits62 (quot num 62) [] @ [num - 62 * quot num 62]
     else [num])"
  by (subst digits62.simps) (simp add: digits62_append [of "quot num 62" "[num - 62 * quot num 62]"])

lemma value62_single [simp]: "value62 [d] = d"
  by (simp add: value62_def)

definition numeral_of :: "int \<Rightarrow> int list \<Rightarrow> bool" where
  "numeral_of num ds \<longleftrightarrow> list_all (\<lambda>d. 0 \<le> d \<and> d < 62) ds \<and> value62 ds = num
    \<and> ds \<noteq> [] \<and> (hd ds = 0 \<longrightarrow> num = 0)"

lemma numeral_of_snoc:
  assumes "numeral_of q ds" "q \<noteq> 0" "0 \<le> r" "r < 62"
  shows "numeral_of (q * 62 + r) (ds @ [r])"
proof -
  have "hd (ds @ [r]) = hd ds" "hd ds \<noteq> 0" using assms(1,2) by (auto simp: numeral_of_def)
  then show ?thesis using assms by (simp add: numeral_of_def value62_append)
qed

lemma digits62_nonneg:
  assumes "0 \<le> num"
  shows "numeral_of num (digits62 num [])"
  using assms
proof (induction "nat num" arbitrary: num rule: less_induct)
  case less
  show ?case
  proof (cases "num < 62")
    case True
    then have "digits62 num [] = [num]" using less.prems by (subst digits62_rec) simp
    then show ?thesis using True less.prems by (simp add: numeral_of_def)
  next
    case False
    have q: "quot num 62 = num div 62" "num div 62 \<noteq> 0" "0 \<le> num div 62" "nat (num div 62) < nat num"
      using less.prems False by auto
    have "digits62 num [] = digits62 (num div 62) [] @ [num mod 62]"
      using q(1,2) by (subst digits62_rec) (simp add: minus_mult_div_eq_mod)
    moreover have "numeral_of (num div 62 * 62 + num mod 62) (digits62 (num div 62) [] @ [num mod 62])"
      by (rule numeral_of_snoc [OF less.hyps [OF q(4,3)] q(2)]) simp_all
    ultimately show ?thesis by simp
  qed
qed

lemma digits62_negative: "num < 0 \<Longrightarrow> \<exists>d \<in> set (digits62 num []). d < 0"
proof (induction "nat (- num)" arbitrary: num rule: less_induct)
  case less
  show ?case
  proof (cases "quot num 62 = 0")
    case True
    then show ?thesis using less.prems by (subst digits62_rec) simp
  next
    case False
    then have "quot num 62 < 0" "nat (- quot num 62) < nat (- num)"
      using less.prems by (auto simp: quot_def sgn_if)
    from less.hyps [OF this(2,1)] False show ?thesis by (subst digits62_rec) auto
  qed
qed

lemma digit_texts_Done:
  "list_all (\<lambda>d. 0 \<le> d \<and> d < 62) ds \<Longrightarrow> digit_texts ds = Done (map (\<lambda>d. baseHex ! nat d) ds)"
  by (induction ds) (auto simp: baseHex_def)

lemma digit_texts_Panic: "\<exists>d \<in> set ds. d < 0 \<Longrightarrow> \<exists>e. digit_texts ds = Panic e"
proof (induction ds)
  case (Cons d ds)
  then show ?case by (cases "digit_texts ds") auto
qed simp

text \<open>What a digit character stands for.\<close>

definition digit_of :: "char \<Rightarrow> int" where
  "digit_of c = int (length (takeWhile (\<lambda>x. x \<noteq> c) baseHex))"

lemma digit_of_baseHex: "0 \<le> d \<Longrightarrow> d < 62 \<Longrightarrow> digit_of (baseHex ! nat d) = d"
proof -
  have "\<forall>n \<in> set [0..<62]. digit_of (baseHex ! n) = int n"
    by (simp add: upt_rec digit_of_def baseHex_def)
  moreover assume "0 \<le> d" "d < 62"
  ultimately show "digit_of (baseHex ! nat d) = d" by auto
qed

text \<open>
  \<^verbatim>\<open>TransNumToString\<close> gives every number from 0 on its base-62 numeral: it ends, the digits
  stand for the number, and there is no leading zero but in ''0''; a negative number makes it
  panic, for its digits are negative.
\<close>

theorem TransNumToString_numeral:
  "(if num < 0 then \<exists>e. TransNumToString num = Panic e
    else \<exists>s. TransNumToString num = Done s \<and> value62 (map digit_of s) = num
      \<and> s \<noteq> [] \<and> (hd s = CHR ''0'' \<longleftrightarrow> s = ''0''))"
proof (cases "num < 0")
  case True
  then show ?thesis using digit_texts_Panic [OF digits62_negative] by (simp add: TransNumToString_def)
next
  case False
  define ds where "ds = digits62 num []"
  have ds: "list_all (\<lambda>d. 0 \<le> d \<and> d < 62) ds" "value62 ds = num" "ds \<noteq> []" "hd ds = 0 \<Longrightarrow> num = 0"
    using digits62_nonneg [of num] False by (auto simp: ds_def numeral_of_def)
  have digs: "map digit_of (map (\<lambda>d. baseHex ! nat d) ds) = ds"
    using ds(1) by (induction ds) (auto simp: digit_of_baseHex)
  have "hd (map (\<lambda>d. baseHex ! nat d) ds) = CHR ''0'' \<Longrightarrow> hd ds = 0"
    using ds(1,3) digit_of_baseHex [of "hd ds"]
    by (cases ds) (auto simp: digit_of_def baseHex_def)
  moreover have "num = 0 \<Longrightarrow> map (\<lambda>d. baseHex ! nat d) ds = ''0''"
    by (simp add: ds_def digits62.simps [of 0] quot_def baseHex_def)
  ultimately show ?thesis
    using False digit_texts_Done [OF ds(1)] digs ds(2-4)
    by (auto simp: TransNumToString_def simp flip: ds_def)
qed

section \<open>One answer per request\<close>

text \<open>
  \<open>answered\<close>: the agent's client, which was \<open>c\<close>, has taken \<open>n\<close> messages for the client under the
  topic, each waiting to be queued as a PUBLISH.
\<close>

definition is_message :: "string \<Rightarrow> pack_and_type \<Rightarrow> bool" where
  "is_message topic pt \<longleftrightarrow> (\<exists>mid data. pt = \<lparr>pt_pack = Some (GetPubPack 0 0 mid (Some topic) data), pt_typ = NO_DELAY\<rparr>)"

definition answered :: "nat \<Rightarrow> client \<Rightarrow> string \<Rightarrow> nat \<Rightarrow> ('o, 'sp, 'cx, 'st) gate \<Rightarrow> bool" where
  "answered a c topic n g \<longleftrightarrow> (\<exists>c' pts. ag_client (agents g a) = Some c' \<and> senders c' = senders c @ pts
     \<and> length pts = n \<and> list_all (is_message topic) pts)"

definition open_client :: "client \<Rightarrow> bool" where
  "open_client c \<longleftrightarrow> \<not> isStop c \<and> writeError (queue c) = None"

lemma WriteMsg_open:
  assumes "open_client c"
  shows "\<exists>pt c'. WriteMsg topic data c = (None, c') \<and> senders c' = senders c @ [pt] \<and> is_message topic pt"
  using assms
  by (auto simp: open_client_def WriteMsg_def pushMsg_def queue_WritePack_def queue_send_def getOnlineMsgId_def
      is_message_def Let_def)

lemma write_back_answers:
  assumes "ag_client (agents g a) = Some c" "open_client c"
  shows "\<exists>g'. write_back a topic data g = (Done (), g') \<and> answered a c topic 1 g'"
proof -
  from WriteMsg_open [OF assms(2)] obtain pt c' where
    w: "WriteMsg topic data c = (None, c')" "senders c' = senders c @ [pt]" "is_message topic pt" by blast
  then show ?thesis
    using assms(1)
    by (auto simp: write_back_def act_bind_def agent_WriteMsg_def Let_def skip_def answered_def put_agent_def)
qed

lemma toResult_answers:
  assumes "ag_client (agents g a) = Some c" "open_client c" "\<And>rs e. \<exists>b. ae_marshal env rs e = Inr b"
  shows "\<exists>g'. toResult env a topic rs err g = (Done (), g') \<and> answered a c topic 1 g'"
proof -
  have err: "\<exists>g'. write_error env a topic e g = (Done (), g') \<and> answered a c topic 1 g'" for e
    using assms(3) [of None e] write_back_answers [OF assms(1,2)] by (auto simp: write_error_def)
  obtain b where "ae_marshal env (Some rs) err = Inr b" using assms(3) by blast
  then show ?thesis
    using err write_back_answers [OF assms(1,2)]
    by (auto simp: toResult_def split: list.split go_value.split dyn.split app_value.split)
qed

lemma heartbeat_client: "ag_client (agents (snd (heartbeat env now now' a g)) b) = ag_client (agents g b)"
  by (auto simp: heartbeat_def put_agent_def split: option.split prod.split outcome.split)

lemma answered_client: "ag_client (agents g' a) = ag_client (agents g a) \<Longrightarrow> answered a c topic n g' = answered a c topic n g"
  by (simp add: answered_def)

lemma answered_0: "ag_client (agents g a) = Some c \<Longrightarrow> answered a c topic 0 g"
  by (simp add: answered_def)

lemma reply_if_answers:
  assumes "ag_client (agents g a) = Some c" "open_client c" "\<And>rs e. \<exists>b. ae_marshal env rs e = Inr b"
  shows "answered a c topic (if msgid \<noteq> [] then 1 else 0) (snd (reply_if msgid (toResult env a topic rs err) g))"
  using toResult_answers [OF assms, of topic rs err] answered_0 [OF assms(1), of topic]
  by (auto simp: reply_if_def skip_def)

text \<open>What the other modules leave alone during a call: this agent's client. Their answers come back.\<close>

definition calls_return :: "('o, 'sp, 'cx, 'st) agent_env \<Rightarrow> nat \<Rightarrow> bool" where
  "calls_return env a \<longleftrightarrow> (\<forall>srv fn ts args g.
     (\<exists>r. fst (ae_CallArgs env srv fn ts args g) = Done r)
     \<and> (\<exists>r. fst (ae_CallArgsNR env srv fn ts args g) = Done r)
     \<and> ag_client (agents (snd (ae_CallArgs env srv fn ts args g)) a) = ag_client (agents g a)
     \<and> ag_client (agents (snd (ae_CallArgsNR env srv fn ts args g)) a) = ag_client (agents g a))"

lemma call_module_answers:
  assumes "ag_client (agents g a) = Some c" "open_client c" "\<And>rs e. \<exists>b. ae_marshal env rs e = Inr b"
    and "calls_return env a"
  shows "answered a c topic (if msgid \<noteq> [] then 1 else 0)
    (snd (call_module env a srv fn msgid topic ty sess data g))"
proof (cases "msgid = []")
  case True
  obtain r g' where r: "ae_CallArgsNR env srv fn [''SESSION'', ty] [sess, data] g = (Done r, g')"
    "ag_client (agents g' a) = ag_client (agents g a)"
    using assms(4) unfolding calls_return_def by (metis prod.collapse)
  then show ?thesis
    using True assms(1) by (simp add: call_module_def act_bind_def skip_def answered_0)
next
  case False
  obtain r g' where r: "ae_CallArgs env srv fn [''SESSION'', ty] [sess, data] g = (Done r, g')"
    "ag_client (agents g' a) = ag_client (agents g a)"
    using assms(4) unfolding calls_return_def by (metis prod.collapse)
  have "ag_client (agents g' a) = Some c" using r(2) assms(1) by simp
  from toResult_answers [OF this assms(2,3)] have
    "\<And>rs err. answered a c topic 1 (snd (toResult env a topic rs err g'))" by (metis snd_conv)
  then show ?thesis using False r(1) by (simp add: call_module_def act_bind_def split: sum.split)
qed

lemma act_bind_heartbeat:
  assumes "answered a c topic n (snd (m g))"
  shows "answered a c topic n (snd (act_bind m (\<lambda>u. heartbeat env now now' a) g))"
proof (cases "m g")
  case (Pair r g')
  then show ?thesis
    using assms answered_client [OF heartbeat_client, of a c topic n env now now' a g']
    by (cases r) (simp_all add: act_bind_def)
qed

lemma route_request_answers:
  assumes "ag_client (agents g a) = Some c" "open_client c" "\<And>rs e. \<exists>b. ae_marshal env rs e = Inr b"
    and "calls_return env a" "ae_tracing env = None" "Serializable (g_proto (ae_gate env)) s = Inr sess"
  shows "answered a c topic (if msgid \<noteq> [] then 1 else 0)
    (snd (route_request env now now' a topics msgid topic ty data s g))"
proof -
  have traced: "trace_request env a s topic data = (\<lambda>g. (Done s, g))"
    by (simp add: fun_eq_iff trace_request_def assms(5))
  show ?thesis
  proof (cases "ae_route env (topics ! 0) (if Userid (pb s) \<noteq> [] then Userid (pb s) else ae_serverId env)")
    case (Inl e)
    then show ?thesis
      using reply_if_answers [OF assms(1-3)] by (simp add: route_request_def traced act_bind_def [of "\<lambda>g. (Done s, g)"])
  next
    case (Inr srv)
    show ?thesis
    proof (cases "has_prefix (topics ! 1) ''HD_''")
      case False
      with Inr show ?thesis
        using reply_if_answers [OF assms(1-3)]
        by (simp add: route_request_def traced act_bind_def [of "\<lambda>g. (Done s, g)"])
    next
      case True
      with Inr show ?thesis
        using act_bind_heartbeat [of a c topic _ "call_module env a srv (topics ! 1) msgid topic ty sess data",
            OF call_module_answers [OF assms(1-4)]]
        by (simp add: route_request_def traced act_bind_def [of "\<lambda>g. (Done s, g)"] assms(6))
    qed
  qed
qed

text \<open>The id of a request: the third part of its topic.\<close>

definition request_id :: "string \<Rightarrow> string" where
  "request_id topic = (let ts = split_on CHR ''/'' topic in if length ts = 3 then ts ! 2 else [])"


text \<open>An environment in which a module answers every call with one value.\<close>

definition demo_agent_env :: "(nat, nat, nat, sessionpb list) agent_env" where
  "demo_agent_env = \<lparr>ae_gate = demo_gate_env, ae_serverId = ''gate1'', ae_json = (\<lambda>b. None),
     ae_marshal = (\<lambda>rs e. Inr [7]), ae_tracing = None, ae_route = (\<lambda>ty h. if ty = ''chat'' then Inr undefined else Inl ''none''),
     ae_CallArgs = (\<lambda>srv fn ts args g. (Done (Inr [GString ''done'']), g)),
     ae_CallArgsNR = (\<lambda>srv fn ts args g. (Done None, g))\<rparr>"

definition chat_request :: pack where
  "chat_request = GetPubPack 0 0 0 (Some ''chat/HD_say/9'') [104, 105]"

definition saying_gate :: "(nat, nat, nat, sessionpb list) gate" where
  "saying_gate = gate_with (own_session\<lparr>pb := stored_pb\<rparr>)"


text \<open>The connection of a first CONNECT of the client ''c'' with user ''u'' and password ''p''.\<close>

definition hello_reader :: reader where
  "hello_reader = \<lparr>r_in = [16, 19, 0, 4, 77, 81, 84, 84, 4, 0xC2, 0, 60, 0, 1, 99, 0, 1, 117, 0, 1, 112], r_end = EOF\<rparr>"

definition hello_connect :: connect where
  "hello_connect = \<lparr>protocol = Some ''MQTT'', version = 4, keep_alive_timer = 60, return_code = 0, user_name = True,
     password = True, will_retain = False, will_qos = 0, will_flag = False, clean_session = True, rserved = False,
     cid = Some ''c'', will_topic = None, will_msg = None, uname = Some ''u'', upassword = Some ''p''\<rparr>"

definition hello_pack :: pack where
  "hello_pack = \<lparr>msg_type = 1, dup_flag = 0, qos_level = 0, retain = 0, plen = 19, variable = VConnect hello_connect\<rparr>"

definition idle_writer :: writer where
  "idle_writer = \<lparr>w_sent = [], w_buf = [], w_err = None, w_size = 256, w_conn = None\<rparr>"

lemma hello_read: "ReadPack hello_reader = (Some hello_pack, None, hello_reader\<lparr>r_in := []\<rparr>)"
  by code_simp

lemma hello_written: "WritePack (GetConnAckPack 0) idle_writer = Done (None, idle_writer\<lparr>w_sent := [32, 2, 0, 0]\<rparr>)"
  by code_simp

lemma handshake_connects_witness:
  "fst (agent_Run (plain_env demo_codec) undefined ''gate1'' 1 ''id1'' ''tcp'' ''1.2.3.4'' hello_reader idle_writer (new_gate 0))
      = Listening
    \<and> gate_inv (snd (agent_Run (plain_env demo_codec) undefined ''gate1'' 1 ''id1'' ''tcp'' ''1.2.3.4'' hello_reader
        idle_writer (new_gate 0)))
    \<and> gate_directory (snd (agent_Run (plain_env demo_codec) undefined ''gate1'' 1 ''id1'' ''tcp'' ''1.2.3.4'' hello_reader
        idle_writer (new_gate 0)))
      = (gate_directory (new_gate 0 :: (nat, nat, nat, nat) gate))(''id1'' \<mapsto> connected_pb ''id1'' ''tcp'' ''1.2.3.4'' ''gate1'')"
  by (rule handshake_connects [OF new_gate_inv _ _ hello_read _ _ _ _ _ hello_written,
        where info = hello_connect and u = "''u''" and pw = "''p''" and app = plain_app])
    (simp_all add: new_gate_def NewBeeMap_def hello_pack_def hello_connect_def GetUserName_def GetPassword_def
      plain_env_def)

end
