(* ===== verification/Lodos_Network.thy ===== *)
theory Lodos_Network
  imports Lodos_Prelude
begin

text \<open>
  The connections below the gate, \<^verbatim>\<open>network/\<close>: the wrapped TCP connection, the TCP server with
  its accept loop, its goroutine per connection and its \<^verbatim>\<open>Close\<close>, and the reading side of a
  websocket connection.
\<close>

section \<open>TCP connections\<close>

text \<open>
  Go's \<^verbatim>\<open>net.Conn\<close>, as far as it is used: what was sent, an error of the peer's side, and whether
  it is closed.
\<close>

record net_conn =
  nc_sent :: bytes
  nc_fault :: "string option"
  nc_closed :: bool

definition closed_error :: string where "closed_error = ''use of closed network connection''"

definition nc_Write :: "bytes \<Rightarrow> net_conn \<Rightarrow> (nat \<times> string option) \<times> net_conn" where
  "nc_Write b c =
     (if nc_closed c then ((0, Some closed_error), c)
      else case nc_fault c of
        Some e \<Rightarrow> ((0, Some e), c)
      | None \<Rightarrow> ((length b, None), c\<lparr>nc_sent := nc_sent c @ b\<rparr>))"

definition nc_Close :: "net_conn \<Rightarrow> string option \<times> net_conn" where
  "nc_Close c = (if nc_closed c then Some closed_error else None, c\<lparr>nc_closed := True\<rparr>)"

record tcp_conn =
  tc_conn :: net_conn
  tc_closeFlag :: bool

definition newTCPConn :: "net_conn \<Rightarrow> tcp_conn" where
  "newTCPConn c = \<lparr>tc_conn = c, tc_closeFlag = False\<rparr>"

text \<open>\<^verbatim>\<open>Destroy\<close>, whose linger setting concerns the kernel only; \<^const>\<open>None\<close> is a nil slice.\<close>

definition tcp_Destroy :: "tcp_conn \<Rightarrow> tcp_conn" where
  "tcp_Destroy t =
     (let t = t\<lparr>tc_conn := snd (nc_Close (tc_conn t))\<rparr>
      in if \<not> tc_closeFlag t then t\<lparr>tc_closeFlag := True\<rparr> else t)"

definition tcp_Close :: "tcp_conn \<Rightarrow> string option \<times> tcp_conn" where
  "tcp_Close t =
     (if tc_closeFlag t then (None, t)
      else case nc_Close (tc_conn t) of (e, c) \<Rightarrow> (e, \<lparr>tc_conn = c, tc_closeFlag = True\<rparr>))"

definition tcp_Write :: "bytes option \<Rightarrow> tcp_conn \<Rightarrow> (nat \<times> string option) \<times> tcp_conn" where
  "tcp_Write b t =
     (if tc_closeFlag t then ((0, None), t)
      else case b of None \<Rightarrow> ((0, None), t)
      | Some bs \<Rightarrow> (case nc_Write bs (tc_conn t) of (r, c) \<Rightarrow> (r, t\<lparr>tc_conn := c\<rparr>)))"

section \<open>The TCP server\<close>

datatype listener = Ln_nil | Ln_open | Ln_closed

text \<open>
  Where the goroutine of \<^verbatim>\<open>run\<close> is: with an accepted connection before the check of the number, or
  after it and before the agent's goroutine starts.
\<close>

datatype run_phase = Not_started | Accepting | Holding nat | Registered nat | Run_over | Crashed

text \<open>Where the goroutine of a connection is, and where the caller of \<^verbatim>\<open>Close\<close> is.\<close>

datatype agent_phase = Absent | Serving | Returned | Conn_closed | Removed | Told | Gone

datatype close_phase = No_close | Waits_ln | Waits_agents | Close_over

record tcp_server =
  ts_MaxConnNum :: int
  ts_ln :: listener
  ts_conns :: "nat set option"
  ts_wgLn :: nat
  ts_wgConns :: nat
  ts_tempDelay :: nat
  ts_run :: run_phase
  ts_agent :: "nat \<Rightarrow> agent_phase"
  ts_closer :: close_phase
  ts_seen :: "nat set"
  ts_open :: "nat set"

text \<open>\<^verbatim>\<open>init\<close>: \<open>listening\<close> is whether \<^verbatim>\<open>net.Listen\<close> gave a listener; its error is logged only.\<close>

definition tcp_init :: "int \<Rightarrow> bool \<Rightarrow> tcp_server" where
  "tcp_init mx listening =
     \<lparr>ts_MaxConnNum = (if mx \<le> 0 then 10000 else mx), ts_ln = (if listening then Ln_open else Ln_nil),
      ts_conns = Some {}, ts_wgLn = 0, ts_wgConns = 0, ts_tempDelay = 0, ts_run = Not_started,
      ts_agent = (\<lambda>c. Absent), ts_closer = No_close, ts_seen = {}, ts_open = {}\<rparr>"

text \<open>The pause before a retry, in milliseconds.\<close>

definition next_delay :: "nat \<Rightarrow> nat" where
  "next_delay d = (let d = (if d = 0 then 5 else d * 2) in if d > 1000 then 1000 else d)"

text \<open>
  The steps of the goroutines: \<^verbatim>\<open>run\<close> (accepting, retrying, the check under the mutex, the start of an
  agent), an agent's goroutine, and \<^verbatim>\<open>Close\<close>. A read of a nil listener and a write to a nil map
  panic, which ends the process.
\<close>

inductive tcp_step :: "tcp_server \<Rightarrow> tcp_server \<Rightarrow> bool" where
  run_starts: "ts_run s = Not_started \<Longrightarrow>
    tcp_step s (s\<lparr>ts_run := Accepting, ts_wgLn := ts_wgLn s + 1\<rparr>)"
| accept_conn: "ts_run s = Accepting \<Longrightarrow> ts_ln s = Ln_open \<Longrightarrow> c \<notin> ts_seen s \<Longrightarrow>
    tcp_step s (s\<lparr>ts_run := Holding c, ts_tempDelay := 0, ts_seen := insert c (ts_seen s), ts_open := insert c (ts_open s)\<rparr>)"
| accept_temporary: "ts_run s = Accepting \<Longrightarrow> ts_ln s = Ln_open \<Longrightarrow>
    tcp_step s (s\<lparr>ts_tempDelay := next_delay (ts_tempDelay s)\<rparr>)"
| accept_error: "ts_run s = Accepting \<Longrightarrow> ts_ln s \<noteq> Ln_nil \<Longrightarrow>
    tcp_step s (s\<lparr>ts_run := Run_over, ts_wgLn := ts_wgLn s - 1\<rparr>)"
| accept_nil: "ts_run s = Accepting \<Longrightarrow> ts_ln s = Ln_nil \<Longrightarrow> tcp_step s (s\<lparr>ts_run := Crashed\<rparr>)"
| too_many: "ts_run s = Holding c \<Longrightarrow> ts_conns s = Some S \<Longrightarrow> int (card S) \<ge> ts_MaxConnNum s \<Longrightarrow>
    tcp_step s (s\<lparr>ts_run := Accepting, ts_open := ts_open s - {c}\<rparr>)"
| registers: "ts_run s = Holding c \<Longrightarrow> ts_conns s = Some S \<Longrightarrow> int (card S) < ts_MaxConnNum s \<Longrightarrow>
    tcp_step s (s\<lparr>ts_run := Registered c, ts_conns := Some (insert c S)\<rparr>)"
| nil_map: "ts_run s = Holding c \<Longrightarrow> ts_conns s = None \<Longrightarrow> tcp_step s (s\<lparr>ts_run := Crashed\<rparr>)"
| starts_agent: "ts_run s = Registered c \<Longrightarrow>
    tcp_step s (s\<lparr>ts_run := Accepting, ts_wgConns := ts_wgConns s + 1, ts_agent := (ts_agent s)(c := Serving)\<rparr>)"
| agent_returns: "ts_agent s c = Serving \<Longrightarrow> tcp_step s (s\<lparr>ts_agent := (ts_agent s)(c := Returned)\<rparr>)"
| agent_closes: "ts_agent s c = Returned \<Longrightarrow>
    tcp_step s (s\<lparr>ts_agent := (ts_agent s)(c := Conn_closed), ts_open := ts_open s - {c}\<rparr>)"
| agent_removes: "ts_agent s c = Conn_closed \<Longrightarrow>
    tcp_step s (s\<lparr>ts_agent := (ts_agent s)(c := Removed), ts_conns := map_option (\<lambda>S. S - {c}) (ts_conns s)\<rparr>)"
| agent_told: "ts_agent s c = Removed \<Longrightarrow> tcp_step s (s\<lparr>ts_agent := (ts_agent s)(c := Told)\<rparr>)"
| agent_done: "ts_agent s c = Told \<Longrightarrow>
    tcp_step s (s\<lparr>ts_agent := (ts_agent s)(c := Gone), ts_wgConns := ts_wgConns s - 1\<rparr>)"
| close_listener: "ts_closer s = No_close \<Longrightarrow> ts_ln s \<noteq> Ln_nil \<Longrightarrow>
    tcp_step s (s\<lparr>ts_closer := Waits_ln, ts_ln := Ln_closed\<rparr>)"
| close_nil: "ts_closer s = No_close \<Longrightarrow> ts_ln s = Ln_nil \<Longrightarrow> tcp_step s (s\<lparr>ts_run := Crashed\<rparr>)"
| close_conns: "ts_closer s = Waits_ln \<Longrightarrow> ts_wgLn s = 0 \<Longrightarrow>
    tcp_step s (s\<lparr>ts_closer := Waits_agents, ts_conns := None,
      ts_open := ts_open s - (case ts_conns s of None \<Rightarrow> {} | Some S \<Rightarrow> S)\<rparr>)"
| close_returns: "ts_closer s = Waits_agents \<Longrightarrow> ts_wgConns s = 0 \<Longrightarrow>
    tcp_step s (s\<lparr>ts_closer := Close_over\<rparr>)"

inductive tcp_reachable :: "int \<Rightarrow> bool \<Rightarrow> tcp_server \<Rightarrow> bool" for mx listening where
  start: "tcp_reachable mx listening (tcp_init mx listening)"
| step: "tcp_reachable mx listening s \<Longrightarrow> tcp_step s s' \<Longrightarrow> tcp_reachable mx listening s'"

section \<open>Reading from a websocket\<close>

text \<open>
  A goroutine reads messages into the buffer and signals each over a channel without a buffer.
  \<open>ws_pending\<close>: the messages it has not read yet; \<open>ws_end\<close>: the error after them, or \<^const>\<open>None\<close>
  when the peer sent nothing more; \<open>ws_signal\<close>: what the goroutine waits to signal.
\<close>

record ws_conn =
  ws_buffer :: bytes
  ws_pending :: "bytes list"
  ws_end :: "string option"
  ws_signal :: "string option option"

definition newWSConn :: "bytes list \<Rightarrow> string option \<Rightarrow> ws_conn" where
  "newWSConn msgs err = \<lparr>ws_buffer = [], ws_pending = msgs, ws_end = err, ws_signal = None\<rparr>"

text \<open>A turn of the goroutine's loop up to its send.\<close>

definition ws_pump :: "ws_conn \<Rightarrow> ws_conn" where
  "ws_pump w =
     (case ws_signal w of
        Some e \<Rightarrow> w
      | None \<Rightarrow>
          (case ws_pending w of
             m # ms \<Rightarrow> w\<lparr>ws_buffer := ws_buffer w @ m, ws_pending := ms, ws_signal := Some None\<rparr>
           | [] \<Rightarrow> (case ws_end w of None \<Rightarrow> w | Some e \<Rightarrow> w\<lparr>ws_signal := Some (Some e)\<rparr>)))"

text \<open>\<^verbatim>\<open><-buf_lock\<close>: \<^const>\<open>None\<close> when it would wait for ever.\<close>

definition ws_wait :: "ws_conn \<Rightarrow> (string option \<times> ws_conn) option" where
  "ws_wait w =
     (let w = ws_pump w in
      case ws_signal w of None \<Rightarrow> None | Some e \<Rightarrow> Some (e, w\<lparr>ws_signal := None\<rparr>))"

text \<open>\<^verbatim>\<open>bytes.Buffer.Read\<close>.\<close>

definition buffer_Read :: "nat \<Rightarrow> ws_conn \<Rightarrow> (bytes \<times> string option) \<times> ws_conn" where
  "buffer_Read n w =
     (if ws_buffer w = [] then (if n = 0 then (([], None), w) else (([], Some ''EOF''), w))
      else ((take n (ws_buffer w), None), w\<lparr>ws_buffer := drop n (ws_buffer w)\<rparr>))"

text \<open>
  \<^verbatim>\<open>Read\<close> into \<open>n\<close> bytes. After a signal the goroutine may run ahead by one message before the
  buffer is looked at, which \<open>fast1\<close> and \<open>fast2\<close> say.
\<close>

definition ws_Read :: "bool \<Rightarrow> bool \<Rightarrow> nat \<Rightarrow> ws_conn \<Rightarrow> ((bytes \<times> string option) \<times> ws_conn) option" where
  "ws_Read fast1 fast2 n w =
     (case ws_wait w of
        None \<Rightarrow> None
      | Some (Some e, w) \<Rightarrow> Some (([], Some e), w)
      | Some (None, w) \<Rightarrow>
          (let w = (if fast1 then ws_pump w else w) in
           if ws_buffer w = [] then
             (case ws_wait w of
                None \<Rightarrow> None
              | Some (Some e, w) \<Rightarrow> Some (([], Some e), w)
              | Some (None, w) \<Rightarrow> Some (buffer_Read n (if fast2 then ws_pump w else w)))
           else Some (buffer_Read n (if fast2 then ws_pump w else w))))"

end
