(* ===== verification/Lodos_Network_Props.thy ===== *)
theory Lodos_Network_Props
  imports Lodos_Network Lodos_Steps
begin

text \<open>
  The TCP server keeps its limit and never panics once it listens, its \<^verbatim>\<open>Close\<close> returns, and then
  nothing of it is left; a closed TCP connection sends nothing; a websocket connection delivers
  the messages in order but one part per message.
\<close>

section \<open>Invariant of the TCP server\<close>

text \<open>The connections with a running goroutine, those it keeps in the set, and those that had one.\<close>

definition active :: "(nat \<Rightarrow> agent_phase) \<Rightarrow> nat set" where
  "active f = {c. f c \<noteq> Absent \<and> f c \<noteq> Gone}"

definition listing :: "(nat \<Rightarrow> agent_phase) \<Rightarrow> nat set" where
  "listing f = {c. f c \<in> {Serving, Returned, Conn_closed}}"

definition known :: "(nat \<Rightarrow> agent_phase) \<Rightarrow> nat set" where
  "known f = {c. f c \<noteq> Absent}"

lemma known_upd [simp]: "known (f(c := p)) = (if p = Absent then known f - {c} else insert c (known f))"
  by (auto simp: known_def)

lemma in_known: "c \<in> known f \<longleftrightarrow> f c \<noteq> Absent"
  by (simp add: known_def)

lemma active_upd [simp]:
  "active (f(c := p)) = (if p = Absent \<or> p = Gone then active f - {c} else insert c (active f))"
  by (auto simp: active_def)

definition serving :: "(nat \<Rightarrow> agent_phase) \<Rightarrow> nat set" where
  "serving f = {c. f c \<in> {Serving, Returned}}"

lemma serving_upd [simp]:
  "serving (f(c := p)) = (if p \<in> {Serving, Returned} then insert c (serving f) else serving f - {c})"
  by (auto simp: serving_def)

lemma in_serving: "c \<in> serving f \<longleftrightarrow> f c \<in> {Serving, Returned}"
  by (simp add: serving_def)

lemma listing_upd [simp]:
  "listing (f(c := p)) = (if p \<in> {Serving, Returned, Conn_closed} then insert c (listing f) else listing f - {c})"
  by (auto simp: listing_def)

lemma in_active: "c \<in> active f \<longleftrightarrow> f c \<noteq> Absent \<and> f c \<noteq> Gone"
  by (simp add: active_def)

lemma in_listing: "c \<in> listing f \<longleftrightarrow> f c \<in> {Serving, Returned, Conn_closed}"
  by (simp add: listing_def)

fun registered :: "run_phase \<Rightarrow> nat set" where
  "registered (Registered c) = {c}" | "registered _ = {}"

fun held :: "run_phase \<Rightarrow> nat set" where
  "held (Registered c) = {c}" | "held (Holding c) = {c}" | "held _ = {}"

definition in_loop :: "run_phase \<Rightarrow> bool" where
  "in_loop r \<longleftrightarrow> r \<noteq> Not_started \<and> r \<noteq> Run_over \<and> r \<noteq> Crashed"

text \<open>The invariant: the goroutines, then the set of connections, then \<^verbatim>\<open>Close\<close>.\<close>

definition loops_inv :: "tcp_server \<Rightarrow> bool" where
  "loops_inv s \<longleftrightarrow> ts_ln s \<noteq> Ln_nil \<and> ts_run s \<noteq> Crashed
     \<and> ts_wgLn s = (if in_loop (ts_run s) then 1 else 0)
     \<and> finite (ts_seen s) \<and> known (ts_agent s) \<union> held (ts_run s) \<subseteq> ts_seen s
     \<and> held (ts_run s) \<inter> known (ts_agent s) = {}
     \<and> ts_wgConns s = card (active (ts_agent s))"

definition conns_inv :: "tcp_server \<Rightarrow> bool" where
  "conns_inv s \<longleftrightarrow> (case ts_conns s of
       None \<Rightarrow> held (ts_run s) = {} \<and> ts_open s = {} \<and> (ts_closer s = Waits_agents \<or> ts_closer s = Close_over)
     | Some S \<Rightarrow> S = listing (ts_agent s) \<union> registered (ts_run s) \<and> int (card S) \<le> ts_MaxConnNum s
         \<and> ts_open s \<subseteq> serving (ts_agent s) \<union> held (ts_run s) \<and> (ts_closer s = No_close \<or> ts_closer s = Waits_ln))
     \<and> (ts_closer s = No_close \<longleftrightarrow> ts_ln s = Ln_open)
     \<and> (ts_closer s = Close_over \<longrightarrow> active (ts_agent s) = {})"

definition tcp_inv :: "tcp_server \<Rightarrow> bool" where
  "tcp_inv s \<longleftrightarrow> loops_inv s \<and> conns_inv s"

lemma tcp_init_inv: "tcp_inv (tcp_init mx True)"
  by (auto simp: tcp_inv_def loops_inv_def conns_inv_def tcp_init_def active_def listing_def known_def serving_def in_loop_def)

lemma active_known: "active f \<subseteq> known f"
  by (auto simp: active_def known_def)

lemma listing_known: "c \<in> listing f \<Longrightarrow> c \<in> known f"
  by (auto simp: listing_def known_def)

lemma finite_active: "loops_inv s \<Longrightarrow> finite (active (ts_agent s))"
  by (meson active_known finite_subset le_sup_iff loops_inv_def)

lemma card_insert_below: "int (card S) < m \<Longrightarrow> int (card (insert c S)) \<le> m"
  by (cases "finite S") (auto simp: card_insert_if)

lemma loops_step: "tcp_step s s' \<Longrightarrow> loops_inv s \<Longrightarrow> conns_inv s \<Longrightarrow> loops_inv s'"
proof (induction rule: tcp_step.induct)
  case (accept_conn s c)
  then have "c \<notin> known (ts_agent s)" "known (ts_agent s) \<subseteq> insert c (ts_seen s)" by (auto simp: loops_inv_def)
  with accept_conn show ?case by (simp add: loops_inv_def in_loop_def)
next
  case (starts_agent s c)
  then have "c \<notin> active (ts_agent s)" by (auto simp: in_active loops_inv_def in_known)
  then show ?case using starts_agent finite_active [OF starts_agent(2)] by (auto simp: loops_inv_def in_loop_def)
next
  case (agent_done s c)
  then have "c \<in> active (ts_agent s)" "c \<in> known (ts_agent s)" by (simp_all add: in_active in_known)
  then show ?case
    using agent_done by (simp add: loops_inv_def insert_absorb card_Diff_singleton)
next
  case (nil_map s c)
  then show ?case by (simp add: conns_inv_def)
next
  case (close_conns s)
  then show ?case by (auto simp: loops_inv_def in_loop_def split: if_splits)
qed (simp_all add: loops_inv_def in_active in_known in_loop_def insert_absorb)

lemma held_cases: "r \<noteq> Not_started \<Longrightarrow> held r = {} \<Longrightarrow> in_loop r \<Longrightarrow> r = Accepting"
  by (cases r) (auto simp: in_loop_def)

lemma not_in_loop_held: "\<not> in_loop r \<Longrightarrow> held r = {}"
  by (cases r) (auto simp: in_loop_def)

lemma registered_held: "registered r \<subseteq> held r"
  by (cases r) auto

lemma conns_inv_None:
  "ts_conns s = None \<Longrightarrow> conns_inv s \<longleftrightarrow> held (ts_run s) = {} \<and> ts_open s = {}
     \<and> (ts_closer s = Waits_agents \<or> ts_closer s = Close_over) \<and> ts_ln s \<noteq> Ln_open
     \<and> (ts_closer s = Close_over \<longrightarrow> active (ts_agent s) = {})"
  by (auto simp: conns_inv_def)

lemma conns_inv_Some:
  "ts_conns s = Some S \<Longrightarrow> conns_inv s \<longleftrightarrow> S = listing (ts_agent s) \<union> registered (ts_run s)
     \<and> int (card S) \<le> ts_MaxConnNum s \<and> ts_open s \<subseteq> serving (ts_agent s) \<union> held (ts_run s)
     \<and> (ts_closer s = No_close \<and> ts_ln s = Ln_open \<or> ts_closer s = Waits_ln \<and> ts_ln s \<noteq> Ln_open)"
  by (auto simp: conns_inv_def)

lemma active_not_empty: "f c \<noteq> Absent \<Longrightarrow> f c \<noteq> Gone \<Longrightarrow> active f \<noteq> {}"
  by (auto simp: active_def)

lemma serving_listing: "c \<in> serving f \<Longrightarrow> c \<in> listing f"
  by (auto simp: serving_def listing_def)

lemma not_over: "conns_inv s \<Longrightarrow> ts_agent s c \<noteq> Absent \<Longrightarrow> ts_agent s c \<noteq> Gone \<Longrightarrow> ts_closer s \<noteq> Close_over"
  by (auto simp: conns_inv_def dest: active_not_empty)

lemmas conns_simps = conns_inv_None conns_inv_Some in_listing in_serving in_active insert_absorb

lemma no_agents:
  assumes "loops_inv s" "ts_wgConns s = 0"
  shows "active (ts_agent s) = {}"
proof -
  have "card (active (ts_agent s)) = 0" using assms unfolding loops_inv_def by argo
  then show ?thesis using finite_active [OF assms(1)] by simp
qed

lemma conns_step: "tcp_step s s' \<Longrightarrow> loops_inv s \<Longrightarrow> conns_inv s \<Longrightarrow> conns_inv s'"
proof (induction rule: tcp_step.induct)
  case (registers s c S)
  then show ?case by (auto simp: conns_inv_Some card_insert_below)
next
  case (agent_removes s c)
  then have "c \<notin> held (ts_run s)" by (auto simp: loops_inv_def in_known)
  then have "c \<notin> registered (ts_run s)" using registered_held by blast
  have over: "ts_closer s \<noteq> Close_over" using agent_removes not_over [of s c] by simp
  show ?case
  proof (cases "ts_conns s")
    case None
    then show ?thesis using agent_removes over by (simp add: conns_inv_None)
  next
    case (Some S)
    then show ?thesis using agent_removes \<open>c \<notin> registered (ts_run s)\<close> card_Diff1_le [of S c]
      by (auto simp: conns_inv_Some in_serving)
  qed
next
  case (close_conns s)
  then have "held (ts_run s) = {}" by (auto simp: loops_inv_def not_in_loop_held split: if_splits)
  then have "held (ts_run s) = {}" "registered (ts_run s) = {}" using registered_held by blast+
  with close_conns show ?case
    by (cases "ts_conns s") (auto simp: conns_inv_None conns_inv_Some dest: serving_listing)
next
  case (close_returns s)
  have "active (ts_agent s) = {}" using close_returns by (blast dest: no_agents)
  then show ?case using close_returns by (cases "ts_conns s") (simp_all add: conns_inv_None conns_inv_Some)
next
  case (run_starts s)
  then show ?case by (cases "ts_conns s") (auto simp: conns_simps)
next
  case (accept_conn s c)
  then show ?case by (cases "ts_conns s") (auto simp: conns_simps)
next
  case (accept_temporary s)
  then show ?case by (cases "ts_conns s") (auto simp: conns_simps)
next
  case (accept_error s)
  then show ?case by (cases "ts_conns s") (auto simp: conns_simps)
next
  case (accept_nil s)
  then show ?case by (simp add: loops_inv_def)
next
  case (too_many s c S)
  then show ?case by (auto simp: conns_simps)
next
  case (nil_map s c)
  then show ?case by (simp add: conns_inv_None)
next
  case (starts_agent s c)
  then show ?case by (cases "ts_conns s") (auto simp: conns_simps)
next
  case (agent_returns s c)
  then have "ts_closer s \<noteq> Close_over" using not_over [of s c] by simp
  with agent_returns show ?case by (cases "ts_conns s") (auto simp: conns_simps)
next
  case (agent_closes s c)
  then have "ts_closer s \<noteq> Close_over" using not_over [of s c] by simp
  with agent_closes show ?case by (cases "ts_conns s") (auto simp: conns_simps)
next
  case (agent_told s c)
  then have "ts_closer s \<noteq> Close_over" using not_over [of s c] by simp
  with agent_told show ?case by (cases "ts_conns s") (auto simp: conns_simps)
next
  case (agent_done s c)
  then show ?case by (cases "ts_conns s") (auto simp: conns_simps)
next
  case (close_listener s)
  then show ?case by (cases "ts_conns s") (auto simp: conns_simps)
next
  case (close_nil s)
  then show ?case by (simp add: loops_inv_def)
qed

lemma tcp_reachable_inv: "tcp_reachable mx True s \<Longrightarrow> tcp_inv s"
  by (induction rule: tcp_reachable.induct) (auto simp: tcp_init_inv [unfolded tcp_inv_def] tcp_inv_def dest: loops_step conns_step)

text \<open>
  C13: A TCP server whose listener could be made never panics, whatever connections come, agents
  do and whenever it is closed, and it never serves more connections than \<^verbatim>\<open>MaxConnNum\<close>: these
  are the connections in its set, and only they and the one just accepted are open.
\<close>

theorem tcp_server_safe:
  assumes "tcp_reachable mx True s"
  shows "ts_run s \<noteq> Crashed
    \<and> (case ts_conns s of Some S \<Rightarrow> int (card S) \<le> ts_MaxConnNum s \<and> ts_open s \<subseteq> S \<union> held (ts_run s)
       | None \<Rightarrow> ts_open s = {})"
proof (cases "ts_conns s")
  case None
  then show ?thesis
    using tcp_reachable_inv [OF assms] by (simp add: tcp_inv_def loops_inv_def conns_inv_None)
next
  case (Some S)
  then show ?thesis
    using tcp_reachable_inv [OF assms]
    by (auto simp: tcp_inv_def loops_inv_def conns_inv_Some dest: serving_listing)
qed

section \<open>Closing the server\<close>

fun run_weight :: "run_phase \<Rightarrow> nat" where
  "run_weight Not_started = 2" | "run_weight Accepting = 1" | "run_weight (Holding c) = 8"
| "run_weight (Registered c) = 7" | "run_weight Run_over = 0" | "run_weight Crashed = 0"

fun agent_weight :: "agent_phase \<Rightarrow> nat" where
  "agent_weight Serving = 5" | "agent_weight Returned = 4" | "agent_weight Conn_closed = 3"
| "agent_weight Removed = 2" | "agent_weight Told = 1" | "agent_weight Absent = 0" | "agent_weight Gone = 0"

fun close_weight :: "close_phase \<Rightarrow> nat" where
  "close_weight No_close = 3" | "close_weight Waits_ln = 2" | "close_weight Waits_agents = 1" | "close_weight Close_over = 0"

definition agents_weight :: "tcp_server \<Rightarrow> nat" where
  "agents_weight s = (\<Sum>c \<in> ts_seen s. agent_weight (ts_agent s c))"

definition close_work :: "tcp_server \<Rightarrow> nat" where
  "close_work s = run_weight (ts_run s) + close_weight (ts_closer s) + agents_weight s"

lemma agents_weight_upd:
  assumes "loops_inv s" "c \<in> ts_seen s"
  shows "agents_weight (s\<lparr>ts_agent := (ts_agent s)(c := p)\<rparr>) + agent_weight (ts_agent s c)
    = agents_weight s + agent_weight p"
  using assms sum_upd [of "ts_seen s" c agent_weight "ts_agent s" p] by (simp add: agents_weight_def loops_inv_def)

lemma agents_weight_fields [simp]:
  "agents_weight (s\<lparr>ts_run := r\<rparr>) = agents_weight s" "agents_weight (s\<lparr>ts_closer := q\<rparr>) = agents_weight s"
  "agents_weight (s\<lparr>ts_open := x\<rparr>) = agents_weight s" "agents_weight (s\<lparr>ts_conns := y\<rparr>) = agents_weight s"
  "agents_weight (s\<lparr>ts_wgLn := i\<rparr>) = agents_weight s" "agents_weight (s\<lparr>ts_wgConns := j\<rparr>) = agents_weight s"
  by (simp_all add: agents_weight_def)

lemma known_seen: "loops_inv s \<Longrightarrow> ts_agent s c \<noteq> Absent \<Longrightarrow> c \<in> ts_seen s"
  by (auto simp: loops_inv_def known_def)

lemma close_work_decreases:
  "tcp_step s s' \<Longrightarrow> loops_inv s \<Longrightarrow> ts_ln s = Ln_closed \<Longrightarrow> ts_closer s \<noteq> No_close \<Longrightarrow> close_work s' < close_work s"
proof (induction rule: tcp_step.induct)
  case (starts_agent s c)
  then have "c \<in> ts_seen s" "ts_agent s c = Absent" by (auto simp: loops_inv_def known_def)
  then show ?case using agents_weight_upd [OF starts_agent(2), of c Serving] starts_agent(1)
    by (simp add: close_work_def agents_weight_def)
next
  case (agent_returns s c)
  then show ?case using agents_weight_upd [OF agent_returns(2) known_seen [OF agent_returns(2)], of c Returned]
    by (simp add: close_work_def)
next
  case (agent_closes s c)
  then show ?case using agents_weight_upd [OF agent_closes(2) known_seen [OF agent_closes(2)], of c Conn_closed]
    by (simp add: close_work_def agents_weight_def)
next
  case (agent_removes s c)
  then show ?case using agents_weight_upd [OF agent_removes(2) known_seen [OF agent_removes(2)], of c Removed]
    by (simp add: close_work_def agents_weight_def)
next
  case (agent_told s c)
  then show ?case using agents_weight_upd [OF agent_told(2) known_seen [OF agent_told(2)], of c Told]
    by (simp add: close_work_def)
next
  case (agent_done s c)
  then show ?case using agents_weight_upd [OF agent_done(2) known_seen [OF agent_done(2)], of c Gone]
    by (simp add: close_work_def agents_weight_def)
qed (auto simp: close_work_def)

lemma close_progress:
  assumes "tcp_inv s" "ts_closer s \<noteq> No_close" "\<And>s'. \<not> tcp_step s s'"
  shows "ts_closer s = Close_over"
proof (rule ccontr)
  assume open_: "ts_closer s \<noteq> Close_over"
  have ln: "ts_ln s \<noteq> Ln_nil" and nc: "ts_run s \<noteq> Crashed" using assms(1) by (auto simp: tcp_inv_def loops_inv_def)
  have agents: "ts_agent s c \<in> {Absent, Gone}" for c
    using assms(3) tcp_step.intros(10-14) [of s c] by (cases "ts_agent s c") blast+
  have loop: "\<not> in_loop (ts_run s)"
  proof (cases "ts_run s")
    case (Holding c)
    then show ?thesis
      using assms(3) tcp_step.too_many [of s c] tcp_step.registers [of s c] tcp_step.nil_map [of s c]
      by (cases "ts_conns s") (meson not_le)+
  qed (use assms(3) tcp_step.accept_error [of s] tcp_step.starts_agent [of s] ln nc in \<open>auto simp: in_loop_def\<close>)
  have "ts_wgLn s = 0" using loop assms(1) by (simp add: tcp_inv_def loops_inv_def)
  moreover have "active (ts_agent s) = {}" using agents by (fastforce simp: active_def)
  then have "ts_wgConns s = 0" using assms(1) by (simp add: tcp_inv_def loops_inv_def)
  ultimately show False
    using assms(2,3) open_ tcp_step.close_conns [of s] tcp_step.close_returns [of s] by (cases "ts_closer s") blast+
qed

lemma closing_stays: "tcp_step s s' \<Longrightarrow> ts_closer s \<noteq> No_close \<Longrightarrow> ts_closer s' \<noteq> No_close"
  by (induction rule: tcp_step.induct) auto

lemma closed_listener: "tcp_inv s \<Longrightarrow> ts_closer s \<noteq> No_close \<Longrightarrow> ts_ln s = Ln_closed"
  by (cases "ts_ln s") (auto simp: tcp_inv_def conns_inv_def loops_inv_def)

interpretation tcp: draining tcp_step "\<lambda>s. tcp_inv s \<and> ts_closer s \<noteq> No_close" close_work "\<lambda>s. ts_closer s = Close_over"
proof
  fix s s'
  assume st: "tcp_step s s'" and i: "tcp_inv s \<and> ts_closer s \<noteq> No_close"
  then show "tcp_inv s' \<and> ts_closer s' \<noteq> No_close"
    using loops_step [OF st] conns_step [OF st] closing_stays [OF st] by (simp add: tcp_inv_def)
  show "close_work s' < close_work s"
    using i close_work_decreases [OF st] closed_listener [of s] by (simp add: tcp_inv_def)
qed (use close_progress in blast)

text \<open>What a server leaves that \<^verbatim>\<open>Close\<close> has returned from: no open socket, no goroutine of a connection.\<close>

definition nothing_left :: "tcp_server \<Rightarrow> bool" where
  "nothing_left s \<longleftrightarrow> ts_open s = {} \<and> ts_conns s = None \<and> range (ts_agent s) \<subseteq> {Absent, Gone} \<and> held (ts_run s) = {}"

lemma over_nothing_left: "tcp_inv s \<Longrightarrow> ts_closer s = Close_over \<Longrightarrow> nothing_left s"
  by (cases "ts_conns s") (auto simp: tcp_inv_def conns_inv_None conns_inv_Some nothing_left_def active_def)

text \<open>
  C10: \<^verbatim>\<open>Close\<close> of a TCP server returns: once it is called, in any schedule of the goroutines (an
  agent's \<^verbatim>\<open>Run\<close> being a step that it can take), only boundedly many steps remain, and as long as
  it has not returned one can be taken. When it has returned, every connection the server
  accepted is closed, every agent it started has been told and has ended, and none will start.
\<close>

theorem tcp_close_returns:
  assumes "tcp_reachable mx True s" "ts_closer s \<noteq> No_close" "(tcp_step ^^ n) s s'"
  shows "n \<le> close_work s \<and> (if ts_closer s' = Close_over then nothing_left s' else \<exists>t. tcp_step s' t)"
  using tcp.bounded [OF assms(3)] tcp_reachable_inv [OF assms(1)] assms(2) over_nothing_left [of s'] by auto

section \<open>Closed connections\<close>

datatype conn_op = Op_Write "bytes option" | Op_Close | Op_Destroy

fun conn_perform :: "conn_op \<Rightarrow> tcp_conn \<Rightarrow> tcp_conn" where
  "conn_perform (Op_Write b) t = snd (tcp_Write b t)"
| "conn_perform Op_Close t = snd (tcp_Close t)"
| "conn_perform Op_Destroy t = tcp_Destroy t"

lemma closed_perform:
  "tc_closeFlag t \<Longrightarrow> tc_closeFlag (conn_perform op t) \<and> nc_sent (tc_conn (conn_perform op t)) = nc_sent (tc_conn t)"
  by (cases op) (auto simp: tcp_Write_def tcp_Close_def tcp_Destroy_def nc_Close_def Let_def)

lemma closed_run:
  "tc_closeFlag t \<Longrightarrow> tc_closeFlag (fold conn_perform ops t) \<and> nc_sent (tc_conn (fold conn_perform ops t)) = nc_sent (tc_conn t)"
proof (induction ops arbitrary: t)
  case (Cons op ops)
  then show ?case using closed_perform [OF Cons.prems, of op] by simp
qed simp

text \<open>
  After \<^verbatim>\<open>Close\<close> or \<^verbatim>\<open>Destroy\<close> of a TCP connection nothing is sent any more, whatever is called on
  it, and a write takes no byte and reports no error.
\<close>

theorem closed_conn_is_silent:
  assumes "op = Op_Close \<or> op = Op_Destroy"
  shows "nc_sent (tc_conn (fold conn_perform (op # ops) t)) = nc_sent (tc_conn t)
    \<and> fst (tcp_Write b (fold conn_perform (op # ops) t)) = (0, None)"
proof -
  have "tc_closeFlag (conn_perform op t)" "nc_sent (tc_conn (conn_perform op t)) = nc_sent (tc_conn t)"
    using assms by (auto simp: tcp_Close_def tcp_Destroy_def nc_Close_def Let_def)
  then show ?thesis using closed_run [of "conn_perform op t" ops] by (simp add: tcp_Write_def)
qed

section \<open>Websocket reading\<close>

fun ws_reads :: "(bool \<times> bool \<times> nat) list \<Rightarrow> ws_conn \<Rightarrow> (bytes \<times> string option) list \<times> ws_conn" where
  "ws_reads [] w = ([], w)"
| "ws_reads ((fast1, fast2, n) # rs) w =
     (case ws_Read fast1 fast2 n w of
        None \<Rightarrow> ([], w)
      | Some (r, w) \<Rightarrow> (case ws_reads rs w of (xs, w) \<Rightarrow> (r # xs, w)))"

definition ws_stream :: "ws_conn \<Rightarrow> bytes" where
  "ws_stream w = ws_buffer w @ concat (ws_pending w)"

text \<open>How many reads can still return data.\<close>

definition tickets :: "ws_conn \<Rightarrow> nat" where
  "tickets w = length (ws_pending w) + (if ws_signal w = Some None then 1 else 0)"

lemma pump_stream [simp]: "ws_stream (ws_pump w) = ws_stream w"
  by (auto simp: ws_pump_def ws_stream_def split: option.split list.split)

lemma pump_tickets [simp]: "tickets (ws_pump w) = tickets w"
  by (auto simp: ws_pump_def tickets_def split: option.split list.split)

lemma wait_ok:
  "ws_wait w = Some (e, w') \<Longrightarrow>
    ws_stream w' = ws_stream w \<and> tickets w' + (if e = None then 1 else 0) = tickets w"
  using pump_stream [of w] pump_tickets [of w]
  by (auto simp: ws_wait_def Let_def ws_stream_def tickets_def split: option.splits)

lemma buffer_Read_stream:
  "buffer_Read n w = ((d, e), w') \<Longrightarrow> d @ ws_stream w' = ws_stream w \<and> length d \<le> n \<and> tickets w' = tickets w"
  by (auto simp: buffer_Read_def ws_stream_def tickets_def split: if_splits)

lemma ws_Read_stream:
  assumes "ws_Read f1 f2 n w = Some ((d, e), w')"
  shows "d @ ws_stream w' = ws_stream w \<and> length d \<le> n \<and> tickets w' \<le> tickets w \<and> (d = [] \<or> tickets w' < tickets w)"
  using assms unfolding ws_Read_def Let_def
  by (auto split: option.splits prod.splits if_splits dest!: wait_ok buffer_Read_stream)

lemma ws_reads_stream:
  assumes "list_all (\<lambda>(fast1, fast2, n). n \<le> k) rs"
  shows "concat (map fst (fst (ws_reads rs w))) @ ws_stream (snd (ws_reads rs w)) = ws_stream w
    \<and> length (concat (map fst (fst (ws_reads rs w)))) \<le> k * tickets w"
  using assms
proof (induction rs arbitrary: w)
  case (Cons r rs)
  obtain f1 f2 n where r: "r = (f1, f2, n)" by (cases r)
  show ?case
  proof (cases "ws_Read f1 f2 n w")
    case None
    then show ?thesis by (simp add: r)
  next
    case (Some x)
    then obtain d e w' where x: "ws_Read f1 f2 n w = Some ((d, e), w')" by (metis surj_pair)
    note read = ws_Read_stream [OF x]
    have ih: "concat (map fst (fst (ws_reads rs w'))) @ ws_stream (snd (ws_reads rs w')) = ws_stream w'"
      "length (concat (map fst (fst (ws_reads rs w')))) \<le> k * tickets w'"
      using Cons.IH [of w'] Cons.prems by simp_all
    have "length d + k * tickets w' \<le> k * tickets w"
    proof (cases "d = []")
      case True
      then show ?thesis using read by simp
    next
      case False
      then have "k * Suc (tickets w') \<le> k * tickets w" using read by (intro mult_le_mono2) auto
      then show ?thesis using read Cons.prems by (simp add: r)
    qed
    then show ?thesis using ih read by (simp add: r x case_prod_unfold)
  qed
qed simp

text \<open>
  A websocket connection delivers the bytes of the peer's messages in order, without loss or
  repetition, but every read that returns data uses up a message: with reads of at most \<open>k\<close>
  bytes (256 for the agent's reader) \<open>m\<close> messages give at most \<open>k * m\<close> bytes, and the rest of a
  longer message stays in the buffer until the peer sends another one.
\<close>

theorem ws_one_read_per_message:
  assumes "list_all (\<lambda>(fast1, fast2, n). n \<le> k) rs"
    and "delivered = concat (map fst (fst (ws_reads rs (newWSConn msgs err))))"
  shows "delivered = take (length delivered) (concat msgs) \<and> length delivered \<le> k * length msgs"
proof -
  have "ws_stream (newWSConn msgs err) = concat msgs" "tickets (newWSConn msgs err) = length msgs"
    by (simp_all add: newWSConn_def ws_stream_def tickets_def)
  then show ?thesis
    using ws_reads_stream [OF assms(1), of "newWSConn msgs err"] unfolding assms(2)
    by (metis append_eq_conv_conj)
qed

text \<open>Two reads of two bytes after a message of three bytes: the third byte stays.\<close>

lemma ws_one_read_per_message_witness:
  "([1, 2] :: bytes) = take (length ([1, 2] :: bytes)) (concat [[1, 2, 3]])
    \<and> length ([1, 2] :: bytes) \<le> 2 * length [[1, 2, 3] :: bytes]"
  by (rule ws_one_read_per_message [where rs = "[(False, False, 2), (True, True, 2)]" and err = None])
    (simp_all add: ws_Read_def ws_wait_def ws_pump_def newWSConn_def buffer_Read_def)

lemma closed_conn_is_silent_witness:
  "nc_sent (tc_conn (fold conn_perform [Op_Close, Op_Write (Some [9])] (newTCPConn \<lparr>nc_sent = [1], nc_fault = None, nc_closed = False\<rparr>)))
      = nc_sent (tc_conn (newTCPConn \<lparr>nc_sent = [1], nc_fault = None, nc_closed = False\<rparr>))
    \<and> fst (tcp_Write (Some [9]) (fold conn_perform [Op_Close, Op_Write (Some [9])]
        (newTCPConn \<lparr>nc_sent = [1], nc_fault = None, nc_closed = False\<rparr>))) = (0, None)"
  by (rule closed_conn_is_silent) simp

text \<open>A server with room for one connection: it holds one, and is closed.\<close>

definition full_server :: tcp_server where
  "full_server = (tcp_init 1 True)\<lparr>ts_run := Accepting, ts_wgLn := 1, ts_seen := {7}, ts_open := {7},
     ts_conns := Some {7}, ts_wgConns := 1, ts_agent := (\<lambda>c. Absent)(7 := Serving)\<rparr>"

lemma full_server_reachable: "tcp_reachable 1 True full_server"
proof -
  define s1 where "s1 = (tcp_init 1 True)\<lparr>ts_run := Accepting, ts_wgLn := 1\<rparr>"
  define s2 where "s2 = s1\<lparr>ts_run := Holding 7, ts_seen := {7}, ts_open := {7}\<rparr>"
  define s3 where "s3 = s2\<lparr>ts_run := Registered 7, ts_conns := Some {7}\<rparr>"
  have "tcp_step (tcp_init 1 True) s1"
    using tcp_step.run_starts [of "tcp_init 1 True"] by (simp add: tcp_init_def s1_def)
  then have "tcp_reachable 1 True s1" by (rule tcp_reachable.step [OF tcp_reachable.start])
  moreover have "tcp_step s1 s2"
    using tcp_step.accept_conn [of s1 7] by (simp add: tcp_init_def s1_def s2_def)
  ultimately have "tcp_reachable 1 True s2" by (rule tcp_reachable.step)
  moreover have "tcp_step s2 s3"
    using tcp_step.registers [of s2 7 "{}"] by (simp add: tcp_init_def s1_def s2_def s3_def)
  ultimately have "tcp_reachable 1 True s3" by (rule tcp_reachable.step)
  moreover have "tcp_step s3 full_server"
    using tcp_step.starts_agent [of s3 7] by (simp add: tcp_init_def full_server_def s1_def s2_def s3_def)
  ultimately show ?thesis by (rule tcp_reachable.step)
qed

lemma tcp_server_safe_witness:
  "ts_run full_server \<noteq> Crashed
    \<and> (case ts_conns full_server of
         Some S \<Rightarrow> int (card S) \<le> ts_MaxConnNum full_server \<and> ts_open full_server \<subseteq> S \<union> held (ts_run full_server)
       | None \<Rightarrow> ts_open full_server = {})"
  by (rule tcp_server_safe [OF full_server_reachable])

definition closing_server :: tcp_server where
  "closing_server = full_server\<lparr>ts_closer := Waits_ln, ts_ln := Ln_closed\<rparr>"

lemma tcp_close_returns_witness:
  "1 \<le> close_work closing_server
    \<and> (if ts_closer (closing_server\<lparr>ts_agent := (ts_agent closing_server)(7 := Returned)\<rparr>) = Close_over
       then nothing_left (closing_server\<lparr>ts_agent := (ts_agent closing_server)(7 := Returned)\<rparr>)
       else \<exists>t. tcp_step (closing_server\<lparr>ts_agent := (ts_agent closing_server)(7 := Returned)\<rparr>) t)"
proof (rule tcp_close_returns)
  have "tcp_step full_server closing_server"
    using tcp_step.close_listener [of full_server] by (simp add: closing_server_def full_server_def tcp_init_def)
  then show "tcp_reachable 1 True closing_server" by (rule tcp_reachable.step [OF full_server_reachable])
  show "ts_closer closing_server \<noteq> No_close" by (simp add: closing_server_def)
  have "ts_agent closing_server 7 = Serving" by (simp add: closing_server_def full_server_def tcp_init_def)
  then show "(tcp_step ^^ 1) closing_server (closing_server\<lparr>ts_agent := (ts_agent closing_server)(7 := Returned)\<rparr>)"
    by (simp only: relpowp_1 tcp_step.agent_returns)
qed

end
