(* ===== verification/Lodos_Net_Clients.thy ===== *)
theory Lodos_Net_Clients
  imports Lodos_Network Lodos_Steps
begin

text \<open>
  The dialling clients, \<^verbatim>\<open>network/tcp_client.go\<close> and \<^verbatim>\<open>network/ws_client.go\<close>, which are one program
  over two kinds of connections: a goroutine for each of \<^verbatim>\<open>ConnNum\<close> connections that dials until it
  succeeds, serves the connection and dials again, and \<^verbatim>\<open>Close\<close>. With their settings, the invariant
  of the goroutines, and the proof that \<^verbatim>\<open>Close\<close> returns.
\<close>

section \<open>Settings\<close>

text \<open>\<^verbatim>\<open>init\<close>: the times in nanoseconds; the last two are those of the websocket client.\<close>

record client_conf =
  cc_ConnNum :: int
  cc_ConnectInterval :: int
  cc_PendingWriteNum :: int
  cc_AutoReconnect :: bool
  cc_MaxMsgLen :: "32 word"
  cc_HandshakeTimeout :: int

definition positive_or :: "int \<Rightarrow> int \<Rightarrow> int" where
  "positive_or d x = (if x \<le> 0 then d else x)"

definition tcp_client_init :: "client_conf \<Rightarrow> client_conf" where
  "tcp_client_init c =
     c\<lparr>cc_ConnNum := positive_or 1 (cc_ConnNum c),
       cc_ConnectInterval := positive_or 3000000000 (cc_ConnectInterval c),
       cc_PendingWriteNum := positive_or 100 (cc_PendingWriteNum c)\<rparr>"

definition ws_client_init :: "client_conf \<Rightarrow> client_conf" where
  "ws_client_init c =
     (tcp_client_init c)
       \<lparr>cc_MaxMsgLen := (if cc_MaxMsgLen c = 0 then 4096 else cc_MaxMsgLen c),
        cc_HandshakeTimeout := positive_or 10000000000 (cc_HandshakeTimeout c)\<rparr>"

section \<open>The goroutines\<close>

text \<open>Where the goroutine of \<^verbatim>\<open>connect\<close> is, with the connection it has.\<close>

datatype conn_phase = Dialing | Dialed nat | Running nat | Run_ended nat | Sock_closed nat | Off_list | Asleep | Conn_over

datatype client_closing = Not_closing | Waits_conns | Client_closed

record net_client =
  cl_AutoReconnect :: bool
  cl_count :: nat
  cl_conns :: "nat set option"
  cl_wg :: nat
  cl_closeFlag :: bool
  cl_phase :: "nat \<Rightarrow> conn_phase"
  cl_seen :: "nat set"
  cl_open :: "nat set"
  cl_closer :: client_closing
  cl_crashed :: bool

definition client_Start :: "client_conf \<Rightarrow> net_client" where
  "client_Start c =
     \<lparr>cl_AutoReconnect = cc_AutoReconnect c, cl_count = nat (cc_ConnNum c), cl_conns = Some {},
      cl_wg = nat (cc_ConnNum c), cl_closeFlag = False, cl_phase = (\<lambda>i. Dialing), cl_seen = {}, cl_open = {},
      cl_closer = Not_closing, cl_crashed = False\<rparr>"

text \<open>
  The steps. A dial that fails is tried again after a pause, until the client is closed. A write to
  a nil set panics.
\<close>

inductive client_step :: "net_client \<Rightarrow> net_client \<Rightarrow> bool" where
  dial_fails: "i < cl_count s \<Longrightarrow> cl_phase s i = Dialing \<Longrightarrow> \<not> cl_closeFlag s \<Longrightarrow> client_step s s"
| dial_gives_up: "i < cl_count s \<Longrightarrow> cl_phase s i = Dialing \<Longrightarrow> cl_closeFlag s \<Longrightarrow>
    client_step s (s\<lparr>cl_phase := (cl_phase s)(i := Conn_over), cl_wg := cl_wg s - 1\<rparr>)"
| dial_connects: "i < cl_count s \<Longrightarrow> cl_phase s i = Dialing \<Longrightarrow> c \<notin> cl_seen s \<Longrightarrow>
    client_step s (s\<lparr>cl_phase := (cl_phase s)(i := Dialed c), cl_seen := insert c (cl_seen s), cl_open := insert c (cl_open s)\<rparr>)"
| too_late: "i < cl_count s \<Longrightarrow> cl_phase s i = Dialed c \<Longrightarrow> cl_closeFlag s \<Longrightarrow>
    client_step s (s\<lparr>cl_phase := (cl_phase s)(i := Conn_over), cl_open := cl_open s - {c}, cl_wg := cl_wg s - 1\<rparr>)"
| enlists: "i < cl_count s \<Longrightarrow> cl_phase s i = Dialed c \<Longrightarrow> \<not> cl_closeFlag s \<Longrightarrow> cl_conns s = Some S \<Longrightarrow>
    client_step s (s\<lparr>cl_phase := (cl_phase s)(i := Running c), cl_conns := Some (insert c S)\<rparr>)"
| nil_set: "i < cl_count s \<Longrightarrow> cl_phase s i = Dialed c \<Longrightarrow> \<not> cl_closeFlag s \<Longrightarrow> cl_conns s = None \<Longrightarrow>
    client_step s (s\<lparr>cl_crashed := True\<rparr>)"
| run_ends: "i < cl_count s \<Longrightarrow> cl_phase s i = Running c \<Longrightarrow>
    client_step s (s\<lparr>cl_phase := (cl_phase s)(i := Run_ended c)\<rparr>)"
| closes_sock: "i < cl_count s \<Longrightarrow> cl_phase s i = Run_ended c \<Longrightarrow>
    client_step s (s\<lparr>cl_phase := (cl_phase s)(i := Sock_closed c), cl_open := cl_open s - {c}\<rparr>)"
| unlists: "i < cl_count s \<Longrightarrow> cl_phase s i = Sock_closed c \<Longrightarrow>
    client_step s (s\<lparr>cl_phase := (cl_phase s)(i := Off_list), cl_conns := map_option (\<lambda>S. S - {c}) (cl_conns s)\<rparr>)"
| sleeps: "i < cl_count s \<Longrightarrow> cl_phase s i = Off_list \<Longrightarrow> cl_AutoReconnect s \<Longrightarrow>
    client_step s (s\<lparr>cl_phase := (cl_phase s)(i := Asleep)\<rparr>)"
| conn_ends: "i < cl_count s \<Longrightarrow> cl_phase s i = Off_list \<Longrightarrow> \<not> cl_AutoReconnect s \<Longrightarrow>
    client_step s (s\<lparr>cl_phase := (cl_phase s)(i := Conn_over), cl_wg := cl_wg s - 1\<rparr>)"
| reconnects: "i < cl_count s \<Longrightarrow> cl_phase s i = Asleep \<Longrightarrow>
    client_step s (s\<lparr>cl_phase := (cl_phase s)(i := Dialing)\<rparr>)"
| client_Close: "cl_closer s = Not_closing \<Longrightarrow>
    client_step s (s\<lparr>cl_closer := Waits_conns, cl_closeFlag := True, cl_conns := None,
      cl_open := cl_open s - (case cl_conns s of None \<Rightarrow> {} | Some S \<Rightarrow> S)\<rparr>)"
| client_Close_returns: "cl_closer s = Waits_conns \<Longrightarrow> cl_wg s = 0 \<Longrightarrow> client_step s (s\<lparr>cl_closer := Client_closed\<rparr>)"

inductive client_reachable :: "client_conf \<Rightarrow> net_client \<Rightarrow> bool" for conf where
  start: "client_reachable conf (client_Start conf)"
| step: "client_reachable conf s \<Longrightarrow> client_step s s' \<Longrightarrow> client_reachable conf s'"

section \<open>Invariant\<close>

text \<open>The connection of a goroutine; the one it has in the set; the one whose socket it has not closed.\<close>

fun holds :: "conn_phase \<Rightarrow> nat set" where
  "holds (Dialed c) = {c}" | "holds (Running c) = {c}" | "holds (Run_ended c) = {c}" | "holds (Sock_closed c) = {c}"
| "holds _ = {}"

fun enlisted :: "conn_phase \<Rightarrow> nat set" where
  "enlisted (Running c) = {c}" | "enlisted (Run_ended c) = {c}" | "enlisted (Sock_closed c) = {c}"
| "enlisted _ = {}"

fun dialed :: "conn_phase \<Rightarrow> nat set" where
  "dialed (Dialed c) = {c}" | "dialed _ = {}"

fun served :: "conn_phase \<Rightarrow> nat set" where
  "served (Running c) = {c}" | "served (Run_ended c) = {c}" | "served _ = {}"

definition over :: "(conn_phase \<Rightarrow> nat set) \<Rightarrow> net_client \<Rightarrow> nat set" where
  "over g s = (\<Union>i < cl_count s. g (cl_phase s i))"

definition working :: "net_client \<Rightarrow> nat set" where
  "working s = {i. i < cl_count s \<and> cl_phase s i \<noteq> Conn_over}"

definition apart :: "net_client \<Rightarrow> bool" where
  "apart s \<longleftrightarrow> (\<forall>i < cl_count s. \<forall>j < cl_count s. i \<noteq> j \<longrightarrow> holds (cl_phase s i) \<inter> holds (cl_phase s j) = {})"

definition threads_inv :: "net_client \<Rightarrow> bool" where
  "threads_inv s \<longleftrightarrow> \<not> cl_crashed s \<and> over holds s \<subseteq> cl_seen s \<and> finite (cl_seen s) \<and> apart s
     \<and> cl_wg s = card (working s) \<and> (cl_closeFlag s \<longleftrightarrow> cl_closer s \<noteq> Not_closing)
     \<and> (cl_closeFlag s \<longleftrightarrow> cl_conns s = None) \<and> (cl_closer s = Client_closed \<longrightarrow> working s = {})
     \<and> (cl_AutoReconnect s \<and> \<not> cl_closeFlag s \<longrightarrow> working s = {..<cl_count s})"

definition sockets_inv :: "net_client \<Rightarrow> bool" where
  "sockets_inv s \<longleftrightarrow>
     (case cl_conns s of
        None \<Rightarrow> cl_open s \<subseteq> over dialed s
      | Some S \<Rightarrow> S = over enlisted s \<and> cl_open s \<subseteq> over dialed s \<union> over served s)"

lemma UN_upd:
  assumes "i < (n :: nat)"
  shows "(\<Union>j < n. g ((f(i := p)) j)) = g p \<union> (\<Union>j \<in> {..<n} - {i}. g (f j))"
  using assms by (auto split: if_splits)

lemma over_upd:
  "i < cl_count s \<Longrightarrow> over g (s\<lparr>cl_phase := (cl_phase s)(i := p)\<rparr>) = g p \<union> (\<Union>j \<in> {..<cl_count s} - {i}. g (cl_phase s j))"
  by (auto simp: over_def split: if_splits)

lemma over_split: "i < cl_count s \<Longrightarrow> over g s = g (cl_phase s i) \<union> (\<Union>j \<in> {..<cl_count s} - {i}. g (cl_phase s j))"
  by (auto simp: over_def)

lemma over_fields [simp]:
  "over g (s\<lparr>cl_conns := a\<rparr>) = over g s" "over g (s\<lparr>cl_wg := b\<rparr>) = over g s" "over g (s\<lparr>cl_closeFlag := d\<rparr>) = over g s"
  "over g (s\<lparr>cl_seen := e\<rparr>) = over g s" "over g (s\<lparr>cl_open := f\<rparr>) = over g s" "over g (s\<lparr>cl_closer := h\<rparr>) = over g s"
  "over g (s\<lparr>cl_crashed := k\<rparr>) = over g s"
  by (simp_all add: over_def)

lemma working_fields [simp]:
  "working (s\<lparr>cl_conns := a\<rparr>) = working s" "working (s\<lparr>cl_wg := b\<rparr>) = working s" "working (s\<lparr>cl_closeFlag := d\<rparr>) = working s"
  "working (s\<lparr>cl_seen := e\<rparr>) = working s" "working (s\<lparr>cl_open := f\<rparr>) = working s" "working (s\<lparr>cl_closer := h\<rparr>) = working s"
  "working (s\<lparr>cl_crashed := k\<rparr>) = working s"
  by (simp_all add: working_def)

lemma working_upd:
  "i < cl_count s \<Longrightarrow> working (s\<lparr>cl_phase := (cl_phase s)(i := p)\<rparr>) =
     (if p = Conn_over then working s - {i} else insert i (working s))"
  by (auto simp: working_def)

lemma finite_working [simp]: "finite (working s)"
  by (simp add: working_def)

lemma in_working: "i \<in> working s \<longleftrightarrow> i < cl_count s \<and> cl_phase s i \<noteq> Conn_over"
  by (simp add: working_def)

lemma smaller: "enlisted p \<subseteq> holds p" "dialed p \<subseteq> holds p" "served p \<subseteq> enlisted p"
  by (cases p; simp)+

text \<open>The other goroutines do not have the connection of this one.\<close>

lemma others:
  assumes "apart s" "i < cl_count s" "c \<in> holds (cl_phase s i)"
  shows "c \<notin> (\<Union>j \<in> {..<cl_count s} - {i}. holds (cl_phase s j))"
    "c \<notin> (\<Union>j \<in> {..<cl_count s} - {i}. enlisted (cl_phase s j))"
    "c \<notin> (\<Union>j \<in> {..<cl_count s} - {i}. dialed (cl_phase s j))"
    "c \<notin> (\<Union>j \<in> {..<cl_count s} - {i}. served (cl_phase s j))"
proof -
  show h: "c \<notin> (\<Union>j \<in> {..<cl_count s} - {i}. holds (cl_phase s j))" using assms by (fastforce simp: apart_def)
  have "enlisted p \<subseteq> holds p" "dialed p \<subseteq> holds p" "served p \<subseteq> holds p" for p using smaller [of p] by auto
  then show "c \<notin> (\<Union>j \<in> {..<cl_count s} - {i}. enlisted (cl_phase s j))"
    "c \<notin> (\<Union>j \<in> {..<cl_count s} - {i}. dialed (cl_phase s j))"
    "c \<notin> (\<Union>j \<in> {..<cl_count s} - {i}. served (cl_phase s j))" using h by blast+
qed

lemma apart_upd:
  assumes "apart s" "i < cl_count s" "holds p \<inter> (\<Union>j \<in> {..<cl_count s} - {i}. holds (cl_phase s j)) = {}"
  shows "apart (s\<lparr>cl_phase := (cl_phase s)(i := p)\<rparr>)"
  using assms by (fastforce simp: apart_def)

lemma apart_fields [simp]:
  "apart (s\<lparr>cl_conns := a\<rparr>) = apart s" "apart (s\<lparr>cl_wg := b\<rparr>) = apart s" "apart (s\<lparr>cl_closeFlag := d\<rparr>) = apart s"
  "apart (s\<lparr>cl_seen := e\<rparr>) = apart s" "apart (s\<lparr>cl_open := f\<rparr>) = apart s" "apart (s\<lparr>cl_closer := h\<rparr>) = apart s"
  "apart (s\<lparr>cl_crashed := k\<rparr>) = apart s"
  by (simp_all add: apart_def)

text \<open>A goroutine that moves on with the connection it had, or without it.\<close>

lemma moves_on:
  assumes "threads_inv s" "i < cl_count s" "holds p \<subseteq> holds (cl_phase s i)"
  shows "over holds (s\<lparr>cl_phase := (cl_phase s)(i := p)\<rparr>) \<subseteq> cl_seen s" "apart (s\<lparr>cl_phase := (cl_phase s)(i := p)\<rparr>)"
proof -
  have "over holds s \<subseteq> cl_seen s" "apart s" using assms(1) by (simp_all add: threads_inv_def)
  then show "over holds (s\<lparr>cl_phase := (cl_phase s)(i := p)\<rparr>) \<subseteq> cl_seen s"
    using assms(2,3) over_split [of i s holds] by (auto simp: over_upd)
  show "apart (s\<lparr>cl_phase := (cl_phase s)(i := p)\<rparr>)"
    using \<open>apart s\<close> assms(2,3) others(1) [OF \<open>apart s\<close> assms(2)] by (intro apart_upd) blast+
qed

lemma not_started_over: "threads_inv s \<Longrightarrow> i < cl_count s \<Longrightarrow> cl_phase s i \<noteq> Conn_over \<Longrightarrow> cl_closer s \<noteq> Client_closed \<and> 0 < cl_wg s"
  by (auto simp: threads_inv_def working_def card_gt_0_iff)

lemma keeps_threads:
  assumes "threads_inv s" "i < cl_count s" "cl_phase s i \<noteq> Conn_over" "p \<noteq> Conn_over" "holds p \<subseteq> holds (cl_phase s i)"
  shows "threads_inv (s\<lparr>cl_phase := (cl_phase s)(i := p)\<rparr>)"
proof -
  have "working (s\<lparr>cl_phase := (cl_phase s)(i := p)\<rparr>) = working s"
    using assms(2-4) by (auto simp: working_upd in_working)
  then show ?thesis using assms(1) moves_on [OF assms(1,2,5)] unfolding threads_inv_def by simp argo
qed

lemma leaves_threads:
  assumes "threads_inv s" "i < cl_count s" "cl_phase s i \<noteq> Conn_over" "cl_closeFlag s \<or> \<not> cl_AutoReconnect s"
  shows "threads_inv (s\<lparr>cl_phase := (cl_phase s)(i := Conn_over), cl_wg := cl_wg s - 1\<rparr>)"
proof -
  have w: "working (s\<lparr>cl_phase := (cl_phase s)(i := Conn_over)\<rparr>) = working s - {i}" "i \<in> working s"
    using assms(2,3) by (auto simp: working_upd in_working)
  then show ?thesis
    using assms(1,4) moves_on [OF assms(1,2), of Conn_over] by (auto simp: threads_inv_def)
qed

lemma threads_fields [simp]:
  "threads_inv (s\<lparr>cl_open := a\<rparr>) = threads_inv s"
  "threads_inv (s\<lparr>cl_phase := q, cl_open := a\<rparr>) = threads_inv (s\<lparr>cl_phase := q\<rparr>)"
  "threads_inv (s\<lparr>cl_phase := q, cl_open := a, cl_wg := b\<rparr>) = threads_inv (s\<lparr>cl_phase := q, cl_wg := b\<rparr>)"
  "cl_conns s = Some S \<Longrightarrow> threads_inv (s\<lparr>cl_phase := q, cl_conns := Some T\<rparr>) = threads_inv (s\<lparr>cl_phase := q\<rparr>)"
  "threads_inv (s\<lparr>cl_phase := q, cl_conns := map_option f (cl_conns s)\<rparr>) = threads_inv (s\<lparr>cl_phase := q\<rparr>)"
  by (simp_all add: threads_inv_def over_def apart_def working_def)

lemma threads_step: "client_step s s' \<Longrightarrow> threads_inv s \<Longrightarrow> threads_inv s'"
proof (induction rule: client_step.induct)
  case (dial_connects i s c)
  have new: "c \<notin> over holds s" using dial_connects by (auto simp: threads_inv_def)
  have "apart (s\<lparr>cl_phase := (cl_phase s)(i := Dialed c)\<rparr>)"
    using dial_connects new by (intro apart_upd) (auto simp: threads_inv_def over_def)
  moreover have "over holds (s\<lparr>cl_phase := (cl_phase s)(i := Dialed c)\<rparr>) \<subseteq> insert c (cl_seen s)"
    using dial_connects over_split [of i s holds] over_upd [of i s holds "Dialed c"] unfolding threads_inv_def by auto
  moreover have "working (s\<lparr>cl_phase := (cl_phase s)(i := Dialed c)\<rparr>) = working s"
    using dial_connects by (auto simp: working_upd in_working)
  ultimately show ?case using dial_connects(4) unfolding threads_inv_def by simp argo
next
  case (nil_set i s c)
  then show ?case by (simp add: threads_inv_def)
next
  case (client_Close s)
  then show ?case by (simp add: threads_inv_def)
next
  case (client_Close_returns s)
  then show ?case unfolding threads_inv_def by simp argo
qed (simp_all add: keeps_threads leaves_threads [unfolded One_nat_def])

lemma sockets_None: "cl_conns s = None \<Longrightarrow> sockets_inv s \<longleftrightarrow> cl_open s \<subseteq> over dialed s"
  by (simp add: sockets_inv_def)

lemma sockets_Some:
  "cl_conns s = Some S \<Longrightarrow> sockets_inv s \<longleftrightarrow> S = over enlisted s \<and> cl_open s \<subseteq> over dialed s \<union> over served s"
  by (simp add: sockets_inv_def)

text \<open>The same with the part of one goroutine apart from that of the others.\<close>

definition rest :: "(conn_phase \<Rightarrow> nat set) \<Rightarrow> net_client \<Rightarrow> nat \<Rightarrow> nat set" where
  "rest g s i = (\<Union>j \<in> {..<cl_count s} - {i}. g (cl_phase s j))"

lemma over_rest: "i < cl_count s \<Longrightarrow> over g s = g (cl_phase s i) \<union> rest g s i"
  by (simp add: over_split rest_def)

lemma over_move: "i < cl_count s \<Longrightarrow> over g (s\<lparr>cl_phase := (cl_phase s)(i := p)\<rparr>) = g p \<union> rest g s i"
  by (simp add: over_upd rest_def)

lemma over_move_more:
  "over g (s\<lparr>cl_phase := q, cl_open := a\<rparr>) = over g (s\<lparr>cl_phase := q\<rparr>)"
  "over g (s\<lparr>cl_phase := q, cl_wg := b\<rparr>) = over g (s\<lparr>cl_phase := q\<rparr>)"
  "over g (s\<lparr>cl_phase := q, cl_conns := d\<rparr>) = over g (s\<lparr>cl_phase := q\<rparr>)"
  "over g (s\<lparr>cl_phase := q, cl_open := a, cl_wg := b\<rparr>) = over g (s\<lparr>cl_phase := q\<rparr>)"
  "over g (s\<lparr>cl_phase := q, cl_seen := e, cl_open := a\<rparr>) = over g (s\<lparr>cl_phase := q\<rparr>)"
  by (simp_all add: over_def)

lemma not_rest:
  assumes "threads_inv s" "i < cl_count s" "cl_phase s i = p" "holds p = {c}"
  shows "c \<notin> rest enlisted s i" "c \<notin> rest dialed s i" "c \<notin> rest served s i"
  using assms others [of s i c] unfolding threads_inv_def rest_def by auto

lemma over_mono: "(\<And>p. g p \<subseteq> h p) \<Longrightarrow> over g s \<subseteq> over h s"
  unfolding over_def by (rule UN_mono) auto

lemma dialed_served: "over served s \<subseteq> over enlisted s"
  unfolding over_def using smaller(3) by blast

lemmas moving = sockets_inv_def over_move_more over_move

lemma sockets_step: "client_step s s' \<Longrightarrow> threads_inv s \<Longrightarrow> sockets_inv s \<Longrightarrow> sockets_inv s'"
proof (induction rule: client_step.induct)
  case (dial_gives_up i s)
  then show ?case by (cases "cl_conns s") (simp_all add: moving over_rest [OF dial_gives_up(1)])
next
  case (dial_connects i s c)
  then show ?case by (cases "cl_conns s") (auto simp: moving over_rest [OF dial_connects(1)])
next
  case (too_late i s c)
  then have "cl_conns s = None" by (metis threads_inv_def)
  then show ?case using too_late by (auto simp: moving over_rest [OF too_late(1)])
next
  case (enlists i s c S)
  then show ?case by (auto simp: moving over_rest [OF enlists(1)])
next
  case (run_ends i s c)
  then show ?case by (cases "cl_conns s") (auto simp: moving over_rest [OF run_ends(1)])
next
  case (closes_sock i s c)
  then show ?case by (cases "cl_conns s") (auto simp: moving over_rest [OF closes_sock(1)])
next
  case (unlists i s c)
  then show ?case using not_rest(1) [OF unlists(3,1,2)]
    by (cases "cl_conns s") (auto simp: moving over_rest [OF unlists(1)])
next
  case (sleeps i s)
  then show ?case by (cases "cl_conns s") (auto simp: moving over_rest [OF sleeps(1)])
next
  case (conn_ends i s)
  then show ?case by (cases "cl_conns s") (auto simp: moving over_rest [OF conn_ends(1)])
next
  case (reconnects i s)
  then show ?case by (cases "cl_conns s") (auto simp: moving over_rest [OF reconnects(1)])
next
  case (client_Close s)
  then show ?case using dialed_served [of s] by (cases "cl_conns s") (auto simp: sockets_inv_def)
next
  case (client_Close_returns s)
  then show ?case by (cases "cl_conns s") (simp_all add: sockets_inv_def)
qed (simp_all add: sockets_inv_def)

lemma client_Start_inv: "threads_inv (client_Start c) \<and> sockets_inv (client_Start c)"
  by (simp add: threads_inv_def sockets_inv_def client_Start_def over_def apart_def working_def Collect_conj_eq lessThan_def)

lemma client_count: "client_reachable c s \<Longrightarrow> cl_count s = nat (cc_ConnNum c)"
proof (induction rule: client_reachable.induct)
  case (step s s')
  from step(2) have "cl_count s' = cl_count s" by (induction rule: client_step.induct) auto
  then show ?case using step by simp
qed (simp add: client_Start_def)

lemma client_inv: "client_reachable c s \<Longrightarrow> threads_inv s \<and> sockets_inv s"
  by (induction rule: client_reachable.induct) (auto simp: client_Start_inv dest: threads_step sockets_step)

lemma card_over: "(\<And>p. card (g p) \<le> 1) \<Longrightarrow> card (over g s) \<le> cl_count s"
  using card_UN_le [of "{..<cl_count s}" "\<lambda>i. g (cl_phase s i)"]
    sum_mono [of "{..<cl_count s}" "\<lambda>i. card (g (cl_phase s i))" "\<lambda>i. 1"] by (force simp: over_def)

lemma holds_one: "card (enlisted p) \<le> 1" "card (holds p) \<le> 1"
  by (cases p; simp)+

section \<open>Closing a client\<close>

fun conn_weight :: "conn_phase \<Rightarrow> nat" where
  "conn_weight Conn_over = 0" | "conn_weight (Dialed c) = 1" | "conn_weight Dialing = 2" | "conn_weight Asleep = 3"
| "conn_weight Off_list = 4" | "conn_weight (Sock_closed c) = 5" | "conn_weight (Run_ended c) = 6" | "conn_weight (Running c) = 7"

definition conns_weight :: "net_client \<Rightarrow> nat" where
  "conns_weight s = (\<Sum>i \<in> {..<cl_count s}. conn_weight (cl_phase s i))"

definition client_work :: "net_client \<Rightarrow> nat" where
  "client_work s = conns_weight s + (if cl_closer s = Client_closed then 0 else 1)"

lemma conns_weight_upd:
  "i < cl_count s \<Longrightarrow> conns_weight (s\<lparr>cl_phase := (cl_phase s)(i := p)\<rparr>) + conn_weight (cl_phase s i) = conns_weight s + conn_weight p"
  using sum_upd [of "{..<cl_count s}" i conn_weight "cl_phase s" p] by (simp add: conns_weight_def)

lemma conns_weight_fields [simp]:
  "conns_weight (s\<lparr>cl_phase := q, cl_open := a\<rparr>) = conns_weight (s\<lparr>cl_phase := q\<rparr>)"
  "conns_weight (s\<lparr>cl_phase := q, cl_wg := b\<rparr>) = conns_weight (s\<lparr>cl_phase := q\<rparr>)"
  "conns_weight (s\<lparr>cl_phase := q, cl_conns := d\<rparr>) = conns_weight (s\<lparr>cl_phase := q\<rparr>)"
  "conns_weight (s\<lparr>cl_phase := q, cl_open := a, cl_wg := b\<rparr>) = conns_weight (s\<lparr>cl_phase := q\<rparr>)"
  "conns_weight (s\<lparr>cl_phase := q, cl_seen := e, cl_open := a\<rparr>) = conns_weight (s\<lparr>cl_phase := q\<rparr>)"
  "conns_weight (s\<lparr>cl_closer := h\<rparr>) = conns_weight s"
  by (simp_all add: conns_weight_def)

lemma client_work_step:
  "client_step s s' \<Longrightarrow> threads_inv s \<Longrightarrow> cl_closer s \<noteq> Not_closing \<Longrightarrow> client_work s' < client_work s"
proof (induction rule: client_step.induct)
  case (dial_fails i s)
  then show ?case by (simp add: threads_inv_def)
next
  case (dial_gives_up i s)
  then show ?case using conns_weight_upd [of i s Conn_over] by (simp add: client_work_def)
next
  case (dial_connects i s c)
  then show ?case using conns_weight_upd [of i s "Dialed c"] by (simp add: client_work_def)
next
  case (too_late i s c)
  then show ?case using conns_weight_upd [of i s Conn_over] by (simp add: client_work_def)
next
  case (enlists i s c S)
  then show ?case by (simp add: threads_inv_def)
next
  case (nil_set i s c)
  then show ?case by (simp add: threads_inv_def)
next
  case (run_ends i s c)
  then show ?case using conns_weight_upd [of i s "Run_ended c"] by (simp add: client_work_def)
next
  case (closes_sock i s c)
  then show ?case using conns_weight_upd [of i s "Sock_closed c"] by (simp add: client_work_def)
next
  case (unlists i s c)
  then show ?case using conns_weight_upd [of i s Off_list] by (simp add: client_work_def)
next
  case (sleeps i s)
  then show ?case using conns_weight_upd [of i s Asleep] by (simp add: client_work_def)
next
  case (conn_ends i s)
  then show ?case using conns_weight_upd [of i s Conn_over] by (simp add: client_work_def)
next
  case (reconnects i s)
  then show ?case using conns_weight_upd [of i s Dialing] by (simp add: client_work_def)
qed (simp_all add: client_work_def)

lemma client_stuck:
  assumes "threads_inv s" "cl_closer s \<noteq> Not_closing" "\<And>s'. \<not> client_step s s'"
  shows "cl_closer s = Client_closed"
proof -
  have flag: "cl_closeFlag s" using assms(1,2) by (metis threads_inv_def)
  have "cl_phase s i = Conn_over" if "i < cl_count s" for i
    using assms(3) client_step.intros(2,4,7-12) [OF that] flag by (cases "cl_phase s i") blast+
  then have "working s = {}" by (auto simp: working_def)
  then have "cl_wg s = 0" using assms(1) by (simp add: threads_inv_def)
  then show ?thesis using assms(2,3) client_step.client_Close_returns [of s] by (cases "cl_closer s") auto
qed

interpretation client: draining client_step "\<lambda>s. threads_inv s \<and> sockets_inv s \<and> cl_closer s \<noteq> Not_closing" client_work
  "\<lambda>s. cl_closer s = Client_closed"
proof
  fix s s'
  assume st: "client_step s s'" and i: "threads_inv s \<and> sockets_inv s \<and> cl_closer s \<noteq> Not_closing"
  from st have "cl_closer s \<noteq> Not_closing \<Longrightarrow> cl_closer s' \<noteq> Not_closing" by (induction rule: client_step.induct) auto
  then show "threads_inv s' \<and> sockets_inv s' \<and> cl_closer s' \<noteq> Not_closing"
    using i threads_step [OF st] sockets_step [OF st] by simp
  show "client_work s' < client_work s" using i client_work_step [OF st] by simp
qed (use client_stuck in blast)

text \<open>
  A client never writes to a nil set of connections, has at most \<^verbatim>\<open>ConnNum\<close> connections at any
  time, and while it reconnects and is not closed none of its goroutines ends.
\<close>

theorem client_keeps_its_connections:
  assumes "client_reachable c s"
  shows "\<not> cl_crashed s \<and> card (cl_open s) \<le> nat (cc_ConnNum c)
    \<and> (if cl_AutoReconnect s \<and> \<not> cl_closeFlag s then Conn_over \<notin> cl_phase s ` {..<nat (cc_ConnNum c)} else True)"
proof -
  note inv = client_inv [OF assms]
  have sub: "over dialed s \<subseteq> over holds s" "over served s \<subseteq> over holds s"
    by (rule over_mono, rule smaller(2)) (rule over_mono, rule order_trans [OF smaller(3) smaller(1)])
  have "cl_open s \<subseteq> over holds s"
    using conjunct2 [OF inv] sub by (cases "cl_conns s") (auto simp: sockets_inv_def)
  moreover have "finite (over holds s)"
    using conjunct1 [OF inv] finite_subset unfolding threads_inv_def by blast
  ultimately have "card (cl_open s) \<le> card (over holds s)" by (intro card_mono)
  also have "\<dots> \<le> cl_count s" by (rule card_over) (rule holds_one)
  finally have "card (cl_open s) \<le> cl_count s" .
  moreover have "Conn_over \<notin> cl_phase s ` {..<cl_count s}" if "cl_AutoReconnect s" "\<not> cl_closeFlag s"
  proof -
    have "working s = {..<cl_count s}" using conjunct1 [OF inv] that unfolding threads_inv_def by blast
    then have "i \<in> working s" if "i < cl_count s" for i using that by blast
    then show ?thesis unfolding in_working by force
  qed
  moreover have "\<not> cl_crashed s" using conjunct1 [OF inv] unfolding threads_inv_def by blast
  moreover note client_count [OF assms]
  ultimately show ?thesis by simp
qed

definition one_conn :: client_conf where
  "one_conn = tcp_client_init
     \<lparr>cc_ConnNum = 0, cc_ConnectInterval = 0, cc_PendingWriteNum = 0, cc_AutoReconnect = True, cc_MaxMsgLen = 0, cc_HandshakeTimeout = 0\<rparr>"

definition connected :: net_client where
  "connected = (client_Start one_conn)\<lparr>cl_phase := (\<lambda>i. Dialing)(0 := Dialed 7), cl_seen := {7}, cl_open := {7}\<rparr>"

lemma one_conn_fields [simp]: "cc_ConnNum one_conn = 1" "cc_AutoReconnect one_conn"
  by (simp_all add: one_conn_def tcp_client_init_def positive_or_def)

lemma connected_reachable: "client_reachable one_conn connected"
  using client_reachable.step [OF client_reachable.start client_step.dial_connects, of 0 one_conn 7]
  by (simp add: connected_def client_Start_def)

lemma client_keeps_its_connections_witness:
  "\<not> cl_crashed connected \<and> card (cl_open connected) \<le> nat (cc_ConnNum one_conn)
    \<and> (if cl_AutoReconnect connected \<and> \<not> cl_closeFlag connected
       then Conn_over \<notin> cl_phase connected ` {..<nat (cc_ConnNum one_conn)} else True)"
  by (rule client_keeps_its_connections [OF connected_reachable])

text \<open>
  C11: \<^verbatim>\<open>Close\<close> of a client returns: once it is called boundedly many steps remain in any schedule,
  one can be taken until it has returned, and then no connection is open and every goroutine has
  ended - those that were dialling, waiting to dial again or just connected included.
\<close>

theorem client_close_returns:
  assumes "client_reachable c s" "cl_closer s \<noteq> Not_closing" "(client_step ^^ n) s t"
  shows "n \<le> client_work s
    \<and> (if cl_closer t = Client_closed then cl_open t = {} \<and> cl_phase t ` {..<cl_count t} \<subseteq> {Conn_over}
       else \<exists>u. client_step t u)"
proof -
  have b: "n \<le> client_work s" "threads_inv t" "sockets_inv t" "cl_closer t = Client_closed \<or> (\<exists>u. client_step t u)"
    using client.bounded [OF assms(3)] client_inv [OF assms(1)] assms(2) by auto
  have "cl_open t = {} \<and> cl_phase t ` {..<cl_count t} \<subseteq> {Conn_over}" if closed: "cl_closer t = Client_closed"
  proof -
    have "working t = {}" "cl_conns t = None" using b(2) closed by (auto simp: threads_inv_def)
    then have over: "cl_phase t i = Conn_over" if "i < cl_count t" for i using that by (auto simp: working_def)
    then have "over dialed t = {}" by (simp add: over_def)
    then show ?thesis using b(3) \<open>cl_conns t = None\<close> over by (auto simp: sockets_inv_def)
  qed
  with b show ?thesis by auto
qed

definition closing :: net_client where
  "closing = connected\<lparr>cl_closer := Waits_conns, cl_closeFlag := True, cl_conns := None\<rparr>"

definition gave_up :: net_client where
  "gave_up = closing\<lparr>cl_phase := (\<lambda>i. Dialing)(0 := Conn_over), cl_open := {}, cl_wg := 0\<rparr>"

lemma client_close_returns_witness:
  "1 \<le> client_work closing
    \<and> (if cl_closer gave_up = Client_closed then cl_open gave_up = {} \<and> cl_phase gave_up ` {..<cl_count gave_up} \<subseteq> {Conn_over}
       else \<exists>u. client_step gave_up u)"
proof (rule client_close_returns)
  show "client_reachable one_conn closing"
    using client_reachable.step [OF connected_reachable client_step.client_Close]
    by (simp add: closing_def connected_def client_Start_def)
  show "cl_closer closing \<noteq> Not_closing" by (simp add: closing_def)
  have "client_step closing gave_up"
    using client_step.too_late [of 0 closing 7] by (simp add: gave_up_def closing_def connected_def client_Start_def)
  then show "(client_step ^^ 1) closing gave_up" by (simp only: relpowp_1)
qed

end
