(* ===== verification/Lodos_Ws_Server.thy ===== *)
theory Lodos_Ws_Server
  imports Lodos_Network Lodos_Steps
begin

text \<open>
  The websocket server, \<^verbatim>\<open>network/ws_server.go\<close>: its settings, the handler that the HTTP server calls
  in a goroutine per request, and \<^verbatim>\<open>Close\<close>; the connection limit, what \<^verbatim>\<open>Close\<close> leaves, and what a
  panic of an agent leaves.
\<close>

record ws_conf =
  wc_MaxConnNum :: int
  wc_MaxMsgLen :: "32 word"
  wc_HTTPTimeout :: int

definition ws_Start_conf :: "ws_conf \<Rightarrow> ws_conf" where
  "ws_Start_conf c =
     \<lparr>wc_MaxConnNum = (if wc_MaxConnNum c \<le> 0 then 10000 else wc_MaxConnNum c),
      wc_MaxMsgLen = (if wc_MaxMsgLen c = 0 then 4096 else wc_MaxMsgLen c),
      wc_HTTPTimeout = (if wc_HTTPTimeout c \<le> 0 then 10000000000 else wc_HTTPTimeout c)\<rparr>"

text \<open>
  Where the goroutine of \<^verbatim>\<open>ServeHTTP\<close> of a connection is: upgraded, before \<^verbatim>\<open>wg.Add\<close>; counted, before
  the set; serving; after the agent's \<^verbatim>\<open>Run\<close>; closed; out of the set; over.
\<close>

datatype ws_phase = No_request | Upgraded | Counted | Ws_serving | Ws_returned | Ws_closed | Ws_removed | Ws_over

datatype ws_closing = Ws_not_closing | Ws_listener_closed | Ws_waits | Ws_close_over

text \<open>\<open>wh_idle\<close>: the connections the HTTP server accepted that may still ask to be upgraded.\<close>

record ws_server =
  wh_max :: int
  wh_ln :: listener
  wh_conns :: "nat set option"
  wh_wg :: nat
  wh_idle :: nat
  wh_phase :: "nat \<Rightarrow> ws_phase"
  wh_seen :: "nat set"
  wh_open :: "nat set"
  wh_closer :: ws_closing
  wh_crashed :: bool

definition ws_Start :: "ws_conf \<Rightarrow> bool \<Rightarrow> ws_server" where
  "ws_Start c listening =
     \<lparr>wh_max = wc_MaxConnNum (ws_Start_conf c), wh_ln = (if listening then Ln_open else Ln_nil), wh_conns = Some {},
      wh_wg = 0, wh_idle = 0, wh_phase = (\<lambda>c. No_request), wh_seen = {}, wh_open = {}, wh_closer = Ws_not_closing,
      wh_crashed = False\<rparr>"

text \<open>
  The steps. \<^verbatim>\<open>Close\<close> closes the listener, but the HTTP server stays: a connection accepted before may
  still be upgraded. A request that is not a GET or cannot be upgraded changes nothing. The HTTP server recovers a panic of an
  agent, which skips what follows \<^verbatim>\<open>Run\<close> except the deferred \<^verbatim>\<open>wg.Done\<close>. Reading from or closing a nil listener panics.
\<close>

inductive ws_step :: "ws_server \<Rightarrow> ws_server \<Rightarrow> bool" where
  ws_accepts: "wh_ln s = Ln_open \<Longrightarrow> ws_step s (s\<lparr>wh_idle := wh_idle s + 1\<rparr>)"
| ws_accept_nil: "wh_ln s = Ln_nil \<Longrightarrow> ws_step s (s\<lparr>wh_crashed := True\<rparr>)"
| ws_idle_ends: "0 < wh_idle s \<Longrightarrow> ws_step s (s\<lparr>wh_idle := wh_idle s - 1\<rparr>)"
| ws_upgrades: "0 < wh_idle s \<Longrightarrow> c \<notin> wh_seen s \<Longrightarrow>
    ws_step s (s\<lparr>wh_idle := wh_idle s - 1, wh_phase := (wh_phase s)(c := Upgraded), wh_seen := insert c (wh_seen s),
      wh_open := insert c (wh_open s)\<rparr>)"
| ws_counts: "wh_phase s c = Upgraded \<Longrightarrow>
    ws_step s (s\<lparr>wh_phase := (wh_phase s)(c := Counted), wh_wg := wh_wg s + 1\<rparr>)"
| ws_refuses: "wh_phase s c = Counted \<Longrightarrow> wh_conns s = None \<Longrightarrow>
    ws_step s (s\<lparr>wh_phase := (wh_phase s)(c := Ws_over), wh_wg := wh_wg s - 1, wh_open := wh_open s - {c}\<rparr>)"
| ws_too_many: "wh_phase s c = Counted \<Longrightarrow> wh_conns s = Some S \<Longrightarrow> int (card S) \<ge> wh_max s \<Longrightarrow>
    ws_step s (s\<lparr>wh_phase := (wh_phase s)(c := Ws_over), wh_wg := wh_wg s - 1, wh_open := wh_open s - {c}\<rparr>)"
| ws_serves: "wh_phase s c = Counted \<Longrightarrow> wh_conns s = Some S \<Longrightarrow> int (card S) < wh_max s \<Longrightarrow>
    ws_step s (s\<lparr>wh_phase := (wh_phase s)(c := Ws_serving), wh_conns := Some (insert c S)\<rparr>)"
| ws_returns: "wh_phase s c = Ws_serving \<Longrightarrow> ws_step s (s\<lparr>wh_phase := (wh_phase s)(c := Ws_returned)\<rparr>)"
| ws_panics: "wh_phase s c = Ws_serving \<Longrightarrow>
    ws_step s (s\<lparr>wh_phase := (wh_phase s)(c := Ws_over), wh_wg := wh_wg s - 1\<rparr>)"
| ws_closes: "wh_phase s c = Ws_returned \<Longrightarrow>
    ws_step s (s\<lparr>wh_phase := (wh_phase s)(c := Ws_closed), wh_open := wh_open s - {c}\<rparr>)"
| ws_removes: "wh_phase s c = Ws_closed \<Longrightarrow>
    ws_step s (s\<lparr>wh_phase := (wh_phase s)(c := Ws_removed), wh_conns := map_option (\<lambda>S. S - {c}) (wh_conns s)\<rparr>)"
| ws_done: "wh_phase s c = Ws_removed \<Longrightarrow>
    ws_step s (s\<lparr>wh_phase := (wh_phase s)(c := Ws_over), wh_wg := wh_wg s - 1\<rparr>)"
| ws_Close: "wh_closer s = Ws_not_closing \<Longrightarrow> wh_ln s \<noteq> Ln_nil \<Longrightarrow>
    ws_step s (s\<lparr>wh_closer := Ws_listener_closed, wh_ln := Ln_closed\<rparr>)"
| ws_Close_nil: "wh_closer s = Ws_not_closing \<Longrightarrow> wh_ln s = Ln_nil \<Longrightarrow> ws_step s (s\<lparr>wh_crashed := True\<rparr>)"
| ws_Close_conns: "wh_closer s = Ws_listener_closed \<Longrightarrow>
    ws_step s (s\<lparr>wh_closer := Ws_waits, wh_conns := None,
      wh_open := wh_open s - (case wh_conns s of None \<Rightarrow> {} | Some S \<Rightarrow> S)\<rparr>)"
| ws_Close_returns: "wh_closer s = Ws_waits \<Longrightarrow> wh_wg s = 0 \<Longrightarrow> ws_step s (s\<lparr>wh_closer := Ws_close_over\<rparr>)"

inductive ws_reachable :: "ws_conf \<Rightarrow> bool \<Rightarrow> ws_server \<Rightarrow> bool" for conf listening where
  start: "ws_reachable conf listening (ws_Start conf listening)"
| step: "ws_reachable conf listening s \<Longrightarrow> ws_step s s' \<Longrightarrow> ws_reachable conf listening s'"

section \<open>Invariant\<close>

text \<open>The handlers that are counted; those in the set, or left there by a panic; those before the set.\<close>

definition in_phase :: "ws_phase set \<Rightarrow> (nat \<Rightarrow> ws_phase) \<Rightarrow> nat set" where
  "in_phase P f = {c. f c \<in> P}"

abbreviation counted :: "(nat \<Rightarrow> ws_phase) \<Rightarrow> nat set" where
  "counted \<equiv> in_phase {Counted, Ws_serving, Ws_returned, Ws_closed, Ws_removed}"

abbreviation in_set :: "(nat \<Rightarrow> ws_phase) \<Rightarrow> nat set" where
  "in_set \<equiv> in_phase {Ws_serving, Ws_returned, Ws_closed}"

abbreviation before_set :: "(nat \<Rightarrow> ws_phase) \<Rightarrow> nat set" where
  "before_set \<equiv> in_phase {Upgraded, Counted}"

lemma in_phase_upd [simp]: "in_phase P (f(c := p)) = (if p \<in> P then insert c (in_phase P f) else in_phase P f - {c})"
  by (auto simp: in_phase_def)

lemma in_phase_iff: "c \<in> in_phase P f \<longleftrightarrow> f c \<in> P"
  by (simp add: in_phase_def)

definition handlers_inv :: "ws_server \<Rightarrow> bool" where
  "handlers_inv s \<longleftrightarrow> finite (wh_seen s) \<and> (\<forall>c. c \<notin> wh_seen s \<longrightarrow> wh_phase s c = No_request)
     \<and> wh_wg s = card (counted (wh_phase s)) \<and> wh_ln s \<noteq> Ln_nil \<and> \<not> wh_crashed s
     \<and> (wh_ln s = Ln_open \<longleftrightarrow> wh_closer s = Ws_not_closing)"

definition set_inv :: "ws_server \<Rightarrow> bool" where
  "set_inv s \<longleftrightarrow>
     (case wh_conns s of
        None \<Rightarrow> wh_open s \<subseteq> before_set (wh_phase s) \<and> wh_closer s \<in> {Ws_waits, Ws_close_over}
          \<and> (wh_closer s = Ws_close_over \<longrightarrow> counted (wh_phase s) \<subseteq> in_phase {Counted} (wh_phase s))
      | Some S \<Rightarrow> in_set (wh_phase s) \<subseteq> S \<and> int (card S) \<le> wh_max s \<and> finite S
          \<and> wh_open s \<subseteq> before_set (wh_phase s) \<union> S \<and> (\<forall>c \<in> wh_open s. wh_phase s c \<noteq> Ws_closed) \<and> wh_closer s \<in> {Ws_not_closing, Ws_listener_closed})"

lemma finite_phases: "handlers_inv s \<Longrightarrow> No_request \<notin> P \<Longrightarrow> finite (in_phase P (wh_phase s))"
  by (rule finite_subset [of _ "wh_seen s"]) (auto simp: handlers_inv_def in_phase_def)

lemma ws_handlers_step: "ws_step s s' \<Longrightarrow> handlers_inv s \<Longrightarrow> handlers_inv s'"
proof (induction rule: ws_step.induct)
  case (ws_upgrades s c)
  then have "c \<notin> counted (wh_phase s)" by (simp add: handlers_inv_def in_phase_iff)
  then show ?case using ws_upgrades by (simp add: handlers_inv_def)
next
  case (ws_counts s c)
  then have "c \<notin> counted (wh_phase s)" "finite (counted (wh_phase s))" by (simp_all add: in_phase_iff finite_phases)
  then show ?case using ws_counts by (auto simp: handlers_inv_def)
qed (auto simp: handlers_inv_def in_phase_iff insert_absorb card_Diff_singleton)

lemma set_inv_None:
  "wh_conns s = None \<Longrightarrow> set_inv s \<longleftrightarrow> wh_open s \<subseteq> before_set (wh_phase s) \<and> wh_closer s \<in> {Ws_waits, Ws_close_over}
     \<and> (wh_closer s = Ws_close_over \<longrightarrow> counted (wh_phase s) \<subseteq> in_phase {Counted} (wh_phase s))"
  by (simp add: set_inv_def)

lemma set_inv_Some:
  "wh_conns s = Some S \<Longrightarrow> set_inv s \<longleftrightarrow> in_set (wh_phase s) \<subseteq> S \<and> int (card S) \<le> wh_max s \<and> finite S
     \<and> wh_open s \<subseteq> before_set (wh_phase s) \<union> S \<and> (\<forall>c \<in> wh_open s. wh_phase s c \<noteq> Ws_closed) \<and> wh_closer s \<in> {Ws_not_closing, Ws_listener_closed}"
  by (simp add: set_inv_def)

lemmas set_inv_cases = set_inv_None set_inv_Some in_phase_iff

lemma set_step: "ws_step s s' \<Longrightarrow> handlers_inv s \<Longrightarrow> set_inv s \<Longrightarrow> set_inv s'"
proof (induction rule: ws_step.induct)
  case (ws_accepts s)
  then show ?case by (cases "wh_conns s") (simp_all add: set_inv_def)
next
  case (ws_idle_ends s)
  then show ?case by (cases "wh_conns s") (simp_all add: set_inv_def)
next
  case (ws_upgrades s c)
  then have "wh_phase s c = No_request" by (simp add: handlers_inv_def)
  with ws_upgrades show ?case by (cases "wh_conns s") (auto simp: set_inv_cases)
next
  case (ws_counts s c)
  then show ?case by (cases "wh_conns s") (auto simp: set_inv_cases)
next
  case (ws_refuses s c)
  then show ?case by (auto simp: set_inv_cases)
next
  case (ws_too_many s c S)
  then show ?case by (auto simp: set_inv_cases)
next
  case (ws_serves s c S)
  then show ?case by (auto simp: set_inv_cases card_insert_if)
next
  case (ws_returns s c)
  then show ?case by (cases "wh_conns s") (auto simp: set_inv_cases)
next
  case (ws_panics s c)
  then show ?case by (cases "wh_conns s") (auto simp: set_inv_cases)
next
  case (ws_closes s c)
  then show ?case by (cases "wh_conns s") (auto simp: set_inv_cases)
next
  case (ws_removes s c)
  then show ?case using card_Diff1_le [of _ c] by (cases "wh_conns s") (auto simp: set_inv_cases intro: le_trans)
next
  case (ws_done s c)
  then show ?case by (cases "wh_conns s") (auto simp: set_inv_cases)
next
  case (ws_Close s)
  then show ?case by (cases "wh_conns s") (simp_all add: set_inv_cases)
next
  case (ws_Close_conns s)
  then show ?case by (cases "wh_conns s") (auto simp: set_inv_cases)
next
  case (ws_Close_returns s)
  have "finite (counted (wh_phase s))" using ws_Close_returns(3) by (rule finite_phases) simp
  then have "counted (wh_phase s) = {}" using ws_Close_returns by (simp add: handlers_inv_def)
  moreover have "wh_conns s = None" using ws_Close_returns by (auto simp: set_inv_def split: option.splits)
  ultimately show ?case using ws_Close_returns by (simp add: set_inv_def)
qed (simp_all add: handlers_inv_def)

lemma ws_Start_inv: "handlers_inv (ws_Start c True) \<and> set_inv (ws_Start c True)"
  by (simp add: handlers_inv_def set_inv_def ws_Start_def in_phase_def ws_Start_conf_def)

lemma ws_inv: "ws_reachable c True s \<Longrightarrow> handlers_inv s \<and> set_inv s"
  by (induction rule: ws_reachable.induct) (auto simp: ws_Start_inv dest: ws_handlers_step set_step)

lemma ws_max: "ws_reachable c l s \<Longrightarrow> wh_max s = wc_MaxConnNum (ws_Start_conf c)"
proof (induction rule: ws_reachable.induct)
  case (step s s')
  from step(2) have "wh_max s' = wh_max s" by (induction rule: ws_step.induct) auto
  then show ?case using step by simp
qed (simp add: ws_Start_def)

section \<open>Closing the server\<close>

fun ws_weight :: "ws_phase \<Rightarrow> nat" where
  "ws_weight No_request = 0" | "ws_weight Upgraded = 6" | "ws_weight Counted = 5" | "ws_weight Ws_serving = 4"
| "ws_weight Ws_returned = 3" | "ws_weight Ws_closed = 2" | "ws_weight Ws_removed = 1" | "ws_weight Ws_over = 0"

fun ws_close_weight :: "ws_closing \<Rightarrow> nat" where
  "ws_close_weight Ws_not_closing = 3" | "ws_close_weight Ws_listener_closed = 2" | "ws_close_weight Ws_waits = 1"
| "ws_close_weight Ws_close_over = 0"

definition handlers_weight :: "ws_server \<Rightarrow> nat" where
  "handlers_weight s = (\<Sum>c \<in> wh_seen s. ws_weight (wh_phase s c))"

definition ws_work :: "ws_server \<Rightarrow> nat" where
  "ws_work s = 7 * wh_idle s + ws_close_weight (wh_closer s) + handlers_weight s"

lemma handlers_weight_upd:
  assumes "handlers_inv s" "wh_phase s c \<noteq> No_request"
  shows "handlers_weight (s\<lparr>wh_phase := (wh_phase s)(c := p)\<rparr>) + ws_weight (wh_phase s c) = handlers_weight s + ws_weight p"
proof -
  have "c \<in> wh_seen s" "finite (wh_seen s)" using assms by (auto simp: handlers_inv_def)
  then show ?thesis using sum_upd [of "wh_seen s" c ws_weight "wh_phase s" p] by (simp add: handlers_weight_def)
qed

lemma handlers_weight_fields [simp]:
  "handlers_weight (s\<lparr>wh_phase := q, wh_wg := b\<rparr>) = handlers_weight (s\<lparr>wh_phase := q\<rparr>)"
  "handlers_weight (s\<lparr>wh_phase := q, wh_wg := b, wh_open := a\<rparr>) = handlers_weight (s\<lparr>wh_phase := q\<rparr>)"
  "handlers_weight (s\<lparr>wh_phase := q, wh_open := a\<rparr>) = handlers_weight (s\<lparr>wh_phase := q\<rparr>)"
  "handlers_weight (s\<lparr>wh_phase := q, wh_conns := d\<rparr>) = handlers_weight (s\<lparr>wh_phase := q\<rparr>)"
  "handlers_weight (s\<lparr>wh_closer := h\<rparr>) = handlers_weight s"
  "handlers_weight (s\<lparr>wh_idle := k\<rparr>) = handlers_weight s"
  "handlers_weight (s\<lparr>wh_closer := h, wh_conns := d, wh_open := a\<rparr>) = handlers_weight s"
  by (simp_all add: handlers_weight_def)

lemma ws_weight_moves:
  assumes "handlers_inv s" "wh_phase s c \<noteq> No_request" "ws_weight p < ws_weight (wh_phase s c)"
  shows "handlers_weight (s\<lparr>wh_phase := (wh_phase s)(c := p)\<rparr>) < handlers_weight s"
  using handlers_weight_upd [OF assms(1,2), of p] assms(3) by simp

lemma ws_weight_new:
  assumes "handlers_inv s" "c \<notin> wh_seen s"
  shows "handlers_weight (s\<lparr>wh_idle := k, wh_phase := (wh_phase s)(c := Upgraded), wh_seen := insert c (wh_seen s), wh_open := a\<rparr>)
    = handlers_weight s + 6"
proof -
  have "(\<Sum>x \<in> wh_seen s. ws_weight (((wh_phase s)(c := Upgraded)) x)) = handlers_weight s"
    unfolding handlers_weight_def using assms(2) by (intro sum.cong) auto
  then show ?thesis using assms by (simp add: handlers_weight_def handlers_inv_def)
qed

lemma ws_work_step:
  "ws_step s s' \<Longrightarrow> handlers_inv s \<Longrightarrow> wh_closer s \<noteq> Ws_not_closing \<Longrightarrow> ws_work s' < ws_work s"
proof (induction rule: ws_step.induct)
  case (ws_upgrades s c)
  then show ?case using ws_weight_new [of s c _ "wh_idle s - 1"] by (simp add: ws_work_def)
qed (auto simp: ws_work_def ws_weight_moves handlers_inv_def)

text \<open>What a server leaves in the end: no open connection and no handler.\<close>

definition ws_over :: "ws_server \<Rightarrow> bool" where
  "ws_over s \<longleftrightarrow> wh_closer s = Ws_close_over \<and> wh_open s = {} \<and> range (wh_phase s) \<subseteq> {No_request, Ws_over}"

lemma ws_stuck:
  assumes "handlers_inv s" "set_inv s" "wh_closer s \<noteq> Ws_not_closing" "\<And>s'. \<not> ws_step s s'"
  shows "ws_over s"
proof -
  have phases: "wh_phase s c \<in> {No_request, Ws_over}" for c
  proof (cases "wh_phase s c")
    case Counted
    then show ?thesis
      using assms(4) ws_step.intros(6-8) [of s c] by (cases "wh_conns s") (meson not_le)+
  qed (use assms(4) ws_step.intros(5,9-13) [of s c] in blast)+
  then have none: "in_phase P (wh_phase s) = {}" if "P \<inter> {No_request, Ws_over} = {}" for P
    using that by (fastforce simp: in_phase_def)
  have "wh_wg s = 0" using assms(1) none by (simp add: handlers_inv_def)
  then have over: "wh_closer s = Ws_close_over"
    using assms(3,4) ws_step.ws_Close_conns [of s] ws_step.ws_Close_returns [of s] by (cases "wh_closer s") blast+
  moreover have "wh_open s = {}"
    using assms(2) over none [of "{Upgraded, Counted}"] by (cases "wh_conns s") (simp_all add: set_inv_def)
  ultimately show ?thesis using phases by (auto simp: ws_over_def)
qed

lemma ws_closing_stays: "ws_step s s' \<Longrightarrow> wh_closer s \<noteq> Ws_not_closing \<Longrightarrow> wh_closer s' \<noteq> Ws_not_closing"
  by (induction rule: ws_step.induct) auto

interpretation ws: draining ws_step "\<lambda>s. handlers_inv s \<and> set_inv s \<and> wh_closer s \<noteq> Ws_not_closing" ws_work ws_over
proof
  fix s s'
  assume st: "ws_step s s'" and i: "handlers_inv s \<and> set_inv s \<and> wh_closer s \<noteq> Ws_not_closing"
  show "handlers_inv s' \<and> set_inv s' \<and> wh_closer s' \<noteq> Ws_not_closing"
    using i ws_handlers_step [OF st] set_step [OF st] ws_closing_stays [OF st] by simp
  show "ws_work s' < ws_work s" using i ws_work_step [OF st] by simp
qed (use ws_stuck in blast)

text \<open>
  A listening websocket server never serves more connections than \<^verbatim>\<open>MaxConnNum\<close>, and never panics.
\<close>

lemma ws_server_limit:
  assumes "ws_reachable conf True s"
  shows "\<not> wh_crashed s \<and> (case wh_conns s of Some S \<Rightarrow> in_set (wh_phase s) \<subseteq> S \<and> int (card S) \<le> wh_max s | None \<Rightarrow> True)"
  using ws_inv [OF assms] by (cases "wh_conns s") (simp_all add: handlers_inv_def set_inv_def)

text \<open>
  C12: \<^verbatim>\<open>Close\<close> of a websocket server: once it is called, boundedly many steps remain in any schedule,
  in the end \<^verbatim>\<open>Close\<close> has returned, every connection is closed and no handler is left; and from its
  return on no agent serves a connection, although the HTTP server may still upgrade one.
\<close>

theorem ws_close_returns:
  assumes "ws_reachable conf True s" "wh_closer s \<noteq> Ws_not_closing" "(ws_step ^^ n) s t"
  shows "n \<le> ws_work s \<and> (ws_over t \<or> (\<exists>u. ws_step t u))
    \<and> (if wh_closer t = Ws_close_over then range (wh_phase t) \<subseteq> {No_request, Upgraded, Counted, Ws_over} else True)"
proof -
  have b: "n \<le> ws_work s" "set_inv t" "ws_over t \<or> (\<exists>u. ws_step t u)"
    using ws.bounded [OF assms(3)] ws_inv [OF assms(1)] assms(2) by auto
  have "range (wh_phase t) \<subseteq> {No_request, Upgraded, Counted, Ws_over}" if "wh_closer t = Ws_close_over"
  proof -
    have "counted (wh_phase t) \<subseteq> in_phase {Counted} (wh_phase t)"
      using b(2) that by (cases "wh_conns t") (simp_all add: set_inv_def)
    then have sub: "c \<in> counted (wh_phase t) \<Longrightarrow> wh_phase t c = Counted" for c by (auto simp: in_phase_iff)
    show ?thesis
    proof (rule image_subsetI)
      fix c
      show "wh_phase t c \<in> {No_request, Upgraded, Counted, Ws_over}"
        using sub [of c] by (cases "wh_phase t c") (simp_all add: in_phase_iff)
    qed
  qed
  with b show ?thesis by simp
qed

definition idle_closing :: ws_server where
  "idle_closing = (ws_Start \<lparr>wc_MaxConnNum = 1, wc_MaxMsgLen = 0, wc_HTTPTimeout = 0\<rparr> True)
     \<lparr>wh_idle := 1, wh_closer := Ws_listener_closed, wh_ln := Ln_closed\<rparr>"

definition idle_upgraded :: ws_server where
  "idle_upgraded = idle_closing\<lparr>wh_idle := 0, wh_phase := (\<lambda>c. No_request)(3 := Upgraded), wh_seen := {3}, wh_open := {3}\<rparr>"

lemma ws_reach: "ws_reachable conf l s \<Longrightarrow> ws_step s t \<Longrightarrow> t = u \<Longrightarrow> ws_reachable conf l u"
  using ws_reachable.step by blast

lemma ws_close_returns_witness:
  "1 \<le> ws_work idle_closing \<and> (ws_over idle_upgraded \<or> (\<exists>u. ws_step idle_upgraded u))
    \<and> (if wh_closer idle_upgraded = Ws_close_over then range (wh_phase idle_upgraded) \<subseteq> {No_request, Upgraded, Counted, Ws_over}
       else True)"
proof (rule ws_close_returns)
  let ?c = "\<lparr>wc_MaxConnNum = 1, wc_MaxMsgLen = 0, wc_HTTPTimeout = 0\<rparr>"
  have "ws_reachable ?c True ((ws_Start ?c True)\<lparr>wh_idle := 1\<rparr>)"
    by (rule ws_reach [OF ws_reachable.start ws_step.ws_accepts]) (simp_all add: ws_Start_def)
  then show "ws_reachable ?c True idle_closing"
    by (rule ws_reach [OF _ ws_step.ws_Close]) (simp_all add: idle_closing_def ws_Start_def)
  show "wh_closer idle_closing \<noteq> Ws_not_closing" by (simp add: idle_closing_def)
  have "ws_step idle_closing idle_upgraded"
    using ws_step.ws_upgrades [of idle_closing 3] by (simp add: idle_upgraded_def idle_closing_def ws_Start_def)
  then show "(ws_step ^^ 1) idle_closing idle_upgraded" by (simp only: relpowp_1)
qed

text \<open>The server after \<open>k\<close> connections whose agents panicked.\<close>

definition leaked :: "ws_conf \<Rightarrow> nat \<Rightarrow> ws_server" where
  "leaked conf k = (ws_Start conf True)
     \<lparr>wh_conns := Some {..<k}, wh_phase := (\<lambda>c. if c < k then Ws_over else No_request), wh_seen := {..<k}, wh_open := {..<k}\<rparr>"

lemma leaked_reachable: "int k \<le> wc_MaxConnNum (ws_Start_conf conf) \<Longrightarrow> ws_reachable conf True (leaked conf k)"
proof (induction k)
  case 0
  then show ?case using ws_reachable.start [of conf True] by (simp add: leaked_def ws_Start_def)
next
  case (Suc k)
  let ?s = "leaked conf k"
  let ?f = "wh_phase ?s"
  have "ws_reachable conf True ?s" using Suc by simp
  then have "ws_reachable conf True (?s\<lparr>wh_idle := 1\<rparr>)"
    by (rule ws_reach [OF _ ws_step.ws_accepts]) (simp_all add: leaked_def ws_Start_def)
  then have "ws_reachable conf True (?s\<lparr>wh_phase := ?f(k := Upgraded), wh_seen := {..<Suc k}, wh_open := {..<Suc k}\<rparr>)"
    by (rule ws_reach [OF _ ws_step.ws_upgrades [of _ k]]) (auto simp: leaked_def ws_Start_def lessThan_Suc)
  then have "ws_reachable conf True (?s\<lparr>wh_phase := ?f(k := Counted), wh_seen := {..<Suc k}, wh_open := {..<Suc k}, wh_wg := 1\<rparr>)"
    by (rule ws_reach [OF _ ws_step.ws_counts [of _ k]]) (auto simp: leaked_def ws_Start_def)
  then have "ws_reachable conf True (?s\<lparr>wh_phase := ?f(k := Ws_serving), wh_seen := {..<Suc k}, wh_open := {..<Suc k}, wh_wg := 1,
      wh_conns := Some {..<Suc k}\<rparr>)"
    using Suc.prems by (rule_tac ws_reach [OF _ ws_step.ws_serves [of _ k "{..<k}"]]) (auto simp: leaked_def ws_Start_def lessThan_Suc)
  then show ?case
    by (rule ws_reach [OF _ ws_step.ws_panics [of _ k]]) (auto simp: leaked_def ws_Start_def less_Suc_eq)
qed

lemma full_set_serves_none:
  assumes "ws_step\<^sup>*\<^sup>* s t" "wh_conns s = Some S" "int (card S) \<ge> wh_max s" "in_phase {Ws_serving, Ws_returned, Ws_closed} (wh_phase s) = {}"
  shows "in_phase {Ws_serving, Ws_returned, Ws_closed} (wh_phase t) = {} \<and> wh_max t = wh_max s
    \<and> (wh_conns t = Some S \<or> wh_conns t = None)"
  using assms
proof (induction rule: rtranclp_induct)
  case (step t u)
  then have "in_phase {Ws_serving, Ws_returned, Ws_closed} (wh_phase t) = {} \<and> wh_max t = wh_max s
    \<and> (wh_conns t = Some S \<or> wh_conns t = None)" by simp
  with step(2) assms(3) show ?case by (induction rule: ws_step.induct) (auto simp: in_phase_def)
qed simp

text \<open>
  A panic of an agent's \<^verbatim>\<open>Run\<close> costs a websocket server a place for good: after \<^verbatim>\<open>MaxConnNum\<close> of
  them no handler runs, yet every later connection is refused. (The gate's own agent recovers from
  its panics.)
\<close>

theorem ws_panics_fill_server:
  "\<exists>s. ws_reachable conf True s \<and> wh_closer s = Ws_not_closing \<and> range (wh_phase s) \<subseteq> {No_request, Ws_over}
    \<and> {t. ws_step\<^sup>*\<^sup>* s t \<and> Ws_serving \<in> range (wh_phase t)} = {}"
proof -
  define k where "k = nat (wc_MaxConnNum (ws_Start_conf conf))"
  have k: "int k = wc_MaxConnNum (ws_Start_conf conf)" by (simp add: k_def ws_Start_conf_def)
  let ?s = "leaked conf k"
  have f: "wh_conns ?s = Some {..<k}" "int (card {..<k}) \<ge> wh_max ?s" "in_phase {Ws_serving, Ws_returned, Ws_closed} (wh_phase ?s) = {}"
    by (auto simp: leaked_def ws_Start_def k in_phase_def)
  have "Ws_serving \<notin> range (wh_phase t)" if "ws_step\<^sup>*\<^sup>* ?s t" for t
  proof
    assume "Ws_serving \<in> range (wh_phase t)"
    then obtain c where "wh_phase t c = Ws_serving" by (metis rangeE)
    then have "c \<in> in_phase {Ws_serving, Ws_returned, Ws_closed} (wh_phase t)" by (simp add: in_phase_def)
    then show False using full_set_serves_none [OF that f] by blast
  qed
  moreover have "ws_reachable conf True ?s" using k by (simp add: leaked_reachable)
  ultimately show ?thesis by (intro exI [of _ ?s]) (auto simp: leaked_def ws_Start_def)
qed

end
