(* ===== verification/Lodos_Transport.thy ===== *)
theory Lodos_Transport
  imports Lodos_Rpc_Client
begin

text \<open>
  The remote transports of RPC: the RabbitMQ agent of \<^verbatim>\<open>rpc/base/rpc_rabbitmq.go\<close> over the AMQP
  library, the servers of \<^verbatim>\<open>amqp_server.go\<close> and \<^verbatim>\<open>redis_server.go\<close>, the pools of
  \<^verbatim>\<open>db/base/redis_factory.go\<close>, and a call over RabbitMQ from the caller to the handler and back.
\<close>

section \<open>The AMQP library\<close>

text \<open>
  What the agent calls of \<^verbatim>\<open>streadway/amqp\<close>, over the library's and the broker's state \<open>'w\<close>;
  connections and channels are numbered. \<open>l_close\<close> closes a connection, whoever does it.
\<close>

type_synonym ('a, 'w) lib_call = "'w \<Rightarrow> (string + 'a) \<times> 'w"

record 'w amqp_lib =
  l_Dial :: "(nat, 'w) lib_call"
  l_Channel :: "nat \<Rightarrow> (nat, 'w) lib_call"
  l_ExchangeDeclare :: "nat \<Rightarrow> string \<Rightarrow> string \<Rightarrow> (unit, 'w) lib_call"
  l_QueueDeclare :: "nat \<Rightarrow> string \<Rightarrow> (string, 'w) lib_call"
  l_QueueBind :: "nat \<Rightarrow> string \<Rightarrow> string \<Rightarrow> string \<Rightarrow> (unit, 'w) lib_call"
  l_Consume :: "nat \<Rightarrow> string \<Rightarrow> (unit, 'w) lib_call"
  l_Publish :: "nat \<Rightarrow> string \<Rightarrow> string \<Rightarrow> bytes \<Rightarrow> (unit, 'w) lib_call"
  l_close :: "nat \<Rightarrow> 'w \<Rightarrow> 'w"

type_synonym ('a, 's) call = "(string + 'a, 's) act"

definition lose_conn :: "'w amqp_lib \<Rightarrow> nat option \<Rightarrow> 'w \<Rightarrow> 'w" where
  "lose_conn L c w = (case c of None \<Rightarrow> w | Some c \<Rightarrow> l_close L c w)"

section \<open>The RabbitMQ agent\<close>

record rabbit_conf =
  rq_Exchange :: string
  rq_ExchangeType :: string
  rq_Queue :: string
  rq_BindingKey :: string

datatype server_type = TypeServer | TypeClient

record rabbit_agent =
  ra_wconn :: "nat option"
  ra_rconn :: "nat option"
  ra_wchannel :: "nat option"
  ra_rchannel :: "nat option"
  ra_callback_queue :: string
  ra_shutdown :: bool

type_synonym 'w rabbit = "rabbit_agent \<times> 'w"

definition in_world :: "('a, 'w) lib_call \<Rightarrow> ('a, 'w rabbit) call" where
  "in_world m s = (case m (snd s) of (r, w) \<Rightarrow> (Done r, (fst s, w)))"

definition keep :: "(rabbit_agent \<Rightarrow> rabbit_agent) \<Rightarrow> (unit, 'w rabbit) call" where
  "keep f s = (Done (Inr ()), (f (fst s), snd s))"

text \<open>\<^verbatim>\<open>x, err = m\<close>: the field is nil after an error.\<close>

definition assign ::
  "(nat option \<Rightarrow> rabbit_agent \<Rightarrow> rabbit_agent) \<Rightarrow> (nat, 'w rabbit) call \<Rightarrow> (nat, 'w rabbit) call" where
  "assign upd m =
     act_bind m (\<lambda>r s. (Done r, (upd (case r of Inl e \<Rightarrow> None | Inr c \<Rightarrow> Some c) (fst s), snd s)))"

definition WConnect :: "'w amqp_lib \<Rightarrow> (nat, 'w rabbit) call" where
  "WConnect L = assign (\<lambda>c a. a\<lparr>ra_wconn := c\<rparr>) (in_world (l_Dial L))"

text \<open>\<^verbatim>\<open>Channel\<close> of a nil connection panics.\<close>

definition channel_of :: "'w amqp_lib \<Rightarrow> nat option \<Rightarrow> (nat, 'w rabbit) call" where
  "channel_of L conn =
     (case conn of None \<Rightarrow> (\<lambda>s. (Panic ''nil pointer dereference'', s)) | Some c \<Rightarrow> in_world (l_Channel L c))"

definition RChannel :: "'w amqp_lib \<Rightarrow> (nat, 'w rabbit) call" where
  "RChannel L s =
     (if ra_shutdown (fst s) then (Done (Inl ''rabbit shutdown''), s)
      else case ra_rchannel (fst s) of
        Some c \<Rightarrow> (Done (Inr c), s)
      | None \<Rightarrow> assign (\<lambda>c a. a\<lparr>ra_rchannel := c\<rparr>) (channel_of L (ra_rconn (fst s))) s)"

definition WChannel :: "'w amqp_lib \<Rightarrow> (nat, 'w rabbit) call" where
  "WChannel L s =
     (if ra_shutdown (fst s) then (Done (Inl ''rabbit shutdown''), s)
      else case ra_wchannel (fst s) of
        Some c \<Rightarrow> (Done (Inr c), s)
      | None \<Rightarrow> assign (\<lambda>c a. a\<lparr>ra_wchannel := c\<rparr>) (channel_of L (ra_wconn (fst s))) s)"

definition ExchangeDeclare :: "'w amqp_lib \<Rightarrow> rabbit_conf \<Rightarrow> (unit, 'w rabbit) call" where
  "ExchangeDeclare L cf =
     try_bind (RChannel L) (\<lambda>c. in_world (l_ExchangeDeclare L c (rq_Exchange cf) (rq_ExchangeType cf)))"

text \<open>\<^verbatim>\<open>fmt.Errorf\<close> with a prefix.\<close>

definition wrap_error :: "string \<Rightarrow> ('a, 's) call \<Rightarrow> ('a, 's) call" where
  "wrap_error p m = act_bind m (\<lambda>r. give (case r of Inl e \<Rightarrow> Inl (p @ e) | Inr x \<Rightarrow> Inr x))"

definition CallbackQueue :: "'w amqp_lib \<Rightarrow> (string, 'w rabbit) call" where
  "CallbackQueue L s =
     (if ra_callback_queue (fst s) = [] then
        try_bind (RChannel L)
          (\<lambda>c. try_bind (wrap_error ''Queue Declare: '' (in_world (l_QueueDeclare L c [])))
            (\<lambda>q. try_bind (wrap_error ''Queue Consume: '' (in_world (l_Consume L c q)))
              (\<lambda>u. try_bind (keep (\<lambda>a. a\<lparr>ra_callback_queue := q\<rparr>)) (\<lambda>u. give (Inr q))))) s
      else (Done (Inr (ra_callback_queue (fst s))), s))"

definition Queue :: "'w amqp_lib \<Rightarrow> rabbit_conf \<Rightarrow> (unit, 'w rabbit) call" where
  "Queue L cf =
     try_bind (RChannel L)
       (\<lambda>c. try_bind (wrap_error ''Queue Declare: '' (in_world (l_QueueDeclare L c (rq_Queue cf))))
         (\<lambda>q. try_bind (wrap_error ''Queue Bind: '' (in_world (l_QueueBind L c q (rq_BindingKey cf) (rq_Exchange cf))))
           (\<lambda>u. wrap_error ''Queue Consume: '' (in_world (l_Consume L c q)))))"

text \<open>The results of the declarations are not looked at.\<close>

definition RConnect :: "'w amqp_lib \<Rightarrow> rabbit_conf \<Rightarrow> server_type \<Rightarrow> (unit, 'w rabbit) call" where
  "RConnect L cf ty =
     try_bind (assign (\<lambda>c a. a\<lparr>ra_rconn := c\<rparr>) (in_world (l_Dial L)))
       (\<lambda>c. case ty of
          TypeServer \<Rightarrow> act_bind (ExchangeDeclare L cf) (\<lambda>r. act_bind (Queue L cf) (\<lambda>r. give (Inr ())))
        | TypeClient \<Rightarrow> act_bind (CallbackQueue L) (\<lambda>r. give (Inr ())))"

definition new_agent :: rabbit_agent where
  "new_agent = \<lparr>ra_wconn = None, ra_rconn = None, ra_wchannel = None, ra_rchannel = None,
     ra_callback_queue = [], ra_shutdown = False\<rparr>"

definition NewRabbitAgent ::
  "'w amqp_lib \<Rightarrow> rabbit_conf \<Rightarrow> server_type \<Rightarrow> 'w \<Rightarrow> (string + unit) outcome \<times> 'w rabbit" where
  "NewRabbitAgent L cf ty w = try_bind (WConnect L) (\<lambda>c. RConnect L cf ty) (new_agent, w)"

definition ClientPublish :: "'w amqp_lib \<Rightarrow> rabbit_conf \<Rightarrow> bytes \<Rightarrow> (unit, 'w rabbit) call" where
  "ClientPublish L cf data =
     try_bind (WChannel L) (\<lambda>c. try_bind (CallbackQueue L)
       (\<lambda>q. in_world (l_Publish L c (rq_Exchange cf) (rq_BindingKey cf) data)))"

definition ServerPublish :: "'w amqp_lib \<Rightarrow> string \<Rightarrow> bytes \<Rightarrow> (unit, 'w rabbit) call" where
  "ServerPublish L q data = try_bind (WChannel L) (\<lambda>c. in_world (l_Publish L c [] q data))"

text \<open>\<^verbatim>\<open>Shutdown\<close> closes the channels with their connections.\<close>

definition Shutdown :: "'w amqp_lib \<Rightarrow> (unit, 'w rabbit) call" where
  "Shutdown L s =
     (case s of (a, w) \<Rightarrow> (Done (Inr ()), (a\<lparr>ra_shutdown := True\<rparr>,
        lose_conn L (ra_rconn a) (lose_conn L (ra_wconn a) w))))"

text \<open>The watchers, when a connection is lost; each dials again once.\<close>

definition on_w_disconnect :: "'w amqp_lib \<Rightarrow> (unit, 'w rabbit) call" where
  "on_w_disconnect L s =
     (if ra_shutdown (fst s) then (Done (Inr ()), s) else act_bind (WConnect L) (\<lambda>r. give (Inr ())) s)"

definition on_r_disconnect :: "'w amqp_lib \<Rightarrow> rabbit_conf \<Rightarrow> server_type \<Rightarrow> (unit, 'w rabbit) call" where
  "on_r_disconnect L cf ty s =
     (if ra_shutdown (fst s) then (Done (Inr ()), s) else act_bind (RConnect L cf ty) (\<lambda>r. give (Inr ())) s)"

section \<open>Servers\<close>

text \<open>
  What a server makes of a message, and of a result: the protobuf library is a parameter. The
  reply goes to the queue the request names; a result that does not marshal is an empty body.
\<close>

record server_codec =
  unmarshal_info :: "bytes \<Rightarrow> string + rpc_info"
  marshal_result :: "result_info \<Rightarrow> string + bytes"

record call_info =
  c_info :: rpc_info
  c_reply_to :: string

definition server_request :: "server_codec \<Rightarrow> bytes \<Rightarrow> call_info option" where
  "server_request sc d =
     (case unmarshal_info sc d of Inl e \<Rightarrow> None | Inr ci \<Rightarrow> Some \<lparr>c_info = ci, c_reply_to = ReplyTo ci\<rparr>)"

definition server_reply :: "server_codec \<Rightarrow> call_info \<Rightarrow> result_info \<Rightarrow> string \<times> bytes" where
  "server_reply sc call r =
     (c_reply_to call, case marshal_result sc r of Inl e \<Rightarrow> [] | Inr b \<Rightarrow> b)"

definition amqp_Callback ::
  "'w amqp_lib \<Rightarrow> server_codec \<Rightarrow> call_info \<Rightarrow> result_info \<Rightarrow> (unit, 'w rabbit) call" where
  "amqp_Callback L sc call r = (case server_reply sc call r of (q, b) \<Rightarrow> ServerPublish L q b)"

text \<open>
  The redis server: \<open>brpop\<close> gives an error, nothing or a message, and the requests that reach the
  server's channel until it is closed; \<open>lpush\<close> is the reply.
\<close>

datatype popped = Pop_error string | Pop_nothing | Popped bytes

fun redis_on_request :: "server_codec \<Rightarrow> (popped \<times> bool) list \<Rightarrow> call_info list" where
  "redis_on_request sc [] = []"
| "redis_on_request sc ((p, closed) # ps) =
     (let calls = (case p of Popped d \<Rightarrow> (case server_request sc d of None \<Rightarrow> [] | Some c \<Rightarrow> [c]) | _ \<Rightarrow> [])
      in calls @ (if closed then [] else redis_on_request sc ps))"

definition redis_Callback ::
  "server_codec \<Rightarrow> (string \<Rightarrow> bytes \<Rightarrow> string option) \<Rightarrow> call_info \<Rightarrow> result_info \<Rightarrow> string option" where
  "redis_Callback sc lpush call r = (case server_reply sc call r of (q, b) \<Rightarrow> lpush q b)"

section \<open>Database connections\<close>

text \<open>\<^verbatim>\<open>GetPool\<close>: one pool per url; \<open>n\<close> numbers the pools made. \<^verbatim>\<open>GetSession\<close> of
  the mongo factory dials. \<^verbatim>\<open>CloseAllPool\<close> closes and forgets the pools.\<close>

definition GetPool :: "string \<Rightarrow> (string, nat) beemap \<times> nat \<Rightarrow> nat \<times> (string, nat) beemap \<times> nat" where
  "GetPool url s =
     (case s of (m, n) \<Rightarrow>
        (case bm m url of Some p \<Rightarrow> (p, m, n) | None \<Rightarrow> (n, bee_set url n m, n + 1)))"

definition GetSession ::
  "string + nat \<Rightarrow> string \<Rightarrow> (string, nat) beemap \<Rightarrow> (string + nat) \<times> (string, nat) beemap" where
  "GetSession dial url m =
     (case bm m url of
        Some s \<Rightarrow> (Inr s, m)
      | None \<Rightarrow> (case dial of
           Inl e \<Rightarrow> (Inl (''dial mongodb fail: '' @ url @ '', '' @ e), m)
         | Inr s \<Rightarrow> (Inr s, bee_set url s m)))"

definition CloseAllPool :: "(string, nat) beemap \<Rightarrow> nat set \<times> (string, nat) beemap" where
  "CloseAllPool m = (ran (bm m), m\<lparr>bm := Map.empty\<rparr>)"

section \<open>A call over RabbitMQ\<close>

text \<open>
  The request of a caller whose channel is \<open>c\<close>: it is registered and published, the server takes
  it from its queue at \<open>now'\<close> and runs it at \<open>run_at\<close>, each reply is delivered to the client
  when it goes to the client's queue, and the caller takes the first result from its channel.
\<close>

definition deliver_reply ::
  "amqp_env \<Rightarrow> string \<Rightarrow> string \<times> bytes \<Rightarrow> (local_table \<times> chans) went \<Rightarrow> (local_table \<times> chans) went" where
  "deliver_reply env q rep s =
     (if fst rep = q then went_bind s (amqp_on_response env (snd rep)) else s)"

definition first_result :: "nat \<Rightarrow> (local_table \<times> chans) went \<Rightarrow> result_info option" where
  "first_result c s =
     (case s of Went (m, H) \<Rightarrow> (case rc_buf (H c) of [] \<Rightarrow> None | r # rs \<Rightarrow> Some r) | _ \<Rightarrow> None)"

definition remote_deliver ::
  "amqp_env \<Rightarrow> server_codec \<Rightarrow> 'a dyn json \<Rightarrow> 'a dyn serializer list option \<Rightarrow> 'a dyn function_table
    \<Rightarrow> int \<Rightarrow> int \<Rightarrow> nat \<Rightarrow> local_table \<times> chans \<Rightarrow> via \<Rightarrow> rpc_info \<Rightarrow> string option \<times> result_info option" where
  "remote_deliver env sc j apps fs now' run_at c s v ci =
     (case amqp_Call env False ci c (fst s) of
        (Some e, m) \<Rightarrow> (Some e, None)
      | (None, m) \<Rightarrow>
          (case callback_queue env of
             Inl e \<Rightarrow> (None, None)
           | Inr q \<Rightarrow>
               (case marshal_info env (ci\<lparr>ReplyTo := q\<rparr>) of
                  Inl e \<Rightarrow> (None, None)
                | Inr b \<Rightarrow>
                    (case server_request sc b of
                       None \<Rightarrow> (None, None)
                     | Some call \<Rightarrow>
                         (None, first_result c
                           (fold (\<lambda>r. deliver_reply env q (server_reply sc call r))
                             (on_callback_handle (c_info call) True
                               (replies (on_call_handle j apps fs now' run_at (c_info call))))
                             (Went (m, snd s))))))))"

section \<open>Ending\<close>

text \<open>
  \<^verbatim>\<open>Done\<close> of the AMQP client ends the agent and then its calls, in the loop of the local client; the AMQP
  server's \<^verbatim>\<open>StopConsume\<close> does nothing. The redis server closes the connection it waits on, if it has one:
  \<open>close_conn\<close> is what closing it answers.
\<close>

definition amqp_Done ::
  "'w amqp_lib \<Rightarrow> string list \<Rightarrow> 'w rabbit \<Rightarrow> local_table \<times> chans \<Rightarrow> 'w rabbit \<times> (local_table \<times> chans) went" where
  "amqp_Done L order s t = (snd (Shutdown L s), local_Done order t)"

definition amqp_StopConsume :: "'w rabbit \<Rightarrow> string option \<times> 'w rabbit" where
  "amqp_StopConsume s = (None, s)"

record redis_server =
  rs_closed :: bool
  rs_has_conn :: bool

definition redis_StopConsume :: "string option \<Rightarrow> redis_server \<Rightarrow> string option \<times> redis_server" where
  "redis_StopConsume close_conn s = (if rs_has_conn s then close_conn else None, s\<lparr>rs_closed := True\<rparr>)"

text \<open>A call over redis without an answer; a closed client sends it too.\<close>

definition redis_CallNR :: "amqp_env \<Rightarrow> rpc_info \<Rightarrow> string option" where
  "redis_CallNR env ci = (case marshal_info env ci of Inl e \<Rightarrow> Some e | Inr b \<Rightarrow> publish env b)"

end
