(* ===== verification/Lodos_Transport_Props.thy ===== *)
theory Lodos_Transport_Props
  imports Lodos_Transport
begin

text \<open>
  A call over RabbitMQ gives the caller what a local call gives; and the agent's channels outlive
  their connections: after a reconnection it neither sends nor consumes.
\<close>

section \<open>A call over RabbitMQ\<close>

text \<open>Messages that the protobuf library carries.\<close>

definition carries_request :: "amqp_env \<Rightarrow> server_codec \<Rightarrow> string \<Rightarrow> rpc_info \<Rightarrow> bool" where
  "carries_request env sc q ci \<longleftrightarrow> (\<exists>b. marshal_info env (ci\<lparr>ReplyTo := q\<rparr>) = Inr b
     \<and> unmarshal_info sc b = Inr (ci\<lparr>ReplyTo := q\<rparr>) \<and> publish env b = None)"

definition carries_result :: "amqp_env \<Rightarrow> server_codec \<Rightarrow> result_info \<Rightarrow> bool" where
  "carries_result env sc r \<longleftrightarrow> (\<exists>b. marshal_result sc r = Inr b \<and> unmarshal_result env b = Inr r)"

lemma remote_deliver_reply:
  assumes "callback_queue env = Inr q" "carries_request env sc q ci" "Reply ci"
    and "on_call_handle j apps fs now' run_at ci = reply_with r" "res_cid r = Cid ci" "carries_result env sc r"
    and "bee_free m" "H c = new_chan"
  shows "remote_deliver env sc j apps fs now' run_at c (m, H) v ci = (None, Some r)"
proof -
  define ci' where "ci' = ci\<lparr>ReplyTo := q\<rparr>"
  define m' where "m' = bee_set (Cid ci) \<lparr>cc_cid = Cid ci, cc_timeout = Expired ci, cc_chan = c\<rparr> m"
  from assms(2) obtain b where b: "marshal_info env ci' = Inr b" "unmarshal_info sc b = Inr ci'" "publish env b = None"
    by (auto simp: carries_request_def ci'_def)
  from assms(6) obtain b' where b': "marshal_result sc r = Inr b'" "unmarshal_result env b' = Inr r"
    by (auto simp: carries_result_def)
  have call: "amqp_Call env False ci c m = (None, m')"
    using assms(1) b(1,3) by (simp add: amqp_Call_def Let_def m'_def ci'_def)
  have req: "server_request sc b = Some \<lparr>c_info = ci', c_reply_to = q\<rparr>"
    using b(2) by (simp add: server_request_def ci'_def)
  have "bm m' (Cid ci) = Some \<lparr>cc_cid = Cid ci, cc_timeout = Expired ci, cc_chan = c\<rparr>"
    using assms(7) by (simp add: m'_def store_simps)
  then have resp: "amqp_on_response env b' (m', H) = Went (bee_delete (Cid ci) m', H(c := \<lparr>rc_buf = [r], rc_closed = True\<rparr>))"
    using b'(2) assms(5,8) by (simp add: amqp_on_response_def answer_new)
  have run: "on_callback_handle ci' True (replies (on_call_handle j apps fs now' run_at ci')) = [r]"
    using assms(3,4) by (simp add: on_callback_handle_def reply_with_def ci'_def)
  show ?thesis
    using assms(1) call req run resp b(1) b'(1)
    by (simp add: remote_deliver_def server_reply_def deliver_reply_def first_result_def flip: ci'_def)
qed

text \<open>
  C32: A call over RabbitMQ gives the caller what the same call gives in one process: the request
  travels through the client's table, the broker and the server's queue to the handler, and its
  one reply back to the channel of this call - for messages that the protobuf library and the
  broker carry, a handler in time, and a client with any calls pending on other channels.
\<close>

theorem remote_call_roundtrip:
  assumes "pick conn = Some ViaRemote" "fs fn = Some f" "is_func f" "num_in f = length ps"
    and "list_all (carries_value (ce_json env) (ce_apps env)) ps"
    and "list_all (\<lambda>p. clone p = p \<and> p \<noteq> GNil) ps"
    and "\<forall>k < length ps. assignable f k (wire (ps ! k))"
    and "body f (map wire ps) = Yields d (rs @ [e])" "0 \<le> d"
    and "list_all (carries_value (ce_json env) (ce_apps env)) rs" "result_error e = Some (code, txt)"
    and "now' div 1000 div 1000 \<le> (now + RpcExpired env * 1000000000) div 1000000"
    and "run_at + d < (now + RpcExpired env * 1000000000) div 1000000 * 1000000"
    and "bee_free m" "H c = new_chan" "callback_queue aenv = Inr q"
    and request: "\<And>ts bs. encode_params env clone 0 ps = Inr (ts, bs) \<Longrightarrow>
      carries_request aenv sc q (make_info env now cid True fn ts bs)"
    and result: "\<And>ts bs r. encode_params env clone 0 ps = Inr (ts, bs) \<Longrightarrow>
      on_call_handle (ce_json env) (ce_apps env) fs now' run_at (make_info env now cid True fn ts bs) = reply_with r \<Longrightarrow>
      carries_result aenv sc r"
  shows "Call env conn (remote_deliver aenv sc (ce_json env) (ce_apps env) fs now' run_at c (m, H)) clone now cid fn ps
    = Done (if txt = [] then Inr (map wire rs) else Inl (CodeError code txt))"
proof -
  obtain ts bs ts' bs' where h: "encode_params env clone 0 ps = Inr (ts, bs)"
      "on_call_handle (ce_json env) (ce_apps env) fs now' run_at (make_info env now cid True fn ts bs)
        = reply_with (NewResultInfo cid code txt ts' bs')"
      "\<And>closed. resolve env closed (Some (NewResultInfo cid code txt ts' bs'))
        = Done (if txt = [] then Inr (map wire rs) else Inl (CodeError code txt))"
    using call_handled [where fs = fs and f = f and env = env and clone = clone and d = d and rs = rs and e = e
        and now' = now' and run_at = run_at and cid = cid, OF assms(2-13)] by metis
  have "remote_deliver aenv sc (ce_json env) (ce_apps env) fs now' run_at c (m, H) ViaRemote
      (make_info env now cid True fn ts bs) = (None, Some (NewResultInfo cid code txt ts' bs'))"
  proof (rule remote_deliver_reply)
    show "carries_request aenv sc q (make_info env now cid True fn ts bs)" by (rule request [OF h(1)])
    show "carries_result aenv sc (NewResultInfo cid code txt ts' bs')" by (rule result [OF h(1,2)])
  qed (use assms(14-16) h(2) in \<open>simp_all add: make_info_def NewResultInfo_def\<close>)
  then show ?thesis using h(1,3) assms(1) by (simp add: Call_def CallArgs_def)
qed

text \<open>The messages of one call of the demonstration handler, and a library that carries them.\<close>

definition demo_conn :: rpc_conn where
  "demo_conn = \<lparr>local_client = False, remote_client = True, redis_client = False\<rparr>"

definition demo_info :: rpc_info where
  "demo_info = make_info demo_env 1000000 ''id'' True ''f'' [T_STRING, T_STRING] [bytes_of_string ''a'', bytes_of_string ''b'']"

definition demo_result :: result_info where
  "demo_result = NewResultInfo ''id'' 7 (error_text 7 ''bad'') [T_STRING, T_STRING] [bytes_of_string ''b'', bytes_of_string ''a'']"

definition demo_amqp :: amqp_env where
  "demo_amqp = \<lparr>callback_queue = Inr ''q'', marshal_info = (\<lambda>ci. Inr [1]), publish = (\<lambda>b. None),
     unmarshal_result = (\<lambda>b. Inr demo_result)\<rparr>"

definition demo_server_codec :: server_codec where
  "demo_server_codec = \<lparr>unmarshal_info = (\<lambda>b. Inr (demo_info\<lparr>ReplyTo := ''q''\<rparr>)), marshal_result = (\<lambda>r. Inr [2])\<rparr>"

lemma demo_encoded: "encode_params demo_env id 0 [GString ''a'', GString ''b'']
    = Inr ([T_STRING, T_STRING], [bytes_of_string ''a'', bytes_of_string ''b''])"
  by (simp add: ArgsTypeAnd2Bytes_def)

lemma demo_handled:
  "on_call_handle (ce_json demo_env) (ce_apps demo_env) [''f'' \<mapsto> demo_func] 2000000 2000000 demo_info = reply_with demo_result"
  by (simp add: on_call_handle_def runFunc_def run_body_def demo_info_def make_info_def demo_func_def demo_env_def
      decode_tags codec_simps call_args_def reflect_call_def finish_results_def ArgsTypeAnd2Bytes_def result_error_def
      int32_def demo_result_def All_less_Suc)

theorem remote_call_roundtrip_witness:
  "Call demo_env demo_conn (remote_deliver demo_amqp demo_server_codec (ce_json demo_env) (ce_apps demo_env)
        [''f'' \<mapsto> demo_func] 2000000 2000000 0 (NewBeeMap, \<lambda>c. new_chan))
      id 1000000 ''id'' ''f'' [GString ''a'', GString ''b'']
    = Done (if error_text 7 ''bad'' = [] then Inr (map wire [GString ''b'', GString ''a''])
        else Inl (CodeError 7 (error_text 7 ''bad'')))"
proof (rule remote_call_roundtrip [where f = demo_func and d = 1000 and e = "GApp (CodeError 7 ''bad'')" and q = "''q''"])
  fix ts bs
  assume enc: "encode_params demo_env id 0 [GString ''a'', GString ''b''] = Inr (ts, bs)"
  then have info: "make_info demo_env 1000000 ''id'' True ''f'' ts bs = demo_info"
    unfolding demo_encoded by (simp add: demo_info_def)
  then show "carries_request demo_amqp demo_server_codec ''q'' (make_info demo_env 1000000 ''id'' True ''f'' ts bs)"
    by (simp add: carries_request_def demo_amqp_def demo_server_codec_def)
  fix r
  assume "on_call_handle (ce_json demo_env) (ce_apps demo_env) [''f'' \<mapsto> demo_func] 2000000 2000000
      (make_info demo_env 1000000 ''id'' True ''f'' ts bs) = reply_with r"
  then have "r = demo_result" by (simp add: info demo_handled reply_with_def)
  then show "carries_result demo_amqp demo_server_codec r"
    by (simp add: carries_result_def demo_amqp_def demo_server_codec_def)
qed (simp_all add: demo_func_def demo_env_def result_error_def int32_def wire_def demo_conn_def pick_def demo_amqp_def
    bee_free_def NewBeeMap_def)

section \<open>After a reconnection\<close>

text \<open>
  What the agent relies on of the library, as its documentation has it: \<open>conn_of\<close> is the
  connection of a channel, \<open>dead\<close> a connection that is closed, \<open>traffic\<close> what the agent sent and
  subscribed to. Every method of a channel of a closed connection returns an error and does
  nothing; dialling makes a connection and nothing else; a closed connection stays closed.
\<close>

definition amqp_laws ::
  "'w amqp_lib \<Rightarrow> (nat \<Rightarrow> nat) \<Rightarrow> (nat \<Rightarrow> 'w \<Rightarrow> bool) \<Rightarrow> ('w \<Rightarrow> 't) \<Rightarrow> bool" where
  "amqp_laws L conn_of dead traffic \<longleftrightarrow>
     (\<forall>ch w. dead (conn_of ch) w \<longrightarrow>
        (\<forall>x y. \<exists>e. l_ExchangeDeclare L ch x y w = (Inl e, w))
      \<and> (\<forall>q. \<exists>e. l_QueueDeclare L ch q w = (Inl e, w))
      \<and> (\<forall>x k b. \<exists>e. l_Publish L ch x k b w = (Inl e, w)))
   \<and> (\<forall>w. traffic (snd (l_Dial L w)) = traffic w \<and> (\<forall>c. dead c w \<longrightarrow> dead c (snd (l_Dial L w))))
   \<and> (\<forall>c w. traffic (l_close L c w) = traffic w \<and> dead c (l_close L c w)
       \<and> (\<forall>c'. dead c' w \<longrightarrow> dead c' (l_close L c w)))"

lemma dead_channel:
  assumes "amqp_laws L conn_of dead traffic" "dead (conn_of ch) w"
  shows "\<exists>e. l_ExchangeDeclare L ch x y w = (Inl e, w)" and "\<exists>e. l_QueueDeclare L ch q w = (Inl e, w)"
    and "\<exists>e. l_Publish L ch x k b w = (Inl e, w)"
  using assms unfolding amqp_laws_def by blast+

lemma dial_keeps:
  assumes "amqp_laws L conn_of dead traffic"
  shows "traffic (snd (l_Dial L w)) = traffic w" and "dead c w \<Longrightarrow> dead c (snd (l_Dial L w))"
  using assms unfolding amqp_laws_def by blast+

lemma close_keeps:
  assumes "amqp_laws L conn_of dead traffic"
  shows "traffic (l_close L c w) = traffic w" and "dead c (l_close L c w)" and "dead c' w \<Longrightarrow> dead c' (l_close L c w)"
  using assms unfolding amqp_laws_def by blast+

text \<open>
  What happens to an agent: publishing, the loss of a connection with what the watcher then
  does, and \<^verbatim>\<open>Shutdown\<close>.
\<close>

datatype rabbit_event = Publish_call bytes | Publish_reply string bytes | Lose_w | Lose_r | Shut

fun rabbit_perform :: "'w amqp_lib \<Rightarrow> rabbit_conf \<Rightarrow> server_type \<Rightarrow> rabbit_event \<Rightarrow> 'w rabbit \<Rightarrow> 'w rabbit" where
  "rabbit_perform L cf ty (Publish_call b) s = snd (ClientPublish L cf b s)"
| "rabbit_perform L cf ty (Publish_reply q b) s = snd (ServerPublish L q b s)"
| "rabbit_perform L cf ty Lose_w s = snd (on_w_disconnect L (fst s, lose_conn L (ra_wconn (fst s)) (snd s)))"
| "rabbit_perform L cf ty Lose_r s = snd (on_r_disconnect L cf ty (fst s, lose_conn L (ra_rconn (fst s)) (snd s)))"
| "rabbit_perform L cf ty Shut s = snd (Shutdown L s)"

text \<open>Both channels belong to lost connections.\<close>

definition stale :: "(nat \<Rightarrow> nat) \<Rightarrow> (nat \<Rightarrow> 'w \<Rightarrow> bool) \<Rightarrow> 'w rabbit \<Rightarrow> bool" where
  "stale conn_of dead s \<longleftrightarrow> (\<exists>ch. ra_wchannel (fst s) = Some ch \<and> dead (conn_of ch) (snd s))
     \<and> (\<exists>ch. ra_rchannel (fst s) = Some ch \<and> dead (conn_of ch) (snd s))"

definition same_traffic :: "('w \<Rightarrow> 't) \<Rightarrow> 'w rabbit \<Rightarrow> 'w rabbit \<Rightarrow> bool" where
  "same_traffic traffic s s' \<longleftrightarrow> traffic (snd s') = traffic (snd s)"

lemma stale_RChannel:
  assumes "stale conn_of dead s"
  shows "RChannel L s = (Done (Inl ''rabbit shutdown''), s)
    \<or> (\<exists>c. RChannel L s = (Done (Inr c), s) \<and> dead (conn_of c) (snd s))"
  using assms by (auto simp: stale_def RChannel_def)

lemma stale_WChannel:
  assumes "stale conn_of dead s"
  shows "WChannel L s = (Done (Inl ''rabbit shutdown''), s)
    \<or> (\<exists>c. WChannel L s = (Done (Inr c), s) \<and> dead (conn_of c) (snd s))"
  using assms by (auto simp: stale_def WChannel_def)

lemma in_world_fails: "\<exists>e. m (snd s) = (Inl e, snd s) \<Longrightarrow> \<exists>e. in_world m s = (Done (Inl e), s)"
  by (auto simp: in_world_def)

lemma try_fails: "\<exists>e. m s = (Done (Inl e), s) \<Longrightarrow> \<exists>e. try_bind m f s = (Done (Inl e), s)"
  by (auto simp: try_bind_def act_bind_def give_def)

lemma try_goes: "m s = (Done (Inr x), s) \<Longrightarrow> try_bind m f s = f x s"
  by (simp add: try_bind_def act_bind_def)

lemma wrap_fails: "\<exists>e. m s = (Done (Inl e), s) \<Longrightarrow> \<exists>e. wrap_error p m s = (Done (Inl e), s)"
  by (auto simp: wrap_error_def act_bind_def give_def)

lemma stale_R:
  assumes "stale conn_of dead s" "\<And>c. dead (conn_of c) (snd s) \<Longrightarrow> \<exists>e. f c s = (Done (Inl e), s)"
  shows "\<exists>e. try_bind (RChannel L) f s = (Done (Inl e), s)"
  using stale_RChannel [OF assms(1), of L] assms(2) by (auto simp: try_goes intro: try_fails)

lemma stale_W:
  assumes "stale conn_of dead s" "\<And>c. dead (conn_of c) (snd s) \<Longrightarrow> \<exists>e. f c s = (Done (Inl e), s)"
  shows "\<exists>e. try_bind (WChannel L) f s = (Done (Inl e), s)"
  using stale_WChannel [OF assms(1), of L] assms(2) by (auto simp: try_goes intro: try_fails)

lemma stale_CallbackQueue:
  assumes "amqp_laws L conn_of dead traffic" "stale conn_of dead s"
  shows "(\<exists>e. CallbackQueue L s = (Done (Inl e), s)) \<or> (\<exists>q. CallbackQueue L s = (Done (Inr q), s))"
proof (cases "ra_callback_queue (fst s) = []")
  case True
  have "\<exists>e. CallbackQueue L s = (Done (Inl e), s)"
    unfolding CallbackQueue_def if_P [OF True]
    by (intro stale_R [OF assms(2)] try_fails wrap_fails in_world_fails dead_channel [OF assms(1)])
  then show ?thesis ..
qed (simp add: CallbackQueue_def)

lemma stale_publish:
  assumes "amqp_laws L conn_of dead traffic" "stale conn_of dead s"
  shows "\<exists>e. ClientPublish L cf b s = (Done (Inl e), s)" and "\<exists>e. ServerPublish L q b s = (Done (Inl e), s)"
proof -
  have pub: "\<exists>e. in_world (l_Publish L c x k b) s = (Done (Inl e), s)" if "dead (conn_of c) (snd s)" for c x k b
    by (intro in_world_fails dead_channel [OF assms(1) that])
  show "\<exists>e. ServerPublish L q b s = (Done (Inl e), s)"
    unfolding ServerPublish_def by (intro stale_W [OF assms(2)] pub)
  have "\<exists>e. try_bind (CallbackQueue L) (\<lambda>q. in_world (l_Publish L c (rq_Exchange cf) (rq_BindingKey cf) b)) s
      = (Done (Inl e), s)" if "dead (conn_of c) (snd s)" for c
    using stale_CallbackQueue [OF assms] pub [OF that] by (auto simp: try_goes intro: try_fails)
  then show "\<exists>e. ClientPublish L cf b s = (Done (Inl e), s)"
    unfolding ClientPublish_def by (intro stale_W [OF assms(2)])
qed

lemma stale_declare:
  assumes "amqp_laws L conn_of dead traffic" "stale conn_of dead s"
  shows "\<exists>e. ExchangeDeclare L cf s = (Done (Inl e), s)" and "\<exists>e. Queue L cf s = (Done (Inl e), s)"
proof -
  show "\<exists>e. ExchangeDeclare L cf s = (Done (Inl e), s)" unfolding ExchangeDeclare_def
    by (intro stale_R [OF assms(2)] in_world_fails dead_channel [OF assms(1)])
  show "\<exists>e. Queue L cf s = (Done (Inl e), s)" unfolding Queue_def
    by (intro stale_R [OF assms(2)] try_fails wrap_fails in_world_fails dead_channel [OF assms(1)])
qed

text \<open>Dialling again changes neither the channels nor the dead connections.\<close>

lemma dial_stale:
  assumes "amqp_laws L conn_of dead traffic" "stale conn_of dead s"
    and "\<And>c a. ra_wchannel (upd c a) = ra_wchannel a \<and> ra_rchannel (upd c a) = ra_rchannel a"
  shows "\<exists>r s'. assign upd (in_world (l_Dial L)) s = (Done r, s') \<and> stale conn_of dead s' \<and> same_traffic traffic s s'"
proof -
  obtain r w where d: "l_Dial L (snd s) = (r, w)" by force
  have "stale conn_of dead (upd c (fst s), w)" for c
    using assms(2,3) dial_keeps(2) [OF assms(1), of _ "snd s"] d by (auto simp: stale_def)
  moreover have "same_traffic traffic s (upd c (fst s), w)" for c
    using dial_keeps(1) [OF assms(1), of "snd s"] d by (simp add: same_traffic_def)
  ultimately show ?thesis using d by (auto simp: assign_def act_bind_def in_world_def)
qed

lemma connect_stale:
  assumes "amqp_laws L conn_of dead traffic" "stale conn_of dead s"
  shows "stale conn_of dead (snd (RConnect L cf ty s)) \<and> same_traffic traffic s (snd (RConnect L cf ty s))"
    and "stale conn_of dead (snd (WConnect L s)) \<and> same_traffic traffic s (snd (WConnect L s))"
proof -
  obtain r s' where d: "assign (\<lambda>c a. a\<lparr>ra_rconn := c\<rparr>) (in_world (l_Dial L)) s = (Done r, s')"
      "stale conn_of dead s'" "same_traffic traffic s s'"
    using dial_stale [OF assms, of "\<lambda>c a. a\<lparr>ra_rconn := c\<rparr>"] by fastforce
  note after = stale_declare(1) [OF assms(1) d(2), of cf] stale_declare(2) [OF assms(1) d(2), of cf]
    stale_CallbackQueue [OF assms(1) d(2)]
  show "stale conn_of dead (snd (RConnect L cf ty s)) \<and> same_traffic traffic s (snd (RConnect L cf ty s))"
    using d after by (auto simp: RConnect_def try_bind_def act_bind_def give_def split: sum.split server_type.split)
  show "stale conn_of dead (snd (WConnect L s)) \<and> same_traffic traffic s (snd (WConnect L s))"
    using dial_stale [OF assms, of "\<lambda>c a. a\<lparr>ra_wconn := c\<rparr>"] by (auto simp: WConnect_def)
qed

lemma lose_stale:
  assumes "amqp_laws L conn_of dead traffic" "stale conn_of dead s"
  shows "stale conn_of dead (fst s, lose_conn L c (snd s)) \<and> same_traffic traffic s (fst s, lose_conn L c (snd s))"
  using assms(2) close_keeps [OF assms(1)]
  by (auto simp: stale_def same_traffic_def lose_conn_def split: option.split)

lemma same_traffic_trans: "same_traffic traffic s t \<Longrightarrow> same_traffic traffic t u \<Longrightarrow> same_traffic traffic s u"
  by (simp add: same_traffic_def)

lemma snd_then_ignore: "snd (act_bind m (\<lambda>r. give x) s) = snd (m s)"
  by (simp add: act_bind_def give_def split: prod.split outcome.split)

lemma watcher_stale:
  assumes "amqp_laws L conn_of dead traffic" "stale conn_of dead s"
  shows "stale conn_of dead (snd (on_w_disconnect L s)) \<and> same_traffic traffic s (snd (on_w_disconnect L s))"
    and "stale conn_of dead (snd (on_r_disconnect L cf ty s)) \<and> same_traffic traffic s (snd (on_r_disconnect L cf ty s))"
  using assms(2) connect_stale(1) [OF assms, of cf ty] connect_stale(2) [OF assms]
  by (simp_all add: on_w_disconnect_def on_r_disconnect_def snd_then_ignore same_traffic_def)

lemma Shutdown_stale:
  assumes "amqp_laws L conn_of dead traffic" "stale conn_of dead s"
  shows "stale conn_of dead (snd (Shutdown L s)) \<and> same_traffic traffic s (snd (Shutdown L s))"
  using assms(2) close_keeps [OF assms(1)]
  by (cases s) (auto simp: Shutdown_def stale_def same_traffic_def lose_conn_def split: option.split)

lemma perform_stale:
  assumes "amqp_laws L conn_of dead traffic" "stale conn_of dead s"
  shows "stale conn_of dead (rabbit_perform L cf ty ev s) \<and> same_traffic traffic s (rabbit_perform L cf ty ev s)"
proof (cases ev)
  case (Publish_call b)
  then show ?thesis using stale_publish(1) [OF assms, of cf b] assms(2) by (auto simp: same_traffic_def)
next
  case (Publish_reply q b)
  then show ?thesis using stale_publish(2) [OF assms, of q b] assms(2) by (auto simp: same_traffic_def)
next
  case Lose_w
  with lose_stale [OF assms, of "ra_wconn (fst s)"] watcher_stale(1) [OF assms(1)] show ?thesis
    by (auto intro: same_traffic_trans)
next
  case Lose_r
  with lose_stale [OF assms, of "ra_rconn (fst s)"] watcher_stale(2) [OF assms(1)] show ?thesis
    by (auto intro: same_traffic_trans)
qed (simp add: Shutdown_stale [OF assms])

lemma run_stale:
  assumes "amqp_laws L conn_of dead traffic" "stale conn_of dead s"
  shows "stale conn_of dead (fold (rabbit_perform L cf ty) evs s)
    \<and> same_traffic traffic s (fold (rabbit_perform L cf ty) evs s)"
  using assms(2)
proof (induction evs arbitrary: s)
  case (Cons ev evs)
  show ?case
    using Cons.IH [of "rabbit_perform L cf ty ev s"] perform_stale [OF assms(1) Cons.prems, of cf ty ev]
      same_traffic_trans by (metis fold_simps(2))
qed (simp add: same_traffic_def)

text \<open>An agent in use: its channels are channels of its connections.\<close>

definition in_use :: "(nat \<Rightarrow> nat) \<Rightarrow> rabbit_agent \<Rightarrow> bool" where
  "in_use conn_of a \<longleftrightarrow> (\<exists>ch. ra_wchannel a = Some ch \<and> ra_wconn a = Some (conn_of ch))
     \<and> (\<exists>ch. ra_rchannel a = Some ch \<and> ra_rconn a = Some (conn_of ch))"

text \<open>
  An agent does not recover from the loss of its connections, although it dials again: with
  both lost, whatever is published, lost and dialled afterwards, and whatever the broker answers,
  every publication fails, no message is sent and nothing is subscribed to, because the agent
  keeps using the channels of the lost connections.
\<close>

theorem reconnection_does_not_recover:
  assumes "amqp_laws L conn_of dead traffic" "in_use conn_of (fst s)"
    and "lost = (fst s, lose_conn L (ra_rconn (fst s)) (lose_conn L (ra_wconn (fst s)) (snd s)))"
    and "t = fold (rabbit_perform L cf ty) evs (snd (on_r_disconnect L cf ty (snd (on_w_disconnect L lost))))"
  shows "traffic (snd t) = traffic (snd s) \<and> (\<exists>e. fst (ClientPublish L cf b t) = Done (Inl e))
    \<and> (\<exists>e. fst (ServerPublish L q b t) = Done (Inl e))"
proof -
  have st: "stale conn_of dead lost" "same_traffic traffic s lost"
    using assms(2) close_keeps [OF assms(1)]
    by (auto simp: assms(3) in_use_def stale_def lose_conn_def same_traffic_def)
  define u where "u = snd (on_w_disconnect L lost)"
  have u: "stale conn_of dead u" "same_traffic traffic lost u"
    using watcher_stale(1) [OF assms(1) st(1)] by (simp_all add: u_def)
  define v where "v = snd (on_r_disconnect L cf ty u)"
  have v: "stale conn_of dead v" "same_traffic traffic u v"
    using watcher_stale(2) [OF assms(1) u(1), of cf ty] by (simp_all add: v_def)
  have "t = fold (rabbit_perform L cf ty) evs v" by (simp add: assms(4) u_def v_def)
  then have t: "stale conn_of dead t" "same_traffic traffic v t"
    using run_stale [OF assms(1) v(1), of cf ty evs] by simp_all
  show ?thesis
    using st(2) u(2) v(2) t(2) stale_publish(1) [OF assms(1) t(1), of cf b] stale_publish(2) [OF assms(1) t(1), of q b]
    by (auto simp: same_traffic_def)
qed

text \<open>
  A broker for the witness: connections are numbered, a channel has the number of its connection,
  what was published and subscribed to is recorded.
\<close>

record demo_broker =
  db_count :: nat
  db_dead :: "nat set"
  db_sent :: "(string \<times> string \<times> bytes) list"
  db_consumers :: "(nat \<times> string) list"

definition on_open :: "nat \<Rightarrow> 'a \<Rightarrow> (demo_broker \<Rightarrow> demo_broker) \<Rightarrow> ('a, demo_broker) lib_call" where
  "on_open c x f w = (if c \<in> db_dead w then (Inl ''channel/connection is not open'', w) else (Inr x, f w))"

definition demo_lib :: "demo_broker amqp_lib" where
  "demo_lib = \<lparr>l_Dial = (\<lambda>w. (Inr (db_count w), w\<lparr>db_count := db_count w + 1\<rparr>)),
     l_Channel = (\<lambda>c. on_open c c (\<lambda>w. w)),
     l_ExchangeDeclare = (\<lambda>c x y. on_open c () (\<lambda>w. w)),
     l_QueueDeclare = (\<lambda>c q. on_open c (if q = [] then ''amq.gen-1'' else q) (\<lambda>w. w)),
     l_QueueBind = (\<lambda>c q k x. on_open c () (\<lambda>w. w)),
     l_Consume = (\<lambda>c q. on_open c () (\<lambda>w. w\<lparr>db_consumers := db_consumers w @ [(c, q)]\<rparr>)),
     l_Publish = (\<lambda>c x k b. on_open c () (\<lambda>w. w\<lparr>db_sent := db_sent w @ [(x, k, b)]\<rparr>)),
     l_close = (\<lambda>c w. w\<lparr>db_dead := insert c (db_dead w)\<rparr>)\<rparr>"

lemma demo_laws: "amqp_laws demo_lib (\<lambda>c. c) (\<lambda>c w. c \<in> db_dead w) (\<lambda>w. (db_sent w, db_consumers w))"
  by (simp add: amqp_laws_def demo_lib_def on_open_def)

text \<open>An agent of a server that has published one reply, loses its connections and is used again.\<close>

definition demo_rabbit_conf :: rabbit_conf where
  "demo_rabbit_conf = \<lparr>rq_Exchange = ''x'', rq_ExchangeType = ''direct'', rq_Queue = ''gate1'', rq_BindingKey = ''k''\<rparr>"

definition demo_rabbit :: "demo_broker rabbit" where
  "demo_rabbit = snd (ServerPublish demo_lib ''q'' [1] (snd (NewRabbitAgent demo_lib demo_rabbit_conf TypeServer
     \<lparr>db_count = 0, db_dead = {}, db_sent = [], db_consumers = []\<rparr>)))"

lemma demo_rabbit: "demo_rabbit =
  (\<lparr>ra_wconn = Some 0, ra_rconn = Some 1, ra_wchannel = Some 0, ra_rchannel = Some 1, ra_callback_queue = [], ra_shutdown = False\<rparr>,
   \<lparr>db_count = 2, db_dead = {}, db_sent = [([], ''q'', [1])], db_consumers = [(1, ''gate1'')]\<rparr>)"
  by code_simp

definition lost_rabbit :: "demo_broker rabbit" where
  "lost_rabbit = (fst demo_rabbit,
     lose_conn demo_lib (ra_rconn (fst demo_rabbit)) (lose_conn demo_lib (ra_wconn (fst demo_rabbit)) (snd demo_rabbit)))"

definition redialled_rabbit :: "demo_broker rabbit" where
  "redialled_rabbit = fold (rabbit_perform demo_lib demo_rabbit_conf TypeServer) [Publish_reply ''q'' [2]]
     (snd (on_r_disconnect demo_lib demo_rabbit_conf TypeServer (snd (on_w_disconnect demo_lib lost_rabbit))))"

lemma reconnection_does_not_recover_witness:
  "(db_sent (snd redialled_rabbit), db_consumers (snd redialled_rabbit)) = (db_sent (snd demo_rabbit), db_consumers (snd demo_rabbit))
    \<and> (\<exists>e. fst (ClientPublish demo_lib demo_rabbit_conf [3] redialled_rabbit) = Done (Inl e))
    \<and> (\<exists>e. fst (ServerPublish demo_lib ''q'' [3] redialled_rabbit) = Done (Inl e))"
  by (rule reconnection_does_not_recover [OF demo_laws _ lost_rabbit_def redialled_rabbit_def])
    (simp add: in_use_def demo_rabbit)

end
