(* ===== verification/Lodos_Amqp_Queue.thy ===== *)
theory Lodos_Amqp_Queue
  imports Lodos_Transport_Props
begin

text \<open>
  How requests reach a server over RabbitMQ: the goroutine of each connection (\<^verbatim>\<open>on_handle\<close> of \<^verbatim>\<open>rpc_rabbitmq.go\<close>), the goroutine of
  the server (\<^verbatim>\<open>on_requese_handle\<close> of \<^verbatim>\<open>amqp_server.go\<close>) and the channels between them, as labelled steps.
\<close>

section \<open>The goroutines\<close>

text \<open>
  Source \<open>k\<close> is the \<open>k\<close>-th channel of deliveries the agent consumes: the first, and one for each reconnection. \<open>aq_moving\<close>: what its
  goroutine took and waits to pass on. \<open>aq_read\<close>: the channel \<^verbatim>\<open>readMsg\<close>, of capacity 1. \<open>aq_held\<close>: the request that the server's goroutine waits
  to hand to the RPC server, over a channel without a buffer. The histories \<open>aq_sent\<close> (by the broker), \<open>aq_acked\<close> and \<open>aq_served\<close> (what the
  RPC server took) are for the theorems.
\<close>

record amqp_queue =
  aq_deliveries :: "nat \<Rightarrow> bytes list"
  aq_closed :: "nat \<Rightarrow> bool"
  aq_moving :: "nat \<Rightarrow> bytes option"
  aq_ended :: "nat \<Rightarrow> bool"
  aq_read :: "(nat \<times> bytes) list"
  aq_held :: "call_info option"
  aq_sent :: "nat \<Rightarrow> bytes list"
  aq_acked :: "(nat \<times> bytes) list"
  aq_served :: "call_info list"

definition new_amqp_queue :: amqp_queue where
  "new_amqp_queue = \<lparr>aq_deliveries = (\<lambda>k. []), aq_closed = (\<lambda>k. False), aq_moving = (\<lambda>k. None), aq_ended = (\<lambda>k. False), aq_read = [],
     aq_held = None, aq_sent = (\<lambda>k. []), aq_acked = [], aq_served = []\<rparr>"

text \<open>
  The broker delivers to a source or its connection is lost, which closes the channel. The goroutine of a source takes a delivery and puts it
  into \<^verbatim>\<open>readMsg\<close>, or ends. The server's goroutine takes it, acknowledges it before it looks at it, and hands on what it decodes.
  Nothing ever sends to its \<^verbatim>\<open>done\<close> or closes \<^verbatim>\<open>readMsg\<close>.
\<close>

datatype amqp_label = Broker_delivers nat bytes | Connection_lost nat | Source_takes nat | Source_puts nat | Source_ends nat
  | Server_acks | Server_hands_on

definition broker_event :: "amqp_label \<Rightarrow> amqp_queue \<Rightarrow> amqp_queue option" where
  "broker_event l s =
     (case l of
        Broker_delivers k d \<Rightarrow>
          if aq_closed s k then None
          else Some (s\<lparr>aq_deliveries := (aq_deliveries s)(k := aq_deliveries s k @ [d]), aq_sent := (aq_sent s)(k := aq_sent s k @ [d])\<rparr>)
      | Connection_lost k \<Rightarrow> Some (s\<lparr>aq_closed := (aq_closed s)(k := True)\<rparr>)
      | _ \<Rightarrow> None)"

definition on_handle :: "amqp_label \<Rightarrow> amqp_queue \<Rightarrow> amqp_queue option" where
  "on_handle l s =
     (case l of
        Source_takes k \<Rightarrow>
          (if aq_ended s k \<or> aq_moving s k \<noteq> None then None
           else case aq_deliveries s k of
             [] \<Rightarrow> None
           | d # ds \<Rightarrow> Some (s\<lparr>aq_deliveries := (aq_deliveries s)(k := ds), aq_moving := (aq_moving s)(k := Some d)\<rparr>))
      | Source_puts k \<Rightarrow>
          (case aq_moving s k of
             None \<Rightarrow> None
           | Some d \<Rightarrow>
               if length (aq_read s) < 1 then Some (s\<lparr>aq_moving := (aq_moving s)(k := None), aq_read := aq_read s @ [(k, d)]\<rparr>) else None)
      | Source_ends k \<Rightarrow>
          (if aq_ended s k \<or> aq_moving s k \<noteq> None \<or> aq_deliveries s k \<noteq> [] \<or> \<not> aq_closed s k then None
           else Some (s\<lparr>aq_ended := (aq_ended s)(k := True)\<rparr>))
      | _ \<Rightarrow> None)"

definition on_requese_handle :: "server_codec \<Rightarrow> amqp_label \<Rightarrow> amqp_queue \<Rightarrow> amqp_queue option" where
  "on_requese_handle sc l s =
     (case l of
        Server_acks \<Rightarrow>
          (if aq_held s \<noteq> None then None
           else case aq_read s of
             [] \<Rightarrow> None
           | x # xs \<Rightarrow> Some (s\<lparr>aq_read := xs, aq_acked := aq_acked s @ [x], aq_held := server_request sc (snd x)\<rparr>))
      | Server_hands_on \<Rightarrow>
          (case aq_held s of None \<Rightarrow> None | Some c \<Rightarrow> Some (s\<lparr>aq_held := None, aq_served := aq_served s @ [c]\<rparr>))
      | _ \<Rightarrow> None)"

definition amqp_step :: "server_codec \<Rightarrow> amqp_label \<Rightarrow> amqp_queue \<Rightarrow> amqp_queue option" where
  "amqp_step sc l s =
     (case l of
        Broker_delivers k d \<Rightarrow> broker_event l s
      | Connection_lost k \<Rightarrow> broker_event l s
      | Server_acks \<Rightarrow> on_requese_handle sc l s
      | Server_hands_on \<Rightarrow> on_requese_handle sc l s
      | _ \<Rightarrow> on_handle l s)"

fun amqp_run :: "server_codec \<Rightarrow> amqp_label list \<Rightarrow> amqp_queue \<Rightarrow> amqp_queue option" where
  "amqp_run sc [] s = Some s"
| "amqp_run sc (l # ls) s = Option.bind (amqp_step sc l s) (amqp_run sc ls)"

section \<open>What they keep\<close>

definition held_list :: "'a option \<Rightarrow> 'a list" where
  "held_list x = (case x of None \<Rightarrow> [] | Some c \<Rightarrow> [c])"

definition requests_of :: "server_codec \<Rightarrow> (nat \<times> bytes) list \<Rightarrow> call_info list" where
  "requests_of sc ds = concat (map (\<lambda>x. held_list (server_request sc (snd x))) ds)"

definition from_source :: "nat \<Rightarrow> (nat \<times> bytes) list \<Rightarrow> bytes list" where
  "from_source k ds = map snd (filter (\<lambda>x. fst x = k) ds)"

definition amqp_kept :: "server_codec \<Rightarrow> amqp_queue \<Rightarrow> bool" where
  "amqp_kept sc s \<longleftrightarrow>
     requests_of sc (aq_acked s) = aq_served s @ held_list (aq_held s)
     \<and> (\<forall>k. from_source k (aq_acked s @ aq_read s) @ held_list (aq_moving s k) @ aq_deliveries s k = aq_sent s k)
     \<and> (\<forall>k. aq_ended s k \<longrightarrow> aq_closed s k \<and> aq_moving s k = None \<and> aq_deliveries s k = [])"

text \<open>No goroutine can go on.\<close>

definition amqp_quiet :: "server_codec \<Rightarrow> amqp_queue \<Rightarrow> bool" where
  "amqp_quiet sc s \<longleftrightarrow> amqp_step sc Server_acks s = None \<and> amqp_step sc Server_hands_on s = None
     \<and> (\<forall>k. amqp_step sc (Source_takes k) s = None \<and> amqp_step sc (Source_puts k) s = None)"

lemmas amqp_step_defs = amqp_step_def broker_event_def on_handle_def on_requese_handle_def

lemma from_source_simps [simp]:
  "from_source k [] = []" "from_source k (xs @ ys) = from_source k xs @ from_source k ys"
  "from_source k [(j, d)] = (if j = k then [d] else [])"
  "from_source k (x # xs) = (if fst x = k then [snd x] else []) @ from_source k xs"
  by (simp_all add: from_source_def)

lemma requests_of_simps [simp]:
  "requests_of sc [] = []" "requests_of sc (xs @ ys) = requests_of sc xs @ requests_of sc ys"
  "requests_of sc [x] = held_list (server_request sc (snd x))"
  by (simp_all add: requests_of_def)

lemma held_list_simps [simp]: "held_list None = []" "held_list (Some c) = [c]"
  by (simp_all add: held_list_def)

lemma broker_keeps: "broker_event l s = Some s' \<Longrightarrow> amqp_kept sc s \<Longrightarrow> amqp_kept sc s'"
  by (cases l) (auto simp: amqp_kept_def broker_event_def split: if_splits)

lemma on_handle_keeps:
  assumes "on_handle l s = Some s'" "amqp_kept sc s"
  shows "amqp_kept sc s'"
proof (cases l)
  case (Source_takes k)
  then obtain d ds where d: "aq_deliveries s k = d # ds" "aq_moving s k = None" "\<not> aq_ended s k"
    and s': "s' = s\<lparr>aq_deliveries := (aq_deliveries s)(k := ds), aq_moving := (aq_moving s)(k := Some d)\<rparr>"
    using assms(1) by (auto simp: on_handle_def split: if_splits list.splits)
  have "aq_sent s k = from_source k (aq_acked s @ aq_read s) @ d # ds" using assms(2) d by (auto simp: amqp_kept_def dest: spec [of _ k])
  then show ?thesis using assms(2) d unfolding s' amqp_kept_def by auto
next
  case (Source_puts k)
  then obtain d where d: "aq_moving s k = Some d" "aq_read s = []"
    and s': "s' = s\<lparr>aq_moving := (aq_moving s)(k := None), aq_read := aq_read s @ [(k, d)]\<rparr>"
    using assms(1) by (auto simp: on_handle_def split: if_splits option.splits)
  have "aq_sent s k = from_source k (aq_acked s) @ d # aq_deliveries s k" using assms(2) d by (auto simp: amqp_kept_def dest: spec [of _ k])
  then show ?thesis using assms(2) d unfolding s' amqp_kept_def by auto
qed (use assms in \<open>auto simp: on_handle_def amqp_kept_def split: if_splits\<close>)

lemma on_requese_handle_keeps: "on_requese_handle sc l s = Some s' \<Longrightarrow> amqp_kept sc s \<Longrightarrow> amqp_kept sc s'"
  by (cases l) (auto simp: amqp_kept_def on_requese_handle_def split: if_splits option.splits list.splits)

lemma amqp_step_keeps: "amqp_kept sc s \<Longrightarrow> amqp_step sc l s = Some s' \<Longrightarrow> amqp_kept sc s'"
  unfolding amqp_step_def using broker_keeps on_handle_keeps on_requese_handle_keeps by (cases l) auto

lemma amqp_run_keeps: "amqp_run sc ls s = Some s' \<Longrightarrow> amqp_kept sc s \<Longrightarrow> amqp_kept sc s'"
  by (induction sc ls s rule: amqp_run.induct) (auto simp: bind_eq_Some_conv dest: amqp_step_keeps)

lemma new_amqp_kept: "amqp_kept sc new_amqp_queue"
  by (simp add: amqp_kept_def new_amqp_queue_def)


text \<open>Two deliveries, the first of which is no request, and a connection that is lost between them and their end.\<close>

definition picky_codec :: server_codec where
  "picky_codec = \<lparr>unmarshal_info = (\<lambda>b. if b = [] then Inl ''EOF'' else Inr misfit_call), marshal_result = (\<lambda>r. Inr [])\<rparr>"

definition two_deliveries :: "amqp_label list" where
  "two_deliveries = [Broker_delivers 0 [], Broker_delivers 0 [1], Source_takes 0, Source_puts 0, Connection_lost 0, Server_acks,
     Source_takes 0, Source_puts 0, Server_acks]"


end
