(* ===== verification/Lodos_Start.thy ===== *)
theory Lodos_Start
  imports Lodos_App_Props Lodos_Gate Lodos_Ws_Server
begin

text \<open>
  How a process starts and stops its modules: the RPC server of a module
  (\<^verbatim>\<open>module/base/rpc_server_module.go\<close>, \<^verbatim>\<open>base_module.go\<close>) with its local server
  (\<^verbatim>\<open>rpc/base/local_server.go\<close>), the start of the application (\<^verbatim>\<open>app.Run\<close>) up to the connections its
  servers have, and the gate's \<^verbatim>\<open>OnInit\<close> and \<^verbatim>\<open>Run\<close> (\<^verbatim>\<open>gate/base/mqtt_gate.go\<close>).
\<close>

section \<open>The local server\<close>

text \<open>Its request loop warns on success; \<open>calls\<close> is what it takes from \<^verbatim>\<open>local_chan\<close>.\<close>

record local_server =
  ls_isClose :: bool

definition NewLocalServer :: local_server where "NewLocalServer = \<lparr>ls_isClose = False\<rparr>"

definition ls_IsClose :: "local_server \<Rightarrow> bool" where "ls_IsClose s = ls_isClose s"

definition ls_StopConsume :: "local_server \<Rightarrow> local_server" where "ls_StopConsume s = s\<lparr>ls_isClose := True\<rparr>"

fun ls_on_request :: "local_server \<Rightarrow> rpc_info list \<Rightarrow> rpc_info list \<times> rpc_info list" where
  "ls_on_request s [] = ([], [])"
| "ls_on_request s (c # cs) =
     (case ls_on_request s cs of (sent, warned) \<Rightarrow>
        (case WriteToRpcServer (ls_isClose s) c of
           None \<Rightarrow> (sent, warned)
         | Some c \<Rightarrow> (c # sent, c # warned)))"

text \<open>\<^verbatim>\<open>Callback\<close>, into the client's channel, and its safe form, which says whether it was closed.\<close>

definition ls_Callback :: "nat \<Rightarrow> result_info \<Rightarrow> chans \<Rightarrow> chans went" where
  "ls_Callback reply_to r H = chan_send reply_to r H"

definition SafeCallback :: "nat \<Rightarrow> result_info \<Rightarrow> chans \<Rightarrow> (bool \<times> chans) went" where
  "SafeCallback c r H =
     (case chan_send c r H of Went H' \<Rightarrow> Went (False, H') | WentPanic e \<Rightarrow> Went (True, H) | WentBlock \<Rightarrow> WentBlock)"

section \<open>The RPC server of a module\<close>

record 'a rpc_module =
  rm_Id :: string
  rm_server :: "'a function_table option"

text \<open>\<^verbatim>\<open>NewRpcServerModule\<close> tells the application's server of this id to use the local server.\<close>

definition NewRpcServerModule :: "module_settings \<Rightarrow> server_list \<Rightarrow> 'a rpc_module \<times> server_list" where
  "NewRpcServerModule ms sl = (\<lparr>rm_Id = ms_Id ms, rm_server = Some Map.empty\<rparr>, snd (RegisterLocalClient (ms_Id ms) sl))"

definition rm_OnDestroy :: "'a rpc_module \<Rightarrow> 'a rpc_module" where
  "rm_OnDestroy rs = (case rm_server rs of None \<Rightarrow> rs | Some fs \<Rightarrow> rs\<lparr>rm_server := None\<rparr>)"

definition rm_with_server ::
  "('a function_table \<Rightarrow> 'a function_table outcome) \<Rightarrow> 'a rpc_module \<Rightarrow> 'a rpc_module outcome" where
  "rm_with_server f rs =
     (case rm_server rs of
        None \<Rightarrow> Panic ''invalid RPCServer''
      | Some fs \<Rightarrow> map_outcome_val (\<lambda>fs. rs\<lparr>rm_server := Some fs\<rparr>) (f fs))"

definition rm_Register :: "string \<Rightarrow> 'a rpc_func \<Rightarrow> 'a rpc_module \<Rightarrow> 'a rpc_module outcome" where
  "rm_Register fid f = rm_with_server (Register fid f)"

definition rm_RegisterGo :: "string \<Rightarrow> 'a rpc_func \<Rightarrow> 'a rpc_module \<Rightarrow> 'a rpc_module outcome" where
  "rm_RegisterGo fid f = rm_with_server (RegisterGo fid f)"

text \<open>\<^verbatim>\<open>BaseModule\<close> makes its server when it is first asked for; its id panics before that.\<close>

record 'a base_module =
  bm_settings :: module_settings
  bm_server :: "'a rpc_module option"

definition GetServer :: "'a base_module \<Rightarrow> server_list \<Rightarrow> 'a rpc_module \<times> 'a base_module \<times> server_list" where
  "GetServer m sl =
     (case bm_server m of
        Some rs \<Rightarrow> (rs, m, sl)
      | None \<Rightarrow> (case NewRpcServerModule (bm_settings m) sl of (rs, sl) \<Rightarrow> (rs, m\<lparr>bm_server := Some rs\<rparr>, sl)))"

definition GetServerId :: "'a base_module \<Rightarrow> string outcome" where
  "GetServerId m = (case bm_server m of None \<Rightarrow> Panic ''nil pointer dereference'' | Some rs \<Rightarrow> Done (rm_Id rs))"

definition base_OnInit :: "module_settings \<Rightarrow> 'a base_module \<Rightarrow> server_list \<Rightarrow> 'a base_module \<times> server_list" where
  "base_OnInit ms m sl = snd (GetServer (m\<lparr>bm_settings := ms\<rparr>) sl)"

definition base_Destroy :: "'a base_module \<Rightarrow> server_list \<Rightarrow> 'a base_module \<times> server_list" where
  "base_Destroy m sl = (case GetServer m sl of (rs, m, sl) \<Rightarrow> (m\<lparr>bm_server := Some (rm_OnDestroy rs)\<rparr>, sl))"

section \<open>The start of the application\<close>

text \<open>
  \<^verbatim>\<open>app.Run\<close> from the loaded configuration to the running modules. \<open>order\<close>: the visits of the module manager.
  The \<^verbatim>\<open>OnInit\<close> of a module is that of \<^verbatim>\<open>BaseModule\<close> here; what it does besides is its own.
\<close>

fun init_modules :: "('m \<times> module_settings) list \<Rightarrow> server_list \<Rightarrow> server_list" where
  "init_modules [] sl = sl"
| "init_modules ((m, s) # ms) sl =
     init_modules ms (snd (base_OnInit s (\<lparr>bm_settings = s, bm_server = None\<rparr> :: unit base_module) sl))"

definition app_start ::
  "(module_settings \<Rightarrow> bool) \<Rightarrow> (module_settings \<Rightarrow> bool) \<Rightarrow> ('m \<Rightarrow> string) \<Rightarrow> module_config \<Rightarrow> (nat \<Rightarrow> module_config)
    \<Rightarrow> string \<Rightarrow> 'm list \<Rightarrow> (('m \<times> module_settings) list \<times> server_list) outcome" where
  "app_start amqp redis GetType cfg order pid mods =
     outcome_bind (app_OnInit amqp redis pid cfg) (\<lambda>sl.
       outcome_bind (manager_Init GetType cfg order pid mods) (\<lambda>ms. Done (ms, init_modules ms sl)))"

lemma init_servers_get:
  "init_servers amqp redis pid xs sl = Done sl' \<Longrightarrow>
    (\<forall>i s. sl i = Some s \<longrightarrow> sl' i = Some s)
    \<and> (\<forall>(t, mi) \<in> set xs. sl' (ms_Id mi) = Some (new_server amqp redis pid t mi))"
proof (induction amqp redis pid xs sl rule: init_servers.induct)
  case (2 amqp redis pid Type mi rest sl)
  let ?sl = "sl(ms_Id mi \<mapsto> new_server amqp redis pid Type mi)"
  have new: "sl (ms_Id mi) = None" and rest: "init_servers amqp redis pid rest ?sl = Done sl'"
    using 2(2) by (auto split: option.splits)
  have ih: "\<And>i s. ?sl i = Some s \<Longrightarrow> sl' i = Some s"
    "\<forall>(t, mi) \<in> set rest. sl' (ms_Id mi) = Some (new_server amqp redis pid t mi)"
    using 2(1) [OF new rest] by blast+
  have "sl' (ms_Id mi) = Some (new_server amqp redis pid Type mi)" by (rule ih(1)) simp
  moreover have "sl' i = Some s" if "sl i = Some s" for i s using that new by (intro ih(1)) auto
  ultimately show ?case using ih(2) by simp
qed simp

lemma init_modules_get:
  "init_modules ms sl i = (if i \<in> ms_Id ` snd ` set ms
     then map_option (\<lambda>s. s\<lparr>sv_conn := NewLocalRpcClient True True (sv_conn s)\<rparr>) (sl i) else sl i)"
proof (induction ms sl rule: init_modules.induct)
  case (2 m s ms sl)
  have "snd (base_OnInit s (\<lparr>bm_settings = s, bm_server = None\<rparr> :: unit base_module) sl) i =
      (if i = ms_Id s then map_option (\<lambda>s. s\<lparr>sv_conn := NewLocalRpcClient True True (sv_conn s)\<rparr>) (sl i) else sl i)"
    by (auto simp: base_OnInit_def GetServer_def NewRpcServerModule_def RegisterLocalClient_def split: option.splits)
  with 2 show ?case by (auto simp: NewLocalRpcClient_def option.map_comp o_def map_option_case split: option.splits)
qed simp

lemma in_all_settings: "(t, mi) \<in> set (all_settings cfg) \<longleftrightarrow> (\<exists>ss. (t, ss) \<in> set cfg \<and> mi \<in> set ss)"
  by (auto simp: all_settings_def)

text \<open>Of a checked configuration, the module settings of a process and type are found by either.\<close>

lemma own_setting_iff:
  assumes "CheckModuleSettings cfg = Done ()" "distinct (map fst cfg)" "(t, mi) \<in> set (all_settings cfg)" "ms_ProcessID mi = pid"
  shows "own_setting cfg pid t = Some mi"
proof -
  obtain ss where ss: "(t, ss) \<in> set cfg" "mi \<in> set ss" using assms(3) by (auto simp: in_all_settings)
  then have m: "map_of cfg t = Some ss" using assms(2) by simp
  have d: "distinct (map ms_ProcessID ss)" using assms(1) ss(1) unfolding CheckModuleSettings_cond by (auto simp: list_all_iff)
  have "filter (\<lambda>s. pid = ms_ProcessID s) ss = (case List.find (\<lambda>s. ms_ProcessID s = pid) ss of None \<Rightarrow> [] | Some s \<Rightarrow> [s])"
    by (rule filter_distinct_find [OF d])
  moreover have "mi \<in> set (filter (\<lambda>s. pid = ms_ProcessID s) ss)" using ss(2) assms(4) by simp
  ultimately show ?thesis using m by (auto simp: own_setting_def split: option.splits)
qed

lemma own_setting_in: "own_setting cfg pid t = Some s \<Longrightarrow> (t, s) \<in> set (all_settings cfg) \<and> ms_ProcessID s = pid"
  by (force simp: own_setting_def in_all_settings find_Some_iff split: option.splits dest: map_of_SomeD)

lemma ids_distinct:
  assumes "CheckModuleSettings cfg = Done ()" "(t, s) \<in> set (all_settings cfg)" "(u, r) \<in> set (all_settings cfg)" "ms_Id s = ms_Id r"
  shows "t = u \<and> s = r"
proof -
  have "distinct (map ms_Id (map snd (all_settings cfg)))"
    using assms(1) unfolding CheckModuleSettings_cond by (auto simp: all_ids_def all_settings_def map_concat o_def split_beta)
  then have "inj_on (ms_Id \<circ> snd) (set (all_settings cfg))" by (simp only: map_map distinct_map)
  then show ?thesis using inj_onD [of _ _ "(t, s)" "(u, r)"] assms(2-4) by fastforce
qed

lemma connections_step:
  assumes "app_start amqp redis GetType cfg order pid mods = Done (ms, sl)" "distinct (map fst cfg)"
    "\<And>i. mset (order i) = mset cfg" "(Type, mi) \<in> set (all_settings cfg)"
  shows "\<exists>sv. GetServerById sl (ms_Id mi) = Inr sv \<and> sv_type sv = Type \<and> pick (sv_conn sv) =
    (if ms_ProcessID mi = pid then (if Type \<in> GetType ` set mods then Some ViaLocal else None)
     else if ms_Rabbitmq mi \<and> amqp mi then Some ViaRemote
     else if ms_Redis mi \<notin> {None, Some []} \<and> redis mi then Some ViaRedis else None)"
proof -
  obtain sl0 where sl0: "app_OnInit amqp redis pid cfg = Done sl0" "manager_Init GetType cfg order pid mods = Done ms"
    "sl = init_modules ms sl0"
    using assms(1) by (auto simp: app_start_def outcome_bind_Done_iff)
  have chk: "CheckModuleSettings cfg = Done ()" using sl0(2) by (simp add: manager_Init_def outcome_bind_Done_iff)
  have ms: "ms = concat (map (\<lambda>m. case own_setting cfg pid (GetType m) of None \<Rightarrow> [] | Some s \<Rightarrow> [(m, s)]) mods)"
    using sl0(2) assms(2,3) by (rule modules_run_once)
  have new: "sl0 (ms_Id mi) = Some (new_server amqp redis pid Type mi)"
    using init_servers_get [OF sl0(1) [unfolded app_OnInit_def]] assms(4) by auto
  have runs: "ms_Id mi \<in> ms_Id ` snd ` set ms \<longleftrightarrow> ms_ProcessID mi = pid \<and> Type \<in> GetType ` set mods"
  proof
    assume "ms_Id mi \<in> ms_Id ` snd ` set ms"
    then obtain m s where m: "m \<in> set mods" "own_setting cfg pid (GetType m) = Some s" "ms_Id s = ms_Id mi"
      unfolding ms by (auto split: option.splits) metis
    then show "ms_ProcessID mi = pid \<and> Type \<in> GetType ` set mods"
      using own_setting_in [OF m(2)] ids_distinct [OF chk _ assms(4) m(3)] by auto
  next
    assume a: "ms_ProcessID mi = pid \<and> Type \<in> GetType ` set mods"
    then obtain m where m: "m \<in> set mods" "GetType m = Type" by auto
    then have "own_setting cfg pid (GetType m) = Some mi" using own_setting_iff [OF chk assms(2,4)] a by simp
    then have "(m, mi) \<in> set ms" unfolding ms using m(1) by (auto split: option.splits intro!: bexI [of _ m])
    then show "ms_Id mi \<in> ms_Id ` snd ` set ms" by force
  qed
  have "sl (ms_Id mi) = Some (if ms_Id mi \<in> ms_Id ` snd ` set ms
      then (new_server amqp redis pid Type mi)\<lparr>sv_conn := NewLocalRpcClient True True (sv_conn (new_server amqp redis pid Type mi))\<rparr>
      else new_server amqp redis pid Type mi)"
    unfolding sl0(3) init_modules_get by (simp add: new)
  then show ?thesis
    unfolding runs
    by (auto simp: GetServerById_def new_server_def pick_def NewLocalRpcClient_def NewRPCClient_def NewRabbitmqRpcClient_def
        NewRedisRpcClient_def Let_def)
qed

text \<open>
  C22: After a start that accepted the configuration, the server of every configured module has the
  connection that its place calls for: the local one if it runs in this process, RabbitMQ or redis
  if it belongs to another process and is configured and dialled, and none if it should run here
  but the program registered no module of its type. So a call to a local module never leaves the
  process, for every order in which Go visits the configuration.
\<close>

theorem connections_after_start:
  assumes "app_start amqp redis GetType cfg order pid mods = Done (ms, sl)" "distinct (map fst cfg)"
    "\<And>i. mset (order i) = mset cfg" "(Type, mi) \<in> set (all_settings cfg)"
  shows "\<exists>sv. GetServerById sl (ms_Id mi) = Inr sv \<and> sv_type sv = Type \<and> pick (sv_conn sv) =
    (if ms_ProcessID mi = pid then (if Type \<in> GetType ` set mods then Some ViaLocal else None)
     else if ms_Rabbitmq mi \<and> amqp mi then Some ViaRemote
     else if ms_Redis mi \<notin> {None, Some []} \<and> redis mi then Some ViaRedis else None)"
  using assms by (rule connections_step)

lemma connections_after_start_witness:
  "\<exists>sv. GetServerById (init_modules [(''Gate'', demo_setting ''g1'' ''p'')] demo_servers) ''g2'' = Inr sv
    \<and> sv_type sv = ''Gate'' \<and> pick (sv_conn sv) = Some ViaRemote"
proof -
  have "app_OnInit (\<lambda>s. True) (\<lambda>s. True) ''p'' demo_config = Done demo_servers"
    by (simp add: app_OnInit_def all_settings_def demo_config_def demo_setting_def demo_servers_def fun_eq_iff)
  moreover have "manager_Init (\<lambda>m. m) demo_config (\<lambda>i. demo_config) ''p'' [''Gate''] = Done [(''Gate'', demo_setting ''g1'' ''p'')]"
    by (simp add: manager_Init_def CheckModuleSettings_def demo_config_def demo_setting_def run_mods_def matching_def)
  ultimately have start: "app_start (\<lambda>s. True) (\<lambda>s. True) (\<lambda>m. m) demo_config (\<lambda>i. demo_config) ''p'' [''Gate'']
      = Done ([(''Gate'', demo_setting ''g1'' ''p'')], init_modules [(''Gate'', demo_setting ''g1'' ''p'')] demo_servers)"
    by (simp add: app_start_def)
  show ?thesis
    using connections_after_start [OF start, of "''Gate''" "demo_setting ''g2'' ''q''"]
    by (simp add: demo_config_def demo_setting_def all_settings_def)
qed

section \<open>The start of the gate\<close>

text \<open>
  A value of the settings, as the JSON library leaves it: a number ('f is Go's \<^verbatim>\<open>float64\<close>), a text, a
  truth value, or anything else. A type assertion that does not hold panics, also on an absent key.
  The conversions of a \<^verbatim>\<open>float64\<close> are parameters.
\<close>

datatype 'f setting = SNum 'f | SText string | SBool bool | SOther

type_synonym 'f settings = "string \<Rightarrow> 'f setting option"

record 'f float_conv =
  fc_int :: "'f \<Rightarrow> int"
  fc_uint32 :: "'f \<Rightarrow> 32 word"
  fc_int64 :: "'f \<Rightarrow> 64 word"

definition as_num :: "'f setting option \<Rightarrow> 'f outcome" where
  "as_num v = (case v of Some (SNum f) \<Rightarrow> Done f | _ \<Rightarrow> Panic ''interface conversion'')"

definition opt_num :: "('f \<Rightarrow> 'r) \<Rightarrow> 'r \<Rightarrow> 'f setting option \<Rightarrow> 'r outcome" where
  "opt_num conv d v = (case v of None \<Rightarrow> Done d | Some x \<Rightarrow> map_outcome_val conv (as_num (Some x)))"

definition opt_text :: "string \<Rightarrow> 'f setting option \<Rightarrow> string outcome" where
  "opt_text d v = (case v of None \<Rightarrow> Done d | Some (SText s) \<Rightarrow> Done s | Some _ \<Rightarrow> Panic ''interface conversion'')"

definition opt_bool :: "bool \<Rightarrow> 'f setting option \<Rightarrow> bool outcome" where
  "opt_bool d v = (case v of None \<Rightarrow> Done d | Some (SBool b) \<Rightarrow> Done b | Some _ \<Rightarrow> Panic ''interface conversion'')"

record gate_conf =
  gc_MaxConnNum :: int
  gc_MaxMsgLen :: "32 word"
  gc_WSAddr :: string
  gc_HTTPTimeout :: "64 word"
  gc_TCPAddr :: string
  gc_Tls :: bool
  gc_CertFile :: string
  gc_KeyFile :: string
  gc_MinStorageHeartbeat :: "64 word"

text \<open>The reading of the settings in \<^verbatim>\<open>OnInit\<close>; the addresses keep the value the gate has (\<open>g\<close>) when absent.\<close>

definition gate_settings :: "'f float_conv \<Rightarrow> 'f settings \<Rightarrow> gate_conf \<Rightarrow> gate_conf outcome" where
  "gate_settings fc m g =
     outcome_bind (as_num (m ''MaxConnNum'')) (\<lambda>conns.
     outcome_bind (as_num (m ''MaxMsgLen'')) (\<lambda>len.
     outcome_bind (opt_text (gc_WSAddr g) (m ''WSAddr'')) (\<lambda>ws.
     outcome_bind (as_num (m ''HTTPTimeout'')) (\<lambda>timeout.
     outcome_bind (opt_text (gc_TCPAddr g) (m ''TCPAddr'')) (\<lambda>tcp.
     outcome_bind (opt_bool False (m ''Tls'')) (\<lambda>tls.
     outcome_bind (opt_text [] (m ''CertFile'')) (\<lambda>cert.
     outcome_bind (opt_text [] (m ''KeyFile'')) (\<lambda>key.
     outcome_bind (opt_num (fc_int64 fc) 60 (m ''MinHBStorage'')) (\<lambda>heart.
       Done \<lparr>gc_MaxConnNum = fc_int fc conns, gc_MaxMsgLen = fc_uint32 fc len, gc_WSAddr = ws,
         gc_HTTPTimeout = 1000000000 * fc_int64 fc timeout, gc_TCPAddr = tcp, gc_Tls = tls, gc_CertFile = cert,
         gc_KeyFile = key, gc_MinStorageHeartbeat = heart\<rparr>)))))))))"

text \<open>
  \<^verbatim>\<open>OnInit\<close>: the RPC server, the serializer (an occupied name is logged only), the settings, and the
  functions of the handler.
\<close>

definition gate_OnInit ::
  "'f float_conv \<Rightarrow> 'f settings \<Rightarrow> (string \<Rightarrow> nat \<Rightarrow> 'a go_value \<Rightarrow> bool) \<Rightarrow> (string \<Rightarrow> nat \<Rightarrow> 'a go_value)
    \<Rightarrow> (string \<Rightarrow> 'a go_value list \<Rightarrow> 'a go_value call_end) \<Rightarrow> 's \<Rightarrow> gate_conf \<Rightarrow> 'a rpc_module \<Rightarrow> (string \<Rightarrow> 's option)
    \<Rightarrow> (gate_conf \<times> 'a rpc_module) outcome \<times> (string \<Rightarrow> 's option)" where
  "gate_OnInit fc m fits zero handler ser g rs sers =
     (outcome_bind (gate_settings fc m g) (\<lambda>g.
        outcome_bind (rm_with_server (gate_register fits zero handler) rs) (\<lambda>rs. Done (g, rs))),
      snd (AddRPCSerialize ''this'' ser sers))"

text \<open>
  \<^verbatim>\<open>Run\<close>: what it does in order; \<open>Awaits\<close> is the wait for the close signal. The configurations it gives its servers.
\<close>

datatype gate_action = Starts_ws | Starts_tcp | Awaits | Destroys_handler | Closes_ws | Closes_tcp

definition gate_Run :: "gate_conf \<Rightarrow> gate_action list" where
  "gate_Run g =
     (let ws = gc_WSAddr g \<noteq> []; tcp = gc_TCPAddr g \<noteq> [] in
      (if ws then [Starts_ws] else []) @ (if tcp then [Starts_tcp] else []) @ [Awaits, Destroys_handler]
      @ (if ws then [Closes_ws] else []) @ (if tcp then [Closes_tcp] else []))"

definition gate_ws_conf :: "gate_conf \<Rightarrow> ws_conf" where
  "gate_ws_conf g =
     \<lparr>wc_MaxConnNum = gc_MaxConnNum g, wc_MaxMsgLen = gc_MaxMsgLen g, wc_HTTPTimeout = sint (gc_HTTPTimeout g)\<rparr>"

lemma settings_Done [simp]:
  "(\<exists>x. as_num v = Done x) \<longleftrightarrow> (\<exists>f. v = Some (SNum f))"
  "(\<exists>x. opt_num c d v = Done x) \<longleftrightarrow> v = None \<or> (\<exists>f. v = Some (SNum f))"
  "(\<exists>x. opt_text s v = Done x) \<longleftrightarrow> v = None \<or> (\<exists>s. v = Some (SText s))"
  "(\<exists>x. opt_bool b v = Done x) \<longleftrightarrow> v = None \<or> (\<exists>b. v = Some (SBool b))"
  by (auto simp: as_num_def opt_num_def opt_text_def opt_bool_def split: option.splits setting.splits)

lemma bind_Done: "(\<exists>y. outcome_bind m f = Done y) \<longleftrightarrow> (\<exists>x. m = Done x \<and> (\<exists>y. f x = Done y))"
  by (cases m) auto

lemma register_all_Done:
  "distinct (map fst fs) \<Longrightarrow> (\<exists>t'. register_all fs t = Done t') \<longleftrightarrow> (\<forall>p \<in> set fs. t (fst p) = None)"
proof (induction fs arbitrary: t)
  case (Cons p fs)
  obtain i f where p: "p = (i, f)" by fastforce
  show ?case
  proof (cases "t i")
    case None
    have "(\<forall>q \<in> set fs. (t(i \<mapsto> f\<lparr>goroutine := False\<rparr>)) (fst q) = None) \<longleftrightarrow> (\<forall>q \<in> set fs. t (fst q) = None)"
      using Cons.prems p by force
    then show ?thesis using Cons None p by (simp add: Register_def)
  qed (simp add: Register_def p)
qed simp

text \<open>
  The gate starts exactly when the three numbers are in its settings as numbers, each other
  setting it reads is absent or of its type, its RPC server exists and none of its eleven functions is
  registered; else \<^verbatim>\<open>OnInit\<close> panics, and with it the process.
\<close>

theorem gate_starts_iff:
  "(\<exists>r. fst (gate_OnInit fc m fits zero handler ser g rs sers) = Done r) \<longleftrightarrow>
    m ` {''MaxConnNum'', ''MaxMsgLen'', ''HTTPTimeout''} \<subseteq> range (\<lambda>f. Some (SNum f))
    \<and> m ` {''WSAddr'', ''TCPAddr'', ''CertFile'', ''KeyFile''} \<subseteq> {None} \<union> range (\<lambda>s. Some (SText s))
    \<and> m ''Tls'' \<in> {None} \<union> range (\<lambda>b. Some (SBool b)) \<and> m ''MinHBStorage'' \<in> {None} \<union> range (\<lambda>f. Some (SNum f))
    \<and> (\<exists>fs. rm_server rs = Some fs \<and> fs ` fst ` set gate_arities \<subseteq> {None})"
proof -
  have settings: "(\<exists>c. gate_settings fc m g = Done c) \<longleftrightarrow>
    m ` {''MaxConnNum'', ''MaxMsgLen'', ''HTTPTimeout''} \<subseteq> range (\<lambda>f. Some (SNum f))
    \<and> m ` {''WSAddr'', ''TCPAddr'', ''CertFile'', ''KeyFile''} \<subseteq> {None} \<union> range (\<lambda>s. Some (SText s))
    \<and> m ''Tls'' \<in> {None} \<union> range (\<lambda>b. Some (SBool b)) \<and> m ''MinHBStorage'' \<in> {None} \<union> range (\<lambda>f. Some (SNum f))"
    unfolding gate_settings_def bind_Done by (simp add: image_iff) blast
  have names: "map fst (map (\<lambda>p. (fst p, gate_func fits zero handler p)) gate_arities) = map fst gate_arities" by simp
  have "distinct (map fst gate_arities)" by (simp add: gate_arities_def)
  then have register: "(\<exists>t. gate_register fits zero handler fs = Done t) \<longleftrightarrow> fs ` fst ` set gate_arities \<subseteq> {None}" for fs
    unfolding gate_register_def by (subst register_all_Done) (auto simp: o_def)
  have server: "(\<exists>r. rm_with_server (gate_register fits zero handler) rs = Done r) \<longleftrightarrow>
      (\<exists>fs. rm_server rs = Some fs \<and> (\<exists>t. gate_register fits zero handler fs = Done t))"
    by (auto simp: rm_with_server_def split: option.splits) (metis map_outcome_val.elims outcome.distinct(1))
  have "(\<exists>r. fst (gate_OnInit fc m fits zero handler ser g rs sers) = Done r) \<longleftrightarrow>
      (\<exists>c. gate_settings fc m g = Done c) \<and> (\<exists>r. rm_with_server (gate_register fits zero handler) rs = Done r)"
    unfolding gate_OnInit_def fst_conv bind_Done by blast
  then show ?thesis unfolding server register settings by (simp only: conj_assoc)
qed

end
