(* ===== verification/Lodos_App_Run.thy ===== *)
theory Lodos_App_Run
  imports Lodos_Start
begin

text \<open>
  \<^verbatim>\<open>app.Run\<close> as a whole: its flags and directories, the configuration it loads, the start and, after the signal, the shutdown; the methods of
  the application that keep its callbacks; and what decides whether a process starts and whether it ends.
\<close>

section \<open>Flags, directories and files\<close>

text \<open>
  The flags after \<^verbatim>\<open>flag.Parse\<close>. The system: which files open from which working directory, the directory after a change, the one at the
  start, that of the program, whether a directory can be made, and the contents of files.
\<close>

record run_flags =
  rf_wd :: string
  rf_conf :: string
  rf_pid :: string
  rf_log :: string

definition default_flags :: run_flags where
  "default_flags = \<lparr>rf_wd = [], rf_conf = [], rf_pid = ''development'', rf_log = []\<rparr>"

record run_system =
  rs_opens :: "string option \<Rightarrow> string \<Rightarrow> bool"
  rs_Chdir :: "string \<Rightarrow> string option"
  rs_wd :: "string option"
  rs_program :: string
  rs_mkdir :: "string \<Rightarrow> bool"
  rs_read :: "string option \<Rightarrow> string \<Rightarrow> bytes option"

definition application_dir :: "run_system \<Rightarrow> run_flags \<Rightarrow> (string \<times> string option) outcome" where
  "application_dir sys fl =
     (if rf_wd fl \<noteq> [] then
        (if \<not> rs_opens sys (rs_wd sys) (rf_wd fl) then Panic ''no such file or directory''
         else let wd = (case rs_Chdir sys (rf_wd fl) of Some d \<Rightarrow> Some d | None \<Rightarrow> rs_wd sys)
              in Done ((case wd of Some d \<Rightarrow> d | None \<Rightarrow> []), wd))
      else Done ((case rs_wd sys of Some d \<Rightarrow> d | None \<Rightarrow> rs_program sys), rs_wd sys))"

definition run_paths :: "run_flags \<Rightarrow> string \<Rightarrow> string \<times> string" where
  "run_paths fl dir = (if rf_conf fl = [] then dir @ ''/conf/server.conf'' else rf_conf fl,
     if rf_log fl = [] then dir @ ''/logs'' else rf_log fl)"

section \<open>The application's fields\<close>

text \<open>
  The fields of \<^verbatim>\<open>app\<close> besides its servers and routes: the settings ('c) and the callbacks ('h), \<^const>\<open>None\<close> for nil. The process id is
  set by \<^verbatim>\<open>Run\<close>.
\<close>

record ('c, 'h) app_fields =
  af_version :: string
  af_processId :: string
  af_settings :: "'c option"
  af_getTracer :: "'h option"
  af_configurationLoaded :: "'h option"
  af_startUp :: "'h option"
  af_moduleInited :: "'h option"
  af_judgeGuest :: "'h option"
  af_protocolMarshal :: "'h option"

definition NewApp :: "string \<Rightarrow> ('c, 'h) app_fields" where
  "NewApp v = \<lparr>af_version = v, af_processId = [], af_settings = None, af_getTracer = None, af_configurationLoaded = None,
     af_startUp = None, af_moduleInited = None, af_judgeGuest = None, af_protocolMarshal = None\<rparr>"

definition ConfigSettings :: "'c \<Rightarrow> ('c, 'h) app_fields \<Rightarrow> ('c, 'h) app_fields" where
  "ConfigSettings s a = a\<lparr>af_settings := Some s\<rparr>"

definition DefaultTracer :: "'h option \<Rightarrow> ('c, 'h) app_fields \<Rightarrow> ('c, 'h) app_fields" where
  "DefaultTracer fn a = a\<lparr>af_getTracer := fn\<rparr>"

definition GetTracer :: "('h \<Rightarrow> 't) \<Rightarrow> ('c, 'h) app_fields \<Rightarrow> 't option" where
  "GetTracer call a = (case af_getTracer a of Some fn \<Rightarrow> Some (call fn) | None \<Rightarrow> None)"

definition SetJudgeGuest :: "'h option \<Rightarrow> ('c, 'h) app_fields \<Rightarrow> ('c, 'h) app_fields" where
  "SetJudgeGuest fn a = a\<lparr>af_judgeGuest := fn\<rparr>"

definition SetProtocolMarshal :: "'h option \<Rightarrow> ('c, 'h) app_fields \<Rightarrow> ('c, 'h) app_fields" where
  "SetProtocolMarshal fn a = a\<lparr>af_protocolMarshal := fn\<rparr>"

definition SetModuleInited :: "'h option \<Rightarrow> ('c, 'h) app_fields \<Rightarrow> ('c, 'h) app_fields" where
  "SetModuleInited fn a = a\<lparr>af_moduleInited := fn\<rparr>"

definition SetConfigurationLoaded :: "'h option \<Rightarrow> ('c, 'h) app_fields \<Rightarrow> ('c, 'h) app_fields" where
  "SetConfigurationLoaded fn a = a\<lparr>af_configurationLoaded := fn\<rparr>"

definition SetStartup :: "'h option \<Rightarrow> ('c, 'h) app_fields \<Rightarrow> ('c, 'h) app_fields" where
  "SetStartup fn a = a\<lparr>af_startUp := fn\<rparr>"

section \<open>Run\<close>

text \<open>
  What a run does, in order. \<open>hooks\<close>: which of \<^verbatim>\<open>configurationLoaded\<close>, \<^verbatim>\<open>startUp\<close> and \<^verbatim>\<open>judgeGuest\<close> the application set.
  The callbacks are the application's own and do not touch the modelled state; \<open>parse\<close> is \<^verbatim>\<open>json.Unmarshal\<close>.
\<close>

datatype 'm run_action = Log_dir_made string bool | Config_loaded string | Log_started string string | Hook_configuration
  | Module_configured 'm | Servers_made | Module_inited 'm | Hook_startup | Guests_warned | Server_started | Awaits_signal
  | Module_stopped 'm | Client_done string | Closes_down

record run_hooks =
  rh_configurationLoaded :: bool
  rh_startUp :: bool
  rh_judgeGuest :: bool

type_synonym config_parser = "bytes \<Rightarrow> string + rpc_conf \<times> module_config"

definition hooks_of :: "('c, 'h) app_fields \<Rightarrow> run_hooks" where
  "hooks_of a = \<lparr>rh_configurationLoaded = (af_configurationLoaded a \<noteq> None), rh_startUp = (af_startUp a \<noteq> None),
     rh_judgeGuest = (af_judgeGuest a \<noteq> None)\<rparr>"

definition load_modules :: "config_parser \<Rightarrow> bytes option \<Rightarrow> (rpc_conf \<times> module_config) outcome" where
  "load_modules parse file =
     outcome_bind (LoadConfig (\<lambda>bs. map_sum id fst (parse bs)) file) (\<lambda>c.
       case file of
         None \<Rightarrow> Panic ''no such file or directory''
       | Some bs \<Rightarrow> (case parse (config_text bs) of Inl e \<Rightarrow> Panic e | Inr (c0, cfg) \<Rightarrow> Done (c, cfg)))"

text \<open>\<open>net\<close>: whether the clients of RabbitMQ and redis can be made; \<open>order\<close>: the visits of the module manager.\<close>

type_synonym 'm network = "(module_settings \<Rightarrow> bool) \<times> (module_settings \<Rightarrow> bool)"

definition run_start :: "run_system \<Rightarrow> config_parser \<Rightarrow> run_hooks \<Rightarrow> (module_settings \<Rightarrow> bool) \<times> (module_settings \<Rightarrow> bool) \<Rightarrow> ('m \<Rightarrow> string)
    \<Rightarrow> (nat \<Rightarrow> module_config) \<Rightarrow> run_flags \<Rightarrow> 'm list
    \<Rightarrow> ('m run_action list \<times> ('m \<times> module_settings) list \<times> server_list) outcome" where
  "run_start sys parse hooks net GetType order fl mods =
     outcome_bind (application_dir sys fl) (\<lambda>(dir, wd).
       case run_paths fl dir of (conf, logs) \<Rightarrow>
         if \<not> rs_opens sys wd conf then Panic ''no such file or directory''
         else outcome_bind (load_modules parse (rs_read sys wd conf)) (\<lambda>(rpc, cfg).
           outcome_bind (app_start (fst net) (snd net) GetType cfg order (rf_pid fl) mods) (\<lambda>(ms, sl).
             Done ((if rs_opens sys wd logs then [] else [Log_dir_made logs (rs_mkdir sys logs)])
               @ [Config_loaded conf, Log_started (rf_pid fl) logs]
               @ (if rh_configurationLoaded hooks then [Hook_configuration] else [])
               @ map Module_configured mods @ [Servers_made] @ map (Module_inited \<circ> fst) ms
               @ (if rh_startUp hooks then [Hook_startup] else [])
               @ (if rh_judgeGuest hooks then [] else [Guests_warned]) @ [Server_started, Awaits_signal], ms, sl))))"

text \<open>\<^verbatim>\<open>OnDestroy\<close> ends every client, whatever \<^verbatim>\<open>Done\<close> answers; \<open>visit\<close> is the order of its visit of the server list.\<close>

fun app_OnDestroy :: "string list \<Rightarrow> server_list \<Rightarrow> string list" where
  "app_OnDestroy [] sl = []"
| "app_OnDestroy (i # is) sl = (case sl i of None \<Rightarrow> app_OnDestroy is sl | Some s \<Rightarrow> i # app_OnDestroy is sl)"

definition run_stop :: "('m \<Rightarrow> run_end) \<Rightarrow> string list \<Rightarrow> ('m \<times> module_settings) list \<times> server_list \<Rightarrow> 'm run_action list \<times> shutdown" where
  "run_stop ends visit started = (case started of (ms, sl) \<Rightarrow>
     (case manager_Destroy ends (map fst ms) of
        (stopped, Waits_for_ever) \<Rightarrow> (map Module_stopped stopped, Waits_for_ever)
      | (stopped, Finished) \<Rightarrow> (map Module_stopped stopped @ map Client_done (app_OnDestroy visit sl) @ [Closes_down], Finished)))"

definition app_Run :: "run_system \<Rightarrow> config_parser \<Rightarrow> run_hooks \<Rightarrow> (module_settings \<Rightarrow> bool) \<times> (module_settings \<Rightarrow> bool) \<Rightarrow> ('m \<Rightarrow> string)
    \<Rightarrow> (nat \<Rightarrow> module_config) \<Rightarrow> ('m \<Rightarrow> run_end) \<Rightarrow> string list \<Rightarrow> run_flags \<Rightarrow> 'm list \<Rightarrow> ('m run_action list \<times> shutdown) outcome" where
  "app_Run sys parse hooks net GetType order ends visit fl mods =
     outcome_bind (run_start sys parse hooks net GetType order fl mods) (\<lambda>(acts, started).
       case run_stop ends visit started of (acts', e) \<Rightarrow> Done (acts @ acts', e))"

section \<open>When a process starts\<close>

lemma init_servers_Done_iff:
  "(\<exists>sl'. init_servers amqp redis pid xs sl = Done sl') \<longleftrightarrow> distinct (map (ms_Id \<circ> snd) xs) \<and> (\<forall>x \<in> set xs. sl (ms_Id (snd x)) = None)"
proof (induction amqp redis pid xs sl rule: init_servers.induct)
  case (2 amqp redis pid Type mi rest sl)
  show ?case
  proof (cases "sl (ms_Id mi)")
    case None
    let ?sl = "sl(ms_Id mi \<mapsto> new_server amqp redis pid Type mi)"
    have "(\<exists>sl'. init_servers amqp redis pid ((Type, mi) # rest) sl = Done sl') = (\<exists>sl'. init_servers amqp redis pid rest ?sl = Done sl')"
      using None by simp
    also have "\<dots> = (distinct (map (ms_Id \<circ> snd) rest) \<and> (\<forall>x \<in> set rest. ?sl (ms_Id (snd x)) = None))" by (rule 2 [OF None])
    also have "\<dots> = (distinct (map (ms_Id \<circ> snd) ((Type, mi) # rest)) \<and> (\<forall>x \<in> set ((Type, mi) # rest). sl (ms_Id (snd x)) = None))"
      using None by (force split: if_splits)
    finally show ?thesis .
  qed simp
qed simp

lemma ids_of_settings: "map (ms_Id \<circ> snd) (all_settings cfg) = map ms_Id (concat (map snd cfg))"
  by (induction cfg) (auto simp: all_settings_def)

lemma app_start_Done_iff:
  "(\<exists>r. app_start amqp redis GetType cfg order pid mods = Done r) \<longleftrightarrow>
    distinct (map ms_Id (concat (map snd cfg))) \<and> (\<forall>ss \<in> set (map snd cfg). distinct (map ms_ProcessID ss))"
proof -
  have o: "(\<exists>sl. app_OnInit amqp redis pid cfg = Done sl) \<longleftrightarrow> distinct (map ms_Id (concat (map snd cfg)))"
    unfolding app_OnInit_def init_servers_Done_iff ids_of_settings by simp
  have c: "CheckModuleSettings cfg = Done () \<longleftrightarrow>
      distinct (map ms_Id (concat (map snd cfg))) \<and> (\<forall>ss \<in> set (map snd cfg). distinct (map ms_ProcessID ss))"
    by (auto simp: CheckModuleSettings_cond all_ids_def list_all_iff o_def case_prod_unfold)
  have "(\<exists>r. app_start amqp redis GetType cfg order pid mods = Done r)
      \<longleftrightarrow> (\<exists>sl. app_OnInit amqp redis pid cfg = Done sl) \<and> CheckModuleSettings cfg = Done ()"
    by (cases "app_OnInit amqp redis pid cfg"; cases "CheckModuleSettings cfg")
       (simp_all add: app_start_def manager_Init_def)
  then show ?thesis using o c by blast
qed


text \<open>The modules of a run, in the order in which their \<^verbatim>\<open>OnInit\<close> and \<^verbatim>\<open>OnDestroy\<close> are called, and the clients it ends.\<close>

definition inited :: "'m run_action list \<Rightarrow> 'm list" where
  "inited acts = concat (map (\<lambda>a. case a of Module_inited m \<Rightarrow> [m] | _ \<Rightarrow> []) acts)"

definition stopped :: "'m run_action list \<Rightarrow> 'm list" where
  "stopped acts = concat (map (\<lambda>a. case a of Module_stopped m \<Rightarrow> [m] | _ \<Rightarrow> []) acts)"

definition ended_clients :: "'m run_action list \<Rightarrow> string list" where
  "ended_clients acts = concat (map (\<lambda>a. case a of Client_done i \<Rightarrow> [i] | _ \<Rightarrow> []) acts)"

lemma inited_simps [simp]:
  "inited [] = []" "inited (Module_inited m # acts) = m # inited acts" "inited (acts @ acts') = inited acts @ inited acts'"
  "inited (map (Module_inited \<circ> f) ms) = map f ms" "inited (map Module_stopped xs) = []" "inited (map Client_done is) = []"
  "inited (map Module_configured xs) = []" "inited (Closes_down # acts) = inited acts"
  by (simp_all add: inited_def) (induction ms, simp_all)

lemma stopped_simps [simp]:
  "stopped [] = []" "stopped (Module_stopped m # acts) = m # stopped acts" "stopped (acts @ acts') = stopped acts @ stopped acts'"
  "stopped (map Module_stopped xs) = xs" "stopped (map (Module_inited \<circ> f) ms) = []" "stopped (map Client_done is) = []"
  "stopped (map Module_configured xs) = []" "stopped (Closes_down # acts) = stopped acts"
  by (simp_all add: stopped_def) (induction xs, simp_all)

lemma ended_simps [simp]:
  "ended_clients [] = []" "ended_clients (Client_done i # acts) = i # ended_clients acts"
  "ended_clients (acts @ acts') = ended_clients acts @ ended_clients acts'" "ended_clients (map Client_done is) = is"
  "ended_clients (map (Module_inited \<circ> f) ms) = []" "ended_clients (map Module_stopped xs) = []"
  "ended_clients (map Module_configured xs) = []" "ended_clients (Closes_down # acts) = ended_clients acts"
  by (simp_all add: ended_clients_def) (induction "is", simp_all)

lemma stop_modules_spec:
  "stop_modules ends ms = (takeWhile (\<lambda>m. ends m = Run_returns) ms, if \<forall>m \<in> set ms. ends m = Run_returns then Finished else Waits_for_ever)"
  by (induction ms) (auto split: run_end.splits)

lemma app_OnDestroy_filter: "app_OnDestroy visit sl = filter (\<lambda>i. sl i \<noteq> None) visit"
  by (induction visit) (auto split: option.splits)

lemma init_servers_dom:
  "init_servers amqp redis pid xs sl = Done sl' \<Longrightarrow> dom sl' = dom sl \<union> ms_Id ` snd ` set xs"
  by (induction amqp redis pid xs sl rule: init_servers.induct) (auto split: option.splits)

lemma app_start_dom:
  assumes "app_start amqp redis GetType cfg order pid mods = Done (ms, sl)"
  shows "sl i \<noteq> None \<longleftrightarrow> i \<in> ms_Id ` snd ` set (all_settings cfg)"
proof -
  obtain sl0 where sl0: "app_OnInit amqp redis pid cfg = Done sl0" "sl = init_modules ms sl0"
    using assms by (auto simp: app_start_def outcome_bind_Done_iff)
  have "dom sl0 = ms_Id ` snd ` set (all_settings cfg)"
    using init_servers_dom [OF sl0(1) [unfolded app_OnInit_def]] by simp
  then have "sl0 i \<noteq> None \<longleftrightarrow> i \<in> ms_Id ` snd ` set (all_settings cfg)" unfolding domIff [symmetric] by (simp only:)
  then show ?thesis unfolding sl0(2) init_modules_get by simp
qed

lemma modules_started:
  assumes "app_start amqp redis GetType cfg order pid mods = Done (ms, sl)" "distinct (map fst cfg)" "\<And>i. mset (order i) = mset cfg"
  shows "map fst ms = filter (\<lambda>m. own_setting cfg pid (GetType m) \<noteq> None) mods"
proof -
  have "manager_Init GetType cfg order pid mods = Done ms" using assms(1) by (auto simp: app_start_def outcome_bind_Done_iff)
  then have ms: "ms = concat (map (\<lambda>m. case own_setting cfg pid (GetType m) of None \<Rightarrow> [] | Some s \<Rightarrow> [(m, s)]) mods)"
    using assms(2,3) by (rule modules_run_once)
  show ?thesis unfolding ms by (induction mods) (auto split: option.splits)
qed

lemma run_stop_spec:
  assumes "run_stop ends visit (ms, sl) = (b, fin)"
  shows "inited b = []" "stopped b = takeWhile (\<lambda>m. ends m = Run_returns) (rev (map fst ms))"
    "(fin = Finished) = list_all (\<lambda>m. ends m = Run_returns) (map fst ms)"
    "ended_clients b = (if fin = Finished then filter (\<lambda>i. sl i \<noteq> None) visit else [])"
  using assms by (auto simp: run_stop_def manager_Destroy_def stop_modules_spec app_OnDestroy_filter list_all_iff split: if_splits)

text \<open>
  C23: the modules of a process live in one order: those with a setting for this process are started as they were given to \<^verbatim>\<open>Run\<close>; after the
  signal they are stopped in reverse up to the first whose \<^verbatim>\<open>Run\<close> does not return; \<^verbatim>\<open>Run\<close> returns exactly when there is none; and only
  then the clients of all configured modules are ended, each once.
\<close>

theorem run_life:
  assumes run: "app_Run sys parse hooks net GetType order ends visit fl mods = Done (acts, fin)"
    and conf: "application_dir sys fl = Done (dir, wd)" "rs_read sys wd (fst (run_paths fl dir)) = Some data" "parse (config_text data) = Inr (rpc, cfg)"
    and cfg: "distinct (map fst cfg)" "\<And>i. mset (order i) = mset cfg"
  shows "inited acts = filter (\<lambda>m. own_setting cfg (rf_pid fl) (GetType m) \<noteq> None) mods
    \<and> stopped acts = takeWhile (\<lambda>m. ends m = Run_returns) (rev (inited acts))
    \<and> (fin = Finished) = list_all (\<lambda>m. ends m = Run_returns) (inited acts)
    \<and> ended_clients acts = (if fin = Finished then filter (\<lambda>i. i \<in> ms_Id ` snd ` set (all_settings cfg)) visit else [])"
proof -
  obtain c where load: "load_modules parse (Some data) = Done (c, cfg)"
    using conf(3) by (auto simp: load_modules_def LoadConfig_def Let_def)
  obtain acts0 ms sl where r: "run_start sys parse hooks net GetType order fl mods = Done (acts0, ms, sl)"
      "(case run_stop ends visit (ms, sl) of (acts', e) \<Rightarrow> Done (acts0 @ acts', e)) = Done (acts, fin)"
    using run by (auto simp: app_Run_def outcome_bind_Done_iff simp del: split_paired_Ex)
  obtain b e where b: "run_stop ends visit (ms, sl) = (b, e)" by (cases "run_stop ends visit (ms, sl)")
  have e: "acts = acts0 @ b" "e = fin" using r(2) b by simp_all
  have a: "app_start (fst net) (snd net) GetType cfg order (rf_pid fl) mods = Done (ms, sl)" and
      i: "inited acts0 = map fst ms" "stopped acts0 = []" "ended_clients acts0 = []"
    using r(1) conf(1,2) load
    by (auto simp: run_start_def outcome_bind_Done_iff inited_def stopped_def ended_clients_def o_def map_concat split: if_splits prod.splits)
  have m: "map fst ms = filter (\<lambda>m. own_setting cfg (rf_pid fl) (GetType m) \<noteq> None) mods" using modules_started [OF a cfg] .
  show ?thesis using run_stop_spec [OF b [unfolded e(2)]] i m app_start_dom [OF a] unfolding e(1) by simp
qed

text \<open>The process \<^verbatim>\<open>p\<close> of the small configuration, with a module the configuration does not name.\<close>

definition demo_system :: run_system where
  "demo_system = \<lparr>rs_opens = (\<lambda>wd f. True), rs_Chdir = (\<lambda>d. None), rs_wd = Some ''/srv'', rs_program = [], rs_mkdir = (\<lambda>d. True),
     rs_read = (\<lambda>wd f. Some [])\<rparr>"

definition demo_parser :: config_parser where
  "demo_parser bs = Inr (\<lparr>MaxCoroutine = 0, conf_RpcExpired = 0\<rparr>, demo_config)"

definition demo_run :: "(string run_action list \<times> shutdown) outcome" where
  "demo_run = app_Run demo_system demo_parser \<lparr>rh_configurationLoaded = False, rh_startUp = False, rh_judgeGuest = False\<rparr>
     ((\<lambda>s. True), (\<lambda>s. True)) (\<lambda>m. m) (\<lambda>i. demo_config) (\<lambda>m. Run_returns) [''g1'', ''c1'', ''g2''] (default_flags\<lparr>rf_pid := ''p''\<rparr>)
     [''Chat'', ''Master'', ''Gate'']"

theorem run_life_witness:
  "\<exists>acts. demo_run = Done (acts, Finished) \<and> inited acts = [''Chat'', ''Gate''] \<and> stopped acts = [''Gate'', ''Chat'']
     \<and> ended_clients acts = [''g1'', ''c1'', ''g2'']"
proof -
  have ok: "case demo_run of Done r \<Rightarrow> True | Panic e \<Rightarrow> False" by code_simp
  have "\<exists>r. demo_run = Done r"
  proof (rule outcome.exhaust [of demo_run])
    fix e assume p: "demo_run = Panic e"
    show ?thesis using ok unfolding p by simp
  qed blast
  then obtain acts fin where d: "demo_run = Done (acts, fin)" by (auto simp del: split_paired_Ex)
  have c: "application_dir demo_system (default_flags\<lparr>rf_pid := ''p''\<rparr>) = Done (''/srv'', Some ''/srv'')"
    "rs_read demo_system (Some ''/srv'') (fst (run_paths (default_flags\<lparr>rf_pid := ''p''\<rparr>) ''/srv'')) = Some []"
    "demo_parser (config_text []) = Inr (\<lparr>MaxCoroutine = 0, conf_RpcExpired = 0\<rparr>, demo_config)"
    by (simp_all add: application_dir_def demo_system_def default_flags_def demo_parser_def)
  have "distinct (map fst demo_config)" by (simp add: demo_config_def)
  note life = run_life [OF d [unfolded demo_run_def] c this refl]
  have f: "filter (\<lambda>m. own_setting demo_config (rf_pid (default_flags\<lparr>rf_pid := ''p''\<rparr>)) m \<noteq> None) [''Chat'', ''Master'', ''Gate''] = [''Chat'', ''Gate'']"
    "filter (\<lambda>i. i \<in> ms_Id ` snd ` set (all_settings demo_config)) [''g1'', ''c1'', ''g2''] = [''g1'', ''c1'', ''g2'']"
    by code_simp+
  show ?thesis using life d unfolding f by (auto simp: list_all_iff)
qed

end
