(* ===== verification/Lodos_Modules.thy ===== *)
theory Lodos_Modules
  imports Lodos_Start
begin

text \<open>
  The calls of a module (\<^verbatim>\<open>module/base/base_module.go\<close>) and what they come to: after the start of the application, a call of one module to
  another that runs in the same process gives what the handler of the other one returns.
\<close>

section \<open>Calls of a module\<close>

text \<open>The server id of the module is the hash of the route; a module that was never initialised has none.\<close>

definition with_server_id :: "'b base_module \<Rightarrow> (string \<Rightarrow> 'r) \<Rightarrow> 'r outcome" where
  "with_server_id m f = map_outcome_val f (GetServerId m)"

definition base_RpcCall where
  "base_RpcCall w route m mType fn params =
     outcome_bind (GetServerId m) (\<lambda>sid. case route mType sid of Inl e \<Rightarrow> Done (Inl (PlainError e)) | Inr s \<Rightarrow> ms_Call w s fn params)"

definition base_RpcSyncCall where
  "base_RpcSyncCall w route m mType fn params =
     with_server_id m (\<lambda>sid. case route mType sid of Inl e \<Rightarrow> Inl (PlainError e) | Inr s \<Rightarrow> ms_SyncCall w s fn params)"

definition base_RpcCallNR where
  "base_RpcCallNR w route m mType fn params =
     with_server_id m (\<lambda>sid. case route mType sid of Inl e \<Rightarrow> Some (PlainError e) | Inr s \<Rightarrow> ms_CallNR w s fn params)"

definition base_RpcCallArgs where
  "base_RpcCallArgs w route m mType fn ts args =
     outcome_bind (GetServerId m) (\<lambda>sid. case route mType sid of Inl e \<Rightarrow> Done (Inl (PlainError e)) | Inr s \<Rightarrow> ms_CallArgs w s fn ts args)"

definition base_RpcSyncCallArgs where
  "base_RpcSyncCallArgs w route m mType fn ts args =
     with_server_id m (\<lambda>sid. case route mType sid of Inl e \<Rightarrow> Inl (PlainError e) | Inr s \<Rightarrow> ms_SyncCallArgs w s fn ts args)"

definition base_RpcCallArgsNR where
  "base_RpcCallArgsNR w route m mType fn ts args =
     with_server_id m (\<lambda>sid. case route mType sid of Inl e \<Rightarrow> Some (PlainError e) | Inr s \<Rightarrow> ms_CallArgsNR w s fn ts args)"

definition base_GetRouteServer where
  "base_GetRouteServer route (flt :: string) (hash :: string) = (route flt hash :: string + server)"

text \<open>
  What a module counts of its methods: nothing fills the map any more, and reading it sets the time. \<open>parse\<close> and \<open>marshal\<close> are those of JSON;
  without an answer of them there is nil, or no text. \<open>rwmutex\<close>: whether the
  mutex is no nil pointer; no code makes it.
\<close>

record statistical_method =
  stm_Name :: string
  stm_StartTime :: "64 word"
  stm_EndTime :: "64 word"
  stm_MinExecTime :: "64 word"
  stm_MaxExecTime :: "64 word"
  stm_ExecTotal :: int
  stm_ExecTimeout :: int
  stm_ExecSuccess :: int
  stm_ExecFailure :: int

type_synonym statistics = "(string \<times> statistical_method) list"

definition LoadStatisticalMethod :: "(string \<Rightarrow> string + statistics) \<Rightarrow> string \<Rightarrow> statistics option" where
  "LoadStatisticalMethod parse j = (case parse j of Inl e \<Rightarrow> None | Inr sm \<Rightarrow> Some sm)"

definition GetStatistical ::
  "bool \<Rightarrow> (statistics \<Rightarrow> string + string) \<Rightarrow> 64 word \<Rightarrow> statistics \<Rightarrow> ((string \<times> string option) \<times> statistics) outcome" where
  "GetStatistical rwmutex marshal now sm =
     (if \<not> rwmutex then Panic ''nil pointer dereference''
      else let sm = map (\<lambda>(k, s). (k, s\<lparr>stm_EndTime := now\<rparr>)) sm
           in Done (case marshal sm of Inl e \<Rightarrow> (([], Some e), sm) | Inr b \<Rightarrow> ((b, None), sm)))"

section \<open>A call within a process\<close>

text \<open>
  \<open>serves_call\<close>: the server of this connection has the function; it takes the parameters, returns in time, and its results can be sent. What is
  then answered is \<open>handler_answer\<close>.
\<close>

definition serves_call ::
  "'a rpc_world \<Rightarrow> server \<Rightarrow> 'a dyn function_table \<Rightarrow> int \<Rightarrow> int \<Rightarrow> string \<Rightarrow> 'a dyn go_value list \<Rightarrow> 'a dyn go_value list \<Rightarrow> int \<Rightarrow> string \<Rightarrow> bool" where
  "serves_call w s fs now' run_at fn ps rs code txt \<longleftrightarrow>
     w_deliver w s = local_deliver (ce_json (w_env w s)) (ce_apps (w_env w s)) fs now' run_at
     \<and> (\<exists>f d e. fs fn = Some f \<and> is_func f \<and> num_in f = length ps \<and> (\<forall>k < length ps. assignable f k (wire (ps ! k)))
         \<and> body f (map wire ps) = Yields d (rs @ [e]) \<and> 0 \<le> d \<and> result_error e = Some (code, txt)
         \<and> run_at + d < (w_now w + RpcExpired (w_env w s) * 1000000000) div 1000000 * 1000000)
     \<and> list_all (carries_value (ce_json (w_env w s)) (ce_apps (w_env w s))) ps
     \<and> list_all (\<lambda>p. w_clone w p = p \<and> p \<noteq> GNil) ps
     \<and> list_all (carries_value (ce_json (w_env w s)) (ce_apps (w_env w s))) rs
     \<and> now' div 1000 div 1000 \<le> (w_now w + RpcExpired (w_env w s) * 1000000000) div 1000000"

definition handler_answer :: "'a dyn go_value list \<Rightarrow> int \<Rightarrow> string \<Rightarrow> ('a dyn + 'a dyn go_value list) outcome" where
  "handler_answer rs code txt = Done (if txt = [] then Inr (map wire rs) else Inl (CodeError code txt))"

lemma ms_Call_local:
  assumes "local_client (sv_conn s)" "serves_call w s fs now' run_at fn ps rs code txt"
  shows "ms_Call w s fn ps = handler_answer rs code txt"
proof -
  obtain f d e where f: "fs fn = Some f" "is_func f" "num_in f = length ps" "\<forall>k < length ps. assignable f k (wire (ps ! k))"
      "body f (map wire ps) = Yields d (rs @ [e])" "0 \<le> d" "result_error e = Some (code, txt)"
      "run_at + d < (w_now w + RpcExpired (w_env w s) * 1000000000) div 1000000 * 1000000"
    and o: "w_deliver w s = local_deliver (ce_json (w_env w s)) (ce_apps (w_env w s)) fs now' run_at"
      "list_all (carries_value (ce_json (w_env w s)) (ce_apps (w_env w s))) ps" "list_all (\<lambda>p. w_clone w p = p \<and> p \<noteq> GNil) ps"
      "list_all (carries_value (ce_json (w_env w s)) (ce_apps (w_env w s))) rs"
      "now' div 1000 div 1000 \<le> (w_now w + RpcExpired (w_env w s) * 1000000000) div 1000000"
    using assms(2) unfolding serves_call_def by blast
  show ?thesis
    unfolding ms_Call_def o(1) handler_answer_def
    by (rule local_call [where f = f and d = d and e = e]) (use assms(1) f o in simp_all)
qed

text \<open>The servers after the start are those of the configuration.\<close>

lemma servers_after_start:
  assumes "app_start amqp redis GetType cfg order pid mods = Done (ms, sl)"
  shows "sl i = Some s \<Longrightarrow> sv_id s = i"
    and "(\<exists>s. sl i = Some s \<and> sv_type s = t) \<longleftrightarrow> (t, i) \<in> configured cfg"
proof -
  obtain sl0 where sl0: "app_OnInit amqp redis pid cfg = Done sl0" "sl = init_modules ms sl0"
    using assms by (auto simp: app_start_def outcome_bind_Done_iff)
  note s0 = app_OnInit_servers [OF sl0(1)]
  show "sl i = Some s \<Longrightarrow> sv_id s = i"
    using s0(1) [of i] by (auto simp: sl0(2) init_modules_get split: if_splits)
  show "(\<exists>s. sl i = Some s \<and> sv_type s = t) \<longleftrightarrow> (t, i) \<in> configured cfg"
    using s0(2) [of i t] by (auto simp: sl0(2) init_modules_get split: if_splits)
qed

lemma local_after_start:
  assumes "app_start amqp redis GetType cfg order pid mods = Done (ms, sl)" "distinct (map fst cfg)" "\<And>i. mset (order i) = mset cfg"
    "(t, i) \<in> configured cfg" "\<And>mi. (t, mi) \<in> set (all_settings cfg) \<Longrightarrow> ms_Id mi = i \<Longrightarrow> ms_ProcessID mi = pid \<and> t \<in> GetType ` set mods"
    "sl i = Some s"
  shows "local_client (sv_conn s)"
proof -
  obtain mi where mi: "(t, mi) \<in> set (all_settings cfg)" "ms_Id mi = i" using assms(4) by (auto simp: configured_def)
  then obtain sv where "GetServerById sl i = Inr sv" "pick (sv_conn sv) = Some ViaLocal"
    using connections_step [OF assms(1-3) mi(1)] assms(5) [OF mi] by auto
  then show ?thesis using assms(6) by (auto simp: GetServerById_def pick_def split: if_splits)
qed

text \<open>
  C40: After a start of the application, a call of a module whose filter names only modules of this process comes to one of them, and gives
  the module exactly what the handler there returns: its results, or its error with the code. No
  part of the way (route, choice of the connection, encoding, queue, reflection, decoding) changes it.
\<close>

theorem module_calls_answered:
  assumes "app_start amqp redis GetType cfg order pid mods = Done (ms, sl)" "distinct (map fst cfg)" "\<And>i. mset (order i) = mset cfg"
    and "set visit = dom sl" "GetServerId m = Done caller"
    and "wanted = (case split_on CHR ''@'' flt of [t, i] \<Rightarrow> if i = [] then {x \<in> configured cfg. fst x = t}
          else {x \<in> configured cfg. snd x = i} | t # ts \<Rightarrow> {x \<in> configured cfg. fst x = t} | [] \<Rightarrow> {})" "wanted \<noteq> {}"
    and "\<And>t mi. (t, mi) \<in> set (all_settings cfg) \<Longrightarrow> (t, ms_Id mi) \<in> wanted \<Longrightarrow> ms_ProcessID mi = pid \<and> t \<in> GetType ` set mods"
    and "\<And>t i s. (t, i) \<in> wanted \<Longrightarrow> sl i = Some s \<Longrightarrow> serves_call w s (tables i) now' run_at fn ps (rs i) (code i) (txt i)"
  shows "\<exists>t i. (t, i) \<in> wanted
    \<and> base_RpcCall w (GetRouteServer visit sl Map.empty) m flt fn ps = handler_answer (rs i) (code i) (txt i)"
proof -
  have "case GetRouteServer visit sl Map.empty flt caller of
      Inr s \<Rightarrow> (sv_type s, sv_id s) \<in> wanted \<and> sl (sv_id s) = Some s
    | Inl e \<Rightarrow> wanted = {}"
    using servers_after_start [OF assms(1)] assms(4,6) by (rule GetRouteServer_step)
  then obtain s where s: "GetRouteServer visit sl Map.empty flt caller = Inr s" "(sv_type s, sv_id s) \<in> wanted" "sl (sv_id s) = Some s"
    using assms(7) by (auto split: sum.splits)
  have c: "(sv_type s, sv_id s) \<in> configured cfg" using servers_after_start(2) [OF assms(1), of "sv_id s" "sv_type s"] s(3) by blast
  have "local_client (sv_conn s)"
    using local_after_start [OF assms(1-3) c _ s(3)] assms(8) s(2) by metis
  then have "ms_Call w s fn ps = handler_answer (rs (sv_id s)) (code (sv_id s)) (txt (sv_id s))"
    using assms(9) [OF s(2,3)] by (rule ms_Call_local)
  then show ?thesis using s(1,2) assms(5) by (auto simp: base_RpcCall_def)
qed

lemma init_modules_dom: "dom (init_modules ms sl) = dom sl"
  by (auto simp: init_modules_get dom_def split: if_splits)

text \<open>A gate calls the chat module of its process.\<close>

definition chat_world :: "nat rpc_world" where
  "chat_world = \<lparr>w_env = (\<lambda>s. demo_env),
     w_deliver = (\<lambda>s. local_deliver (ce_json demo_env) (ce_apps demo_env) [''f'' \<mapsto> demo_func] 2000000 2000000),
     w_send = (\<lambda>s v ci. None), w_clone = (\<lambda>v. v), w_now = 1000000, w_corr = ''id''\<rparr>"

definition gate_module :: "nat base_module" where
  "gate_module = \<lparr>bm_settings = demo_setting ''g1'' ''p'', bm_server = Some \<lparr>rm_Id = ''g1'', rm_server = Some Map.empty\<rparr>\<rparr>"

definition both_modules :: "(string \<times> module_settings) list" where
  "both_modules = [(''Chat'', demo_setting ''c1'' ''p''), (''Gate'', demo_setting ''g1'' ''p'')]"

lemma demo_start:
  "app_start (\<lambda>s. True) (\<lambda>s. True) (\<lambda>m. m) demo_config (\<lambda>i. demo_config) ''p'' [''Chat'', ''Gate'']
    = Done (both_modules, init_modules both_modules demo_servers)"
proof -
  have "app_OnInit (\<lambda>s. True) (\<lambda>s. True) ''p'' demo_config = Done demo_servers"
    by (simp add: app_OnInit_def all_settings_def demo_config_def demo_setting_def demo_servers_def fun_eq_iff)
  moreover have "manager_Init (\<lambda>m. m) demo_config (\<lambda>i. demo_config) ''p'' [''Chat'', ''Gate''] = Done both_modules"
    by (simp add: manager_Init_def CheckModuleSettings_def demo_config_def demo_setting_def run_mods_def matching_def both_modules_def
      upt_rec)
  ultimately show ?thesis by (simp add: app_start_def)
qed

lemma demo_answers:
  "serves_call chat_world s [''f'' \<mapsto> demo_func] 2000000 2000000 ''f'' [GString ''a'', GInt (- 1)] [GInt (take_bit 32 (- 1)), GString ''a'']
    7 (error_text 7 ''bad'')"
  unfolding serves_call_def
proof (intro conjI exI)
  show "body demo_func (map wire [GString ''a'', GInt (- 1)]) = Yields 1000 ([GInt (take_bit 32 (- 1)), GString ''a''] @ [GApp (CodeError 7 ''bad'')])"
    by (simp add: demo_func_def wire_def)
qed (simp_all add: chat_world_def demo_func_def demo_env_def result_error_def int32_def wire_def)

theorem module_calls_answered_witness:
  "base_RpcCall chat_world (GetRouteServer [''c1'', ''g2'', ''g1''] (init_modules both_modules demo_servers) Map.empty) gate_module
      ''Chat'' ''f'' [GString ''a'', GInt (- 1)]
    = handler_answer [GInt (take_bit 32 (- 1)), GString ''a''] 7 (error_text 7 ''bad'')"
proof -
  have "\<exists>t i. (t, i) \<in> {(''Chat'', ''c1'')} \<and>
      base_RpcCall chat_world (GetRouteServer [''c1'', ''g2'', ''g1''] (init_modules both_modules demo_servers) Map.empty) gate_module
        ''Chat'' ''f'' [GString ''a'', GInt (- 1)] = handler_answer [GInt (take_bit 32 (- 1)), GString ''a''] 7 (error_text 7 ''bad'')"
  proof (rule module_calls_answered [OF demo_start, where tables = "\<lambda>i. [''f'' \<mapsto> demo_func]" and now' = 2000000 and run_at = 2000000])
    show "set [''c1'', ''g2'', ''g1''] = dom (init_modules both_modules demo_servers)"
      unfolding init_modules_dom by (auto simp: demo_servers_def dom_def)
    show "{(''Chat'', ''c1'')} = (case split_on CHR ''@'' ''Chat'' of
        [t, i] \<Rightarrow> if i = [] then {x \<in> configured demo_config. fst x = t} else {x \<in> configured demo_config. snd x = i}
      | t # ts \<Rightarrow> {x \<in> configured demo_config. fst x = t} | [] \<Rightarrow> {})"
      by (auto simp: configured_def all_settings_def demo_config_def demo_setting_def)
  qed (auto simp: demo_config_def gate_module_def GetServerId_def all_settings_def demo_setting_def demo_answers [simplified])
  then show ?thesis by blast
qed

end
