(* ===== verification/Lodos_Seq.thy ===== *)
theory Lodos_Seq
  imports Lodos_Prelude
begin

text \<open>
  The add-ons: a section of the sequence service, \<^verbatim>\<open>addon/seq/base/section.go\<close>, which hands out
  numbers per user and reserves them in steps; and the exchange of funds and goods,
  \<^verbatim>\<open>addon/ver/base/data.go\<close> and \<^verbatim>\<open>exchange_verify.go\<close>. Sequences and funds are 64-bit words, compared
  as signed.
\<close>

type_synonym sequence = "64 word"

section \<open>Sections\<close>

record seq_section =
  sc_begin_id :: int
  sc_users :: "int \<Rightarrow> sequence option"
  sc_maxSeq :: sequence
  sc_step :: sequence

definition NewSection :: "int \<Rightarrow> sequence \<Rightarrow> sequence \<Rightarrow> string + seq_section" where
  "NewSection flag maxSeq step =
     (if step \<le>s 0 \<or> maxSeq \<le>s 0 then Inl ''step or max_seq cannot equal or negative than 0''
      else Inr \<lparr>sc_begin_id = flag, sc_users = Map.empty, sc_maxSeq = maxSeq, sc_step = step\<rparr>)"

definition AddUser :: "int \<Rightarrow> sequence \<Rightarrow> seq_section \<Rightarrow> string option \<times> seq_section" where
  "AddUser uid sq s =
     (case sc_users s uid of
        Some c \<Rightarrow> (Some ''user already exist'', s)
      | None \<Rightarrow> (None, s\<lparr>sc_users := (sc_users s)(uid \<mapsto> sq)\<rparr>))"

definition Exist :: "int \<Rightarrow> seq_section \<Rightarrow> bool" where
  "Exist uid s \<longleftrightarrow> sc_users s uid \<noteq> None"

definition GetSeq :: "int \<Rightarrow> seq_section \<Rightarrow> (string + sequence) \<times> seq_section" where
  "GetSeq uid s =
     (case sc_users s uid of
        None \<Rightarrow> (Inl ''cannot find user'', s)
      | Some c \<Rightarrow>
          (let q = c + 1; s = s\<lparr>sc_users := (sc_users s)(uid \<mapsto> q)\<rparr>
           in (Inr q, if sc_maxSeq s <s q then s\<lparr>sc_maxSeq := sc_maxSeq s + sc_step s\<rparr> else s)))"

definition GetMaxSeq :: "seq_section \<Rightarrow> sequence" where "GetMaxSeq s = sc_maxSeq s"

fun get_seqs :: "int list \<Rightarrow> seq_section \<Rightarrow> (string + sequence) list \<times> seq_section" where
  "get_seqs [] s = ([], s)"
| "get_seqs (u # us) s = (case GetSeq u s of (r, s) \<Rightarrow> case get_seqs us s of (rs, s) \<Rightarrow> (r # rs, s))"

text \<open>What is handed out is reserved: a service that starts again at the reserved number repeats none.\<close>

definition reserved :: "seq_section \<Rightarrow> bool" where
  "reserved s \<longleftrightarrow> 0 <s sc_step s \<and> (\<forall>u c. sc_users s u = Some c \<longrightarrow> c \<le>s sc_maxSeq s)"

lemma NewSection_reserved: "NewSection flag m st = Inr s \<Longrightarrow> reserved s"
  by (auto simp: NewSection_def reserved_def word_sle_eq word_sless_alt split: if_splits)

lemma AddUser_reserved: "reserved s \<Longrightarrow> sq \<le>s sc_maxSeq s \<Longrightarrow> reserved (snd (AddUser uid sq s))"
  by (auto simp: AddUser_def reserved_def split: option.splits)

lemma sint_add_bound:
  fixes a b :: sequence
  assumes "sint a + sint b < 2 ^ 63" "0 \<le> sint b"
  shows "sint (a + b) = sint a + sint b"
  using assms sint_ge [of a] by (simp add: sint_word_ariths signed_take_bit_int_eq_self)

lemma sint_suc: "sint (a :: sequence) < 2 ^ 63 - 1 \<Longrightarrow> sint (a + 1) = sint a + 1"
  using sint_add_bound [of a 1] by simp

lemma GetSeq_reserved:
  assumes "reserved s" "sint (sc_maxSeq s) + sint (sc_step s) < 2 ^ 63" "GetSeq u s = (r, t)"
  shows "reserved t \<and> sc_step t = sc_step s \<and> sint (sc_maxSeq t) \<le> sint (sc_maxSeq s) + sint (sc_step s)
    \<and> (case sc_users s u of None \<Rightarrow> t = s | Some c \<Rightarrow> r = Inr (c + 1) \<and> sint (c + 1) = sint c + 1
        \<and> sc_users t = (sc_users s)(u \<mapsto> c + 1))"
proof (cases "sc_users s u")
  case None
  then show ?thesis using assms by (auto simp: GetSeq_def reserved_def word_sless_alt)
next
  case (Some c)
  have st: "0 < sint (sc_step s)" and c: "sint c \<le> sint (sc_maxSeq s)"
    using assms(1) Some by (auto simp: reserved_def word_sle_eq word_sless_alt)
  have q: "sint (c + 1) = sint c + 1" using st c assms(2) by (intro sint_suc) linarith
  have m: "sint (sc_maxSeq s + sc_step s) = sint (sc_maxSeq s) + sint (sc_step s)"
    using st assms(2) by (intro sint_add_bound) auto
  have others: "sint d \<le> sint (sc_maxSeq s)" if "sc_users s v = Some d" for v d
    using assms(1) that by (auto simp: reserved_def word_sle_eq)
  have t: "t = (if sint (sc_maxSeq s) < sint c + 1
      then s\<lparr>sc_users := (sc_users s)(u \<mapsto> c + 1), sc_maxSeq := sc_maxSeq s + sc_step s\<rparr>
      else s\<lparr>sc_users := (sc_users s)(u \<mapsto> c + 1)\<rparr>)" and r: "r = Inr (c + 1)"
    using assms(3) Some q by (auto simp: GetSeq_def Let_def word_sless_alt)
  have "reserved t"
    unfolding reserved_def word_sle_eq word_sless_alt
    using t q m st c by (auto split: if_splits dest!: others)
  then show ?thesis using t r q m st Some by auto
qed

definition issued_to :: "int \<Rightarrow> int list \<Rightarrow> (string + sequence) list \<Rightarrow> sequence list" where
  "issued_to u us rs = concat (map2 (\<lambda>v r. if v = u then (case r of Inl e \<Rightarrow> [] | Inr q \<Rightarrow> [q]) else []) us rs)"


definition small_section :: seq_section where
  "small_section = \<lparr>sc_begin_id = 0, sc_users = [1 \<mapsto> 9, 2 \<mapsto> 4], sc_maxSeq = 10, sc_step = 5\<rparr>"


section \<open>Entities and goods\<close>

text \<open>
  What the methods of an \<^verbatim>\<open>Entity\<close> and of \<^verbatim>\<open>Goods\<close> return; those of the package's own entity return 0 for
  the number and the type.
\<close>

record goods =
  g_BelongTo :: sequence
  g_SelfSequence :: sequence
  g_Type :: int
  g_Stackable :: bool

record entity =
  e_BelongTo :: bytes
  e_SelfSequence :: sequence
  e_EntityType :: "8 word"
  e_Fund :: "64 word"

definition NewGood :: "sequence \<Rightarrow> sequence \<Rightarrow> int \<Rightarrow> bool \<Rightarrow> goods" where
  "NewGood belong sq t stackable = \<lparr>g_BelongTo = belong, g_SelfSequence = sq, g_Type = t, g_Stackable = stackable\<rparr>"

definition NewEntity :: "bytes \<Rightarrow> sequence \<Rightarrow> 8 word \<Rightarrow> 64 word \<Rightarrow> entity" where
  "NewEntity belong sq t fund = \<lparr>e_BelongTo = belong, e_SelfSequence = 0, e_EntityType = 0, e_Fund = fund\<rparr>"

text \<open>The numbers of an exchange: \<^verbatim>\<open>CreateEntity\<close> and \<^verbatim>\<open>CreateGoods\<close>, when nothing else runs.\<close>

record ex_verify =
  ex_curSeq :: sequence
  ex_maxSeq :: sequence
  ex_step :: sequence

definition NewExchangeVerify :: "sequence \<Rightarrow> sequence \<Rightarrow> string + ex_verify" where
  "NewExchangeVerify maxSeq step =
     (if step \<le>s 0 then Inl ''step cannot equal or negative than 0''
      else Inr \<lparr>ex_curSeq = 0, ex_maxSeq = maxSeq, ex_step = step\<rparr>)"

definition SetMaxSeq :: "sequence \<Rightarrow> ex_verify \<Rightarrow> string option \<times> ex_verify" where
  "SetMaxSeq se ex =
     (if se <s 0 then (Some ''max sequen can not negative than 0'', ex) else (None, ex\<lparr>ex_maxSeq := se, ex_curSeq := se\<rparr>))"

definition next_seq :: "ex_verify \<Rightarrow> sequence \<times> ex_verify" where
  "next_seq ex =
     (let sq = ex_curSeq ex; ex = ex\<lparr>ex_curSeq := sq + 1\<rparr>
      in (sq, if ex_maxSeq ex <s ex_curSeq ex then ex\<lparr>ex_maxSeq := ex_maxSeq ex + ex_step ex\<rparr> else ex))"

definition CreateEntity :: "bytes \<Rightarrow> 8 word \<Rightarrow> 64 word \<Rightarrow> ex_verify \<Rightarrow> entity \<times> ex_verify" where
  "CreateEntity uid t fund ex = (case next_seq ex of (sq, ex) \<Rightarrow> (NewEntity uid (sq + 1) t fund, ex))"

definition CreateGoods :: "sequence \<Rightarrow> int \<Rightarrow> bool \<Rightarrow> ex_verify \<Rightarrow> goods \<times> ex_verify" where
  "CreateGoods belong t stackable ex = (case next_seq ex of (sq, ex) \<Rightarrow> (NewGood belong sq t stackable, ex))"

text \<open>
  The loop that takes a number, between goroutines: read, increment (a load and a store), compare,
  and again when another goroutine came between. \<open>Took q\<close>: it goes on with \<open>q\<close>.
\<close>

datatype take_phase = Reads | Loads sequence | Stores sequence sequence | Compares sequence | Took sequence

inductive take_step :: "sequence \<times> (nat \<Rightarrow> take_phase) \<Rightarrow> sequence \<times> (nat \<Rightarrow> take_phase) \<Rightarrow> bool" where
  take_read: "f i = Reads \<Longrightarrow> take_step (cur, f) (cur, f(i := Loads cur))"
| take_load: "f i = Loads sq \<Longrightarrow> take_step (cur, f) (cur, f(i := Stores sq cur))"
| take_store: "f i = Stores sq x \<Longrightarrow> take_step (cur, f) (x + 1, f(i := Compares sq))"
| take_again: "f i = Compares sq \<Longrightarrow> sq + 1 \<noteq> cur \<Longrightarrow> take_step (cur, f) (cur, f(i := Reads))"
| take_done: "f i = Compares sq \<Longrightarrow> sq + 1 = cur \<Longrightarrow> take_step (cur, f) (cur, f(i := Took sq))"

section \<open>Exchange\<close>

text \<open>A unit of an exchange: the methods' results; a nil entity and a nil slice are \<^const>\<open>None\<close>.\<close>

record exchange_unit =
  eu_Entity :: "entity option"
  eu_Fund :: "64 word"
  eu_Goods :: "goods list option"

datatype ex_error =
    Not_owned goods "entity option"
  | Funds_differ
  | Goods_differ
  | Nil_argument
  | No_redis
  | Redis_error string

definition unit_goods :: "exchange_unit \<Rightarrow> goods list" where
  "unit_goods u = (case eu_Goods u of None \<Rightarrow> [] | Some gs \<Rightarrow> gs)"

text \<open>The first loop of \<^verbatim>\<open>ExchangeGoods\<close> on the goods of a unit, with \<^verbatim>\<open>goodsMap\<close>.\<close>

fun collect_goods ::
  "entity option \<Rightarrow> goods list \<Rightarrow> (sequence \<Rightarrow> goods option) \<Rightarrow> (ex_error + (sequence \<Rightarrow> goods option)) outcome" where
  "collect_goods en [] m = Done (Inr m)"
| "collect_goods en (g # gs) m =
     (if g_SelfSequence g <s 0 then
        (case en of
           None \<Rightarrow> Panic ''nil pointer dereference''
         | Some e \<Rightarrow>
             (if g_BelongTo g \<noteq> e_SelfSequence e then Done (Inl (Not_owned g en))
              else if m (- g_SelfSequence g) \<noteq> None then collect_goods en gs (m(- g_SelfSequence g := None))
              else collect_goods en gs (m(g_SelfSequence g \<mapsto> g))))
      else collect_goods en gs m)"

fun collect ::
  "exchange_unit list \<Rightarrow> 64 word \<Rightarrow> (sequence \<Rightarrow> goods option) \<Rightarrow> (ex_error + 64 word \<times> (sequence \<Rightarrow> goods option)) outcome" where
  "collect [] tot m = Done (Inr (tot, m))"
| "collect (u # us) tot m =
     outcome_bind (collect_goods (eu_Entity u) (unit_goods u) m) (\<lambda>r.
       case r of Inl e \<Rightarrow> Done (Inl e) | Inr m \<Rightarrow> collect us (tot + eu_Fund u) m)"

text \<open>
  Redis, and the JSON library: what a key holds or the error, the error of a \<^verbatim>\<open>Set\<close>, and whether there is a
  connection. The fields of \<^verbatim>\<open>goods\<close> and \<^verbatim>\<open>entity\<close> are not exported: whatever a key holds is decoded
  as goods of the entity 0, and each of both is encoded as \<^verbatim>\<open>{}\<close>.
\<close>

record redis_env =
  r_conn :: bool
  r_Get :: "sequence \<Rightarrow> string + bytes"
  r_Set :: "sequence \<Rightarrow> string option"

definition decode_goods :: "bytes \<Rightarrow> goods" where
  "decode_goods reply = NewGood 0 0 0 False"

definition encode_json :: string where "encode_json = ''{}''"

fun verify_each :: "redis_env \<Rightarrow> entity \<Rightarrow> goods list \<Rightarrow> ex_error option" where
  "verify_each R e [] = None"
| "verify_each R e (g # gs) =
     (case r_Get R (g_SelfSequence g) of
        Inl err \<Rightarrow> Some (Redis_error err)
      | Inr reply \<Rightarrow>
          (if g_BelongTo (decode_goods reply) \<noteq> e_SelfSequence e then Some (Not_owned g (Some e)) else verify_each R e gs))"

definition VerifyGoods :: "redis_env \<Rightarrow> entity option \<Rightarrow> goods list option \<Rightarrow> ex_error option" where
  "VerifyGoods R en gs =
     (case (en, gs) of
        (Some e, Some gs) \<Rightarrow> (if r_conn R then verify_each R e gs else Some No_redis)
      | _ \<Rightarrow> Some Nil_argument)"

fun verify_units :: "redis_env \<Rightarrow> exchange_unit list \<Rightarrow> ex_error option" where
  "verify_units R [] = None"
| "verify_units R (u # us) =
     (case VerifyGoods R (eu_Entity u) (eu_Goods u) of Some e \<Rightarrow> Some e | None \<Rightarrow> verify_units R us)"

text \<open>The units after the exchange: \<^verbatim>\<open>myExUnits\<close>, an entity with its new fund and the goods it gets.\<close>

definition exchanged :: "entity \<Rightarrow> exchange_unit \<Rightarrow> entity \<times> goods list" where
  "exchanged en u =
     (NewEntity (e_BelongTo en) (e_SelfSequence en) (e_EntityType en) (e_Fund en + eu_Fund u),
      map (\<lambda>g. NewGood (e_SelfSequence en) (g_SelfSequence g) (g_Type g) (g_Stackable g))
        (filter (\<lambda>g. 0 <s g_SelfSequence g) (unit_goods u)))"

fun exchange_units :: "exchange_unit list \<Rightarrow> (entity \<times> goods list) list outcome" where
  "exchange_units [] = Done []"
| "exchange_units (u # us) =
     (case eu_Entity u of
        None \<Rightarrow> Panic ''nil pointer dereference''
      | Some en \<Rightarrow> map_outcome_val (\<lambda>xs. exchanged en u # xs) (exchange_units us))"

text \<open>\<^verbatim>\<open>PushToRedis\<close>: the commands sent, and the error. That of an entity's \<^verbatim>\<open>Set\<close> is dropped.\<close>

fun push_goods :: "redis_env \<Rightarrow> goods list \<Rightarrow> (sequence \<times> string) list \<times> string option" where
  "push_goods R [] = ([], None)"
| "push_goods R (g # gs) =
     (case r_Set R (g_SelfSequence g) of
        Some e \<Rightarrow> ([(g_SelfSequence g, encode_json)], Some e)
      | None \<Rightarrow> (case push_goods R gs of (cs, e) \<Rightarrow> ((g_SelfSequence g, encode_json) # cs, e)))"

fun push_units :: "redis_env \<Rightarrow> (entity \<times> goods list) list \<Rightarrow> (sequence \<times> string) list \<times> string option" where
  "push_units R [] = ([], None)"
| "push_units R ((en, gs) # us) =
     (case push_goods R gs of
        (cs, Some e) \<Rightarrow> ((e_SelfSequence en, encode_json) # cs, Some e)
      | (cs, None) \<Rightarrow> (case push_units R us of (ds, e) \<Rightarrow> ((e_SelfSequence en, encode_json) # cs @ ds, e)))"

definition PushToRedis :: "redis_env \<Rightarrow> (entity \<times> goods list) list \<Rightarrow> (sequence \<times> string) list \<times> ex_error option" where
  "PushToRedis R us =
     (if \<not> r_conn R then ([], Some No_redis) else case push_units R us of (cs, e) \<Rightarrow> (cs, map_option Redis_error e))"

text \<open>The units of the exchange, or its error, and the commands sent to redis.\<close>

definition ExchangeGoods ::
  "redis_env \<Rightarrow> bool \<Rightarrow> exchange_unit list
    \<Rightarrow> ((ex_error + (entity \<times> goods list) list) \<times> (sequence \<times> string) list) outcome" where
  "ExchangeGoods R save units =
     outcome_bind (collect units 0 Map.empty) (\<lambda>r. case r of
       Inl e \<Rightarrow> Done (Inl e, [])
     | Inr (tot, m) \<Rightarrow>
         (if tot \<noteq> 0 then Done (Inl Funds_differ, [])
          else if m \<noteq> Map.empty then Done (Inl Goods_differ, [])
          else case verify_units R units of
            Some e \<Rightarrow> Done (Inl e, [])
          | None \<Rightarrow> outcome_bind (exchange_units units) (\<lambda>my.
              if save then (case PushToRedis R my of (cs, Some e) \<Rightarrow> Done (Inl e, cs) | (cs, None) \<Rightarrow> Done (Inr my, cs))
              else Done (Inr my, []))))"

text \<open>A successful exchange passed all its checks.\<close>

lemma exchange_passed:
  assumes "ExchangeGoods R save units = Done (Inr my, cs)"
  shows "collect units 0 Map.empty = Done (Inr (0, Map.empty))" "verify_units R units = None" "exchange_units units = Done my"
proof -
  obtain r where r: "collect units 0 Map.empty = Done r"
    using assms by (cases "collect units 0 Map.empty") (auto simp: ExchangeGoods_def)
  then obtain tot m where rm: "r = Inr (tot, m)"
    using assms by (cases r) (auto simp: ExchangeGoods_def)
  then have z: "tot = 0" "m = Map.empty"
    using assms r by (auto simp: ExchangeGoods_def split: if_splits)
  then show "collect units 0 Map.empty = Done (Inr (0, Map.empty))" using r rm by simp
  show v: "verify_units R units = None"
    using assms r rm z by (cases "verify_units R units") (auto simp: ExchangeGoods_def)
  show "exchange_units units = Done my"
    using assms r rm z v
    by (cases "exchange_units units") (auto simp: ExchangeGoods_def split: if_splits prod.splits option.splits)
qed

lemma collect_total: "collect us tot m = Done (Inr (t, m')) \<Longrightarrow> t = tot + (\<Sum>u \<leftarrow> us. eu_Fund u)"
proof (induction us arbitrary: tot m)
  case (Cons u us)
  then obtain r where r: "collect_goods (eu_Entity u) (unit_goods u) m = Done r"
    "(case r of Inl e \<Rightarrow> Done (Inl e) | Inr m \<Rightarrow> collect us (tot + eu_Fund u) m) = Done (Inr (t, m'))"
    by (auto simp: outcome_bind_Done_iff)
  then obtain m1 where "r = Inr m1" by (cases r) auto
  then show ?case using Cons.IH [of "tot + eu_Fund u" m1] r by simp
qed simp

definition fund_of :: "entity option \<Rightarrow> 64 word" where
  "fund_of en = (case en of None \<Rightarrow> 0 | Some e \<Rightarrow> e_Fund e)"

lemma exchange_funds:
  "exchange_units us = Done my \<Longrightarrow>
    (\<Sum>(en, gs) \<leftarrow> my. e_Fund en) = (\<Sum>u \<leftarrow> us. fund_of (eu_Entity u)) + (\<Sum>u \<leftarrow> us. eu_Fund u)"
proof (induction us arbitrary: my)
  case (Cons u us)
  then obtain en xs where e: "eu_Entity u = Some en" "exchange_units us = Done xs" "my = exchanged en u # xs"
    by (cases "exchange_units us") (auto split: option.splits)
  then show ?case using Cons.IH [OF e(2)] by (simp add: exchanged_def NewEntity_def fund_of_def)
qed simp


definition paying :: "64 word \<Rightarrow> exchange_unit" where
  "paying f = \<lparr>eu_Entity = Some (NewEntity [] 1 0 100), eu_Fund = f, eu_Goods = Some []\<rparr>"

lemma paid: "ExchangeGoods \<lparr>r_conn = True, r_Get = (\<lambda>k. Inl ''nil''), r_Set = (\<lambda>k. None)\<rparr> False [paying 30, paying (- 30)]
    = Done (Inr [(NewEntity [] 0 0 130, []), (NewEntity [] 0 0 70, [])], [])"
  by (simp add: ExchangeGoods_def paying_def unit_goods_def VerifyGoods_def exchanged_def NewEntity_def)


text \<open>The keys of \<^verbatim>\<open>goodsMap\<close> are negative: none is ever found under the opposite number but the least.\<close>

abbreviation least_seq :: sequence where "least_seq \<equiv> 0x8000000000000000"

lemma neg_neg: "(x :: sequence) <s 0 \<Longrightarrow> - x <s 0 \<Longrightarrow> x = least_seq"
proof -
  assume a: "x <s 0" "- x <s 0"
  have "sint x < 0" "sint (- x) < 0" using a by (simp_all add: word_sless_alt)
  moreover have "sint (- x) = signed_take_bit 63 (- sint x)" by (simp add: sint_word_ariths)
  moreover have "signed_take_bit 63 (- sint x) = - sint x" if "sint x \<noteq> - (2 ^ 63)"
    using that sint_ge [of x] sint_lt [of x] by (intro signed_take_bit_int_eq_self) simp_all
  ultimately have "sint x = - (2 ^ 63)" by linarith
  then have "sint x = sint least_seq" by simp
  then show ?thesis by (rule signed_word_eqI)
qed

definition given :: "goods list \<Rightarrow> sequence set" where
  "given gs = {g_SelfSequence g | g. g \<in> set gs \<and> g_SelfSequence g <s 0}"

lemma given_Cons: "given (g # gs) = (if g_SelfSequence g <s 0 then insert (g_SelfSequence g) (given gs) else given gs)"
  by (auto simp: given_def)

lemma collect_goods_grows:
  "collect_goods en gs m = Done (Inr m') \<Longrightarrow> dom m \<subseteq> {k. k <s 0} \<Longrightarrow>
    dom m' \<subseteq> {k. k <s 0} \<and> (dom m \<union> given gs) - {least_seq} \<subseteq> dom m'"
proof (induction en gs m rule: collect_goods.induct)
  case (2 en g gs m)
  show ?case
  proof (cases "g_SelfSequence g <s 0")
    case False
    then show ?thesis using 2 by (simp add: given_Cons)
  next
    case True
    then obtain e where en: "en = Some e" "g_BelongTo g = e_SelfSequence e" using "2.prems" by (auto split: option.splits if_splits)
    show ?thesis
    proof (cases "m (- g_SelfSequence g) = None")
      case True': True
      have "dom (m(g_SelfSequence g \<mapsto> g)) \<subseteq> {k. k <s 0}" using True "2.prems"(2) by auto
      moreover have "collect_goods en gs (m(g_SelfSequence g \<mapsto> g)) = Done (Inr m')"
        using "2.prems"(1) True True' en by simp
      ultimately have "dom m' \<subseteq> {k. k <s 0}" "(dom (m(g_SelfSequence g \<mapsto> g)) \<union> given gs) - {least_seq} \<subseteq> dom m'"
        using "2.IH"(2) [OF True en(1)] en True' by blast+
      then show ?thesis using True by (auto simp: given_Cons)
    next
      case False
      then have "- g_SelfSequence g <s 0" using "2.prems"(2) by blast
      then have least: "g_SelfSequence g = least_seq" using neg_neg True by blast
      have "dom (m(- g_SelfSequence g := None)) \<subseteq> {k. k <s 0}" using "2.prems"(2) by auto
      moreover have "collect_goods en gs (m(- g_SelfSequence g := None)) = Done (Inr m')"
        using "2.prems"(1) True False en by simp
      ultimately have "dom m' \<subseteq> {k. k <s 0}" "(dom (m(- g_SelfSequence g := None)) \<union> given gs) - {least_seq} \<subseteq> dom m'"
        using "2.IH"(1) [OF True en(1)] en False by blast+
      then show ?thesis using True least by (auto simp: given_Cons)
    qed
  qed
qed (simp add: given_def)

lemma collect_grows:
  "collect us tot m = Done (Inr (t, m')) \<Longrightarrow> dom m \<subseteq> {k. k <s 0} \<Longrightarrow>
    (dom m \<union> (\<Union>u \<in> set us. given (unit_goods u))) - {least_seq} \<subseteq> dom m'"
proof (induction us arbitrary: tot m)
  case (Cons u us)
  then obtain r where r: "collect_goods (eu_Entity u) (unit_goods u) m = Done r"
    "(case r of Inl e \<Rightarrow> Done (Inl e) | Inr m \<Rightarrow> collect us (tot + eu_Fund u) m) = Done (Inr (t, m'))"
    by (auto simp: outcome_bind_Done_iff)
  then obtain m1 where m1: "r = Inr m1" by (cases r) auto
  note g = collect_goods_grows [OF r(1) [unfolded m1] Cons.prems(2)]
  have "(dom m1 \<union> (\<Union>u \<in> set us. given (unit_goods u))) - {least_seq} \<subseteq> dom m'"
    using Cons.IH [of "tot + eu_Fund u" m1] r(2) m1 g by simp
  with g show ?case unfolding list.set UN_insert by blast
qed simp

text \<open>
  No exchange that succeeds moves goods out of an entity: goods are given under their negated
  number, and the search for the other side compares two negated numbers, which agree for the
  least 64-bit number only. What a receiving unit names is therefore given by nobody.
\<close>

theorem exchange_moves_no_goods:
  assumes "ExchangeGoods R save units = Done (Inr my, cs)"
  shows "(\<Union>u \<in> set units. given (unit_goods u)) \<subseteq> {least_seq}"
  using collect_grows [OF exchange_passed(1) [OF assms]] by auto

definition receiving :: exchange_unit where
  "receiving = \<lparr>eu_Entity = Some (NewEntity [] 1 0 100), eu_Fund = 0, eu_Goods = Some [NewGood 0 7 1 False]\<rparr>"

lemma received: "ExchangeGoods \<lparr>r_conn = True, r_Get = (\<lambda>k. Inr [123, 125]), r_Set = (\<lambda>k. None)\<rparr> False [receiving]
    = Done (Inr [(NewEntity [] 0 0 100, [NewGood 0 7 1 False])], [])"
  by (simp add: ExchangeGoods_def receiving_def unit_goods_def VerifyGoods_def exchanged_def NewEntity_def NewGood_def
      decode_goods_def word_sless_alt)

lemma exchange_moves_no_goods_witness: "(\<Union>u \<in> set [receiving]. given (unit_goods u)) \<subseteq> {least_seq}"
  by (rule exchange_moves_no_goods [OF received])

text \<open>What is stored: every value is the empty object, and the entities share one key.\<close>

lemma push_goods_values: "push_goods R gs = (cs, e) \<Longrightarrow> p \<in> set cs \<Longrightarrow> snd p = encode_json"
proof (induction gs arbitrary: cs e)
  case (Cons g gs)
  then show ?case by (cases "push_goods R gs") (auto split: option.splits)
qed simp

lemma push_units_values: "push_units R us = (cs, e) \<Longrightarrow> p \<in> set cs \<Longrightarrow> snd p = encode_json"
proof (induction us arbitrary: cs e)
  case (Cons u us)
  obtain en gs where u: "u = (en, gs)" by (cases u) auto
  obtain ds f where d: "push_goods R gs = (ds, f)" by (cases "push_goods R gs") auto
  obtain es h where h: "push_units R us = (es, h)" by (cases "push_units R us") auto
  show ?case using Cons.prems Cons.IH [OF h] push_goods_values [OF d, of p] u d h by (cases f) auto
qed simp

section \<open>Numbers taken twice\<close>

text \<open>
  Two goroutines that create goods can take the same number, in spite of the comparison meant
  to prevent it: both may read and increment the counter between each other's steps.
\<close>

theorem numbers_taken_twice:
  "\<exists>f. take_step\<^sup>*\<^sup>* (cur, \<lambda>i. Reads) (cur + 1, f) \<and> f 0 = Took cur \<and> f 1 = Took cur"
proof -
  let ?f = "\<lambda>i :: nat. Reads"
  let ?a = "?f(0 := Loads cur)" let ?b = "?a(1 := Loads cur)" let ?c = "?b(0 := Stores cur cur)" let ?d = "?c(1 := Stores cur cur)"
  let ?e = "?d(0 := Compares cur)" let ?g = "?e(1 := Compares cur)" let ?h = "?g(0 := Took cur)" let ?k = "?h(1 := Took cur)"
  have "take_step (cur, ?f) (cur, ?a)" "take_step (cur, ?a) (cur, ?b)" "take_step (cur, ?b) (cur, ?c)"
    "take_step (cur, ?c) (cur, ?d)" "take_step (cur, ?d) (cur + 1, ?e)" "take_step (cur + 1, ?e) (cur + 1, ?g)"
    "take_step (cur + 1, ?g) (cur + 1, ?h)" "take_step (cur + 1, ?h) (cur + 1, ?k)"
    by (intro take_step.intros; simp)+
  then have "take_step\<^sup>*\<^sup>* (cur, ?f) (cur + 1, ?k)" by (meson converse_rtranclp_into_rtranclp rtranclp.rtrancl_refl)
  then show ?thesis by (intro exI [of _ ?k]) simp
qed

end
