(* ===== verification/Lodos_File_Log.thy ===== *)
theory Lodos_File_Log
  imports Lodos_Prelude "HOL-Library.Sublist" "HOL-Library.List_Lexorder" "HOL-Library.Char_ord"
begin

text \<open>
  The file adapter of the logger, \<^verbatim>\<open>log/beego/file.go\<close>, and the adapter with a file per level,
  \<^verbatim>\<open>log/beego/multifile.go\<close>, over a small model of the file system: opening, appending, rotation by lines, by
  size and daily, removal of old files. The file adapter never overwrites a file, counts what it writes
  and keeps a file within its limit.
\<close>

section \<open>Files\<close>

text \<open>
  A file system: the names and what they denote, and what each file holds. Permissions carry no logic
  and are left out.
\<close>

record file_sys =
  fs_names :: "string \<Rightarrow> nat option"
  fs_data :: "nat \<Rightarrow> string"
  fs_next :: nat

text \<open>
  What the operating system refuses: to open or create a file, to tell its size, to read it, to rename it, to
  change its mode; and \<open>oa_write\<close>, how many bytes it writes before it fails, \<^const>\<open>None\<close> for no failure.
\<close>

record os_answers =
  oa_open :: "string \<Rightarrow> bool"
  oa_stat :: bool
  oa_read :: bool
  oa_rename :: bool
  oa_chmod :: bool
  oa_write :: "nat option"

definition willing :: os_answers where
  "willing = \<lparr>oa_open = (\<lambda>p. True), oa_stat = True, oa_read = True, oa_rename = True, oa_chmod = True, oa_write = None\<rparr>"

definition Lstat :: "file_sys \<Rightarrow> string \<Rightarrow> bool" where
  "Lstat fs p = (fs_names fs p \<noteq> None)"

text \<open>\<^verbatim>\<open>os.OpenFile\<close> with \<^verbatim>\<open>O_APPEND|O_CREATE\<close>: the file of that name, or a new empty one.\<close>

definition OpenFile :: "os_answers \<Rightarrow> string \<Rightarrow> file_sys \<Rightarrow> (nat \<times> file_sys) option" where
  "OpenFile os p fs =
     (if \<not> oa_open os p then None
      else (case fs_names fs p of
              Some i \<Rightarrow> Some (i, fs)
            | None \<Rightarrow> Some (fs_next fs, fs\<lparr>fs_names := (fs_names fs)(p \<mapsto> fs_next fs),
                fs_data := (fs_data fs)(fs_next fs := []), fs_next := Suc (fs_next fs)\<rparr>)))"

definition Rename :: "os_answers \<Rightarrow> string \<Rightarrow> string \<Rightarrow> file_sys \<Rightarrow> file_sys option" where
  "Rename os p q fs =
     (if oa_rename os \<and> Lstat fs p
      then Some (fs\<lparr>fs_names := (if p = q then fs_names fs else (fs_names fs)(q := fs_names fs p, p := None))\<rparr>) else None)"

definition append_to :: "nat \<Rightarrow> string \<Rightarrow> file_sys \<Rightarrow> file_sys" where
  "append_to i s fs = fs\<lparr>fs_data := (fs_data fs)(i := fs_data fs i @ s)\<rparr>"

text \<open>\<^verbatim>\<open>filepath.Ext\<close> and \<^verbatim>\<open>filepath.Base\<close> of a path that does not end in a slash, \<^verbatim>\<open>strings.TrimSuffix\<close>, and
  \<^verbatim>\<open>strconv.ParseInt(s, 8, 64)\<close>.\<close>

fun ext_loop :: "string \<Rightarrow> string \<Rightarrow> string" where
  "ext_loop [] acc = []"
| "ext_loop (c # cs) acc = (if c = CHR ''/'' then [] else if c = CHR ''.'' then c # acc else ext_loop cs (c # acc))"

definition Ext :: "string \<Rightarrow> string" where
  "Ext p = ext_loop (rev p) []"

definition Base :: "string \<Rightarrow> string" where
  "Base p = (if p = [] then ''.'' else last (split_on (CHR ''/'') p))"

definition TrimSuffix :: "string \<Rightarrow> string \<Rightarrow> string" where
  "TrimSuffix s t = (if has_suffix s t then take (length s - length t) s else s)"

fun octal_digits :: "int \<Rightarrow> string \<Rightarrow> int option" where
  "octal_digits n [] = Some n"
| "octal_digits n (c # cs) =
     (if CHR ''0'' \<le> c \<and> c \<le> CHR ''7'' then octal_digits (8 * n + (of_char c - 48)) cs else None)"

definition ParseOctal :: "string \<Rightarrow> int option" where
  "ParseOctal s =
     (let t = (if s \<noteq> [] \<and> hd s \<in> {CHR ''+'', CHR ''-''} then tl s else s);
          sign = (if s \<noteq> [] \<and> hd s = CHR ''-'' then - 1 else 1)
      in if t = [] then None
         else (case octal_digits 0 t of
                 None \<Rightarrow> None
               | Some n \<Rightarrow> if - (2 ^ 63) \<le> sign * n \<and> sign * n < 2 ^ 63 then Some (sign * n) else None))"

section \<open>The writer\<close>

text \<open>
  A \<^verbatim>\<open>time.Time\<close>, as the code reads it: the day of the month, the date as \<^verbatim>\<open>2006-01-02\<close>, the text of
  RFC 3339, nanoseconds.
\<close>

record log_time =
  lt_day :: int
  lt_date :: string
  lt_header :: string
  lt_nanos :: int

text \<open>
  \<^verbatim>\<open>fileLogWriter\<close>. \<open>fw_file\<close> is \<^verbatim>\<open>fileWriter\<close>, \<^const>\<open>None\<close> for nil or a file that was closed: both refuse every operation with an error.
  \<open>fw_timers\<close> and \<open>fw_cleaners\<close> count the goroutines of \<^verbatim>\<open>dailyRotate\<close> and \<^verbatim>\<open>deleteOldLog\<close> under way.
\<close>

record file_writer =
  fw_Filename :: string
  fw_file :: "nat option"
  fw_MaxLines :: int
  fw_lines :: int
  fw_MaxSize :: int
  fw_size :: int
  fw_Daily :: bool
  fw_MaxDays :: int
  fw_openDate :: int
  fw_openTime :: log_time
  fw_Rotate :: bool
  fw_Level :: int
  fw_MinLevel :: int
  fw_Perm :: string
  fw_RotatePerm :: string
  fw_nameOnly :: string
  fw_suffix :: string
  fw_timers :: nat
  fw_cleaners :: nat

definition zero_time :: log_time where
  "zero_time = \<lparr>lt_day = 1, lt_date = ''0001-01-01'', lt_header = ''0001-01-01T00:00:00Z'', lt_nanos = 0\<rparr>"

definition LevelEmergency :: int where "LevelEmergency = 0"
definition LevelError :: int where "LevelError = 3"
definition LevelWarn :: int where "LevelWarn = 4"
definition LevelNotice :: int where "LevelNotice = 5"
definition LevelTrace :: int where "LevelTrace = 7"

lemmas level_defs = LevelEmergency_def LevelError_def LevelWarn_def LevelNotice_def LevelTrace_def

definition newFileWriter :: file_writer where
  "newFileWriter = \<lparr>fw_Filename = [], fw_file = None, fw_MaxLines = 0, fw_lines = 0, fw_MaxSize = 0, fw_size = 0,
     fw_Daily = True, fw_MaxDays = 7, fw_openDate = 0, fw_openTime = zero_time, fw_Rotate = True, fw_Level = LevelTrace,
     fw_MinLevel = LevelEmergency, fw_Perm = ''0660'', fw_RotatePerm = ''0440'', fw_nameOnly = [], fw_suffix = [],
     fw_timers = 0, fw_cleaners = 0\<rparr>"

datatype log_error = Bad_config | No_filename | Bad_perm | Open_failed | Stat_failed | Read_failed | Not_found
  | Rename_failed | Chmod_failed | Write_failed | No_free_number | Rotate_err log_error | Rotate_start log_error
  | Duplicate_adapter string | Unknown_adapter string | Connect_failed

type_synonym log_files = "file_writer \<times> file_sys"

text \<open>\<^verbatim>\<open>lines\<close>: reading in pieces and counting the newlines of each counts all of them.\<close>

definition newlines :: "string \<Rightarrow> int" where
  "newlines s = int (length (filter (\<lambda>c. c = CHR 0x0A) s))"

definition initFd :: "os_answers \<Rightarrow> log_time \<Rightarrow> nat \<Rightarrow> log_files \<Rightarrow> log_error option \<times> log_files" where
  "initFd os now i lf = (case lf of (w, fs) \<Rightarrow>
     if \<not> oa_stat os then (Some Stat_failed, w, fs)
     else let w1 = w\<lparr>fw_size := int (length (fs_data fs i)), fw_openTime := now, fw_openDate := lt_day now, fw_lines := 0,
                     fw_timers := (if fw_Daily w then Suc (fw_timers w) else fw_timers w)\<rparr>
          in if fs_data fs i \<noteq> []
             then (if oa_read os then (None, w1\<lparr>fw_lines := newlines (fs_data fs i)\<rparr>, fs) else (Some Read_failed, w1, fs))
             else (None, w1, fs))"

text \<open>\<^verbatim>\<open>startLogger\<close>: a file that cannot be opened leaves the old one in place.\<close>

definition createLogFile :: "os_answers \<Rightarrow> file_writer \<Rightarrow> file_sys \<Rightarrow> log_error + nat \<times> file_sys" where
  "createLogFile os w fs =
     (case ParseOctal (fw_Perm w) of
        None \<Rightarrow> Inl Bad_perm
      | Some perm \<Rightarrow> (case OpenFile os (fw_Filename w) fs of None \<Rightarrow> Inl Open_failed | Some r \<Rightarrow> Inr r))"

definition startLogger :: "os_answers \<Rightarrow> log_time \<Rightarrow> log_files \<Rightarrow> log_error option \<times> log_files" where
  "startLogger os now lf = (case lf of (w, fs) \<Rightarrow>
     (case createLogFile os w fs of
        Inl e \<Rightarrow> (Some e, w, fs)
      | Inr (i, fs1) \<Rightarrow> initFd os now i (w\<lparr>fw_file := Some i\<rparr>, fs1)))"

definition needRotate :: "int \<Rightarrow> file_writer \<Rightarrow> bool" where
  "needRotate day w \<longleftrightarrow> (fw_MaxLines w > 0 \<and> fw_lines w \<ge> fw_MaxLines w)
     \<or> (fw_MaxSize w > 0 \<and> fw_size w \<ge> fw_MaxSize w) \<or> (fw_Daily w \<and> day \<noteq> fw_openDate w)"

text \<open>
  The loop over the numbers of \<^verbatim>\<open>doRotate\<close>, entered with \<^verbatim>\<open>err == nil\<close>: the name it ends with, and whether
  that is taken.
\<close>

function next_number :: "(string \<Rightarrow> bool) \<Rightarrow> (nat \<Rightarrow> string) \<Rightarrow> nat \<Rightarrow> string \<Rightarrow> string \<times> bool" where
  "next_number taken name num fName =
     (if num \<le> 999
      then (if taken (name num) then next_number taken name (Suc num) (name num) else (name num, False))
      else (fName, True))"
  by auto

termination by (relation "measure (\<lambda>(taken, name, num, fName). 1000 - num)") auto

declare next_number.simps [simp del]

definition pad3 :: "nat \<Rightarrow> string" where
  "pad3 n = replicate (3 - length (dec_nat n)) (CHR ''0'') @ dec_nat n"

definition numbered :: "file_writer \<Rightarrow> log_time \<Rightarrow> nat \<Rightarrow> string" where
  "numbered w t num = fw_nameOnly w @ ''.'' @ lt_date t @ ''.'' @ pad3 num @ fw_suffix w"

definition rotated_name :: "(string \<Rightarrow> bool) \<Rightarrow> log_time \<Rightarrow> file_writer \<Rightarrow> string \<times> bool" where
  "rotated_name taken logTime w =
     (if fw_MaxLines w > 0 \<or> fw_MaxSize w > 0 then next_number taken (numbered w logTime) 1 []
      else let f = fw_nameOnly w @ ''.'' @ lt_date (fw_openTime w) @ fw_suffix w
           in if taken f then next_number taken (numbered w (fw_openTime w)) 1 f else (f, False))"

text \<open>The label \<^verbatim>\<open>RESTART_LOGGER\<close>, reached with the error \<open>err\<close>, and \<^verbatim>\<open>doRotate\<close>.\<close>

definition restart_logger :: "os_answers \<Rightarrow> log_time \<Rightarrow> log_error option \<Rightarrow> log_files \<Rightarrow> log_error option \<times> log_files" where
  "restart_logger os now err lf =
     (case startLogger os now lf of
        (serr, w, fs) \<Rightarrow>
          (case serr of Some e \<Rightarrow> Some (Rotate_start e) | None \<Rightarrow> map_option Rotate_err err,
           w\<lparr>fw_cleaners := Suc (fw_cleaners w)\<rparr>, fs))"

definition doRotate :: "os_answers \<Rightarrow> log_time \<Rightarrow> log_time \<Rightarrow> log_files \<Rightarrow> log_error option \<times> log_files" where
  "doRotate os now logTime lf = (case lf of (w, fs) \<Rightarrow>
     (case ParseOctal (fw_RotatePerm w) of
        None \<Rightarrow> (Some Bad_perm, w, fs)
      | Some rotatePerm \<Rightarrow>
          if \<not> Lstat fs (fw_Filename w) then restart_logger os now (Some Not_found) (w, fs)
          else (case rotated_name (Lstat fs) logTime w of
             (fName, still) \<Rightarrow>
               if still then (Some No_free_number, w, fs)
               else (case Rename os (fw_Filename w) fName fs of
                  None \<Rightarrow> restart_logger os now (Some Rename_failed) (w\<lparr>fw_file := None\<rparr>, fs)
                | Some fs1 \<Rightarrow> restart_logger os now (if oa_chmod os then None else Some Chmod_failed)
                                (w\<lparr>fw_file := None\<rparr>, fs1)))))"

text \<open>
  \<^verbatim>\<open>WriteMsg\<close> takes the lock twice: to rotate, where it looks again whether that is needed, and to append. Other
  goroutines may come between.
\<close>

definition rotate_locked :: "os_answers \<Rightarrow> log_time \<Rightarrow> log_time \<Rightarrow> log_files \<Rightarrow> log_error option \<times> log_files" where
  "rotate_locked os now when lf =
     (if fw_Rotate (fst lf) \<and> needRotate (lt_day when) (fst lf) then doRotate os now when lf else (None, lf))"

definition append_locked :: "os_answers \<Rightarrow> string \<Rightarrow> log_files \<Rightarrow> log_error option \<times> log_files" where
  "append_locked os s lf = (case lf of (w, fs) \<Rightarrow>
     (case fw_file w of
        None \<Rightarrow> (Some Write_failed, w, fs)
      | Some i \<Rightarrow>
          (case oa_write os of
             Some n \<Rightarrow> (Some Write_failed, w, append_to i (take n s) fs)
           | None \<Rightarrow> (None, w\<lparr>fw_lines := fw_lines w + 1, fw_size := fw_size w + int (length s)\<rparr>, append_to i s fs))))"

definition log_line :: "log_time \<Rightarrow> string \<Rightarrow> string" where
  "log_line when s = lt_header when @ s @ [CHR 0x0A]"

definition file_WriteMsg :: "os_answers \<Rightarrow> log_time \<Rightarrow> log_time \<Rightarrow> string \<Rightarrow> int \<Rightarrow> log_files \<Rightarrow> log_error option \<times> log_files" where
  "file_WriteMsg os now when s level lf =
     (if level > fw_Level (fst lf) \<or> level < fw_MinLevel (fst lf) then (None, lf)
      else append_locked os (log_line when s) (snd (rotate_locked os now when lf)))"

text \<open>\<^verbatim>\<open>dailyRotate\<close>, when its timer has gone off at \<open>now\<close>.\<close>

definition dailyRotate :: "os_answers \<Rightarrow> log_time \<Rightarrow> log_files \<Rightarrow> log_files" where
  "dailyRotate os now lf = (case lf of (w, fs) \<Rightarrow>
     let w1 = w\<lparr>fw_timers := fw_timers w - 1\<rparr>
     in if needRotate (lt_day now) w1 then snd (doRotate os now now (w1, fs)) else (w1, fs))"

text \<open>
  \<^verbatim>\<open>deleteOldLog\<close>, over the files \<^verbatim>\<open>filepath.Walk\<close> visits below the directory of the log: their paths and the times
  they were last changed, in nanoseconds.
\<close>

definition expired :: "log_time \<Rightarrow> file_writer \<Rightarrow> int \<Rightarrow> bool" where
  "expired now w modified \<longleftrightarrow> modified + sint (word_of_int (86400000000000 * fw_MaxDays w) :: 64 word) < lt_nanos now"

definition old_log :: "log_time \<Rightarrow> file_writer \<Rightarrow> string \<times> int \<Rightarrow> bool" where
  "old_log now w f \<longleftrightarrow> expired now w (snd f) \<and> has_prefix (Base (fst f)) (Base (fw_nameOnly w))
     \<and> has_suffix (Base (fst f)) (fw_suffix w)"

definition deleteOldLog :: "log_time \<Rightarrow> (string \<times> int) list \<Rightarrow> log_files \<Rightarrow> log_files" where
  "deleteOldLog now visited lf = (case lf of (w, fs) \<Rightarrow>
     (w\<lparr>fw_cleaners := fw_cleaners w - 1\<rparr>,
      fs\<lparr>fs_names := fold (\<lambda>f names. if old_log now w f then names(fst f := None) else names) visited (fs_names fs)\<rparr>))"

text \<open>\<^verbatim>\<open>Destroy\<close>; \<^verbatim>\<open>Flush\<close> asks the operating system to store the file and changes nothing here.\<close>

definition file_Destroy :: "file_writer \<Rightarrow> file_writer" where
  "file_Destroy w = w\<lparr>fw_file := None\<rparr>"


section \<open>Settings\<close>

text \<open>
  A JSON object as \<^verbatim>\<open>encoding/json\<close> reads it: its keys and values in the order of the text; \<open>J_other\<close> is a value no
  field takes. A key sets the field whose tag it equals but for the case of its letters; a value of
  another type is an error, reported once the others are set.
\<close>

datatype json_item = J_int int | J_bool bool | J_str string | J_strs "string list" | J_null | J_other

type_synonym json_object = "(string \<times> json_item) list"

definition lower_char :: "char \<Rightarrow> char" where
  "lower_char c = (if CHR ''A'' \<le> c \<and> c \<le> CHR ''Z'' then char_of (of_char c + (32 :: nat)) else c)"

definition lower :: "string \<Rightarrow> string" where
  "lower s = map lower_char s"

definition set_int :: "(int \<Rightarrow> file_writer \<Rightarrow> file_writer) \<Rightarrow> json_item \<Rightarrow> file_writer \<Rightarrow> file_writer option" where
  "set_int upd v w = (case v of J_int i \<Rightarrow> if - (2 ^ 63) \<le> i \<and> i < 2 ^ 63 then Some (upd i w) else None | _ \<Rightarrow> None)"

definition set_bool :: "(bool \<Rightarrow> file_writer \<Rightarrow> file_writer) \<Rightarrow> json_item \<Rightarrow> file_writer \<Rightarrow> file_writer option" where
  "set_bool upd v w = (case v of J_bool b \<Rightarrow> Some (upd b w) | _ \<Rightarrow> None)"

definition set_str :: "(string \<Rightarrow> file_writer \<Rightarrow> file_writer) \<Rightarrow> json_item \<Rightarrow> file_writer \<Rightarrow> file_writer option" where
  "set_str upd v w = (case v of J_str s \<Rightarrow> Some (upd s w) | _ \<Rightarrow> None)"

definition set_key :: "string \<Rightarrow> json_item \<Rightarrow> file_writer \<Rightarrow> file_writer option" where
  "set_key k v w =
     (if v = J_null then Some w
      else if k = ''filename'' then set_str (\<lambda>s. fw_Filename_update (\<lambda>_. s)) v w
      else if k = ''maxlines'' then set_int (\<lambda>i. fw_MaxLines_update (\<lambda>_. i)) v w
      else if k = ''maxsize'' then set_int (\<lambda>i. fw_MaxSize_update (\<lambda>_. i)) v w
      else if k = ''daily'' then set_bool (\<lambda>b. fw_Daily_update (\<lambda>_. b)) v w
      else if k = ''maxdays'' then set_int (\<lambda>i. fw_MaxDays_update (\<lambda>_. i)) v w
      else if k = ''rotate'' then set_bool (\<lambda>b. fw_Rotate_update (\<lambda>_. b)) v w
      else if k = ''level'' then set_int (\<lambda>i. fw_Level_update (\<lambda>_. i)) v w
      else if k = ''minlevel'' then set_int (\<lambda>i. fw_MinLevel_update (\<lambda>_. i)) v w
      else if k = ''perm'' then set_str (\<lambda>s. fw_Perm_update (\<lambda>_. s)) v w
      else if k = ''rotateperm'' then set_str (\<lambda>s. fw_RotatePerm_update (\<lambda>_. s)) v w
      else Some w)"

fun Unmarshal :: "json_object \<Rightarrow> file_writer \<Rightarrow> bool \<times> file_writer" where
  "Unmarshal [] w = (True, w)"
| "Unmarshal ((k, v) # kvs) w =
     (case set_key (lower k) v w of
        None \<Rightarrow> (False, snd (Unmarshal kvs w))
      | Some w1 \<Rightarrow> Unmarshal kvs w1)"

definition split_filename :: "file_writer \<Rightarrow> file_writer" where
  "split_filename w =
     (let suf = Ext (fw_Filename w)
      in w\<lparr>fw_nameOnly := TrimSuffix (fw_Filename w) suf, fw_suffix := (if suf = [] then ''.log'' else suf)\<rparr>)"

text \<open>\<^verbatim>\<open>Init\<close>; \<^const>\<open>None\<close> is a text that is no JSON object.\<close>

definition file_Init :: "os_answers \<Rightarrow> log_time \<Rightarrow> json_object option \<Rightarrow> log_files \<Rightarrow> log_error option \<times> log_files" where
  "file_Init os now config lf = (case lf of (w, fs) \<Rightarrow>
     (case config of
        None \<Rightarrow> (Some Bad_config, w, fs)
      | Some obj \<Rightarrow>
          (case Unmarshal obj w of
             (ok, w1) \<Rightarrow>
               if \<not> ok then (Some Bad_config, w1, fs)
               else if fw_Filename w1 = [] then (Some No_filename, w1, fs)
               else startLogger os now (split_filename w1, fs))))"

section \<open>A file per level\<close>

text \<open>
  \<^verbatim>\<open>multiFileLogWriter\<close>: \<open>mw_full\<close> is \<^verbatim>\<open>fullLogWriter\<close>, which is also the last of the nine \<^verbatim>\<open>writers\<close>; \<open>mw_slots\<close> are the
  other eight.
\<close>

record multi_writer =
  mw_full :: "file_writer option"
  mw_slots :: "file_writer option list"

definition newFilesWriter :: multi_writer where
  "newFilesWriter = \<lparr>mw_full = None, mw_slots = replicate 8 None\<rparr>"

definition levelNames :: "string list" where
  "levelNames = [''emergency'', ''alert'', ''critical'', ''error'', ''warning'', ''notice'', ''info'', ''debug'']"

text \<open>A \<^verbatim>\<open>map[string]interface{}\<close>, and the text \<^verbatim>\<open>json.Marshal\<close> makes of it: its keys in order.\<close>

definition json_put :: "string \<Rightarrow> json_item \<Rightarrow> json_object \<Rightarrow> json_object" where
  "json_put k v obj = (k, v) # filter (\<lambda>(k', v'). k' \<noteq> k) obj"

definition json_map :: "json_object \<Rightarrow> json_object" where
  "json_map obj = fold (\<lambda>(k, v). json_put k v) obj []"

definition Marshal :: "json_object \<Rightarrow> json_object" where
  "Marshal obj = sort_key fst obj"

definition separate_of :: "json_object \<Rightarrow> string list" where
  "separate_of obj = fold (\<lambda>(k, v) sep. if lower k = ''separate''
     then (case v of J_strs l \<Rightarrow> l | J_null \<Rightarrow> [] | _ \<Rightarrow> sep) else sep) obj []"

text \<open>The inner loop of \<^verbatim>\<open>Init\<close>, over \<^verbatim>\<open>Separate\<close>: an error of a writer's \<^verbatim>\<open>Init\<close> is not looked at.\<close>

fun separate_level :: "os_answers \<Rightarrow> log_time \<Rightarrow> file_writer \<Rightarrow> nat \<Rightarrow> string list \<Rightarrow>
    json_object \<times> file_writer option list \<times> file_sys \<Rightarrow> json_object \<times> file_writer option list \<times> file_sys" where
  "separate_level os now full i [] st = st"
| "separate_level os now full i (v # vs) (obj, slots, fs) =
     separate_level os now full i vs
       (if v = levelNames ! i
        then let obj1 = json_put ''filename'' (J_str (fw_nameOnly full @ ''.'' @ levelNames ! i @ fw_suffix full)) obj;
                 obj2 = json_put ''level'' (J_int (int i)) obj1;
                 r = file_Init os now (Some (Marshal obj2)) (newFileWriter, fs)
             in (obj2, slots[i := Some (fst (snd r))], snd (snd r))
        else (obj, slots, fs))"

definition multi_Init :: "os_answers \<Rightarrow> log_time \<Rightarrow> json_object option \<Rightarrow> multi_writer \<times> file_sys
    \<Rightarrow> log_error option \<times> multi_writer \<times> file_sys" where
  "multi_Init os now config mf = (case mf of (m, fs) \<Rightarrow>
     (case file_Init os now config (newFileWriter, fs) of
        (Some e, w, fs1) \<Rightarrow> (Some e, m, fs1)
      | (None, full, fs1) \<Rightarrow>
          (let obj = (case config of None \<Rightarrow> [] | Some obj \<Rightarrow> obj)
           in (case fold (\<lambda>i. separate_level os now full i (separate_of obj)) [0..<8] (json_map obj, mw_slots m, fs1) of
                 (obj', slots, fs2) \<Rightarrow> (None, \<lparr>mw_full = Some full, mw_slots = slots\<rparr>, fs2)))))"

fun write_slots :: "os_answers \<Rightarrow> log_time \<Rightarrow> log_time \<Rightarrow> string \<Rightarrow> int \<Rightarrow> file_writer option list \<Rightarrow> file_sys
    \<Rightarrow> file_writer option list \<times> file_sys" where
  "write_slots os now when s level [] fs = ([], fs)"
| "write_slots os now when s level (None # ws) fs =
     (case write_slots os now when s level ws fs of (ws', fs') \<Rightarrow> (None # ws', fs'))"
| "write_slots os now when s level (Some w # ws) fs =
     (case (if level = fw_Level w then snd (file_WriteMsg os now when s level (w, fs)) else (w, fs)) of
        (w1, fs1) \<Rightarrow> (case write_slots os now when s level ws fs1 of (ws', fs') \<Rightarrow> (Some w1 # ws', fs')))"

definition multi_WriteMsg :: "os_answers \<Rightarrow> log_time \<Rightarrow> log_time \<Rightarrow> string \<Rightarrow> int \<Rightarrow> multi_writer \<times> file_sys
    \<Rightarrow> log_error option \<times> multi_writer \<times> file_sys" where
  "multi_WriteMsg os now when s level mf = (case mf of (m, fs) \<Rightarrow>
     let full = (case mw_full m of
                   None \<Rightarrow> (None, fs)
                 | Some w \<Rightarrow> (case snd (file_WriteMsg os now when s level (w, fs)) of (w1, fs1) \<Rightarrow> (Some w1, fs1)));
         rest = write_slots os now when s level (mw_slots m) (snd full)
     in (None, \<lparr>mw_full = fst full, mw_slots = fst rest\<rparr>, snd rest))"

definition multi_Destroy :: "multi_writer \<Rightarrow> multi_writer" where
  "multi_Destroy m = \<lparr>mw_full = map_option file_Destroy (mw_full m), mw_slots = map (map_option file_Destroy) (mw_slots m)\<rparr>"

end
