(* ===== verification/Lodos_File_Log_Props.thy ===== *)
theory Lodos_File_Log_Props
  imports Lodos_File_Log
begin

text \<open>
  What the file adapter promises: no file is ever overwritten or loses its name, whatever the operating system
  refuses and however goroutines take their turns; the counters agree with the file; a file stays within its limit.
\<close>

section \<open>The operations under the lock\<close>

datatype file_op = Rotates os_answers log_time log_time | Appends os_answers string | Wakes os_answers log_time

fun perform_op :: "file_op \<Rightarrow> log_files \<Rightarrow> log_files" where
  "perform_op (Rotates os now when) lf = snd (rotate_locked os now when lf)"
| "perform_op (Appends os s) lf = snd (append_locked os s lf)"
| "perform_op (Wakes os now) lf = dailyRotate os now lf"

lemma WriteMsg_is_two_operations:
  "fw_MinLevel w \<le> level \<Longrightarrow> level \<le> fw_Level w \<Longrightarrow>
   snd (file_WriteMsg os now when s level (w, fs))
     = fold perform_op [Rotates os now when, Appends os (log_line when s)] (w, fs)"
  by (simp add: file_WriteMsg_def)

section \<open>No file is lost\<close>

text \<open>Every file that has a name still has one, and holds what it held, followed by what came since.\<close>

definition files_kept :: "file_sys \<Rightarrow> file_sys \<Rightarrow> bool" where
  "files_kept fs fs' \<longleftrightarrow> (\<forall>i \<in> ran (fs_names fs). i \<in> ran (fs_names fs') \<and> prefix (fs_data fs i) (fs_data fs' i))"

definition names_inv :: "log_files \<Rightarrow> bool" where
  "names_inv lf \<longleftrightarrow> (\<forall>i \<in> ran (fs_names (snd lf)). i < fs_next (snd lf))
     \<and> (\<forall>i. fw_file (fst lf) = Some i \<longrightarrow> fs_names (snd lf) (fw_Filename (fst lf)) = Some i)"

lemma files_kept_refl [simp]: "files_kept fs fs"
  by (simp add: files_kept_def)

lemma files_kept_trans: "files_kept a b \<Longrightarrow> files_kept b c \<Longrightarrow> files_kept a c"
  by (meson files_kept_def prefix_order.trans)

lemma OpenFile_kept:
  assumes "OpenFile os p fs = Some (i, fs')" "\<forall>i \<in> ran (fs_names fs). i < fs_next fs"
  shows "files_kept fs fs' \<and> (\<forall>i \<in> ran (fs_names fs'). i < fs_next fs') \<and> fs_names fs' p = Some i"
proof (cases "fs_names fs p")
  case None
  then show ?thesis using assms by (auto simp: OpenFile_def files_kept_def less_Suc_eq split: if_splits)
next
  case (Some j)
  then show ?thesis using assms by (auto simp: OpenFile_def split: if_splits)
qed

lemma Rename_kept:
  assumes "Rename os p q fs = Some fs'" "\<not> Lstat fs q" "\<forall>i \<in> ran (fs_names fs). i < fs_next fs"
  shows "files_kept fs fs' \<and> (\<forall>i \<in> ran (fs_names fs'). i < fs_next fs') \<and> fs_names fs' p = None"
proof -
  have pq: "p \<noteq> q" and fs': "fs' = fs\<lparr>fs_names := (fs_names fs)(q := fs_names fs p, p := None)\<rparr>"
    using assms by (auto simp: Rename_def split: if_splits)
  have "i \<in> ran (fs_names fs')" if "i \<in> ran (fs_names fs)" for i
  proof -
    from that obtain n where n: "fs_names fs n = Some i" by (auto simp: ran_def)
    then have "n \<noteq> q" using assms(2) by (auto simp: Lstat_def)
    then have "fs_names fs' (if n = p then q else n) = Some i" using n pq fs' by (cases "n = p") simp_all
    then show ?thesis by (auto simp: ran_def)
  qed
  moreover have "ran (fs_names fs') \<subseteq> ran (fs_names fs)" by (auto simp: fs' ran_def split: if_splits)
  ultimately show ?thesis using assms(3) fs' by (auto simp: files_kept_def)
qed

lemma initFd_files [simp]: "snd (snd (initFd os now i (w, fs))) = fs"
  by (simp add: initFd_def Let_def)

lemma initFd_fields [simp]:
  "fw_file (fst (snd (initFd os now i (w, fs)))) = fw_file w"
  "fw_Filename (fst (snd (initFd os now i (w, fs)))) = fw_Filename w"
  by (simp_all add: initFd_def Let_def)

lemma startLogger_kept:
  assumes "names_inv (w, fs)"
  shows "names_inv (snd (startLogger os now (w, fs))) \<and> files_kept fs (snd (snd (startLogger os now (w, fs))))"
proof (cases "createLogFile os w fs")
  case (Inl e)
  then show ?thesis using assms by (simp add: startLogger_def)
next
  case (Inr r)
  obtain i fs1 where r: "r = (i, fs1)" by (cases r)
  then have o: "OpenFile os (fw_Filename w) fs = Some (i, fs1)"
    using Inr by (auto simp: createLogFile_def split: option.splits)
  have "names_inv (snd (initFd os now i (w\<lparr>fw_file := Some i\<rparr>, fs1)))"
    using OpenFile_kept [OF o] assms by (simp add: names_inv_def)
  then show ?thesis using Inr r OpenFile_kept [OF o] assms by (simp add: startLogger_def names_inv_def)
qed

lemma restart_kept:
  assumes "names_inv (w, fs)"
  shows "names_inv (snd (restart_logger os now err (w, fs))) \<and> files_kept fs (snd (snd (restart_logger os now err (w, fs))))"
proof -
  obtain e w1 fs1 where s: "startLogger os now (w, fs) = (e, w1, fs1)" by (cases "startLogger os now (w, fs)")
  show ?thesis using startLogger_kept [OF assms, of os now] by (simp add: restart_logger_def s names_inv_def)
qed

lemma next_number_free: "next_number taken name num f = (g, False) \<Longrightarrow> \<not> taken g"
  by (induction taken name num f rule: next_number.induct) (subst (asm) (2) next_number.simps, auto split: if_splits)

lemma rotated_name_free: "rotated_name taken t w = (g, False) \<Longrightarrow> \<not> taken g"
  by (auto simp: rotated_name_def Let_def dest: next_number_free split: if_splits)

lemma doRotate_kept:
  assumes "names_inv (w, fs)"
  shows "names_inv (snd (doRotate os now t (w, fs))) \<and> files_kept fs (snd (snd (doRotate os now t (w, fs))))"
proof (cases "Lstat fs (fw_Filename w)")
  case False
  then show ?thesis using assms restart_kept [OF assms] by (simp add: doRotate_def split: option.splits)
next
  case True
  obtain f still where f: "rotated_name (Lstat fs) t w = (f, still)" by (cases "rotated_name (Lstat fs) t w")
  have closed: "names_inv (w\<lparr>fw_file := None\<rparr>, fs)" using assms by (simp add: names_inv_def)
  show ?thesis
  proof (cases still)
    case True
    then show ?thesis using \<open>Lstat fs (fw_Filename w)\<close> f assms by (simp add: doRotate_def split: option.splits)
  next
    case False
    then have free: "\<not> Lstat fs f" using rotated_name_free f by simp
    show ?thesis
    proof (cases "Rename os (fw_Filename w) f fs")
      case None
      then show ?thesis
        using True False f assms restart_kept [OF closed] by (simp add: doRotate_def split: option.splits)
    next
      case (Some fs1)
      have k: "files_kept fs fs1" "names_inv (w\<lparr>fw_file := None\<rparr>, fs1)"
        using Rename_kept [OF Some free] assms by (simp_all add: names_inv_def)
      show ?thesis
        using True False f Some assms restart_kept [OF k(2)] files_kept_trans [OF k(1)]
        by (simp add: doRotate_def split: option.splits)
    qed
  qed
qed

lemma append_kept:
  "names_inv (w, fs) \<Longrightarrow>
   names_inv (snd (append_locked os s (w, fs))) \<and> files_kept fs (snd (snd (append_locked os s (w, fs))))"
  by (cases "fw_file w"; cases "oa_write os") (auto simp: append_locked_def append_to_def names_inv_def files_kept_def)

lemma perform_kept: "names_inv lf \<Longrightarrow> names_inv (perform_op op lf) \<and> files_kept (snd lf) (snd (perform_op op lf))"
proof (cases lf)
  case (Pair w fs)
  assume inv: "names_inv lf"
  show ?thesis
  proof (cases op)
    case (Wakes os now)
    have "names_inv (w\<lparr>fw_timers := fw_timers w - 1\<rparr>, fs)" using inv Pair by (simp add: names_inv_def)
    then show ?thesis using Wakes Pair doRotate_kept by (simp add: dailyRotate_def Let_def)
  qed (use inv Pair doRotate_kept append_kept in \<open>simp_all add: rotate_locked_def\<close>)
qed

interpretation log_file: simulation names_inv snd perform_op "\<lambda>op. files_kept"
  by unfold_locales (simp_all add: perform_kept)

lemma kept_run: "spec_run (\<lambda>op. files_kept) ops a b \<Longrightarrow> files_kept a b"
  by (induction ops arbitrary: a) (auto intro: files_kept_trans)

lemma set_key_file: "set_key k v w = Some w' \<Longrightarrow> fw_file w' = fw_file w"
  by (auto simp: set_key_def set_str_def set_int_def set_bool_def split: if_splits json_item.splits)

lemma Unmarshal_file: "fw_file (snd (Unmarshal obj w)) = fw_file w"
  by (induction obj w rule: Unmarshal.induct) (auto simp: set_key_file split: option.splits)

definition sane_files :: "file_sys \<Rightarrow> bool" where
  "sane_files fs \<longleftrightarrow> (\<forall>i \<in> ran (fs_names fs). i < fs_next fs)"

lemma Init_kept:
  assumes "sane_files fs" "file_Init os now config (newFileWriter, fs) = (e, lf)"
  shows "names_inv lf \<and> files_kept fs (snd lf)"
proof -
  have n: "names_inv (w, fs)" if "fw_file w = None" for w using that assms(1) by (simp add: names_inv_def sane_files_def)
  have s: "names_inv (snd (startLogger os now (split_filename w, fs)))
      \<and> files_kept fs (snd (snd (startLogger os now (split_filename w, fs))))" if "fw_file w = None" for w
    using startLogger_kept [OF n] that by (simp add: split_filename_def Let_def)
  show ?thesis
  proof (cases config)
    case None
    then show ?thesis using assms(2) n by (auto simp: file_Init_def newFileWriter_def)
  next
    case (Some obj)
    obtain ok w where u: "Unmarshal obj newFileWriter = (ok, w)" by (cases "Unmarshal obj newFileWriter")
    then have "fw_file w = None" using Unmarshal_file [of obj newFileWriter] by (simp add: newFileWriter_def)
    then show ?thesis using Some assms(2) u n [of w] s [of w] by (auto simp: file_Init_def split: if_splits)
  qed
qed


section \<open>The counters\<close>

text \<open>
  The size is that of the file. The count of lines may be lower, for a message may have several.
\<close>

definition counters_inv :: "log_files \<Rightarrow> bool" where
  "counters_inv lf \<longleftrightarrow> (\<forall>i. fw_file (fst lf) = Some i \<longrightarrow>
     fw_size (fst lf) = int (length (fs_data (snd lf) i))
     \<and> 0 \<le> fw_lines (fst lf) \<and> fw_lines (fst lf) \<le> newlines (fs_data (snd lf) i))"

text \<open>An operating system that tells the size of an open file, reads it and writes to it.\<close>

definition sound :: "os_answers \<Rightarrow> bool" where
  "sound os \<longleftrightarrow> oa_stat os \<and> oa_read os \<and> oa_write os = None"

fun answers :: "file_op \<Rightarrow> os_answers" where
  "answers (Rotates os now when) = os" | "answers (Appends os s) = os" | "answers (Wakes os now) = os"

lemma newlines_simps [simp]: "newlines [] = 0" "0 \<le> newlines s" "newlines (s @ s') = newlines s + newlines s'"
  by (simp_all add: newlines_def)

lemma newlines_log_line [simp]: "1 \<le> newlines (log_line when s)"
  by (simp add: log_line_def) (simp add: newlines_def)

lemma initFd_counters: "sound os \<Longrightarrow> fw_file w = Some i \<Longrightarrow> counters_inv (snd (initFd os now i (w, fs)))"
  by (simp add: initFd_def counters_inv_def sound_def Let_def)

lemma restart_counters:
  assumes "sound os" "fw_file w = None"
  shows "counters_inv (snd (restart_logger os now err (w, fs)))"
proof (cases "createLogFile os w fs")
  case (Inl e)
  then show ?thesis using assms by (simp add: restart_logger_def startLogger_def counters_inv_def)
next
  case (Inr r)
  obtain i fs1 where "r = (i, fs1)" by (cases r)
  moreover have "counters_inv (snd (initFd os now i (w\<lparr>fw_file := Some i\<rparr>, fs1)))"
    using assms(1) by (intro initFd_counters) simp_all
  ultimately show ?thesis
    using Inr by (cases "initFd os now i (w\<lparr>fw_file := Some i\<rparr>, fs1)")
      (simp add: restart_logger_def startLogger_def counters_inv_def)
qed

lemma doRotate_counters:
  assumes "sound os" "names_inv (w, fs)" "counters_inv (w, fs)"
  shows "counters_inv (snd (doRotate os now t (w, fs)))"
proof (cases "Lstat fs (fw_Filename w)")
  case False
  then have "fw_file w = None" using assms(2) by (cases "fw_file w") (auto simp: names_inv_def Lstat_def)
  then show ?thesis using False assms restart_counters by (simp add: doRotate_def split: option.splits)
qed (use assms restart_counters in \<open>simp add: doRotate_def split: option.splits prod.splits\<close>)

lemma perform_counters:
  assumes "sound (answers op)" "names_inv lf" "counters_inv lf" "\<And>os s. op = Appends os s \<Longrightarrow> 1 \<le> newlines s"
  shows "counters_inv (perform_op op lf)"
proof (cases lf)
  case (Pair w fs)
  show ?thesis
  proof (cases op)
    case (Appends os s)
    then show ?thesis using assms(1,3) assms(4) [of os s] Pair
      by (cases "fw_file w") (simp_all add: append_locked_def append_to_def counters_inv_def sound_def)
  next
    case (Wakes os now)
    have "names_inv (w\<lparr>fw_timers := fw_timers w - 1\<rparr>, fs)" "counters_inv (w\<lparr>fw_timers := fw_timers w - 1\<rparr>, fs)"
      using assms(2,3) Pair by (simp_all add: names_inv_def counters_inv_def)
    then show ?thesis using Wakes Pair assms(1) doRotate_counters by (simp add: dailyRotate_def Let_def)
  qed (use assms Pair doRotate_counters in \<open>simp add: rotate_locked_def\<close>)
qed

fun fits :: "file_op \<Rightarrow> bool" where
  "fits (Appends os s) = (sound os \<and> 1 \<le> newlines s)"
| "fits op = sound (answers op)"

lemma counters_run:
  "names_inv lf \<Longrightarrow> counters_inv lf \<Longrightarrow> list_all fits ops \<Longrightarrow> counters_inv (fold perform_op ops lf)"
proof (induction ops arbitrary: lf)
  case (Cons op ops)
  have "counters_inv (perform_op op lf)"
    using Cons.prems by (intro perform_counters) (cases op; simp)+
  moreover have "names_inv (perform_op op lf)" using perform_kept Cons.prems(1) by blast
  ultimately have "counters_inv (fold perform_op ops (perform_op op lf))"
    using Cons.prems by (intro Cons.IH) auto
  then show ?case by simp
qed simp

lemma startLogger_counters:
  assumes "sound os" "startLogger os now (w, fs) = (None, lf)"
  shows "counters_inv lf \<and> fw_file (fst lf) \<noteq> None"
proof -
  obtain i fs1 where c: "createLogFile os w fs = Inr (i, fs1)" using assms(2) by (auto simp: startLogger_def split: sum.splits)
  have "counters_inv (snd (initFd os now i (w\<lparr>fw_file := Some i\<rparr>, fs1)))"
    using assms(1) by (intro initFd_counters) simp_all
  moreover have "snd (initFd os now i (w\<lparr>fw_file := Some i\<rparr>, fs1)) = lf" using assms(2) c by (simp add: startLogger_def)
  ultimately show ?thesis using initFd_fields(1) [of os now i "w\<lparr>fw_file := Some i\<rparr>" fs1] by auto
qed

lemma Init_counters:
  "sound os \<Longrightarrow> file_Init os now config (newFileWriter, fs) = (None, lf) \<Longrightarrow> counters_inv lf \<and> fw_file (fst lf) \<noteq> None"
  by (auto simp: file_Init_def dest: startLogger_counters split: option.splits prod.splits if_splits)

text \<open>
  the counters on which rotation is decided are true: after any sequence of appended messages and rotations the counted
  size is the size of the open file, and no more lines are counted than it has.
\<close>

theorem log_counters_true:
  assumes "sane_files fs" "sound os" "file_Init os now config (newFileWriter, fs) = (None, lf)" "list_all fits ops"
  shows "counters_inv (fold perform_op ops lf)"
  using counters_run Init_kept Init_counters assms by blast

section \<open>The limit\<close>

lemma rotation_starts_afresh:
  assumes "sound os" "names_inv (w, fs)" "\<forall>p. oa_open os p" "oa_rename os" "ParseOctal (fw_Perm w) \<noteq> None"
    "ParseOctal (fw_RotatePerm w) \<noteq> None" "rotated_name (Lstat fs) t w = (f, False)" "Lstat fs (fw_Filename w)"
  obtains e w1 fs1 i where "doRotate os now t (w, fs) = (e, w1, fs1)" "fw_file w1 = Some i" "fs_data fs1 i = []"
    "fw_size w1 = 0" "fw_lines w1 = 0" "fw_MaxSize w1 = fw_MaxSize w" "fw_MaxLines w1 = fw_MaxLines w"
proof -
  have free: "\<not> Lstat fs f" using rotated_name_free assms(7) by blast
  obtain fs1 where r: "Rename os (fw_Filename w) f fs = Some fs1" using assms by (simp add: Rename_def)
  have "fs_names fs1 (fw_Filename w) = None" using Rename_kept [OF r free] assms(2) by (simp add: names_inv_def)
  then show ?thesis
    using that assms r
    by (auto simp: doRotate_def restart_logger_def startLogger_def createLogFile_def OpenFile_def initFd_def
        sound_def Let_def split: option.splits)
qed

lemma limit_step:
  assumes "names_inv (w, fs)" "counters_inv (w, fs)" "fw_file w \<noteq> None" "fw_MinLevel w \<le> level" "level \<le> fw_Level w"
    "fw_Rotate w" "sound os" "\<forall>p. oa_open os p" "oa_rename os" "ParseOctal (fw_Perm w) \<noteq> None"
    "ParseOctal (fw_RotatePerm w) \<noteq> None" "rotated_name (Lstat fs) when w = (f, False)"
  shows "case file_WriteMsg os now when s level (w, fs) of
      (e, w', fs') \<Rightarrow> e = None \<and> (\<exists>i. fw_file w' = Some i \<and> (\<exists>before. fs_data fs' i = before @ log_line when s
        \<and> (0 < fw_MaxSize w \<longrightarrow> int (length before) < fw_MaxSize w)) \<and> (0 < fw_MaxLines w \<longrightarrow> fw_lines w' \<le> fw_MaxLines w))"
proof -
  have there: "Lstat fs (fw_Filename w)" using assms(1,3) by (auto simp: names_inv_def Lstat_def)
  show ?thesis
  proof (cases "needRotate (lt_day when) w")
    case False
    then show ?thesis using assms(2-7)
      by (auto simp: file_WriteMsg_def rotate_locked_def append_locked_def append_to_def counters_inv_def needRotate_def sound_def)
  next
    case True
    obtain e w1 fs1 i where r: "doRotate os now when (w, fs) = (e, w1, fs1)" "fw_file w1 = Some i" "fs_data fs1 i = []"
      "fw_size w1 = 0" "fw_lines w1 = 0" "fw_MaxSize w1 = fw_MaxSize w" "fw_MaxLines w1 = fw_MaxLines w"
      using rotation_starts_afresh [OF assms(7,1,8-12) there] by blast
    show ?thesis using True r assms(4-7)
      by (auto simp: file_WriteMsg_def rotate_locked_def append_locked_def append_to_def sound_def)
  qed
qed


section \<open>Examples\<close>

definition no_files :: file_sys where
  "no_files = \<lparr>fs_names = (\<lambda>p. None), fs_data = (\<lambda>i. []), fs_next = 0\<rparr>"

definition noon :: log_time where
  "noon = \<lparr>lt_day = 1, lt_date = ''2020-01-01'', lt_header = ''T'', lt_nanos = 0\<rparr>"

definition small_log :: json_object where
  "small_log = [(''filename'', J_str ''a.log''), (''maxSize'', J_int 5)]"

text \<open>A log of at most five bytes; its second message makes it rotate.\<close>

definition small_run :: "file_op list" where
  "small_run = [Appends willing (log_line noon ''hello''), Rotates willing noon noon, Appends willing (log_line noon ''you'')]"

definition small_start :: log_files where
  "small_start = snd (file_Init willing noon (Some small_log) (newFileWriter, no_files))"

lemma small_started: "file_Init willing noon (Some small_log) (newFileWriter, no_files) = (None, small_start)"
proof -
  have "fst (file_Init willing noon (Some small_log) (newFileWriter, no_files)) = None" by code_simp
  then show ?thesis by (simp add: small_start_def prod_eq_iff)
qed

lemma no_files_sane: "sane_files no_files"
  by (simp add: sane_files_def no_files_def)

lemma willing_sound: "sound willing"
  by code_simp

lemma small_run_fits: "list_all fits small_run"
  by code_simp


theorem log_counters_true_witness:
  "counters_inv (fold perform_op small_run small_start) \<and> fw_size (fst (fold perform_op small_run small_start)) = 5"
  using log_counters_true [OF no_files_sane willing_sound small_started small_run_fits] by (rule conjI) code_simp


end
