(* ===== verification/Lodos_Log.thy ===== *)
theory Lodos_Log
  imports Lodos_File_Log_Props
begin

text \<open>
  The logger, \<^verbatim>\<open>log/beego/log.go\<close>, with its console and connection adapters (\<^verbatim>\<open>console.go\<close>, \<^verbatim>\<open>conn.go\<close>), and what
  \<^verbatim>\<open>log/beego_logger.go\<close> and \<^verbatim>\<open>log/log.go\<close> make of it: the adapters and their registration, levels, the text of a
  message, where a message goes. The goroutine of the asynchronous mode is in the next theory.
\<close>

section \<open>Adapters\<close>

text \<open>
  \<^verbatim>\<open>console.go\<close>. The escape character opens a colour and ends it; what is printed is a list of lines.
\<close>

record console_writer =
  co_Level :: int
  co_Colorful :: bool

definition brush :: "string \<Rightarrow> string \<Rightarrow> string" where
  "brush color s = CHR 0x1B # ''['' @ color @ ''m'' @ s @ CHR 0x1B # ''[0m''"

definition colors :: "string list" where
  "colors = [''1;37'', ''1;36'', ''1;35'', ''1;31'', ''1;33'', ''1;33'', ''1;32'', ''1;44'']"

definition NewConsole :: "bool \<Rightarrow> console_writer" where
  "NewConsole windows = \<lparr>co_Level = 7, co_Colorful = \<not> windows\<rparr>"

fun console_keys :: "json_object \<Rightarrow> console_writer \<Rightarrow> bool \<times> console_writer" where
  "console_keys [] c = (True, c)"
| "console_keys ((k, v) # kvs) c =
     (if v = J_null \<or> lower k \<notin> {''level'', ''color''} then console_keys kvs c
      else (case (lower k = ''level'', v) of
              (True, J_int i) \<Rightarrow>
                if - (2 ^ 63) \<le> i \<and> i < 2 ^ 63 then console_keys kvs (c\<lparr>co_Level := i\<rparr>) else (False, snd (console_keys kvs c))
            | (False, J_bool b) \<Rightarrow> console_keys kvs (c\<lparr>co_Colorful := b\<rparr>)
            | _ \<Rightarrow> (False, snd (console_keys kvs c))))"

definition console_Init :: "bool \<Rightarrow> json_object option \<Rightarrow> console_writer \<Rightarrow> log_error option \<times> console_writer" where
  "console_Init windows config c =
     (let r = (case config of None \<Rightarrow> (False, c) | Some obj \<Rightarrow> console_keys obj c);
          c' = (if windows then (snd r)\<lparr>co_Colorful := False\<rparr> else snd r)
      in (if fst r then None else Some Bad_config, c'))"

definition console_WriteMsg :: "log_time \<Rightarrow> string \<Rightarrow> int \<Rightarrow> console_writer \<Rightarrow> string list \<Rightarrow> string list" where
  "console_WriteMsg when s level c printed =
     (if level > co_Level c then printed
      else printed @ [log_line when (if co_Colorful c then brush (colors ! nat level) s else s)])"

text \<open>
  \<^verbatim>\<open>conn.go\<close>. \<open>cw_inner\<close> is \<^verbatim>\<open>innerWriter\<close>: \<^const>\<open>None\<close> for nil, otherwise whether the connection still carries anything; a
  write to one that does not is an error that \<^verbatim>\<open>println\<close> drops.
\<close>

record conn_writer =
  cw_inner :: "bool option"
  cw_ReconnectOnMsg :: bool
  cw_Reconnect :: bool
  cw_Level :: int

definition NewConn :: conn_writer where
  "NewConn = \<lparr>cw_inner = None, cw_ReconnectOnMsg = False, cw_Reconnect = False, cw_Level = LevelTrace\<rparr>"

definition needToConnectOnMsg :: "conn_writer \<Rightarrow> bool \<times> conn_writer" where
  "needToConnectOnMsg c =
     (if cw_Reconnect c then (True, c\<lparr>cw_Reconnect := False\<rparr>)
      else if cw_inner c = None then (True, c) else (cw_ReconnectOnMsg c, c))"

definition conn_connect :: "bool \<Rightarrow> conn_writer \<Rightarrow> log_error option \<times> conn_writer" where
  "conn_connect dials c =
     (if dials then (None, c\<lparr>cw_inner := Some True\<rparr>) else (Some Connect_failed, c\<lparr>cw_inner := None\<rparr>))"

definition conn_WriteMsg :: "bool \<Rightarrow> log_time \<Rightarrow> string \<Rightarrow> int \<Rightarrow> conn_writer \<times> string list
    \<Rightarrow> log_error option \<times> conn_writer \<times> string list" where
  "conn_WriteMsg dials when s level cs = (case cs of (c, sent) \<Rightarrow>
     if level > cw_Level c then (None, c, sent)
     else (case needToConnectOnMsg c of
        (need, c1) \<Rightarrow>
          (case (if need then conn_connect dials c1 else (None, c1)) of
             (Some e, c2) \<Rightarrow> (Some e, c2, sent)
           | (None, c2) \<Rightarrow>
               (None, if cw_ReconnectOnMsg c2 then c2\<lparr>cw_inner := Some False\<rparr> else c2,
                if cw_inner c2 = Some True then sent @ [log_line when s] else sent))))"

text \<open>
  Its \<^verbatim>\<open>Init\<close>; the address is a matter of dialling, so only the types of its keys matter. Then its \<^verbatim>\<open>Destroy\<close>, which is also
  what the peer or the network ending the connection leaves.
\<close>

fun conn_keys :: "json_object \<Rightarrow> conn_writer \<Rightarrow> bool \<times> conn_writer" where
  "conn_keys [] c = (True, c)"
| "conn_keys ((k, v) # kvs) c =
     (let r = (if v = J_null then Some c
               else if lower k = ''level''
               then (case v of J_int i \<Rightarrow> if - (2 ^ 63) \<le> i \<and> i < 2 ^ 63 then Some (c\<lparr>cw_Level := i\<rparr>) else None | _ \<Rightarrow> None)
               else if lower k = ''reconnectonmsg'' then (case v of J_bool b \<Rightarrow> Some (c\<lparr>cw_ReconnectOnMsg := b\<rparr>) | _ \<Rightarrow> None)
               else if lower k = ''reconnect'' then (case v of J_bool b \<Rightarrow> Some (c\<lparr>cw_Reconnect := b\<rparr>) | _ \<Rightarrow> None)
               else if lower k \<in> {''net'', ''addr''} then (case v of J_str s \<Rightarrow> Some c | _ \<Rightarrow> None)
               else Some c)
      in case r of None \<Rightarrow> (False, snd (conn_keys kvs c)) | Some c1 \<Rightarrow> conn_keys kvs c1)"

definition conn_Init :: "json_object option \<Rightarrow> conn_writer \<Rightarrow> log_error option \<times> conn_writer" where
  "conn_Init config c =
     (case config of
        None \<Rightarrow> (Some Bad_config, c)
      | Some obj \<Rightarrow> (if fst (conn_keys obj c) then None else Some Bad_config, snd (conn_keys obj c)))"

definition conn_drop :: "conn_writer \<Rightarrow> conn_writer" where
  "conn_drop c = c\<lparr>cw_inner := map_option (\<lambda>b. False) (cw_inner c)\<rparr>"

section \<open>The text of a message\<close>

text \<open>\<^verbatim>\<open>strings.LastIndex\<close> and \<^verbatim>\<open>strings.Contains\<close>.\<close>

definition at_index :: "string \<Rightarrow> string \<Rightarrow> nat \<Rightarrow> bool" where
  "at_index s sub i = (take (length sub) (drop i s) = sub)"

definition LastIndex :: "string \<Rightarrow> string \<Rightarrow> nat option" where
  "LastIndex s sub = (case filter (at_index s sub) [0..<Suc (length s)] of [] \<Rightarrow> None | is \<Rightarrow> Some (last is))"

definition Contains :: "string \<Rightarrow> string \<Rightarrow> bool" where
  "Contains s sub = list_ex (at_index s sub) [0..<Suc (length s)]"

definition moduleOf :: "string \<Rightarrow> string" where
  "moduleOf file =
     (case LastIndex file ''/'' of
        None \<Rightarrow> ''UNKNOWN''
      | Some pos \<Rightarrow>
          (case LastIndex (take pos file) ''/src/'' of
             None \<Rightarrow> ''UNKNOWN''
           | Some pos1 \<Rightarrow> drop (pos1 + 5) (take pos file)))"

definition shortfile :: "string \<Rightarrow> string" where
  "shortfile file = (case filter (\<lambda>i. file ! i = CHR ''/'') [1..<length file] of [] \<Rightarrow> file | is \<Rightarrow> drop (Suc (last is)) file)"

text \<open>
  \<^verbatim>\<open>GetCallStack\<close>, over the frames \<^verbatim>\<open>runtime.Caller\<close> gives, from the innermost: file and line. Its loop ends
  with the last frame.
\<close>

fun stack_loop :: "(string \<times> int) list \<Rightarrow> int \<Rightarrow> int \<Rightarrow> string \<Rightarrow> string \<Rightarrow> string \<Rightarrow> string \<times> string" where
  "stack_loop [] n frames flt buf sf = (buf, sf)"
| "stack_loop ((file, line) # fs) n frames flt buf sf =
     (if n < frames
      then let sf1 = (if sf = [] then shortfile file @ '':'' @ dec_int line else sf);
               f = moduleOf file @ ''/'' @ shortfile file
           in if flt = [] \<or> Contains f flt
              then stack_loop fs (n + 1) frames flt (buf @ CHR 0x0A # f @ '':'' @ dec_int line) sf1
              else stack_loop fs n frames flt buf sf1
      else (buf, sf))"

definition GetCallStack :: "(string \<times> int) list \<Rightarrow> nat \<Rightarrow> int \<Rightarrow> string \<Rightarrow> string \<times> string" where
  "GetCallStack stack skip_n frames flt = stack_loop (drop skip_n stack) 0 frames flt [] []"

text \<open>\<^verbatim>\<open>levelPrefix\<close>, and \<^verbatim>\<open>formatLog\<close>, where the functions of \<^verbatim>\<open>fmt\<close> are parameters.\<close>

definition levelPrefix :: "string list" where
  "levelPrefix = [''[M] '', ''[A] '', ''[C] '', ''[E] '', ''[W] '', ''[N] '', ''[I] '', ''[D] '']"

record 'a fmt_package =
  fmt_Sprintf :: "string \<Rightarrow> 'a list \<Rightarrow> string"
  fmt_Sprint :: "'a \<Rightarrow> string"

definition formatLog :: "'a fmt_package \<Rightarrow> string + 'a \<Rightarrow> 'a list \<Rightarrow> string" where
  "formatLog fmt f v =
     (case f of
        Inl s \<Rightarrow>
          if v = [] then s
          else if Contains s ''%'' \<and> \<not> Contains s ''%%'' then fmt_Sprintf fmt s v
          else fmt_Sprintf fmt (s @ concat (replicate (length v) '' %v'')) v
      | Inr x \<Rightarrow>
          let s = fmt_Sprint fmt x
          in if v = [] then s else fmt_Sprintf fmt (s @ concat (replicate (length v) '' %v'')) v)"

section \<open>The logger\<close>

text \<open>
  What the outputs of a logger can do, the interface \<^verbatim>\<open>Logger\<close>, on the state 'o of an adapter and the state 'w of
  the world; the registered constructors are a map of their own.
\<close>

record ('o, 'w) provider =
  pr_Init :: "json_object option \<Rightarrow> 'o \<times> 'w \<Rightarrow> log_error option \<times> 'o \<times> 'w"
  pr_WriteMsg :: "log_time \<Rightarrow> string \<Rightarrow> int \<Rightarrow> 'o \<times> 'w \<Rightarrow> log_error option \<times> 'o \<times> 'w"
  pr_Flush :: "'o \<times> 'w \<Rightarrow> 'o \<times> 'w"
  pr_Destroy :: "'o \<times> 'w \<Rightarrow> 'o \<times> 'w"

definition Register_adapter :: "string \<Rightarrow> 'o option \<Rightarrow> (string \<Rightarrow> 'o option) \<Rightarrow> (string \<Rightarrow> 'o option) outcome" where
  "Register_adapter name new adapters =
     (case new of
        None \<Rightarrow> Panic ''logs: Register provide is nil''
      | Some constructor \<Rightarrow>
          if adapters name \<noteq> None then Panic (''logs: Register called twice for provider '' @ name)
          else Done (adapters(name \<mapsto> constructor)))"

record 'o bee_logger =
  bl_level :: int
  bl_init :: bool
  bl_enableFuncCallDepth :: bool
  bl_loggerFuncCallDepth :: int
  bl_asynchronous :: bool
  bl_msgChanLen :: int
  bl_signal_closed :: bool
  bl_outputs :: "(string \<times> 'o) list"
  bl_ProcessID :: string

definition setLogger :: "('o, 'w) provider \<Rightarrow> (string \<Rightarrow> 'o option) \<Rightarrow> string \<Rightarrow> json_object option
    \<Rightarrow> 'o bee_logger \<times> 'w \<Rightarrow> log_error option \<times> 'o bee_logger \<times> 'w" where
  "setLogger p adapters name config bw = (case bw of (bl, w) \<Rightarrow>
     if name \<in> set (map fst (bl_outputs bl)) then (Some (Duplicate_adapter name), bl, w)
     else (case adapters name of
        None \<Rightarrow> (Some (Unknown_adapter name), bl, w)
      | Some new \<Rightarrow>
          (case pr_Init p config (new, w) of
             (Some e, lg, w1) \<Rightarrow> (Some e, bl, w1)
           | (None, lg, w1) \<Rightarrow> (None, bl\<lparr>bl_outputs := bl_outputs bl @ [(name, lg)]\<rparr>, w1))))"

definition NewLogger :: "('o, 'w) provider \<Rightarrow> (string \<Rightarrow> 'o option) \<Rightarrow> int list \<Rightarrow> 'w \<Rightarrow> 'o bee_logger \<times> 'w" where
  "NewLogger p adapters channelLens w =
     (let n = hd (channelLens @ [0]);
          bl = \<lparr>bl_level = 7, bl_init = False, bl_enableFuncCallDepth = False, bl_loggerFuncCallDepth = 2,
                bl_asynchronous = False, bl_msgChanLen = (if n \<le> 0 then 1000 else n), bl_signal_closed = False,
                bl_outputs = [], bl_ProcessID = []\<rparr>
      in snd (setLogger p adapters ''console'' (Some []) (bl, w)))"

definition Async :: "int list \<Rightarrow> 'o bee_logger \<Rightarrow> 'o bee_logger" where
  "Async msgLen bl =
     (if bl_asynchronous bl then bl
      else bl\<lparr>bl_asynchronous := True,
             bl_msgChanLen := (case msgLen of n # ns \<Rightarrow> if n > 0 then n else bl_msgChanLen bl | [] \<Rightarrow> bl_msgChanLen bl)\<rparr>)"

definition SetLogger :: "('o, 'w) provider \<Rightarrow> (string \<Rightarrow> 'o option) \<Rightarrow> string \<Rightarrow> json_object option
    \<Rightarrow> 'o bee_logger \<times> 'w \<Rightarrow> log_error option \<times> 'o bee_logger \<times> 'w" where
  "SetLogger p adapters name config bw =
     setLogger p adapters name config
       (if bl_init (fst bw) then fst bw else (fst bw)\<lparr>bl_outputs := [], bl_init := True\<rparr>, snd bw)"

fun del_outputs :: "('o, 'w) provider \<Rightarrow> string \<Rightarrow> (string \<times> 'o) list \<Rightarrow> 'w \<Rightarrow> (string \<times> 'o) list \<times> 'w" where
  "del_outputs p name [] w = ([], w)"
| "del_outputs p name ((n, lg) # ls) w =
     (if n = name then del_outputs p name ls (snd (pr_Destroy p (lg, w)))
      else (case del_outputs p name ls w of (ls', w') \<Rightarrow> ((n, lg) # ls', w')))"

definition DelLogger :: "('o, 'w) provider \<Rightarrow> string \<Rightarrow> 'o bee_logger \<times> 'w \<Rightarrow> log_error option \<times> 'o bee_logger \<times> 'w" where
  "DelLogger p name bw = (case bw of (bl, w) \<Rightarrow>
     (case del_outputs p name (bl_outputs bl) w of
        (outs, w') \<Rightarrow>
          if length outs = length (bl_outputs bl) then (Some (Unknown_adapter name), bl, w')
          else (None, bl\<lparr>bl_outputs := outs\<rparr>, w')))"

text \<open>A method called on each output in turn; \<^verbatim>\<open>writeToLoggers\<close> prints an error and goes on.\<close>

fun each_output :: "('o \<times> 'w \<Rightarrow> 'o \<times> 'w) \<Rightarrow> (string \<times> 'o) list \<Rightarrow> 'w \<Rightarrow> (string \<times> 'o) list \<times> 'w" where
  "each_output f [] w = ([], w)"
| "each_output f ((n, lg) # ls) w =
     (case f (lg, w) of (lg1, w1) \<Rightarrow> (case each_output f ls w1 of (ls', w') \<Rightarrow> ((n, lg1) # ls', w')))"

definition on_outputs :: "('o \<times> 'w \<Rightarrow> 'o \<times> 'w) \<Rightarrow> 'o bee_logger \<times> 'w \<Rightarrow> 'o bee_logger \<times> 'w" where
  "on_outputs f bw = (case bw of (bl, w) \<Rightarrow>
     (case each_output f (bl_outputs bl) w of (ls, w') \<Rightarrow> (bl\<lparr>bl_outputs := ls\<rparr>, w')))"

definition writeToLoggers :: "('o, 'w) provider \<Rightarrow> log_time \<Rightarrow> string \<Rightarrow> int \<Rightarrow> 'o bee_logger \<times> 'w \<Rightarrow> 'o bee_logger \<times> 'w" where
  "writeToLoggers p when s level = on_outputs (\<lambda>ow. snd (pr_WriteMsg p when s level ow))"

text \<open>
  \<^verbatim>\<open>writeMsg\<close>: the level -1 is \<^verbatim>\<open>levelLoggerImpl\<close>. In the asynchronous mode its result is the message it sends on the
  channel, which is where it may block.
\<close>

type_synonym log_msg = "int \<times> string \<times> log_time"

definition msg_text :: "'a fmt_package \<Rightarrow> (string \<times> int) list \<Rightarrow> 'o bee_logger \<Rightarrow> int \<Rightarrow> string \<Rightarrow> 'a list \<Rightarrow> string" where
  "msg_text fmt stack bl logLevel format v =
     (let s = (if v \<noteq> [] then fmt_Sprintf fmt format v else format);
          calls = GetCallStack stack 4 (bl_loggerFuncCallDepth bl) [];
          s1 = (if bl_enableFuncCallDepth bl
                then if logLevel \<le> LevelWarn then ''['' @ snd calls @ ''] '' @ s @ '' '' @ fst calls
                     else ''['' @ snd calls @ ''] '' @ s
                else s)
      in if logLevel = - 1 then s1 else '' ['' @ bl_ProcessID bl @ ''] '' @ levelPrefix ! nat logLevel @ s1)"

definition writeMsg :: "('o, 'w) provider \<Rightarrow> (string \<Rightarrow> 'o option) \<Rightarrow> 'a fmt_package \<Rightarrow> (string \<times> int) list \<Rightarrow> log_time
    \<Rightarrow> int \<Rightarrow> string \<Rightarrow> 'a list \<Rightarrow> 'o bee_logger \<times> 'w \<Rightarrow> log_msg option \<times> 'o bee_logger \<times> 'w" where
  "writeMsg p adapters fmt stack when logLevel format v bw =
     (let bw1 = (if bl_init (fst bw) then bw else snd (setLogger p adapters ''console'' (Some []) bw));
          s = msg_text fmt stack (fst bw1) logLevel format v;
          level = (if logLevel = - 1 then LevelEmergency else logLevel)
      in if bl_asynchronous (fst bw1) then (Some (level, s, when), bw1)
         else (None, writeToLoggers p when s level bw1))"

definition logger_Write :: "('o, 'w) provider \<Rightarrow> (string \<Rightarrow> 'o option) \<Rightarrow> 'a fmt_package \<Rightarrow> (string \<times> int) list \<Rightarrow> log_time
    \<Rightarrow> string \<Rightarrow> 'o bee_logger \<times> 'w \<Rightarrow> nat \<times> log_msg option \<times> 'o bee_logger \<times> 'w" where
  "logger_Write p adapters fmt stack when b bw =
     (if b = [] then (0, None, bw)
      else let b1 = (if last b = CHR 0x0A then butlast b else b)
           in (length b1, writeMsg p adapters fmt stack when (- 1) b1 [] bw))"

text \<open>The methods of the levels: their names, and the level each tests and writes.\<close>

datatype log_method = Emergency | Alert | Critical | Error | Warning | Notice | Informational | Debug | Warn | Info | Trace

fun method_level :: "log_method \<Rightarrow> int" where
  "method_level Emergency = 0" | "method_level Alert = 1" | "method_level Critical = 2" | "method_level Error = 3"
| "method_level Warning = 4" | "method_level Notice = 5" | "method_level Informational = 6" | "method_level Debug = 7"
| "method_level Warn = 4" | "method_level Info = 6" | "method_level Trace = 7"

definition log_with :: "('o, 'w) provider \<Rightarrow> (string \<Rightarrow> 'o option) \<Rightarrow> 'a fmt_package \<Rightarrow> (string \<times> int) list \<Rightarrow> log_time
    \<Rightarrow> log_method \<Rightarrow> string \<Rightarrow> 'a list \<Rightarrow> 'o bee_logger \<times> 'w \<Rightarrow> log_msg option \<times> 'o bee_logger \<times> 'w" where
  "log_with p adapters fmt stack when m format v bw =
     (if method_level m > bl_level (fst bw) then (None, bw)
      else writeMsg p adapters fmt stack when (method_level m) format v bw)"

text \<open>
  The functions of the package \<^verbatim>\<open>logs\<close>, which format the message themselves and call a method of the default logger,
  the method with a shorter name where there are two.
\<close>

fun package_method :: "log_method \<Rightarrow> log_method" where
  "package_method Warning = Warn" | "package_method Informational = Info" | "package_method m = m"

definition package_log :: "('o, 'w) provider \<Rightarrow> (string \<Rightarrow> 'o option) \<Rightarrow> 'a fmt_package \<Rightarrow> (string \<times> int) list \<Rightarrow> log_time
    \<Rightarrow> log_method \<Rightarrow> string + 'a \<Rightarrow> 'a list \<Rightarrow> 'o bee_logger \<times> 'w \<Rightarrow> log_msg option \<times> 'o bee_logger \<times> 'w" where
  "package_log p adapters fmt stack when m f v = log_with p adapters fmt stack when (package_method m) (formatLog fmt f v) []"

text \<open>\<^verbatim>\<open>GetLogger\<close>: the standard loggers that write to the default logger, one for each prefix in capitals; they are numbers here.\<close>

definition upper_char :: "char \<Rightarrow> char" where
  "upper_char c = (if CHR ''a'' \<le> c \<and> c \<le> CHR ''z'' then char_of (of_char c - (32 :: nat)) else c)"

definition GetLogger :: "string list \<Rightarrow> (string \<Rightarrow> nat option) \<times> nat \<Rightarrow> nat \<times> (string \<Rightarrow> nat option) \<times> nat" where
  "GetLogger given lm = (case lm of (logs, n) \<Rightarrow>
     let p = hd (given @ [[]]);
         key = (if p = [] then [] else ''['' @ map upper_char p @ ''] '')
     in case logs key of Some l \<Rightarrow> (l, logs, n) | None \<Rightarrow> (n, logs(key \<mapsto> n), Suc n))"

text \<open>\<^verbatim>\<open>Flush\<close>, \<^verbatim>\<open>Close\<close> and \<^verbatim>\<open>Reset\<close> of a logger that is not asynchronous.\<close>

definition sync_flush :: "('o, 'w) provider \<Rightarrow> 'o bee_logger \<times> 'w \<Rightarrow> 'o bee_logger \<times> 'w" where
  "sync_flush p = on_outputs (pr_Flush p)"

definition sync_Reset :: "('o, 'w) provider \<Rightarrow> 'o bee_logger \<times> 'w \<Rightarrow> 'o bee_logger \<times> 'w" where
  "sync_Reset p bw = (case on_outputs (pr_Destroy p) (sync_flush p bw) of (bl, w) \<Rightarrow> (bl\<lparr>bl_outputs := []\<rparr>, w))"

definition sync_Close :: "('o, 'w) provider \<Rightarrow> 'o bee_logger \<times> 'w \<Rightarrow> unit outcome \<times> 'o bee_logger \<times> 'w" where
  "sync_Close p bw = (case sync_Reset p bw of (bl, w) \<Rightarrow>
     if bl_signal_closed bl then (Panic ''close of closed channel'', bl, w)
     else (Done (), bl\<lparr>bl_signal_closed := True\<rparr>, w))"


section \<open>The adapters of the repository\<close>

text \<open>
  The outputs a logger may have; 'x stands for those that send over HTTP or mail, a parameter. The world they act on: files,
  what is printed, what the log connection has carried.
\<close>

datatype 'x log_output =
  Out_console console_writer | Out_file file_writer | Out_multi multi_writer | Out_conn conn_writer | Out_other 'x

record log_world =
  lw_files :: file_sys
  lw_printed :: "string list"
  lw_sent :: "string list"

record 'x log_env =
  le_os :: os_answers
  le_now :: log_time
  le_windows :: bool
  le_dials :: bool
  le_others :: "('x, log_world) provider"

definition output_Init :: "'x log_env \<Rightarrow> json_object option \<Rightarrow> 'x log_output \<times> log_world
    \<Rightarrow> log_error option \<times> 'x log_output \<times> log_world" where
  "output_Init env config ow = (case ow of (lg, w) \<Rightarrow>
     (case lg of
        Out_console c \<Rightarrow> (case console_Init (le_windows env) config c of (e, c1) \<Rightarrow> (e, Out_console c1, w))
      | Out_file f \<Rightarrow>
          (case file_Init (le_os env) (le_now env) config (f, lw_files w) of (e, f1, fs) \<Rightarrow> (e, Out_file f1, w\<lparr>lw_files := fs\<rparr>))
      | Out_multi m \<Rightarrow>
          (case multi_Init (le_os env) (le_now env) config (m, lw_files w) of (e, m1, fs) \<Rightarrow> (e, Out_multi m1, w\<lparr>lw_files := fs\<rparr>))
      | Out_conn c \<Rightarrow> (case conn_Init config c of (e, c1) \<Rightarrow> (e, Out_conn c1, w))
      | Out_other x \<Rightarrow> (case pr_Init (le_others env) config (x, w) of (e, x1, w1) \<Rightarrow> (e, Out_other x1, w1))))"

definition output_WriteMsg :: "'x log_env \<Rightarrow> log_time \<Rightarrow> string \<Rightarrow> int \<Rightarrow> 'x log_output \<times> log_world
    \<Rightarrow> log_error option \<times> 'x log_output \<times> log_world" where
  "output_WriteMsg env when s level ow = (case ow of (lg, w) \<Rightarrow>
     (case lg of
        Out_console c \<Rightarrow> (None, lg, w\<lparr>lw_printed := console_WriteMsg when s level c (lw_printed w)\<rparr>)
      | Out_file f \<Rightarrow>
          (case file_WriteMsg (le_os env) (le_now env) when s level (f, lw_files w) of
             (e, f1, fs) \<Rightarrow> (e, Out_file f1, w\<lparr>lw_files := fs\<rparr>))
      | Out_multi m \<Rightarrow>
          (case multi_WriteMsg (le_os env) (le_now env) when s level (m, lw_files w) of
             (e, m1, fs) \<Rightarrow> (e, Out_multi m1, w\<lparr>lw_files := fs\<rparr>))
      | Out_conn c \<Rightarrow>
          (case conn_WriteMsg (le_dials env) when s level (c, lw_sent w) of
             (e, c1, sent) \<Rightarrow> (e, Out_conn c1, w\<lparr>lw_sent := sent\<rparr>))
      | Out_other x \<Rightarrow> (case pr_WriteMsg (le_others env) when s level (x, w) of (e, x1, w1) \<Rightarrow> (e, Out_other x1, w1))))"

definition output_Flush :: "'x log_env \<Rightarrow> 'x log_output \<times> log_world \<Rightarrow> 'x log_output \<times> log_world" where
  "output_Flush env ow =
     (case fst ow of
        Out_other x \<Rightarrow> (case pr_Flush (le_others env) (x, snd ow) of (x1, w1) \<Rightarrow> (Out_other x1, w1))
      | _ \<Rightarrow> ow)"

definition output_Destroy :: "'x log_env \<Rightarrow> 'x log_output \<times> log_world \<Rightarrow> 'x log_output \<times> log_world" where
  "output_Destroy env ow = (case ow of (lg, w) \<Rightarrow>
     (case lg of
        Out_console c \<Rightarrow> (lg, w)
      | Out_file f \<Rightarrow> (Out_file (file_Destroy f), w)
      | Out_multi m \<Rightarrow> (Out_multi (multi_Destroy m), w)
      | Out_conn c \<Rightarrow> (Out_conn (conn_drop c), w)
      | Out_other x \<Rightarrow> (case pr_Destroy (le_others env) (x, w) of (x1, w1) \<Rightarrow> (Out_other x1, w1))))"

definition lodos_provider :: "'x log_env \<Rightarrow> ('x log_output, log_world) provider" where
  "lodos_provider env = \<lparr>pr_Init = output_Init env, pr_WriteMsg = output_WriteMsg env, pr_Flush = output_Flush env,
     pr_Destroy = output_Destroy env\<rparr>"

section \<open>NewBeegoLogger\<close>

text \<open>
  A value of the settings: an object, null, or anything else; and the text \<^verbatim>\<open>json.Marshal\<close> makes of it, as an adapter reads it.
\<close>

datatype log_setting = S_object json_object | S_null | S_value

fun config_of :: "log_setting \<Rightarrow> json_object option" where
  "config_of (S_object obj) = Some (Marshal obj)" | "config_of S_null = Some []" | "config_of S_value = None"

text \<open>The keys that are put into the settings of a file: its name, its level, and one more level under \<open>key\<close>.\<close>

definition put_file :: "string \<Rightarrow> int \<Rightarrow> string \<Rightarrow> int \<Rightarrow> json_object \<Rightarrow> json_object" where
  "put_file name level key other obj =
     json_put key (J_int other) (json_put ''level'' (J_int level) (json_put ''filename'' (J_str name) obj))"

definition error_log :: "string \<Rightarrow> string \<Rightarrow> string" where
  "error_log dir pid = dir @ ''/'' @ pid @ ''.error.log''"

definition access_log :: "string \<Rightarrow> string \<Rightarrow> string" where
  "access_log dir pid = dir @ ''/'' @ pid @ ''.access.log''"

definition file_outputs :: "('o, 'w) provider \<Rightarrow> (string \<Rightarrow> 'o option) \<Rightarrow> string \<Rightarrow> string \<Rightarrow> log_setting option
    \<Rightarrow> 'o bee_logger \<times> 'w \<Rightarrow> ('o bee_logger \<times> 'w) outcome" where
  "file_outputs p adapters dir pid setting bw =
     (let two = (\<lambda>err_obj acc_obj. Done (snd (SetLogger p adapters ''access_file'' (Some (Marshal acc_obj))
                  (snd (SetLogger p adapters ''error_file'' (Some (Marshal err_obj)) bw)))))
      in case setting of
           Some (S_object obj) \<Rightarrow>
             let err_obj = put_file (error_log dir pid) LevelError ''maxlevel'' LevelEmergency obj
             in two err_obj (put_file (access_log dir pid) LevelTrace ''maxlevel'' LevelWarn err_obj)
         | Some _ \<Rightarrow> Panic ''interface conversion''
         | None \<Rightarrow>
             let err_obj = put_file (error_log dir pid) LevelWarn ''minlevel'' LevelEmergency []
             in two err_obj (put_file (access_log dir pid) LevelTrace ''minlevel'' LevelNotice err_obj))"

definition further_outputs :: "('o, 'w) provider \<Rightarrow> (string \<Rightarrow> 'o option) \<Rightarrow> (string \<Rightarrow> log_setting option)
    \<Rightarrow> 'o bee_logger \<times> 'w \<Rightarrow> 'o bee_logger \<times> 'w" where
  "further_outputs p adapters settings =
     fold (\<lambda>name bw. case settings name of None \<Rightarrow> bw | Some x \<Rightarrow> snd (SetLogger p adapters name (config_of x) bw))
       [''dingtalk'', ''slack'', ''jianliao'', ''conn'', ''smtp'', ''es'']"

definition NewBeegoLogger :: "'x log_env \<Rightarrow> (string \<Rightarrow> 'x log_output option) \<Rightarrow> bool \<Rightarrow> string \<Rightarrow> string
    \<Rightarrow> (string \<Rightarrow> log_setting option) \<Rightarrow> log_world \<Rightarrow> ((string \<Rightarrow> 'x log_output option) \<times> 'x log_output bee_logger \<times> log_world) outcome" where
  "NewBeegoLogger env adapters debug pid dir settings w =
     (let p = lodos_provider env;
          (bl, w0) = NewLogger p adapters [] w;
          bl1 = (Async [] (bl\<lparr>bl_ProcessID := pid, bl_enableFuncCallDepth := True\<rparr>))\<lparr>bl_loggerFuncCallDepth := 4\<rparr>;
          bw = (if debug then snd (SetLogger p adapters ''console'' (Some []) (bl1, w0)) else (bl1, w0))
      in outcome_bind (Register_adapter ''error_file'' (Some (Out_file newFileWriter)) adapters) (\<lambda>ad1.
         outcome_bind (Register_adapter ''access_file'' (Some (Out_file newFileWriter)) ad1) (\<lambda>ad2.
         outcome_bind (file_outputs p ad2 dir pid (settings ''file'') bw) (\<lambda>bw1.
         Done (ad2, further_outputs p ad2 settings bw1)))))"


section \<open>The loggers of the application\<close>

text \<open>
  \<^verbatim>\<open>log/log.go\<close>: the loggers it keeps ('l of the other logging package), made when they are first asked for;
  \<open>make_default\<close> is \<^verbatim>\<open>NewDefaultLogger\<close>. \<^verbatim>\<open>Debug\<close>, \<^verbatim>\<open>Info\<close>, \<^verbatim>\<open>Error\<close> and \<^verbatim>\<open>Warning\<close> write to the one \<^verbatim>\<open>LogBeego\<close> gives.
\<close>

record ('l, 'b) log_globals =
  lg_mqlog :: "'l option"
  lg_beego :: "'b option"
  lg_default :: "'l option"

definition Log_get :: "'l \<Rightarrow> ('l, 'b) log_globals \<Rightarrow> 'l \<times> ('l, 'b) log_globals" where
  "Log_get make_default g =
     (case lg_mqlog g of
        Some l \<Rightarrow> (l, g)
      | None \<Rightarrow> (case lg_default g of Some l \<Rightarrow> (l, g) | None \<Rightarrow> (make_default, g\<lparr>lg_default := Some make_default\<rparr>)))"

definition LogBeego :: "('o, 'w) provider \<Rightarrow> (string \<Rightarrow> 'o option) \<Rightarrow> ('l, 'o bee_logger) log_globals \<times> 'w
    \<Rightarrow> 'o bee_logger \<times> ('l, 'o bee_logger) log_globals \<times> 'w" where
  "LogBeego p adapters gw = (case gw of (g, w) \<Rightarrow>
     (case lg_beego g of
        Some bl \<Rightarrow> (bl, g, w)
      | None \<Rightarrow> (case NewLogger p adapters [] w of (bl, w1) \<Rightarrow> (bl, g\<lparr>lg_beego := Some bl\<rparr>, w1))))"

definition app_log :: "('o, 'w) provider \<Rightarrow> (string \<Rightarrow> 'o option) \<Rightarrow> 'a fmt_package \<Rightarrow> (string \<times> int) list \<Rightarrow> log_time
    \<Rightarrow> log_method \<Rightarrow> string \<Rightarrow> 'a list \<Rightarrow> ('l, 'o bee_logger) log_globals \<times> 'w
    \<Rightarrow> log_msg option \<times> ('l, 'o bee_logger) log_globals \<times> 'w" where
  "app_log p adapters fmt stack when m format v gw =
     (case LogBeego p adapters gw of (bl, g, w) \<Rightarrow>
        (case log_with p adapters fmt stack when m format v (bl, w) of (sent, bl1, w1) \<Rightarrow> (sent, g\<lparr>lg_beego := Some bl1\<rparr>, w1)))"

end
