(* ===== verification/Lodos_Log_Props.thy ===== *)
theory Lodos_Log_Props
  imports Lodos_Log
begin

text \<open>
  Where the messages of the application's logger go: one of two files by default, and error messages into both when the
  files have settings; and what the connection adapter loses.
\<close>

section \<open>Settings of a file\<close>

lemma set_key_ok: "(set_key k v w = None) = (set_key k v w' = None)"
  by (simp add: set_key_def set_int_def set_bool_def set_str_def split: json_item.splits)

lemma Unmarshal_ok: "fst (Unmarshal obj w) \<longleftrightarrow> (\<forall>kv \<in> set obj. set_key (lower (fst kv)) (snd kv) w0 \<noteq> None)"
proof (induction obj w rule: Unmarshal.induct)
  case (2 k v kvs w)
  then show ?case using set_key_ok [of "lower k" v w w0] by (cases "set_key (lower k) v w") auto
qed simp

lemmas set_key_simps = set_key_def set_int_def set_bool_def set_str_def

text \<open>What a field holds when its key, if it is there at all, has one value; the order does not matter.\<close>

lemma Unmarshal_field:
  assumes "\<And>k v w w1. set_key k v w = Some w1 \<Longrightarrow> k \<noteq> key \<Longrightarrow> get w1 = get w"
    and "\<And>w. \<exists>w1. set_key key x w = Some w1 \<and> get w1 = c"
    and "\<forall>kv \<in> set obj. lower (fst kv) = key \<longrightarrow> snd kv = x"
  shows "get (snd (Unmarshal obj w)) = (if key \<in> lower ` fst ` set obj then c else get w)"
  using assms(3)
proof (induction obj w rule: Unmarshal.induct)
  case (2 k v kvs w)
  show ?case
  proof (cases "lower k = key")
    case True
    then obtain w1 where "set_key (lower k) v w = Some w1" "get w1 = c" using assms(2) 2(3) by auto
    then show ?thesis using 2 True by simp
  next
    case False
    then show ?thesis using 2 assms(1) by (cases "set_key (lower k) v w") auto
  qed
qed simp

lemma set_key_other:
  "set_key k v w = Some w1 \<Longrightarrow> k \<noteq> ''level'' \<Longrightarrow> fw_Level w1 = fw_Level w"
  "set_key k v w = Some w1 \<Longrightarrow> k \<noteq> ''minlevel'' \<Longrightarrow> fw_MinLevel w1 = fw_MinLevel w"
  "set_key k v w = Some w1 \<Longrightarrow> k \<noteq> ''filename'' \<Longrightarrow> fw_Filename w1 = fw_Filename w"
  "set_key k v w = Some w1 \<Longrightarrow> k \<noteq> ''perm'' \<Longrightarrow> fw_Perm w1 = fw_Perm w"
  by (cases v; auto simp: set_key_simps split: if_splits)+

lemma Unmarshal_Level:
  assumes "\<forall>kv \<in> set obj. lower (fst kv) = ''level'' \<longrightarrow> snd kv = J_int i" "- (2 ^ 63) \<le> i" "i < 2 ^ 63"
  shows "fw_Level (snd (Unmarshal obj w)) = (if ''level'' \<in> lower ` fst ` set obj then i else fw_Level w)"
  by (rule Unmarshal_field [OF set_key_other(1) _ assms(1)]) (use assms(2,3) in \<open>simp_all add: set_key_simps\<close>)

lemma Unmarshal_MinLevel:
  assumes "\<forall>kv \<in> set obj. lower (fst kv) = ''minlevel'' \<longrightarrow> snd kv = J_int i" "- (2 ^ 63) \<le> i" "i < 2 ^ 63"
  shows "fw_MinLevel (snd (Unmarshal obj w)) = (if ''minlevel'' \<in> lower ` fst ` set obj then i else fw_MinLevel w)"
  by (rule Unmarshal_field [OF set_key_other(2) _ assms(1)]) (use assms(2,3) in \<open>simp_all add: set_key_simps\<close>)

lemma Unmarshal_Filename:
  assumes "\<forall>kv \<in> set obj. lower (fst kv) = ''filename'' \<longrightarrow> snd kv = J_str s"
  shows "fw_Filename (snd (Unmarshal obj w)) = (if ''filename'' \<in> lower ` fst ` set obj then s else fw_Filename w)"
  by (rule Unmarshal_field [OF set_key_other(3) _ assms]) (simp_all add: set_key_simps)

lemma Unmarshal_Perm:
  assumes "''perm'' \<notin> lower ` fst ` set obj"
  shows "fw_Perm (snd (Unmarshal obj w)) = fw_Perm w"
proof -
  have no: "\<forall>kv \<in> set obj. lower (fst kv) = ''perm'' \<longrightarrow> snd kv = J_str []" using assms by force
  have "fw_Perm (snd (Unmarshal obj w)) = (if ''perm'' \<in> lower ` fst ` set obj then [] else fw_Perm w)"
    by (rule Unmarshal_field [OF set_key_other(4) _ no]) (simp_all add: set_key_simps)
  then show ?thesis using assms by simp
qed


lemma Marshal_set [simp]: "set (Marshal obj) = set obj"
  by (simp add: Marshal_def)


section \<open>The outputs of a logger\<close>

text \<open>Whether the file adapter writes a message of a level, the guard of its \<^verbatim>\<open>WriteMsg\<close>.\<close>

definition takes :: "file_writer \<Rightarrow> int \<Rightarrow> bool" where
  "takes w level \<longleftrightarrow> \<not> (level > fw_Level w \<or> level < fw_MinLevel w)"

lemma takes_nothing: "\<not> takes (fst lf) level \<Longrightarrow> file_WriteMsg os now when s level lf = (None, lf)"
  by (auto simp: takes_def file_WriteMsg_def)

definition takes_between :: "file_writer \<Rightarrow> int \<Rightarrow> int \<Rightarrow> string \<Rightarrow> bool" where
  "takes_between w lo hi name \<longleftrightarrow> fw_MinLevel w = lo \<and> fw_Level w = hi \<and> fw_Filename w = name"

lemma initFd_levels [simp]:
  "fw_Level (fst (snd (initFd os now i (w, fs)))) = fw_Level w"
  "fw_MinLevel (fst (snd (initFd os now i (w, fs)))) = fw_MinLevel w"
  by (simp_all add: initFd_def Let_def)

lemma split_filename_fields [simp]:
  "fw_Level (split_filename w) = fw_Level w" "fw_MinLevel (split_filename w) = fw_MinLevel w"
  "fw_Filename (split_filename w) = fw_Filename w" "fw_Perm (split_filename w) = fw_Perm w"
  by (simp_all add: split_filename_def Let_def)

definition opens :: "os_answers \<Rightarrow> bool" where
  "opens os \<longleftrightarrow> sound os \<and> (\<forall>p. oa_open os p)"

lemma startLogger_starts:
  assumes "opens os" "ParseOctal (fw_Perm w) \<noteq> None"
  shows "\<exists>w' fs'. startLogger os now (w, fs) = (None, w', fs')
    \<and> takes_between w' (fw_MinLevel w) (fw_Level w) (fw_Filename w)"
proof -
  obtain i fs1 where c: "createLogFile os w fs = Inr (i, fs1)"
    using assms by (cases "fs_names fs (fw_Filename w)") (auto simp: createLogFile_def OpenFile_def opens_def)
  obtain e w' fs' where r: "initFd os now i (w\<lparr>fw_file := Some i\<rparr>, fs1) = (e, w', fs')"
    by (cases "initFd os now i (w\<lparr>fw_file := Some i\<rparr>, fs1)")
  moreover have "e = None" using r assms(1) by (auto simp: initFd_def opens_def sound_def Let_def split: if_splits)
  moreover have "takes_between w' (fw_MinLevel w) (fw_Level w) (fw_Filename w)"
    using initFd_levels [of os now i "w\<lparr>fw_file := Some i\<rparr>" fs1] initFd_fields [of os now i "w\<lparr>fw_file := Some i\<rparr>" fs1] r
    by (simp add: takes_between_def)
  ultimately show ?thesis using c by (simp add: startLogger_def)
qed

text \<open>Settings of a file that are valid and leave the levels, the name and the permissions to the logger.\<close>

definition plain_settings :: "json_object \<Rightarrow> bool" where
  "plain_settings obj \<longleftrightarrow> (\<forall>kv \<in> set obj. set_key (lower (fst kv)) (snd kv) newFileWriter \<noteq> None
     \<and> lower (fst kv) \<notin> {''level'', ''minlevel'', ''filename'', ''perm''})"

lemma json_put_set: "set (json_put k v obj) = insert (k, v) {kv \<in> set obj. fst kv \<noteq> k}"
  by (auto simp: json_put_def)

lemma default_perm: "ParseOctal (fw_Perm newFileWriter) \<noteq> None"
  by code_simp

lemma file_started:
  assumes "opens os" "fst (Unmarshal obj newFileWriter)" "''perm'' \<notin> lower ` fst ` set obj"
    "snd (Unmarshal obj newFileWriter) = w" "fw_Filename w \<noteq> []"
  shows "\<exists>w' fs'. file_Init os now (Some obj) (newFileWriter, fs) = (None, w', fs')
    \<and> takes_between w' (fw_MinLevel w) (fw_Level w) (fw_Filename w)"
proof -
  have perm: "ParseOctal (fw_Perm w) \<noteq> None" using Unmarshal_Perm [OF assms(3)] assms(4) default_perm by auto
  obtain w' fs' where "startLogger os now (split_filename w, fs) = (None, w', fs')"
      "takes_between w' (fw_MinLevel w) (fw_Level w) (fw_Filename w)"
    using startLogger_starts [OF assms(1), of "split_filename w" now fs] perm by auto
  then show ?thesis using assms by (cases "Unmarshal obj newFileWriter") (simp add: file_Init_def)
qed

lemma setLogger_file:
  assumes "adapters name = Some (Out_file newFileWriter)" "name \<notin> set (map fst (bl_outputs bl))" "bl_init bl"
    "file_Init (le_os env) (le_now env) (Some obj) (newFileWriter, lw_files w) = (None, f, fs)"
  shows "SetLogger (lodos_provider env) adapters name (Some obj) (bl, w)
    = (None, bl\<lparr>bl_outputs := bl_outputs bl @ [(name, Out_file f)]\<rparr>, w\<lparr>lw_files := fs\<rparr>)"
  using assms by (simp add: SetLogger_def setLogger_def lodos_provider_def output_Init_def)

lemma SetLogger_adds:
  assumes "bl_init bl" "distinct (map fst (bl_outputs bl))" "SetLogger p adapters name config (bl, w) = (e, bl', w')"
  shows "bl_init bl' \<and> distinct (map fst (bl_outputs bl')) \<and> set (bl_outputs bl) \<subseteq> set (bl_outputs bl')"
  using assms by (auto simp: SetLogger_def setLogger_def split: option.splits if_splits prod.splits)

lemma further_adds:
  assumes "bl_init bl" "distinct (map fst (bl_outputs bl))" "further_outputs p adapters settings (bl, w) = (bl', w')"
  shows "distinct (map fst (bl_outputs bl')) \<and> set (bl_outputs bl) \<subseteq> set (bl_outputs bl')"
proof -
  have "bl_init bl' \<and> distinct (map fst (bl_outputs bl')) \<and> set (bl_outputs bl) \<subseteq> set (bl_outputs bl')"
    if "fold (\<lambda>name bw. case settings name of None \<Rightarrow> bw | Some x \<Rightarrow> snd (SetLogger p adapters name (config_of x) bw)) names (bl, w)
      = (bl', w')" for names
    using that assms(1,2)
  proof (induction names arbitrary: bl w)
    case (Cons name names)
    show ?case
    proof (cases "settings name")
      case (Some x)
      obtain e bl1 w1 where s: "SetLogger p adapters name (config_of x) (bl, w) = (e, bl1, w1)"
        by (cases "SetLogger p adapters name (config_of x) (bl, w)")
      then show ?thesis using Cons Some SetLogger_adds [OF Cons.prems(2,3) s] by fastforce
    qed (use Cons in simp)
  qed simp
  from this [OF assms(3) [unfolded further_outputs_def]] show ?thesis by simp
qed


section \<open>Two files\<close>

definition file_ready :: "os_answers \<Rightarrow> json_object \<Rightarrow> int \<Rightarrow> int \<Rightarrow> string \<Rightarrow> bool" where
  "file_ready os obj lo hi name \<longleftrightarrow> opens os \<and> fst (Unmarshal (Marshal obj) newFileWriter)
     \<and> ''perm'' \<notin> lower ` fst ` set obj \<and> takes_between (snd (Unmarshal (Marshal obj) newFileWriter)) lo hi name \<and> name \<noteq> []"

lemma file_ready_starts:
  assumes "file_ready os obj lo hi name"
  obtains f fs' where "file_Init os now (Some (Marshal obj)) (newFileWriter, fs) = (None, f, fs')" "takes_between f lo hi name"
proof -
  have "\<exists>w' fs'. file_Init os now (Some (Marshal obj)) (newFileWriter, fs) = (None, w', fs') \<and> takes_between w' lo hi name"
    using assms file_started [of os "Marshal obj" "snd (Unmarshal (Marshal obj) newFileWriter)" now fs]
    by (auto simp: file_ready_def takes_between_def)
  then show ?thesis using that by blast
qed

text \<open>The logger before the files: set up for its first output, or with the console.\<close>

definition beego_start :: "'x log_env \<Rightarrow> (string \<Rightarrow> 'x log_output option) \<Rightarrow> bool \<Rightarrow> string \<Rightarrow> log_world
    \<Rightarrow> 'x log_output bee_logger \<times> log_world" where
  "beego_start env adapters debug pid w =
     (let p = lodos_provider env;
          (bl, w0) = NewLogger p adapters [] w;
          bl1 = (Async [] (bl\<lparr>bl_ProcessID := pid, bl_enableFuncCallDepth := True\<rparr>))\<lparr>bl_loggerFuncCallDepth := 4\<rparr>
      in if debug then snd (SetLogger p adapters ''console'' (Some []) (bl1, w0)) else (bl1, w0))"

definition for_output :: "'o bee_logger \<Rightarrow> 'o bee_logger" where
  "for_output b = (if bl_init b then b else b\<lparr>bl_outputs := [], bl_init := True\<rparr>)"

lemma SetLogger_for_output: "SetLogger p ad n c (b, w) = SetLogger p ad n c (for_output b, w)"
  by (simp add: SetLogger_def for_output_def)

lemma beego_start_outputs:
  assumes "beego_start env adapters debug pid w = (b, w1)"
  shows "bl_init (for_output b) \<and> set (map fst (bl_outputs (for_output b))) \<subseteq> {''console''}
    \<and> distinct (map fst (bl_outputs (for_output b)))"
proof -
  obtain bl0 w0 where n: "NewLogger (lodos_provider env) adapters [] w = (bl0, w0)"
    by (cases "NewLogger (lodos_provider env) adapters [] w")
  then have "\<not> bl_init bl0" by (auto simp: NewLogger_def setLogger_def Let_def split: option.splits prod.splits)
  then show ?thesis using assms n
    by (auto simp: beego_start_def for_output_def Async_def SetLogger_def setLogger_def Let_def split: if_splits option.splits prod.splits)
qed

lemma NewBeegoLogger_start:
  "NewBeegoLogger env adapters debug pid dir settings w =
     outcome_bind (Register_adapter ''error_file'' (Some (Out_file newFileWriter)) adapters) (\<lambda>ad1.
     outcome_bind (Register_adapter ''access_file'' (Some (Out_file newFileWriter)) ad1) (\<lambda>ad2.
     outcome_bind (file_outputs (lodos_provider env) ad2 dir pid (settings ''file'') (beego_start env adapters debug pid w)) (\<lambda>bw1.
     Done (ad2, further_outputs (lodos_provider env) ad2 settings bw1))))"
  by (simp add: NewBeegoLogger_def beego_start_def Let_def split: prod.splits)

text \<open>The outputs of the application's logger, with two objects of settings that are in order.\<close>

lemma two_files:
  fixes env :: "'x log_env"
  assumes "file_ready (le_os env) e_obj elo ehi ename" "file_ready (le_os env) a_obj alo ahi aname"
    "adapters ''error_file'' = None" "adapters ''access_file'' = None"
    "\<And>(p :: ('x log_output, log_world) provider) ad2 bw. file_outputs p ad2 dir pid (settings ''file'') bw
       = Done (snd (SetLogger p ad2 ''access_file'' (Some (Marshal a_obj))
                (snd (SetLogger p ad2 ''error_file'' (Some (Marshal e_obj)) bw))))"
  obtains ad bl w' we wa where "NewBeegoLogger env adapters debug pid dir settings w = Done (ad, bl, w')"
    "distinct (map fst (bl_outputs bl))" "(''error_file'', Out_file we) \<in> set (bl_outputs bl)"
    "(''access_file'', Out_file wa) \<in> set (bl_outputs bl)" "takes_between we elo ehi ename" "takes_between wa alo ahi aname"
proof -
  let ?p = "lodos_provider env"
  let ?ad = "adapters(''error_file'' \<mapsto> Out_file newFileWriter, ''access_file'' \<mapsto> Out_file newFileWriter)"
  obtain b w1 where bw: "beego_start env adapters debug pid w = (b, w1)" by (cases "beego_start env adapters debug pid w")
  define b' where "b' = for_output b"
  have b': "bl_init b'" "set (map fst (bl_outputs b')) \<subseteq> {''console''}" "distinct (map fst (bl_outputs b'))"
    using beego_start_outputs [OF bw] by (simp_all add: b'_def)
  obtain we fs1 where e: "file_Init (le_os env) (le_now env) (Some (Marshal e_obj)) (newFileWriter, lw_files w1) = (None, we, fs1)"
      "takes_between we elo ehi ename" using file_ready_starts [OF assms(1)] by blast
  obtain wa fs2 where a: "file_Init (le_os env) (le_now env) (Some (Marshal a_obj)) (newFileWriter, fs1) = (None, wa, fs2)"
      "takes_between wa alo ahi aname" using file_ready_starts [OF assms(2)] by blast
  define b2 where "b2 = b'\<lparr>bl_outputs := bl_outputs b' @ [(''error_file'', Out_file we)]\<rparr>"
  define b3 where "b3 = b2\<lparr>bl_outputs := bl_outputs b2 @ [(''access_file'', Out_file wa)]\<rparr>"
  have s1: "SetLogger ?p ?ad ''error_file'' (Some (Marshal e_obj)) (b, w1) = (None, b2, w1\<lparr>lw_files := fs1\<rparr>)"
    unfolding SetLogger_for_output [of _ _ _ _ b] b'_def [symmetric] b2_def using b' e by (intro setLogger_file) auto
  have s2: "SetLogger ?p ?ad ''access_file'' (Some (Marshal a_obj)) (b2, w1\<lparr>lw_files := fs1\<rparr>)
      = (None, b3, w1\<lparr>lw_files := fs1, lw_files := fs2\<rparr>)"
    unfolding b3_def using b' a by (intro setLogger_file) (auto simp: b2_def)
  obtain bl w' where f: "further_outputs ?p ?ad settings (b3, w1\<lparr>lw_files := fs1, lw_files := fs2\<rparr>) = (bl, w')"
    by (cases "further_outputs ?p ?ad settings (b3, w1\<lparr>lw_files := fs1, lw_files := fs2\<rparr>)")
  have "bl_init b3" "distinct (map fst (bl_outputs b3))" using b' by (auto simp: b3_def b2_def)
  from further_adds [OF this f] have "distinct (map fst (bl_outputs bl))" "set (bl_outputs b3) \<subseteq> set (bl_outputs bl)" by simp_all
  moreover have "NewBeegoLogger env adapters debug pid dir settings w = Done (?ad, bl, w')"
    using assms(3-5) s1 s2 f bw by (simp add: NewBeegoLogger_start Register_adapter_def)
  ultimately show ?thesis using that [of ?ad bl w' we wa] e(2) a(2) by (simp add: b3_def b2_def)
qed


section \<open>Which file takes what\<close>

lemma put_file_ready:
  assumes "opens os" "plain_settings obj" "0 \<le> hi" "hi < 8" "0 \<le> other" "other < 8" "name \<noteq> []"
    "key \<in> {''maxlevel'', ''minlevel''}"
  shows "file_ready os (put_file name hi key other obj) (if key = ''minlevel'' then other else 0) hi name"
proof -
  let ?obj = "put_file name hi key other obj"
  have l: "lower ''maxlevel'' = ''maxlevel''" "lower ''minlevel'' = ''minlevel''" "lower ''level'' = ''level''"
    "lower ''filename'' = ''filename''" by code_simp+
  then have lk: "lower key = key" using assms(8) by blast
  have k: "set ?obj \<subseteq> {(key, J_int other), (''level'', J_int hi), (''filename'', J_str name)} \<union> set obj"
    "(key, J_int other) \<in> set ?obj" "(''level'', J_int hi) \<in> set ?obj" "(''filename'', J_str name) \<in> set ?obj"
    using assms(8) by (auto simp: put_file_def json_put_set)
  have all: "\<forall>kv \<in> set ?obj. P kv"
    if "\<forall>kv \<in> set obj. P kv" "P (key, J_int other)" "P (''level'', J_int hi)" "P (''filename'', J_str name)" for P
    using k(1) that by blast
  have p: "\<forall>kv \<in> set obj. lower (fst kv) \<notin> {''level'', ''minlevel'', ''filename'', ''perm''}"
    "\<forall>kv \<in> set obj. set_key (lower (fst kv)) (snd kv) newFileWriter \<noteq> None"
    using assms(2) by (simp_all add: plain_settings_def)
  have sk: "set_key key (J_int other) newFileWriter \<noteq> None"
  proof -
    from assms(8) consider "key = ''maxlevel''" | "key = ''minlevel''" by blast
    then show ?thesis by cases (use assms(5,6) in \<open>simp_all add: set_key_simps\<close>)
  qed
  have sk2: "set_key ''level'' (J_int hi) newFileWriter \<noteq> None" "set_key ''filename'' (J_str name) newFileWriter \<noteq> None"
    using assms(3,4) by (simp_all add: set_key_simps)
  have valid: "\<forall>kv \<in> set ?obj. set_key (lower (fst kv)) (snd kv) newFileWriter \<noteq> None"
    by (rule all) (use p(2) sk sk2 lk l in simp_all)
  have level: "\<forall>kv \<in> set ?obj. lower (fst kv) = ''level'' \<longrightarrow> snd kv = J_int hi"
    by (rule all) (use p(1) l lk assms(8) in auto)
  have named: "\<forall>kv \<in> set ?obj. lower (fst kv) = ''filename'' \<longrightarrow> snd kv = J_str name"
    by (rule all) (use p(1) l lk assms(8) in auto)
  have min: "\<forall>kv \<in> set ?obj. lower (fst kv) = ''minlevel'' \<longrightarrow> snd kv = J_int other \<and> key = ''minlevel''"
    by (rule all) (use p(1) l lk assms(8) in auto)
  have no: "\<forall>kv \<in> set ?obj. lower (fst kv) \<noteq> ''perm''"
    by (rule all) (use p(1) l lk assms(8) in auto)
  have in_keys: "lower (fst kv) \<in> lower ` fst ` set ?obj" if "kv \<in> set ?obj" for kv
    using that by blast
  have there: "''level'' \<in> lower ` fst ` set ?obj" using in_keys [OF k(3)] unfolding fst_conv l .
  have named_there: "''filename'' \<in> lower ` fst ` set ?obj" using in_keys [OF k(4)] unfolding fst_conv l .
  have minkey: "''minlevel'' \<in> lower ` fst ` set ?obj \<longleftrightarrow> key = ''minlevel''"
  proof
    assume "''minlevel'' \<in> lower ` fst ` set ?obj"
    then show "key = ''minlevel''"
    proof (elim imageE)
      fix x kv
      assume e: "''minlevel'' = lower x" and x: "x = fst kv" and kv: "kv \<in> set ?obj"
      show "key = ''minlevel''" using min [rule_format, OF kv e [unfolded x, symmetric]] ..
    qed
  qed (use in_keys [OF k(2), unfolded fst_conv lk] in blast)
  have gone: "''perm'' \<notin> lower ` fst ` set ?obj" using no by auto
  have "fst (Unmarshal (Marshal ?obj) newFileWriter)"
    unfolding Unmarshal_ok [of _ _ newFileWriter] using valid by simp
  moreover have "fw_Level (snd (Unmarshal (Marshal ?obj) newFileWriter)) = hi"
    using level there assms(3,4) Unmarshal_Level [of "Marshal ?obj" hi newFileWriter] unfolding Marshal_set by simp
  moreover have "fw_Filename (snd (Unmarshal (Marshal ?obj) newFileWriter)) = name"
    using named named_there Unmarshal_Filename [of "Marshal ?obj" name newFileWriter] unfolding Marshal_set by simp
  moreover have "fw_MinLevel (snd (Unmarshal (Marshal ?obj) newFileWriter)) = (if key = ''minlevel'' then other else 0)"
    using min minkey assms(5,6) Unmarshal_MinLevel [of "Marshal ?obj" other newFileWriter] unfolding Marshal_set
    by (simp add: newFileWriter_def level_defs)
  ultimately show ?thesis using assms(1,7) gone by (simp add: file_ready_def takes_between_def)
qed

lemma put_file_twice: "put_file a l k x (put_file b l' k x' obj) = put_file a l k x obj"
  by (auto simp: put_file_def json_put_def intro!: filter_cong)


text \<open>
  with settings for the files the two overlap: \<^verbatim>\<open>maxlevel\<close>, which is put there to bound them, is no key of the
  adapter. Emergencies to errors go to the error log, and every message goes to the access log.
\<close>

theorem file_settings_duplicate_errors:
  assumes "opens (le_os env)" "adapters ''error_file'' = None" "adapters ''access_file'' = None"
    "settings ''file'' = Some (S_object obj)" "plain_settings obj"
  shows "case NewBeegoLogger env adapters debug pid dir settings w of
      Panic e \<Rightarrow> False
    | Done (ad, bl, w') \<Rightarrow> distinct (map fst (bl_outputs bl))
        \<and> (\<exists>we wa. (''error_file'', Out_file we) \<in> set (bl_outputs bl) \<and> (''access_file'', Out_file wa) \<in> set (bl_outputs bl)
            \<and> fw_Filename we = error_log dir pid \<and> fw_Filename wa = access_log dir pid
            \<and> (\<forall>m. takes we (method_level m) = (method_level m \<le> LevelError) \<and> takes wa (method_level m)))"
proof -
  let ?e = "put_file (error_log dir pid) LevelError ''maxlevel'' LevelEmergency obj"
  have e: "file_ready (le_os env) ?e 0 LevelError (error_log dir pid)"
    using put_file_ready [OF assms(1,5), of 3 0 "error_log dir pid" "''maxlevel''"]
    by (simp add: level_defs error_log_def)
  have a: "file_ready (le_os env) (put_file (access_log dir pid) LevelTrace ''maxlevel'' LevelWarn ?e) 0 LevelTrace (access_log dir pid)"
    using put_file_ready [OF assms(1,5), of 7 4 "access_log dir pid" "''maxlevel''"]
    by (simp add: put_file_twice level_defs access_log_def)
  obtain ad bl w' we wa where o: "NewBeegoLogger env adapters debug pid dir settings w = Done (ad, bl, w')"
    "distinct (map fst (bl_outputs bl))" "(''error_file'', Out_file we) \<in> set (bl_outputs bl)"
    "(''access_file'', Out_file wa) \<in> set (bl_outputs bl)"
    "takes_between we 0 LevelError (error_log dir pid)" "takes_between wa 0 LevelTrace (access_log dir pid)"
    by (rule two_files [where dir = dir and pid = pid and settings = settings, OF e a assms(2,3)])
      (simp_all add: file_outputs_def assms(4) Let_def)
  have "takes we (method_level m) = (method_level m \<le> LevelError) \<and> takes wa (method_level m)" for m
    using o(5,6) by (cases m) (simp_all add: takes_def takes_between_def level_defs)
  then show ?thesis using o by (auto simp: takes_between_def)
qed

text \<open>A process has one such logger: making a second one panics.\<close>

lemma second_logger_panics:
  "adapters ''error_file'' \<noteq> None \<Longrightarrow>
   NewBeegoLogger env adapters debug pid dir settings w = Panic ''logs: Register called twice for provider error_file''"
  by (auto simp: NewBeegoLogger_start Register_adapter_def)

text \<open>Prefixes that differ in case only share a logger (letters of ASCII).\<close>

lemma GetLogger_again:
  assumes "GetLogger [p] lm = (l, lm1)" "map upper_char q = map upper_char p"
  shows "GetLogger [q] lm1 = (l, lm1)"
proof -
  have "q = [] \<longleftrightarrow> p = []" using arg_cong [OF assms(2), of length] by auto
  then show ?thesis using assms by (auto simp: GetLogger_def Let_def split: prod.splits option.splits)
qed

text \<open>
  \<^verbatim>\<open>Write\<close> of a logger accepts what the standard \<^verbatim>\<open>log\<close> gives it, which ends in a newline, but reports one byte less, with no error.
\<close>

lemma Write_reports_less: "fst (logger_Write p adapters fmt stack when (s @ [CHR 0x0A]) bw) = length s"
  by (simp add: logger_Write_def Let_def)

section \<open>The connection adapter\<close>

definition conn_message :: "log_time \<times> string \<times> int \<Rightarrow> log_error option list \<times> conn_writer \<times> string list
    \<Rightarrow> log_error option list \<times> conn_writer \<times> string list" where
  "conn_message m r = (case (m, r) of ((when, s, level), (es, cs)) \<Rightarrow>
     (case conn_WriteMsg True when s level cs of (e, cs') \<Rightarrow> (es @ [e], cs')))"

lemma conn_down_writes:
  "cw_inner c = Some False \<Longrightarrow> \<not> cw_ReconnectOnMsg c \<Longrightarrow> \<not> cw_Reconnect c \<Longrightarrow>
   conn_WriteMsg dials when s level (c, sent) = (None, c, sent)"
  by (simp add: conn_WriteMsg_def needToConnectOnMsg_def)

text \<open>
  the connection adapter does not try to connect again when its connection is down: unless it is set to dial
  for every message, no message that follows reaches the peer, although dialling would succeed, and
  \<^verbatim>\<open>WriteMsg\<close> reports no error.
\<close>

theorem conn_never_redials:
  assumes "cw_inner c = Some True" "\<not> cw_ReconnectOnMsg c" "\<not> cw_Reconnect c"
  shows "fold conn_message ms (es, conn_drop c, sent) = (es @ replicate (length ms) None, conn_drop c, sent)"
proof (induction ms arbitrary: es)
  case (Cons m ms)
  have "conn_WriteMsg True when s level (conn_drop c, sent) = (None, conn_drop c, sent)" for "when" s level
    using assms by (intro conn_down_writes) (simp_all add: conn_drop_def)
  then have "conn_message m (es, conn_drop c, sent) = (es @ [None], conn_drop c, sent)"
    by (simp add: conn_message_def split: prod.splits)
  then show ?case using Cons [of "es @ [None]"] by simp
qed simp

section \<open>Examples\<close>

definition plain_env :: "unit log_env" where
  "plain_env = \<lparr>le_os = willing, le_now = noon, le_windows = False, le_dials = True,
     le_others = \<lparr>pr_Init = (\<lambda>c ow. (None, ow)), pr_WriteMsg = (\<lambda>t s l ow. (None, ow)), pr_Flush = id, pr_Destroy = id\<rparr>\<rparr>"

definition empty_world :: log_world where
  "empty_world = \<lparr>lw_files = no_files, lw_printed = [], lw_sent = []\<rparr>"

lemma willing_opens: "opens (le_os plain_env)"
  by (simp add: plain_env_def opens_def willing_sound) (simp add: willing_def)


theorem file_settings_duplicate_errors_witness:
  "case NewBeegoLogger plain_env (\<lambda>n. None) False ''gate1'' ''log''
      (\<lambda>n. if n = ''file'' then Some (S_object [(''maxsize'', J_int 1000)]) else None) empty_world of
      Panic e \<Rightarrow> False
    | Done (ad, bl, w') \<Rightarrow> (\<exists>we wa. (''error_file'', Out_file we) \<in> set (bl_outputs bl) \<and> (''access_file'', Out_file wa) \<in> set (bl_outputs bl)
            \<and> takes we (method_level Error) \<and> takes wa (method_level Error))"
proof -
  have "lower ''maxsize'' = ''maxsize''" by code_simp
  then have p: "plain_settings [(''maxsize'', J_int 1000)]" by (simp add: plain_settings_def set_key_simps)
  have *: "method_level Error \<le> LevelError" by (simp add: level_defs)
  show ?thesis
    using file_settings_duplicate_errors [where adapters = "\<lambda>n. None" and debug = False and pid = "''gate1''" and dir = "''log''"
        and settings = "\<lambda>n. if n = ''file'' then Some (S_object [(''maxsize'', J_int 1000)]) else None" and w = empty_world,
        OF willing_opens refl refl _ p] *
    by (fastforce split: outcome.splits simp del: method_level.simps)
qed

theorem conn_never_redials_witness:
  "fold conn_message [(noon, ''lost'', 3), (noon, ''lost too'', 0)] ([], conn_drop (NewConn\<lparr>cw_inner := Some True\<rparr>), [''sent''])
   = ([None, None], conn_drop (NewConn\<lparr>cw_inner := Some True\<rparr>), [''sent''])"
  using conn_never_redials [of "NewConn\<lparr>cw_inner := Some True\<rparr>" "[(noon, ''lost'', 3), (noon, ''lost too'', 0)]" "[]" "[''sent'']"]
  by (simp add: NewConn_def numeral_2_eq_2)

end
