(* ===== verification/Lodos_Log_Async.thy ===== *)
theory Lodos_Log_Async
  imports Lodos_Steps
begin

text \<open>
  The asynchronous mode of the logger, \<^verbatim>\<open>log/beego/log.go\<close>: the goroutine of \<^verbatim>\<open>startLogger\<close>, the channels \<^verbatim>\<open>msgChan\<close> and
  \<^verbatim>\<open>signalChan\<close>, the wait group, and goroutines that log, flush and close. With one goroutine that flushes, no message
  is lost and every schedule ends; two that flush at once may panic, and so may logging while another closes.
\<close>

section \<open>Goroutines and channels\<close>

datatype 'm log_op = Op_log 'm | Op_flush | Op_close

text \<open>
  Where a goroutine is: between calls; in \<^verbatim>\<open>Flush\<close> or \<^verbatim>\<open>Close\<close> (true), its signal sent; in \<^verbatim>\<open>Flush\<close> before
  \<^verbatim>\<open>wg.Add\<close>; in \<^verbatim>\<open>Close\<close> before the one or the other channel is closed.
\<close>

datatype caller_at = Ready | Signalled bool | Woken | Closing_msgs | Closing_signal

text \<open>Where the goroutine of the logger is: at the \<^verbatim>\<open>select\<close>, in the loop of \<^verbatim>\<open>flush\<close>, after it, at its end.\<close>

datatype logger_at = Selecting | Draining bool | Drained bool | Over

text \<open>
  A message carries the number of its goroutine. \<open>as_accepted\<close>, all that was sent on \<^verbatim>\<open>msgChan\<close>, and \<open>as_mark\<close>, how
  many of these when the last signal was sent, are observations.
\<close>

record 'm async =
  as_cap :: nat
  as_chan :: "(nat \<times> 'm) list"
  as_chan_closed :: bool
  as_signal :: "bool option"
  as_signal_closed :: bool
  as_wg :: nat
  as_logger :: logger_at
  as_outputs :: bool
  as_callers :: "(caller_at \<times> 'm log_op list) list"
  as_written :: "(nat \<times> 'm) list"
  as_accepted :: "(nat \<times> 'm) list"
  as_mark :: nat
  as_crashed :: bool

definition async_start :: "nat \<Rightarrow> 'm log_op list list \<Rightarrow> 'm async" where
  "async_start cap scripts =
     \<lparr>as_cap = cap, as_chan = [], as_chan_closed = False, as_signal = None, as_signal_closed = False, as_wg = 1,
      as_logger = Selecting, as_outputs = True, as_callers = map (Pair Ready) scripts, as_written = [], as_accepted = [],
      as_mark = 0, as_crashed = False\<rparr>"

text \<open>The goroutine of \<^verbatim>\<open>startLogger\<close>; once the outputs are destroyed nothing is written.\<close>

inductive logger_step :: "'m async \<Rightarrow> 'm async \<Rightarrow> bool" where
  takes_message: "as_logger s = Selecting \<Longrightarrow> as_chan s = m # ms \<Longrightarrow>
    logger_step s (s\<lparr>as_chan := ms, as_written := as_written s @ [m]\<rparr>)"
| takes_nil: "as_logger s = Selecting \<Longrightarrow> as_chan s = [] \<Longrightarrow> as_chan_closed s \<Longrightarrow> logger_step s (s\<lparr>as_crashed := True\<rparr>)"
| takes_signal: "as_logger s = Selecting \<Longrightarrow> as_signal s = Some k \<Longrightarrow>
    logger_step s (s\<lparr>as_signal := None, as_logger := Draining k\<rparr>)"
| takes_no_signal: "as_logger s = Selecting \<Longrightarrow> as_signal s = None \<Longrightarrow> as_signal_closed s \<Longrightarrow>
    logger_step s (s\<lparr>as_logger := Draining False\<rparr>)"
| drains: "as_logger s = Draining k \<Longrightarrow> as_chan s = m # ms \<Longrightarrow>
    logger_step s (s\<lparr>as_chan := ms, as_written := as_written s @ [m]\<rparr>)"
| drained: "as_logger s = Draining k \<Longrightarrow> as_chan s = [] \<Longrightarrow> logger_step s (s\<lparr>as_logger := Drained k\<rparr>)"
| done_signal: "as_logger s = Drained k \<Longrightarrow> 0 < as_wg s \<Longrightarrow>
    logger_step s (s\<lparr>as_wg := as_wg s - 1, as_logger := (if k then Over else Selecting), as_outputs := (as_outputs s \<and> \<not> k)\<rparr>)"
| done_negative: "as_logger s = Drained k \<Longrightarrow> as_wg s = 0 \<Longrightarrow> logger_step s (s\<lparr>as_crashed := True\<rparr>)"

text \<open>The goroutine number \<open>i\<close>, at its next call \<open>op\<close>.\<close>

inductive caller_step :: "nat \<Rightarrow> 'm log_op \<Rightarrow> 'm async \<Rightarrow> 'm async \<Rightarrow> bool" for i op where
  logs: "as_callers s ! i = (Ready, op # ops) \<Longrightarrow> op = Op_log m \<Longrightarrow> \<not> as_chan_closed s \<Longrightarrow> length (as_chan s) < as_cap s \<Longrightarrow>
    caller_step i op s (s\<lparr>as_chan := as_chan s @ [(i, m)], as_accepted := as_accepted s @ [(i, m)],
      as_callers := (as_callers s)[i := (Ready, ops)]\<rparr>)"
| logs_closed: "as_callers s ! i = (Ready, op # ops) \<Longrightarrow> op = Op_log m \<Longrightarrow> as_chan_closed s \<Longrightarrow>
    caller_step i op s (s\<lparr>as_crashed := True\<rparr>)"
| signals: "as_callers s ! i = (Ready, op # ops) \<Longrightarrow> op = (if k then Op_close else Op_flush) \<Longrightarrow> as_signal s = None \<Longrightarrow>
    \<not> as_signal_closed s \<Longrightarrow>
    caller_step i op s (s\<lparr>as_signal := Some k, as_callers := (as_callers s)[i := (Signalled k, op # ops)],
      as_mark := length (as_accepted s)\<rparr>)"
| signals_closed: "as_callers s ! i = (Ready, op # ops) \<Longrightarrow> op = (if k then Op_close else Op_flush) \<Longrightarrow> as_signal_closed s \<Longrightarrow>
    caller_step i op s (s\<lparr>as_crashed := True\<rparr>)"
| waits: "as_callers s ! i = (Signalled k, op # ops) \<Longrightarrow> as_wg s = 0 \<Longrightarrow>
    caller_step i op s (s\<lparr>as_callers := (as_callers s)[i := (if k then Closing_msgs else Woken, op # ops)]\<rparr>)"
| adds: "as_callers s ! i = (Woken, op # ops) \<Longrightarrow>
    caller_step i op s (s\<lparr>as_wg := as_wg s + 1, as_callers := (as_callers s)[i := (Ready, ops)]\<rparr>)"
| closes_msgs: "as_callers s ! i = (Closing_msgs, op # ops) \<Longrightarrow> \<not> as_chan_closed s \<Longrightarrow>
    caller_step i op s (s\<lparr>as_chan_closed := True, as_callers := (as_callers s)[i := (Closing_signal, op # ops)]\<rparr>)"
| closes_msgs_again: "as_callers s ! i = (Closing_msgs, op # ops) \<Longrightarrow> as_chan_closed s \<Longrightarrow>
    caller_step i op s (s\<lparr>as_crashed := True\<rparr>)"
| closes_signal: "as_callers s ! i = (Closing_signal, op # ops) \<Longrightarrow> \<not> as_signal_closed s \<Longrightarrow>
    caller_step i op s (s\<lparr>as_signal_closed := True, as_callers := (as_callers s)[i := (Ready, ops)]\<rparr>)"
| closes_signal_again: "as_callers s ! i = (Closing_signal, op # ops) \<Longrightarrow> as_signal_closed s \<Longrightarrow>
    caller_step i op s (s\<lparr>as_crashed := True\<rparr>)"

definition async_step :: "'m async \<Rightarrow> 'm async \<Rightarrow> bool" where
  "async_step s t \<longleftrightarrow> \<not> as_crashed s
     \<and> (logger_step s t \<or> (\<exists>i < length (as_callers s). \<exists>op. caller_step i op s t))"

section \<open>One goroutine that flushes\<close>

abbreviation is_log :: "'m log_op \<Rightarrow> bool" where
  "is_log op \<equiv> (case op of Op_log m \<Rightarrow> True | _ \<Rightarrow> False)"

fun logged :: "'m log_op list \<Rightarrow> 'm list" where
  "logged [] = []"
| "logged (Op_log m # ops) = m # logged ops"
| "logged (op # ops) = logged ops"

text \<open>
  Only goroutine \<open>c\<close> flushes or closes; if it closes, that is the last thing done, and no other goroutine logs.
\<close>

definition ends_well :: "'m log_op list \<Rightarrow> bool \<Rightarrow> bool" where
  "ends_well ops alone \<longleftrightarrow> Op_close \<notin> set ops \<or> alone \<and> last ops = Op_close \<and> Op_close \<notin> set (butlast ops)"

definition well_used :: "nat \<Rightarrow> 'm log_op list list \<Rightarrow> bool" where
  "well_used c scripts \<longleftrightarrow> c < length scripts \<and> (\<forall>i < length scripts. i \<noteq> c \<longrightarrow> list_all is_log (scripts ! i))
     \<and> ends_well (scripts ! c) (\<forall>i < length scripts. i \<noteq> c \<longrightarrow> scripts ! i = [])"

definition from_caller :: "nat \<Rightarrow> (nat \<times> 'm) list \<Rightarrow> 'm list" where
  "from_caller i ms = map snd (filter (\<lambda>m. fst m = i) ms)"

definition open_state :: "'m async \<Rightarrow> bool" where
  "open_state s \<longleftrightarrow> as_outputs s \<and> \<not> as_chan_closed s \<and> \<not> as_signal_closed s"

text \<open>What the state is for each place the flushing goroutine may be at.\<close>

fun protocol :: "caller_at \<times> 'm log_op list \<Rightarrow> 'm async \<Rightarrow> bool" where
  "protocol (Ready, ops) s \<longleftrightarrow> as_signal s = None \<and> as_mark s \<le> length (as_written s)
     \<and> (as_logger s = Selecting \<and> as_wg s = 1 \<and> open_state s \<or> ops = [] \<and> as_logger s = Over \<and> as_chan s = [])"
| "protocol (Signalled k, ops) s \<longleftrightarrow> ops \<noteq> [] \<and> hd ops = (if k then Op_close else Op_flush)
     \<and> (as_signal s = Some k \<and> as_logger s = Selecting \<and> as_wg s = 1 \<and> open_state s
        \<or> as_signal s = None \<and> as_logger s = Draining k \<and> as_wg s = 1 \<and> open_state s
        \<or> as_signal s = None \<and> as_logger s = Drained k \<and> as_wg s = 1 \<and> open_state s
          \<and> as_mark s \<le> length (as_written s) \<and> (k \<longrightarrow> as_chan s = [])
        \<or> as_signal s = None \<and> as_wg s = 0 \<and> as_mark s \<le> length (as_written s) \<and> \<not> as_chan_closed s \<and> \<not> as_signal_closed s
          \<and> (if k then as_logger s = Over \<and> as_chan s = [] else as_logger s = Selecting \<and> as_outputs s))"
| "protocol (Woken, ops) s \<longleftrightarrow> ops \<noteq> [] \<and> hd ops = Op_flush \<and> as_signal s = None \<and> as_wg s = 0 \<and> as_logger s = Selecting
     \<and> open_state s \<and> as_mark s \<le> length (as_written s)"
| "protocol (Closing_msgs, ops) s \<longleftrightarrow> ops \<noteq> [] \<and> hd ops = Op_close \<and> as_signal s = None \<and> as_logger s = Over \<and> as_chan s = []
     \<and> \<not> as_chan_closed s \<and> \<not> as_signal_closed s \<and> as_mark s \<le> length (as_written s)"
| "protocol (Closing_signal, ops) s \<longleftrightarrow> ops \<noteq> [] \<and> hd ops = Op_close \<and> as_signal s = None \<and> as_logger s = Over \<and> as_chan s = []
     \<and> \<not> as_signal_closed s \<and> as_mark s \<le> length (as_written s)"

definition alone :: "nat \<Rightarrow> (caller_at \<times> 'm log_op list) list \<Rightarrow> bool" where
  "alone c callers \<longleftrightarrow> (\<forall>i < length callers. i \<noteq> c \<longrightarrow> snd (callers ! i) = [])"

definition calls_ok :: "nat \<Rightarrow> (caller_at \<times> 'm log_op list) list \<Rightarrow> bool" where
  "calls_ok c callers \<longleftrightarrow> c < length callers
     \<and> (\<forall>i < length callers. i \<noteq> c \<longrightarrow> fst (callers ! i) = Ready \<and> list_all is_log (snd (callers ! i)))
     \<and> ends_well (snd (callers ! c)) (alone c callers)"

definition messages_ok :: "'m log_op list list \<Rightarrow> 'm async \<Rightarrow> bool" where
  "messages_ok scripts s \<longleftrightarrow> as_mark s \<le> length (as_accepted s) \<and> as_accepted s = as_written s @ as_chan s \<and> length (as_callers s) = length scripts
     \<and> (\<forall>i < length scripts. from_caller i (as_accepted s) @ logged (snd (as_callers s ! i)) = logged (scripts ! i))"

definition async_inv :: "nat \<Rightarrow> 'm log_op list list \<Rightarrow> 'm async \<Rightarrow> bool" where
  "async_inv c scripts s \<longleftrightarrow> 0 < as_cap s \<and> \<not> as_crashed s \<and> calls_ok c (as_callers s) \<and> messages_ok scripts s
     \<and> protocol (as_callers s ! c) s \<and> (as_logger s = Over \<longrightarrow> alone c (as_callers s))"

lemma async_start_inv:
  assumes "well_used c scripts" "0 < cap"
  shows "async_inv c scripts (async_start cap scripts)"
  using assms by (simp add: async_inv_def async_start_def calls_ok_def messages_ok_def well_used_def alone_def open_state_def from_caller_def)


lemma closing_alone:
  assumes "calls_ok c callers" "snd (callers ! c) = Op_close # ops"
  shows "alone c callers \<and> ops = []"
  using assms by (cases ops) (auto simp: calls_ok_def ends_well_def)

lemma logger_keeps: "logger_step s t \<Longrightarrow> async_inv c scripts s \<Longrightarrow> async_inv c scripts t"
proof (induction rule: logger_step.induct)
  case (takes_message s m ms)
  then show ?case by (cases "as_callers s ! c"; cases "fst (as_callers s ! c)")
    (auto simp: async_inv_def messages_ok_def open_state_def split: if_splits)
next
  case (takes_nil s)
  then show ?case by (cases "as_callers s ! c"; cases "fst (as_callers s ! c)")
    (auto simp: async_inv_def messages_ok_def open_state_def split: if_splits)
next
  case (takes_signal s k)
  then show ?case by (cases "as_callers s ! c"; cases "fst (as_callers s ! c)")
    (auto simp: async_inv_def messages_ok_def open_state_def split: if_splits)
next
  case (takes_no_signal s)
  then show ?case by (cases "as_callers s ! c"; cases "fst (as_callers s ! c)")
    (auto simp: async_inv_def messages_ok_def open_state_def split: if_splits)
next
  case (drains s k m ms)
  then show ?case by (cases "as_callers s ! c"; cases "fst (as_callers s ! c)")
    (auto simp: async_inv_def messages_ok_def open_state_def split: if_splits)
next
  case (drained s k)
  then show ?case by (cases "as_callers s ! c"; cases "fst (as_callers s ! c)")
    (auto simp: async_inv_def messages_ok_def open_state_def split: if_splits)
next
  case (done_signal s k)
  obtain at ops where c: "as_callers s ! c = (at, ops)" by (cases "as_callers s ! c")
  have "at = Signalled k" using done_signal c by (cases at) (auto simp: async_inv_def split: if_splits)
  moreover have "k \<longrightarrow> alone c (as_callers s)"
    using done_signal c \<open>at = Signalled k\<close> closing_alone [of c "as_callers s" "tl ops"]
    by (cases ops) (auto simp: async_inv_def)
  ultimately show ?case using done_signal c by (auto simp: async_inv_def messages_ok_def open_state_def)
next
  case (done_negative s k)
  then show ?case by (cases "as_callers s ! c"; cases "fst (as_callers s ! c)")
    (auto simp: async_inv_def messages_ok_def open_state_def split: if_splits)
qed


lemma from_caller_append [simp]: "from_caller i (ms @ ms') = from_caller i ms @ from_caller i ms'"
  by (simp add: from_caller_def)

lemma from_caller_one [simp]: "from_caller i [(j, m)] = (if j = i then [m] else [])"
  by (simp add: from_caller_def)

lemma from_caller_Nil [simp]: "from_caller i [] = []"
  by (simp add: from_caller_def)

lemma ends_well_tl: "ends_well (op # ops) b \<Longrightarrow> ends_well ops b"
  by (cases ops) (auto simp: ends_well_def)

text \<open>The calls that are left, when one goroutine goes on.\<close>

lemma calls_ok_upd:
  assumes "calls_ok c callers" "i < length callers" "callers ! i = (at, op # ops)" "ops' = ops \<or> ops' = op # ops"
    "i \<noteq> c \<Longrightarrow> at' = Ready"
  shows "calls_ok c (callers[i := (at', ops')])"
proof (cases "i = c")
  case True
  have "alone c (callers[c := (at', ops')]) = alone c callers" by (simp add: alone_def nth_list_update)
  then show ?thesis using True assms ends_well_tl [of op ops] by (auto simp: calls_ok_def nth_list_update)
next
  case False
  have "list_all is_log (op # ops)" "\<not> alone c callers" using assms False by (auto simp: calls_ok_def alone_def)
  then show ?thesis using False assms by (auto simp: calls_ok_def nth_list_update ends_well_def)
qed

lemma alone_upd: "alone c callers \<Longrightarrow> alone c (callers[c := x])"
  by (simp add: alone_def nth_list_update)

lemma messages_upd:
  assumes "messages_ok scripts s" "i < length (as_callers s)" "as_callers s ! i = (at, op # ops)"
    "ops' = op # ops \<or> ops' = ops \<and> \<not> is_log op" "as_accepted t = as_accepted s" "as_written t = as_written s" "as_chan t = as_chan s"
    "as_mark t \<le> length (as_accepted s)" "as_callers t = (as_callers s)[i := (at', ops')]"
  shows "messages_ok scripts t"
proof -
  have "logged ops' = logged (op # ops)" using assms(4) by (cases op) auto
  then show ?thesis using assms by (auto simp: messages_ok_def nth_list_update)
qed

lemma other_only_logs:
  assumes "caller_step i op s t" "i \<noteq> c" "i < length (as_callers s)" "async_inv c scripts s"
  obtains m ops where "as_callers s ! i = (Ready, Op_log m # ops)" "as_logger s \<noteq> Over" "\<not> as_chan_closed s"
    "length (as_chan s) < as_cap s" "t = s\<lparr>as_chan := as_chan s @ [(i, m)], as_accepted := as_accepted s @ [(i, m)],
      as_callers := (as_callers s)[i := (Ready, ops)]\<rparr>"
proof -
  have o: "fst (as_callers s ! i) = Ready" "list_all is_log (snd (as_callers s ! i))"
    using assms by (simp_all add: async_inv_def calls_ok_def)
  have ne: "as_logger s \<noteq> Over" if "snd (as_callers s ! i) \<noteq> []"
    using assms that by (auto simp: async_inv_def alone_def)
  have "\<not> as_chan_closed s" if "as_logger s \<noteq> Over"
    using assms(4) that by (cases "as_callers s ! c"; cases "fst (as_callers s ! c)") (auto simp: async_inv_def open_state_def)
  with o ne have g: "snd (as_callers s ! i) \<noteq> [] \<Longrightarrow> \<not> as_chan_closed s" by blast
  from assms(1) show ?thesis
  proof cases
    case (logs ops m)
    then show ?thesis using that [of m ops] ne by simp
  qed (use o g in \<open>auto split: if_splits\<close>)
qed


lemma caller_keeps:
  assumes "caller_step i op s t" "i < length (as_callers s)" "async_inv c scripts s"
  shows "async_inv c scripts t"
proof (cases "i = c")
  case False
  obtain m ops where s: "as_callers s ! i = (Ready, Op_log m # ops)" "as_logger s \<noteq> Over" "\<not> as_chan_closed s"
    "length (as_chan s) < as_cap s" "t = s\<lparr>as_chan := as_chan s @ [(i, m)], as_accepted := as_accepted s @ [(i, m)],
      as_callers := (as_callers s)[i := (Ready, ops)]\<rparr>"
    using other_only_logs [OF assms(1) False assms(2,3)] .
  obtain at rest where c: "as_callers s ! c = (at, rest)" by (cases "as_callers s ! c")
  have "calls_ok c (as_callers t)"
    using calls_ok_upd [OF _ assms(2) s(1), of c ops Ready] s(5) assms(3) by (simp add: async_inv_def)
  moreover have "messages_ok scripts t"
    using assms(2,3) s(1,5) by (auto simp: async_inv_def messages_ok_def nth_list_update)
  moreover have busy: "\<not> alone c (as_callers s)"
  proof
    assume "alone c (as_callers s)"
    then have "snd (as_callers s ! i) = []" using assms(2) False by (simp add: alone_def)
    then show False using s(1) by simp
  qed
  have "at \<noteq> Signalled True \<or> as_logger s \<noteq> Drained True"
    using closing_alone [of c "as_callers s" "tl rest"] assms(3) busy c by (cases rest) (auto simp: async_inv_def)
  then have "protocol (as_callers t ! c) t"
    using assms(3) s(2,5) c False by (cases at) (auto simp: async_inv_def open_state_def split: if_splits)
  ultimately show ?thesis using assms(3) s(2,5) by (auto simp: async_inv_def)
next
  case True
  have msgs: "messages_ok scripts s" "as_mark s \<le> length (as_accepted s)"
    using assms(3) unfolding async_inv_def messages_ok_def by blast+
  from assms(1) show ?thesis
  proof cases
    case (logs ops m)
    have "calls_ok c (as_callers t)"
      using calls_ok_upd [OF _ assms(2) logs(2), of c ops Ready] logs(1) assms(3) by (simp add: async_inv_def)
    moreover have "messages_ok scripts t"
      using assms(2,3) logs by (auto simp: async_inv_def messages_ok_def nth_list_update)
    ultimately show ?thesis using assms(2,3) logs True by (auto simp: async_inv_def open_state_def)
  next
    case (signals ops k)
    have "calls_ok c (as_callers t)"
      using calls_ok_upd [OF _ assms(2) signals(2), of c "op # ops" "Signalled k"] signals(1) assms(3) True by (simp add: async_inv_def)
    moreover have "messages_ok scripts t"
      by (rule messages_upd [OF _ assms(2) signals(2), where ops' = "op # ops" and at' = "Signalled k"])
        (use msgs signals(1) in simp_all)
    ultimately show ?thesis using assms(2,3) signals True by (auto simp: async_inv_def open_state_def)
  next
    case (waits k ops)
    have "calls_ok c (as_callers t)"
      using calls_ok_upd [OF _ assms(2) waits(2), of c "op # ops"] waits(1) assms(3) True by (simp add: async_inv_def)
    moreover have "messages_ok scripts t"
      by (rule messages_upd [OF _ assms(2) waits(2), where ops' = "op # ops" and at' = "if k then Closing_msgs else Woken"])
        (use msgs waits(1) in simp_all)
    ultimately show ?thesis using assms(2,3) waits True by (auto simp: async_inv_def open_state_def alone_upd)
  next
    case (adds ops)
    have f: "op = Op_flush" using assms(3) adds(2) True by (simp add: async_inv_def)
    have "calls_ok c (as_callers t)"
      using calls_ok_upd [OF _ assms(2) adds(2), of c ops Ready] adds(1) assms(3) by (simp add: async_inv_def)
    moreover have "messages_ok scripts t"
      by (rule messages_upd [OF _ assms(2) adds(2), where ops' = ops and at' = Ready])
        (use msgs adds(1) f in simp_all)
    ultimately show ?thesis using assms(2,3) adds True by (auto simp: async_inv_def open_state_def)
  next
    case (closes_msgs ops)
    have "calls_ok c (as_callers t)"
      using calls_ok_upd [OF _ assms(2) closes_msgs(2), of c "op # ops"] closes_msgs(1) assms(3) True by (simp add: async_inv_def)
    moreover have "messages_ok scripts t"
      by (rule messages_upd [OF _ assms(2) closes_msgs(2), where ops' = "op # ops" and at' = Closing_signal])
        (use msgs closes_msgs(1) in simp_all)
    ultimately show ?thesis using assms(2,3) closes_msgs True by (auto simp: async_inv_def open_state_def alone_upd)
  next
    case (closes_signal ops)
    have f: "op = Op_close" using assms(3) closes_signal(2) True by (simp add: async_inv_def)
    then have e: "ops = []" using closing_alone [of c "as_callers s" ops] assms(3) closes_signal(2) True by (simp add: async_inv_def)
    have "calls_ok c (as_callers t)"
      using calls_ok_upd [OF _ assms(2) closes_signal(2), of c ops Ready] closes_signal(1) assms(3) by (simp add: async_inv_def)
    moreover have "messages_ok scripts t"
      by (rule messages_upd [OF _ assms(2) closes_signal(2), where ops' = ops and at' = Ready])
        (use msgs closes_signal(1) f in simp_all)
    ultimately show ?thesis using assms(2,3) closes_signal True e by (auto simp: async_inv_def open_state_def alone_upd)
  qed (use assms(2,3) True in \<open>auto simp: async_inv_def open_state_def\<close>)
qed

lemma async_keeps: "async_step s t \<Longrightarrow> async_inv c scripts s \<Longrightarrow> async_inv c scripts t"
  using logger_keeps caller_keeps by (fastforce simp: async_step_def)


section \<open>Every schedule ends\<close>

fun op_weight :: "'m log_op \<Rightarrow> nat" where
  "op_weight (Op_log m) = 2" | "op_weight Op_flush = 7" | "op_weight Op_close = 8"

fun at_cost :: "caller_at \<Rightarrow> nat" where
  "at_cost Ready = 0" | "at_cost (Signalled k) = 4" | "at_cost Woken = 5" | "at_cost Closing_msgs = 5" | "at_cost Closing_signal = 6"

fun caller_weight :: "caller_at \<times> 'm log_op list \<Rightarrow> nat" where
  "caller_weight (at, ops) = sum_list (map op_weight ops) - at_cost at"

fun logger_weight :: "logger_at \<Rightarrow> nat" where
  "logger_weight Selecting = 0" | "logger_weight (Draining k) = 2" | "logger_weight (Drained k) = 1" | "logger_weight Over = 0"

definition async_work :: "'m async \<Rightarrow> nat" where
  "async_work s = length (as_chan s) + (if as_signal s = None then 0 else 3) + logger_weight (as_logger s)
     + sum_list (map caller_weight (as_callers s))"

definition async_finished :: "'m async \<Rightarrow> bool" where
  "async_finished s \<longleftrightarrow> as_chan s = [] \<and> (\<forall>x \<in> set (as_callers s). x = (Ready, []))"

lemma callers_weight_upd:
  assumes "i < length callers"
  shows "sum_list (map caller_weight (callers[i := x])) + caller_weight (callers ! i)
    = sum_list (map caller_weight callers) + caller_weight x"
proof -
  have "caller_weight (callers ! i) \<le> sum_list (map caller_weight callers)"
    using assms elem_le_sum_list [of i "map caller_weight callers"] by simp
  then show ?thesis using assms sum_list_update [of i "map caller_weight callers" "caller_weight x"] by (simp add: map_update)
qed

lemma logger_work: "logger_step s t \<Longrightarrow> async_inv c scripts s \<Longrightarrow> async_work t < async_work s"
proof (induction rule: logger_step.induct)
  case (takes_no_signal s)
  then show ?case by (cases "as_callers s ! c"; cases "fst (as_callers s ! c)") (auto simp: async_inv_def open_state_def)
next
  case (takes_nil s)
  then show ?case by (cases "as_callers s ! c"; cases "fst (as_callers s ! c)") (auto simp: async_inv_def open_state_def split: if_splits)
next
  case (done_negative s k)
  then show ?case by (cases "as_callers s ! c"; cases "fst (as_callers s ! c)") (auto simp: async_inv_def split: if_splits)
qed (auto simp: async_work_def)

lemma caller_work:
  assumes "caller_step i op s t" "i < length (as_callers s)" "async_inv c scripts s"
  shows "async_work t < async_work s"
proof (cases "i = c")
  case False
  obtain m ops where s: "as_callers s ! i = (Ready, Op_log m # ops)"
    "t = s\<lparr>as_chan := as_chan s @ [(i, m)], as_accepted := as_accepted s @ [(i, m)],
      as_callers := (as_callers s)[i := (Ready, ops)]\<rparr>"
    using other_only_logs [OF assms(1) False assms(2,3)] by metis
  then show ?thesis using callers_weight_upd [OF assms(2), of "(Ready, ops)"] by (simp add: async_work_def)
next
  case True
  have p: "protocol (as_callers s ! i) s" using assms(3) True by (simp add: async_inv_def)
  from assms(1) show ?thesis
  proof cases
    case (logs ops m)
    then show ?thesis using callers_weight_upd [OF assms(2), of "(Ready, ops)"] by (simp add: async_work_def)
  next
    case (signals ops k)
    then show ?thesis using callers_weight_upd [OF assms(2), of "(Signalled k, op # ops)"] by (auto simp: async_work_def split: if_splits)
  next
    case (waits k ops)
    then show ?thesis
      using p callers_weight_upd [OF assms(2), of "(if k then Closing_msgs else Woken, op # ops)"]
      by (auto simp: async_work_def split: if_splits)
  next
    case (adds ops)
    then show ?thesis using p callers_weight_upd [OF assms(2), of "(Ready, ops)"] by (auto simp: async_work_def)
  next
    case (closes_msgs ops)
    then show ?thesis using p callers_weight_upd [OF assms(2), of "(Closing_signal, op # ops)"] by (auto simp: async_work_def)
  next
    case (closes_signal ops)
    then show ?thesis using p callers_weight_upd [OF assms(2), of "(Ready, ops)"] by (auto simp: async_work_def)
  qed (use p in \<open>auto simp: open_state_def\<close>)
qed

lemma async_stuck:
  assumes "async_inv c scripts s" "\<And>t. \<not> async_step s t"
  shows "async_finished s"
proof -
  have nl: "\<not> logger_step s t" for t using assms by (auto simp: async_step_def async_inv_def)
  have nc: "\<not> caller_step i op s t" if "i < length (as_callers s)" for i op t
    using assms that by (auto simp: async_step_def async_inv_def)
  obtain at rest where c: "as_callers s ! c = (at, rest)" by (cases "as_callers s ! c")
  have p: "protocol (at, rest) s" and cl: "c < length (as_callers s)" and cap: "0 < as_cap s"
    using assms(1) c by (simp_all add: async_inv_def calls_ok_def)
  have logger: "as_logger s \<in> {Selecting, Over}"
    using nl logger_step.drains [of s] logger_step.drained [of s] logger_step.done_signal [of s] logger_step.done_negative [of s]
    by (cases "as_logger s"; cases "as_chan s") auto
  have empty: "as_chan s = []"
  proof (cases "as_logger s = Selecting")
    case True
    then show ?thesis using nl logger_step.takes_message [of s] by (cases "as_chan s") auto
  qed (use logger p in \<open>cases at; auto split: if_splits\<close>)
  have nosig: "as_signal s = None"
    using nl logger_step.takes_signal [of s] p logger by (cases "as_signal s"; cases at) auto
  have "as_callers s ! i = (Ready, [])" if i: "i < length (as_callers s)" for i
  proof (cases "i = c")
    case False
    then obtain ops where o: "as_callers s ! i = (Ready, ops)" "list_all is_log ops"
      using assms(1) i by (cases "as_callers s ! i") (auto simp: async_inv_def calls_ok_def)
    show ?thesis
    proof (cases ops)
      case (Cons op ops')
      then show ?thesis
        using o nc [OF i] caller_step.logs [of s i op ops'] caller_step.logs_closed [of s i op ops'] cap empty by (cases op) auto
    qed (use o in simp)
  next
    case True
    show ?thesis
    proof (cases rest)
      case Nil
      then show ?thesis using p c True by (cases at) auto
    next
      case (Cons op ops)
      note steps = nc [OF i, of op] True c Cons p logger nosig empty cap
      have "at = Ready"
        using steps caller_step.waits [of s i _ op ops] caller_step.adds [of s i op ops] caller_step.closes_msgs [of s i op ops]
          caller_step.closes_signal [of s i op ops]
        by (cases at) (auto split: if_splits)
      then show ?thesis
        using steps caller_step.logs [of s i op ops] caller_step.signals [of s i op ops True] caller_step.signals [of s i op ops False]
        by (cases op) (auto simp: open_state_def)
    qed
  qed
  then show ?thesis using empty by (auto simp: async_finished_def in_set_conv_nth)
qed

interpretation logger: draining async_step "async_inv c scripts" async_work async_finished for c scripts
proof
  show "async_inv c scripts t" if "async_step s t" "async_inv c scripts s" for s t using that by (rule async_keeps)
  show "async_work t < async_work s" if "async_step s t" "async_inv c scripts s" for s t
    using that logger_work caller_work by (fastforce simp: async_step_def)
  show "async_finished s" if "async_inv c scripts s" "\<And>t. \<not> async_step s t" for s using that by (rule async_stuck)
qed

text \<open>
  C15: with one goroutine that flushes or, as the last thing, closes, the asynchronous logger loses nothing: in any schedule of any
  number of goroutines nothing panics, boundedly many steps remain, what is accepted is written in that order, what was accepted before
  the last signal is written once \<^verbatim>\<open>Flush\<close> has returned, and in the end each goroutine's messages are
  written, in its order.
\<close>

theorem async_log_delivers:
  assumes "well_used c scripts" "0 < cap" "(async_step ^^ n) (async_start cap scripts) t"
  shows "n \<le> async_work (async_start cap scripts) \<and> \<not> as_crashed t
    \<and> as_accepted t = as_written t @ as_chan t
    \<and> (if fst (as_callers t ! c) = Ready then as_mark t \<le> length (as_written t) else True)
    \<and> (if async_finished t then (\<forall>i < length scripts. from_caller i (as_written t) = logged (scripts ! i))
       else (\<exists>u. async_step t u))"
proof -
  have b: "n \<le> async_work (async_start cap scripts)" "async_inv c scripts t" "async_finished t \<or> (\<exists>u. async_step t u)"
    using logger.bounded [OF assms(3) async_start_inv [OF assms(1,2)]] by simp_all
  obtain at rest where c: "as_callers t ! c = (at, rest)" by (cases "as_callers t ! c")
  have "from_caller i (as_written t) = logged (scripts ! i)" if "async_finished t" "i < length scripts" for i
  proof -
    have l: "length (as_callers t) = length scripts" and a: "as_accepted t = as_written t @ as_chan t"
      and m: "from_caller i (as_accepted t) @ logged (snd (as_callers t ! i)) = logged (scripts ! i)"
      using b(2) that(2) unfolding async_inv_def messages_ok_def by blast+
    have "as_callers t ! i = (Ready, [])" "as_chan t = []" using that l by (auto simp: async_finished_def)
    then show ?thesis using a m by simp
  qed
  moreover have "as_accepted t = as_written t @ as_chan t" using b(2) unfolding async_inv_def messages_ok_def by blast
  moreover have "at = Ready \<Longrightarrow> as_mark t \<le> length (as_written t)" using b(2) c by (simp add: async_inv_def)
  ultimately show ?thesis using b c by (auto simp: async_inv_def)
qed


lemma well_used_two: "well_used 0 [[Op_log (1::nat), Op_flush], [Op_log 2]]"
proof -
  have "i = 1" if "i < 2" "i \<noteq> 0" for i :: nat using that by simp
  then show ?thesis by (auto simp: well_used_def ends_well_def less_Suc_eq)
qed

theorem async_log_delivers_witness:
  "\<exists>t. async_step\<^sup>*\<^sup>* (async_start 1 [[Op_log (1::nat), Op_flush], [Op_log 2]]) t \<and> async_finished t \<and> \<not> as_crashed t
     \<and> from_caller 0 (as_written t) = [1] \<and> from_caller 1 (as_written t) = [2]"
proof -
  let ?s = "async_start 1 [[Op_log (1::nat), Op_flush], [Op_log 2]]"
  obtain t where t: "async_step\<^sup>*\<^sup>* ?s t" "async_finished t"
    using logger.finishes [OF async_start_inv [OF well_used_two, of 1]] by auto
  then obtain n where n: "(async_step ^^ n) ?s t" by (auto simp: rtranclp_power)
  have "\<not> as_crashed t \<and> (\<forall>i < 2. from_caller i (as_written t) = logged ([[Op_log (1::nat), Op_flush], [Op_log 2]] ! i))"
    using async_log_delivers [OF well_used_two _ n] t(2) by (simp add: numeral_2_eq_2)
  then have "\<not> as_crashed t \<and> from_caller 0 (as_written t) = [1] \<and> from_caller 1 (as_written t) = [2]"
    by (auto simp: numeral_2_eq_2 less_Suc_eq)
  then show ?thesis using t by blast
qed

section \<open>Two goroutines\<close>

text \<open>A schedule to evaluate: the logger's goroutine, or the caller of that number, does its next step.\<close>

definition logger_next :: "'m async \<Rightarrow> 'm async option" where
  "logger_next s =
     (case as_logger s of
        Selecting \<Rightarrow>
          (case as_chan s of
             m # ms \<Rightarrow> Some (s\<lparr>as_chan := ms, as_written := as_written s @ [m]\<rparr>)
           | [] \<Rightarrow> (case as_signal s of Some k \<Rightarrow> Some (s\<lparr>as_signal := None, as_logger := Draining k\<rparr>) | None \<Rightarrow> None))
      | Draining k \<Rightarrow>
          (case as_chan s of
             m # ms \<Rightarrow> Some (s\<lparr>as_chan := ms, as_written := as_written s @ [m]\<rparr>)
           | [] \<Rightarrow> Some (s\<lparr>as_logger := Drained k\<rparr>))
      | Drained k \<Rightarrow>
          Some (if as_wg s = 0 then s\<lparr>as_crashed := True\<rparr>
                else s\<lparr>as_wg := as_wg s - 1, as_logger := (if k then Over else Selecting), as_outputs := (as_outputs s \<and> \<not> k)\<rparr>)
      | Over \<Rightarrow> None)"

definition caller_next :: "nat \<Rightarrow> 'm async \<Rightarrow> 'm async option" where
  "caller_next i s =
     (case as_callers s ! i of
        (at, []) \<Rightarrow> None
      | (Ready, Op_log m # ops) \<Rightarrow>
          if as_chan_closed s then Some (s\<lparr>as_crashed := True\<rparr>)
          else if length (as_chan s) < as_cap s
          then Some (s\<lparr>as_chan := as_chan s @ [(i, m)], as_accepted := as_accepted s @ [(i, m)],
                 as_callers := (as_callers s)[i := (Ready, ops)]\<rparr>)
          else None
      | (Ready, op # ops) \<Rightarrow>
          if as_signal_closed s then Some (s\<lparr>as_crashed := True\<rparr>)
          else (case as_signal s of
             None \<Rightarrow> let k = (case op of Op_close \<Rightarrow> True | _ \<Rightarrow> False)
                     in Some (s\<lparr>as_signal := Some k, as_callers := (as_callers s)[i := (Signalled k, op # ops)],
                          as_mark := length (as_accepted s)\<rparr>)
           | Some k \<Rightarrow> None)
      | (Signalled k, op # ops) \<Rightarrow>
          if as_wg s = 0 then Some (s\<lparr>as_callers := (as_callers s)[i := (if k then Closing_msgs else Woken, op # ops)]\<rparr>) else None
      | (Woken, op # ops) \<Rightarrow> Some (s\<lparr>as_wg := as_wg s + 1, as_callers := (as_callers s)[i := (Ready, ops)]\<rparr>)
      | (Closing_msgs, op # ops) \<Rightarrow>
          Some (if as_chan_closed s then s\<lparr>as_crashed := True\<rparr>
                else s\<lparr>as_chan_closed := True, as_callers := (as_callers s)[i := (Closing_signal, op # ops)]\<rparr>)
      | (Closing_signal, op # ops) \<Rightarrow>
          Some (if as_signal_closed s then s\<lparr>as_crashed := True\<rparr>
                else s\<lparr>as_signal_closed := True, as_callers := (as_callers s)[i := (Ready, ops)]\<rparr>))"

fun follow :: "nat option list \<Rightarrow> 'm async \<Rightarrow> 'm async option" where
  "follow [] s = Some s"
| "follow (g # gs) s =
     (if as_crashed s then None
      else case (case g of None \<Rightarrow> logger_next s | Some i \<Rightarrow> if i < length (as_callers s) then caller_next i s else None) of
             None \<Rightarrow> None
           | Some t \<Rightarrow> follow gs t)"

lemma logger_next_step: "logger_next s = Some t \<Longrightarrow> logger_step s t"
  using logger_step.done_signal [of s True] logger_step.done_signal [of s False]
  by (auto simp: logger_next_def intro: logger_step.intros(1-6,8) split: logger_at.splits list.splits option.splits if_splits)

lemma caller_next_step:
  assumes "caller_next i s = Some t"
  shows "\<exists>op. caller_step i op s t"
proof -
  obtain at op ops where c: "as_callers s ! i = (at, op # ops)"
    using assms by (cases "as_callers s ! i"; cases "snd (as_callers s ! i)"; cases "fst (as_callers s ! i)")
      (auto simp: caller_next_def)
  have "caller_step i op s t"
  proof (cases at)
    case Ready
    then show ?thesis
      using assms c caller_step.logs [of s i op ops] caller_step.logs_closed [of s i op ops]
        caller_step.signals [of s i op ops False] caller_step.signals [of s i op ops True]
        caller_step.signals_closed [of s i op ops False] caller_step.signals_closed [of s i op ops True]
      by (cases op) (auto simp: caller_next_def Let_def split: if_splits option.splits)
  next
    case (Signalled k)
    then show ?thesis using assms c caller_step.waits [of s i k op ops] by (auto simp: caller_next_def split: if_splits)
  next
    case Woken
    then show ?thesis using assms c caller_step.adds [of s i op ops] by (simp add: caller_next_def)
  next
    case Closing_msgs
    then show ?thesis using assms c caller_step.closes_msgs [of s i op ops] caller_step.closes_msgs_again [of s i op ops]
      by (auto simp: caller_next_def split: if_splits)
  next
    case Closing_signal
    then show ?thesis using assms c caller_step.closes_signal [of s i op ops] caller_step.closes_signal_again [of s i op ops]
      by (auto simp: caller_next_def split: if_splits)
  qed
  then show ?thesis by blast
qed

lemma follow_steps: "follow gs s = Some t \<Longrightarrow> async_step\<^sup>*\<^sup>* s t"
proof (induction gs arbitrary: s)
  case (Cons g gs)
  then obtain u where u: "follow gs u = Some t" "async_step s u"
    using logger_next_step caller_next_step by (fastforce simp: async_step_def split: option.splits if_splits)
  then show ?case using Cons.IH converse_rtranclp_into_rtranclp [of async_step s u t] by blast
qed simp

lemma follow_reaches: "(case follow gs s of Some t \<Rightarrow> P t | None \<Rightarrow> False) \<Longrightarrow> \<exists>t. async_step\<^sup>*\<^sup>* s t \<and> P t"
  by (auto dest: follow_steps split: option.splits)

text \<open>
  two goroutines that flush an asynchronous logger at the same time can make its goroutine panic: the first signal takes the
  wait group to zero, and the second below, when the first caller has not yet added one again.
\<close>

theorem concurrent_flush_panics:
  "\<exists>t. async_step\<^sup>*\<^sup>* (async_start 1 [[Op_flush], [Op_flush :: nat log_op]]) t \<and> as_crashed t"
  by (rule follow_reaches [where gs = "[Some 0, None, None, None, Some 1, None, None, None]"]) code_simp

text \<open>
  Closing while another goroutine logs can panic, and can lose a message that was accepted.
\<close>

lemma logging_after_close_panics:
  "\<exists>t. async_step\<^sup>*\<^sup>* (async_start 1 [[Op_close], [Op_log (0::nat)]]) t \<and> as_crashed t"
  by (rule follow_reaches [where gs = "[Some 0, None, None, None, Some 0, Some 0, Some 1]"]) code_simp

lemma closing_loses_message:
  "\<exists>t. async_step\<^sup>*\<^sup>* (async_start 1 [[Op_close], [Op_log (0::nat)]]) t \<and> \<not> as_crashed t \<and> as_logger t = Over
     \<and> as_accepted t = [(1, 0)] \<and> as_written t = []"
  by (rule follow_reaches [where gs = "[Some 0, None, None, Some 1, None, Some 0]"]) code_simp

end
