(* ===== verification/Lodos_Ozzo.thy ===== *)
theory Lodos_Ozzo
  imports Lodos_Log
begin

text \<open>
  The repository's copy of ozzo-log, \<^verbatim>\<open>logger/ozzo-log/\<close>: filters, entries, the targets for files and the console, and what
  \<^verbatim>\<open>log/logger.go\<close> makes of them. Rotation of a file target shifts its backups; what is kept is the most
  recent part of the log. The goroutines are in the next theory.
\<close>

section \<open>Entries and filters\<close>

record log_entry =
  en_Level :: int
  en_Category :: string
  en_Message :: string
  en_Time :: log_time
  en_CallStack :: string
  en_ShortFile :: string
  en_Formatted :: string

definition LevelNames :: "int \<Rightarrow> string" where
  "LevelNames l =
     (if 0 \<le> l \<and> l \<le> 7
      then [''Emergency'', ''Alert'', ''Critical'', ''Error'', ''Warning'', ''Notice'', ''Info'', ''Debug''] ! nat l
      else ''Unknown'')"

record log_filter =
  fi_names :: "string list"
  fi_prefixes :: "string list"
  fi_MaxLevel :: int
  fi_MinLevel :: int
  fi_Categories :: "string list"

text \<open>\<^verbatim>\<open>Init\<close>, whose loop sorts the categories, and \<^verbatim>\<open>Allow\<close>, which lets the nil entry pass.\<close>

fun sort_categories :: "string list \<Rightarrow> log_filter \<Rightarrow> log_filter" where
  "sort_categories [] f = f"
| "sort_categories (cat # cats) f =
     sort_categories cats
       (if has_suffix cat ''*'' then f\<lparr>fi_prefixes := fi_prefixes f @ [take (length cat - 1) cat]\<rparr>
        else f\<lparr>fi_names := List.insert cat (fi_names f)\<rparr>)"

definition filter_Init :: "log_filter \<Rightarrow> log_filter" where
  "filter_Init f = sort_categories (fi_Categories f) (f\<lparr>fi_names := [], fi_prefixes := []\<rparr>)"

definition Allow :: "log_filter \<Rightarrow> log_entry option \<Rightarrow> bool" where
  "Allow f e =
     (case e of
        None \<Rightarrow> True
      | Some en \<Rightarrow>
          if en_Level en > fi_MaxLevel f then False
          else if en_Level en < fi_MinLevel f then False
          else if en_Category en \<in> set (fi_names f) then True
          else if list_ex (has_prefix (en_Category en)) (fi_prefixes f) then True
          else fi_names f = [] \<and> fi_prefixes f = [])"

definition plain_filter :: log_filter where
  "plain_filter = \<lparr>fi_names = [], fi_prefixes = [], fi_MaxLevel = 7, fi_MinLevel = 0, fi_Categories = []\<rparr>"

section \<open>The file target\<close>

record file_target =
  ft_Filter :: log_filter
  ft_FileName :: string
  ft_Rotate :: bool
  ft_BackupCount :: int
  ft_MaxBytes :: int
  ft_fd :: "nat option"
  ft_currentBytes :: int

definition NewFileTarget :: file_target where
  "NewFileTarget = \<lparr>ft_Filter = plain_filter, ft_FileName = [], ft_Rotate = True, ft_BackupCount = 10, ft_MaxBytes = 1048576,
     ft_fd = None, ft_currentBytes = 0\<rparr>"

type_synonym target_files = "file_target \<times> file_sys"

definition target_Open :: "os_answers \<Rightarrow> target_files \<Rightarrow> string option \<times> target_files" where
  "target_Open os tf = (case tf of (t, fs) \<Rightarrow>
     let t1 = t\<lparr>ft_Filter := filter_Init (ft_Filter t)\<rparr>
     in if ft_FileName t = [] then (Some ''FileTarget.FileName must be set'', t1, fs)
        else if ft_Rotate t \<and> ft_BackupCount t < 0 then (Some ''FileTarget.BackupCount must be no less than 0'', t1, fs)
        else if ft_Rotate t \<and> ft_MaxBytes t \<le> 0 then (Some ''FileTarget.MaxBytes must be no less than 0'', t1, fs)
        else (case OpenFile os (ft_FileName t) fs of
                None \<Rightarrow> (Some ''FileTarget was unable to create a log file'', t1, fs)
              | Some (i, fs1) \<Rightarrow> (None, t1\<lparr>ft_fd := Some i\<rparr>, fs1)))"

text \<open>
  The loop of \<^verbatim>\<open>rotate\<close>, from \<^verbatim>\<open>BackupCount\<close> down to 0: the oldest file is removed, the others get the next number. The results of
  \<^verbatim>\<open>os.Remove\<close> and \<^verbatim>\<open>os.Rename\<close> are not looked at.
\<close>

definition backup_name :: "string \<Rightarrow> nat \<Rightarrow> string" where
  "backup_name f i = (if i > 0 then f @ ''.'' @ dec_nat i else f)"

definition Remove :: "string \<Rightarrow> file_sys \<Rightarrow> file_sys" where
  "Remove p fs = fs\<lparr>fs_names := (fs_names fs)(p := None)\<rparr>"

definition shift_backup :: "os_answers \<Rightarrow> string \<Rightarrow> nat \<Rightarrow> nat \<Rightarrow> file_sys \<Rightarrow> file_sys" where
  "shift_backup os f n i fs =
     (if \<not> Lstat fs (backup_name f i) then fs
      else if i = n then Remove (backup_name f i) fs
      else (case Rename os (backup_name f i) (backup_name f (Suc i)) fs of None \<Rightarrow> fs | Some fs1 \<Rightarrow> fs1))"

fun shift_backups :: "os_answers \<Rightarrow> string \<Rightarrow> nat \<Rightarrow> nat \<Rightarrow> file_sys \<Rightarrow> file_sys" where
  "shift_backups os f n 0 fs = shift_backup os f n 0 fs"
| "shift_backups os f n (Suc i) fs = shift_backups os f n i (shift_backup os f n (Suc i) fs)"

definition target_rotate :: "os_answers \<Rightarrow> int \<Rightarrow> target_files \<Rightarrow> target_files" where
  "target_rotate os bytes tf = (case tf of (t, fs) \<Rightarrow>
     if ft_currentBytes t + bytes \<le> ft_MaxBytes t \<or> bytes > ft_MaxBytes t then (t, fs)
     else let fs1 = (if ft_BackupCount t < 0 then fs
                     else shift_backups os (ft_FileName t) (nat (ft_BackupCount t)) (nat (ft_BackupCount t)) fs)
          in (case OpenFile os (ft_FileName t) fs1 of
                None \<Rightarrow> (t\<lparr>ft_currentBytes := 0, ft_fd := None\<rparr>, fs1)
              | Some (i, fs2) \<Rightarrow> (t\<lparr>ft_currentBytes := 0, ft_fd := Some i\<rparr>, fs2)))"

text \<open>\<^verbatim>\<open>Process\<close> of an entry, and of nil, after which \<^verbatim>\<open>Close\<close> returns. A failed write counts what it wrote.\<close>

definition target_write :: "os_answers \<Rightarrow> string \<Rightarrow> target_files \<Rightarrow> target_files" where
  "target_write os s tf = (case tf of (t, fs) \<Rightarrow>
     (case ft_fd t of
        None \<Rightarrow> (t, fs)
      | Some i \<Rightarrow>
          let s1 = (case oa_write os of Some n \<Rightarrow> take n s | None \<Rightarrow> s)
          in (t\<lparr>ft_currentBytes := ft_currentBytes t + int (length s1)\<rparr>, append_to i s1 fs)))"

definition entry_line :: "log_entry \<Rightarrow> string" where
  "entry_line e = en_Formatted e @ [CHR 0x0A]"

definition target_Process :: "os_answers \<Rightarrow> log_entry option \<Rightarrow> target_files \<Rightarrow> target_files" where
  "target_Process os e tf =
     (case e of
        None \<Rightarrow> ((fst tf)\<lparr>ft_fd := None\<rparr>, snd tf)
      | Some en \<Rightarrow>
          if ft_fd (fst tf) \<noteq> None \<and> Allow (ft_Filter (fst tf)) (Some en)
          then target_write os (entry_line en)
                 (if ft_Rotate (fst tf) then target_rotate os (int (length (en_Formatted en)) + 1) tf else tf)
          else tf)"

section \<open>The console target\<close>

record console_target =
  ct_Filter :: log_filter
  ct_ColorMode :: bool
  ct_Writer :: bool

definition brushes :: "int \<Rightarrow> string option" where
  "brushes l =
     (if 0 \<le> l \<and> l \<le> 7 then Some ([''1;95'', ''1;91'', ''35'', ''31'', ''33'', ''36'', ''32'', ''39''] ! nat l) else None)"

definition NewConsoleTarget :: console_target where
  "NewConsoleTarget = \<lparr>ct_Filter = plain_filter, ct_ColorMode = True, ct_Writer = True\<rparr>"

definition console_Open :: "bool \<Rightarrow> console_target \<Rightarrow> string option \<times> console_target" where
  "console_Open windows t =
     (let t1 = t\<lparr>ct_Filter := filter_Init (ct_Filter t)\<rparr>
      in if \<not> ct_Writer t then (Some ''ConsoleTarget.Writer cannot be nil'', t1)
         else (None, if windows then t1\<lparr>ct_ColorMode := False\<rparr> else t1))"

definition console_Process :: "console_target \<Rightarrow> log_entry option \<Rightarrow> string list \<Rightarrow> string list" where
  "console_Process t e printed =
     (case e of
        None \<Rightarrow> printed
      | Some en \<Rightarrow>
          if \<not> Allow (ct_Filter t) e then printed
          else printed @ [(case (ct_ColorMode t, brushes (en_Level en)) of
                             (True, Some c) \<Rightarrow> brush c (en_Formatted en)
                           | _ \<Rightarrow> en_Formatted en) @ [CHR 0x0A]])"

section \<open>Making an entry\<close>

text \<open>
  A logger is a category, a formatter and the core it shares. \<open>logger_entry\<close> is \<^verbatim>\<open>Log\<close> up to its send;
  \<^verbatim>\<open>GetCallStack\<close> and its helpers are those of the other package, line by line.
\<close>

record ozzo_core =
  oc_open :: bool
  oc_BufferSize :: int
  oc_CallStackDepth :: int
  oc_CallStackFilter :: string
  oc_MaxLevel :: int
  oc_ErrorWriter :: bool

record ozzo_logger =
  ol_Category :: string
  ol_Formatter :: "string \<Rightarrow> log_entry \<Rightarrow> string"

definition ozzo_CallStack :: "(string \<times> int) list \<Rightarrow> nat \<Rightarrow> int \<Rightarrow> string \<Rightarrow> string \<times> string" where
  "ozzo_CallStack = GetCallStack"

definition DefaultFormatter :: "string \<Rightarrow> log_entry \<Rightarrow> string" where
  "DefaultFormatter category e =
     lt_header (en_Time e) @ '' ['' @ LevelNames (en_Level e) @ ''][''@ en_Category e @ ''] '' @ en_Message e @ en_CallStack e"

definition ozzo_NewLogger :: "ozzo_core \<times> ozzo_logger" where
  "ozzo_NewLogger = (\<lparr>oc_open = False, oc_BufferSize = 1024, oc_CallStackDepth = 0, oc_CallStackFilter = [], oc_MaxLevel = 7,
     oc_ErrorWriter = True\<rparr>, \<lparr>ol_Category = ''app'', ol_Formatter = DefaultFormatter\<rparr>)"

definition ozzo_GetLogger :: "ozzo_logger \<Rightarrow> string \<Rightarrow> (string \<Rightarrow> log_entry \<Rightarrow> string) list \<Rightarrow> ozzo_logger" where
  "ozzo_GetLogger l category formatter =
     \<lparr>ol_Category = category, ol_Formatter = (case formatter of f # fs \<Rightarrow> f | [] \<Rightarrow> ol_Formatter l)\<rparr>"

definition logger_entry :: "'a fmt_package \<Rightarrow> (string \<times> int) list \<Rightarrow> log_time \<Rightarrow> ozzo_core \<Rightarrow> ozzo_logger \<Rightarrow> int \<Rightarrow> string \<Rightarrow> 'a list
    \<Rightarrow> log_entry option" where
  "logger_entry fmt stack now c l level format a =
     (if level > oc_MaxLevel c \<or> \<not> oc_open c then None
      else let s = (if a \<noteq> [] then fmt_Sprintf fmt format a else format);
               calls = (if oc_CallStackDepth c > 0 then ozzo_CallStack stack 4 (oc_CallStackDepth c) (oc_CallStackFilter c) else ([], []));
               e = \<lparr>en_Level = level, en_Category = ol_Category l, en_Message = s, en_Time = now, en_CallStack = fst calls,
                    en_ShortFile = snd calls, en_Formatted = []\<rparr>
           in Some (e\<lparr>en_Formatted := ol_Formatter l (ol_Category l) e\<rparr>))"

fun ozzo_level :: "log_method \<Rightarrow> int" where
  "ozzo_level Emergency = 0" | "ozzo_level Alert = 1" | "ozzo_level Critical = 2" | "ozzo_level Error = 3"
| "ozzo_level Warning = 4" | "ozzo_level Notice = 5" | "ozzo_level Info = 6" | "ozzo_level Debug = 7"
| "ozzo_level m = method_level m"

section \<open>Opening a logger\<close>

text \<open>
  Targets of a logger; opening drops those that fail. A target here is its own result of \<^verbatim>\<open>Open\<close> ('t after the call).
\<close>

fun open_targets :: "('t \<Rightarrow> 'w \<Rightarrow> string option \<times> 't \<times> 'w) \<Rightarrow> 't list \<Rightarrow> 'w \<Rightarrow> 't list \<times> 'w" where
  "open_targets opn [] w = ([], w)"
| "open_targets opn (t # ts) w =
     (case opn t w of
        (Some e, t1, w1) \<Rightarrow> open_targets opn ts w1
      | (None, t1, w1) \<Rightarrow> (case open_targets opn ts w1 of (ts', w') \<Rightarrow> (t1 # ts', w')))"

definition ozzo_Open :: "('t \<Rightarrow> 'w \<Rightarrow> string option \<times> 't \<times> 'w) \<Rightarrow> ozzo_core \<times> 't list \<Rightarrow> 'w
    \<Rightarrow> string option \<times> (ozzo_core \<times> 't list) \<times> 'w" where
  "ozzo_Open opn ct w = (case ct of (c, ts) \<Rightarrow>
     if oc_open c then (None, ct, w)
     else if \<not> oc_ErrorWriter c then (Some ''Logger.ErrorWriter must be set.'', ct, w)
     else if oc_BufferSize c < 0 then (Some ''Logger.BufferSize must be no less than 0.'', ct, w)
     else if oc_CallStackDepth c < 0 then (Some ''Logger.CallStackDepth must be no less than 0.'', ct, w)
     else (case open_targets opn ts w of (ts', w') \<Rightarrow> (None, (c\<lparr>oc_open := True\<rparr>, ts'), w')))"

text \<open>The loggers of \<^verbatim>\<open>log/logger.go\<close>: their targets, a console or two files, and their formatter.\<close>

datatype ozzo_target = Console_target console_target | File_target file_target

definition default_targets :: "ozzo_target list" where
  "default_targets = [Console_target (NewConsoleTarget\<lparr>ct_Filter := plain_filter\<lparr>fi_MinLevel := 5, fi_MaxLevel := 7\<rparr>\<rparr>)]"

definition mqant_targets :: "bool \<Rightarrow> string \<Rightarrow> string \<Rightarrow> ozzo_target list" where
  "mqant_targets debug dir pid =
     (if debug then [Console_target NewConsoleTarget]
      else [File_target (NewFileTarget\<lparr>ft_FileName := error_log dir pid,
              ft_Filter := plain_filter\<lparr>fi_MaxLevel := 4, fi_MinLevel := 0\<rparr>\<rparr>),
            File_target (NewFileTarget\<lparr>ft_FileName := access_log dir pid,
              ft_Filter := plain_filter\<lparr>fi_MinLevel := 5, fi_MaxLevel := 7\<rparr>\<rparr>)])"

definition mqant_format :: "string \<Rightarrow> string \<Rightarrow> log_entry \<Rightarrow> string" where
  "mqant_format pid category e =
     lt_header (en_Time e) @ '' ['' @ LevelNames (en_Level e) @ ''][''@ pid @
       (if en_Level e \<le> 4 then ''] '' @ en_Message e @ '' '' @ en_CallStack e
        else ''][''@ en_ShortFile e @ ''] '' @ en_Message e)"

definition target_open :: "os_answers \<Rightarrow> bool \<Rightarrow> ozzo_target \<Rightarrow> file_sys \<Rightarrow> string option \<times> ozzo_target \<times> file_sys" where
  "target_open os windows t fs =
     (case t of
        Console_target c \<Rightarrow> (case console_Open windows c of (e, c1) \<Rightarrow> (e, Console_target c1, fs))
      | File_target f \<Rightarrow> (case target_Open os (f, fs) of (e, f1, fs1) \<Rightarrow> (e, File_target f1, fs1)))"

definition MqantLog_GetLogger :: "os_answers \<Rightarrow> bool \<Rightarrow> bool \<Rightarrow> string \<Rightarrow> string \<Rightarrow> file_sys
    \<Rightarrow> (ozzo_core \<times> ozzo_target list) \<times> ozzo_logger \<times> file_sys" where
  "MqantLog_GetLogger os windows debug pid dir fs =
     (case ozzo_NewLogger of (c, l) \<Rightarrow>
        (case ozzo_Open (target_open os windows) (c\<lparr>oc_CallStackDepth := 3\<rparr>, mqant_targets debug dir pid) fs of
           (e, ct, fs1) \<Rightarrow> (ct, ozzo_GetLogger l ''app'' [mqant_format pid], fs1)))"

end
