(* ===== verification/Lodos_Ozzo_Props.thy ===== *)
theory Lodos_Ozzo_Props
  imports Lodos_Ozzo
begin

text \<open>
  Filters accept what their categories say; rotation of a file target shifts its backups by one; whatever is logged, the
  backups and the file, oldest first, are the most recent part of all that was written.
\<close>

section \<open>Filters\<close>

definition category_matches :: "string \<Rightarrow> string \<Rightarrow> bool" where
  "category_matches category pattern =
     (if has_suffix pattern ''*'' then has_prefix category (take (length pattern - 1) pattern) else category = pattern)"

lemma sort_categories_fields:
  "set (fi_names (sort_categories cats f)) = set (fi_names f) \<union> {c \<in> set cats. \<not> has_suffix c ''*''}"
  "set (fi_prefixes (sort_categories cats f)) = set (fi_prefixes f) \<union> (\<lambda>c. take (length c - 1) c) ` {c \<in> set cats. has_suffix c ''*''}"
  "fi_MaxLevel (sort_categories cats f) = fi_MaxLevel f" "fi_MinLevel (sort_categories cats f) = fi_MinLevel f"
  by (induction cats arbitrary: f) auto

lemma no_members: "{c \<in> A. \<not> S c} = {} \<Longrightarrow> {c \<in> A. S c} = {} \<Longrightarrow> A = {}"
  by blast

lemma in_split: "x \<in> {c \<in> A. \<not> S c} \<or> (\<exists>c \<in> g ` {c \<in> A. S c}. P c) \<longleftrightarrow> (\<exists>c \<in> A. if S c then P (g c) else x = c)"
  by auto

lemma Allow_Some:
  "Allow f (Some e) = (fi_MinLevel f \<le> en_Level e \<and> en_Level e \<le> fi_MaxLevel f
     \<and> ((en_Category e \<in> set (fi_names f) \<or> list_ex (has_prefix (en_Category e)) (fi_prefixes f)) \<or> fi_names f = [] \<and> fi_prefixes f = []))"
  by (auto simp: Allow_def)

text \<open>
  C27: a filter lets exactly the entries pass whose level is within its bounds and whose category matches one of its categories,
  where a star at the end stands for any text, or that it has no categories at all.
\<close>

theorem filter_meets_spec:
  "Allow (filter_Init f) (Some e) \<longleftrightarrow> fi_MinLevel f \<le> en_Level e \<and> en_Level e \<le> fi_MaxLevel f
     \<and> (if fi_Categories f = [] then True else \<exists>pattern \<in> set (fi_Categories f). category_matches (en_Category e) pattern)"
proof -
  let ?g = "sort_categories (fi_Categories f) (f\<lparr>fi_names := [], fi_prefixes := []\<rparr>)"
  let ?any = "\<exists>pattern \<in> set (fi_Categories f). category_matches (en_Category e) pattern"
  have sets: "set (fi_names ?g) = {c \<in> set (fi_Categories f). \<not> has_suffix c ''*''}"
    "set (fi_prefixes ?g) = (\<lambda>c. take (length c - 1) c) ` {c \<in> set (fi_Categories f). has_suffix c ''*''}"
    by (simp_all add: sort_categories_fields)
  have none: "(fi_names ?g = [] \<and> fi_prefixes ?g = []) = (fi_Categories f = [])"
  proof
    assume e: "fi_names ?g = [] \<and> fi_prefixes ?g = []"
    have "{c \<in> set (fi_Categories f). \<not> has_suffix c ''*''} = {}" unfolding sets(1) [symmetric] using e by simp
    moreover have "{c \<in> set (fi_Categories f). has_suffix c ''*''} = {}"
      using sets(2) unfolding conjunct2 [OF e] by simp
    ultimately have "set (fi_Categories f) = {}" by (rule no_members)
    then show "fi_Categories f = []" by simp
  qed simp
  have some: "(en_Category e \<in> set (fi_names ?g) \<or> list_ex (has_prefix (en_Category e)) (fi_prefixes ?g)) = ?any"
    unfolding list_ex_iff sets category_matches_def by (rule in_split)
  have "Allow ?g (Some e) = (fi_MinLevel f \<le> en_Level e \<and> en_Level e \<le> fi_MaxLevel f \<and> (?any \<or> fi_Categories f = []))"
    unfolding Allow_Some none [symmetric] some [symmetric] sort_categories_fields(3,4) by simp
  then show ?thesis unfolding filter_Init_def by simp
qed

section \<open>Names of backups\<close>

definition dec_value :: "string \<Rightarrow> nat" where
  "dec_value s = foldl (\<lambda>n c. 10 * n + (of_char c - 48)) 0 s"

lemma dec_value_dec_nat [simp]: "dec_value (dec_nat n) = n"
proof (induction n rule: less_induct)
  case (less n)
  have d: "of_char (digit_char k) - 48 = k" if "k < 10" for k using that by (simp add: digit_char_def)
  show ?case
  proof (cases "n < 10")
    case True
    then show ?thesis by (subst dec_nat.simps) (simp add: dec_value_def d)
  next
    case False
    then have "dec_value (dec_nat (n div 10)) = n div 10" by (intro less.IH) simp
    then show ?thesis using False by (subst dec_nat.simps) (simp add: dec_value_def d)
  qed
qed

lemma backup_name_inj [simp]: "backup_name f i = backup_name f j \<longleftrightarrow> i = j"
proof
  assume e: "backup_name f i = backup_name f j"
  have "i = dec_value (drop (Suc (length f)) (backup_name f i))" for i
    by (cases i) (simp_all add: backup_name_def dec_value_def [of "[]"])
  then show "i = j" using e by metis
qed simp

lemma backup_name_0: "backup_name f 0 = f"
  by (simp add: backup_name_def)

section \<open>Rotation\<close>

lemma shift_backup_names:
  assumes "oa_rename os" "i \<noteq> n \<Longrightarrow> \<not> Lstat fs (backup_name f (Suc i))"
  shows "fs_names (shift_backup os f n i fs) =
      (if i = n then (fs_names fs)(backup_name f i := None)
       else (fs_names fs)(backup_name f (Suc i) := fs_names fs (backup_name f i), backup_name f i := None))"
    and "fs_data (shift_backup os f n i fs) = fs_data fs" "fs_next (shift_backup os f n i fs) = fs_next fs"
  using assms by (auto simp: shift_backup_def Remove_def Rename_def Lstat_def fun_eq_iff)

lemma shift_backups_names:
  assumes "oa_rename os" "i \<le> n" "i \<noteq> n \<Longrightarrow> \<not> Lstat fs (backup_name f (Suc i))"
  shows "fs_names (shift_backups os f n i fs) (backup_name f 0) = None
    \<and> (\<forall>j \<le> i. j < n \<longrightarrow> fs_names (shift_backups os f n i fs) (backup_name f (Suc j)) = fs_names fs (backup_name f j))
    \<and> (\<forall>p. p \<notin> backup_name f ` {..min (Suc i) n} \<longrightarrow> fs_names (shift_backups os f n i fs) p = fs_names fs p)
    \<and> fs_data (shift_backups os f n i fs) = fs_data fs \<and> fs_next (shift_backups os f n i fs) = fs_next fs"
  using assms(2,3)
proof (induction i arbitrary: fs)
  case 0
  then show ?case using assms(1) by (cases "n = 0") (auto simp: shift_backup_names)
next
  case (Suc i)
  define fs1 where "fs1 = shift_backup os f n (Suc i) fs"
  have s: "fs_names fs1 = (if Suc i = n then (fs_names fs)(backup_name f (Suc i) := None)
       else (fs_names fs)(backup_name f (Suc (Suc i)) := fs_names fs (backup_name f (Suc i)), backup_name f (Suc i) := None))"
    "fs_data fs1 = fs_data fs" "fs_next fs1 = fs_next fs"
    unfolding fs1_def using shift_backup_names [OF assms(1), of "Suc i" n fs f] Suc.prems(2) by simp_all
  have ih: "fs_names (shift_backups os f n i fs1) (backup_name f 0) = None"
    "\<forall>j \<le> i. j < n \<longrightarrow> fs_names (shift_backups os f n i fs1) (backup_name f (Suc j)) = fs_names fs1 (backup_name f j)"
    "\<forall>p. p \<notin> backup_name f ` {..min (Suc i) n} \<longrightarrow> fs_names (shift_backups os f n i fs1) p = fs_names fs1 p"
    "fs_data (shift_backups os f n i fs1) = fs_data fs1" "fs_next (shift_backups os f n i fs1) = fs_next fs1"
    using Suc.IH [of fs1] Suc.prems(1) s(1) by (auto simp: Lstat_def)
  have e: "shift_backups os f n (Suc i) fs = shift_backups os f n i fs1" by (simp add: fs1_def)
  have "fs_names (shift_backups os f n i fs1) (backup_name f (Suc j)) = fs_names fs (backup_name f j)" if "j \<le> Suc i" "j < n" for j
  proof (cases "j = Suc i")
    case True
    then have "backup_name f (Suc j) \<notin> backup_name f ` {..min (Suc i) n}" by auto
    then show ?thesis using ih(3) s(1) True that by simp
  next
    case False
    then show ?thesis using ih(2) s(1) that by simp
  qed
  moreover have "fs_names (shift_backups os f n i fs1) p = fs_names fs p" if "p \<notin> backup_name f ` {..min (Suc (Suc i)) n}" for p
  proof -
    have "p \<notin> backup_name f ` {..min (Suc i) n}" using that by auto
    moreover have "fs_names fs1 p = fs_names fs p" using that s(1) Suc.prems(1) by (auto simp: image_iff min_def split: if_splits)
    ultimately show ?thesis using ih(3) by simp
  qed
  ultimately show ?case using ih(1,4,5) s e by simp
qed

text \<open>The contents of the file and its backups, the file first.\<close>

definition backups :: "string \<Rightarrow> nat \<Rightarrow> file_sys \<Rightarrow> string option list" where
  "backups f n fs = map (\<lambda>i. map_option (fs_data fs) (fs_names fs (backup_name f i))) [0..<Suc n]"

definition rotates :: "file_target \<Rightarrow> int \<Rightarrow> bool" where
  "rotates t bytes \<longleftrightarrow> bytes \<le> ft_MaxBytes t \<and> ft_MaxBytes t < ft_currentBytes t + bytes"

lemma rotate_files:
  assumes "oa_rename os" "\<forall>p. oa_open os p" "sane_files fs" "rotates t bytes" "0 \<le> ft_BackupCount t"
    "n = nat (ft_BackupCount t)" "f = ft_FileName t"
  obtains t1 fs1 i where "target_rotate os bytes (t, fs) = (t1, fs1)" "t1 = t\<lparr>ft_currentBytes := 0, ft_fd := Some i\<rparr>"
    "fs_names fs1 f = Some i" "fs_data fs1 i = []" "i = fs_next fs" "fs_next fs1 = Suc (fs_next fs)"
    "\<And>j. j < n \<Longrightarrow> fs_names fs1 (backup_name f (Suc j)) = fs_names fs (backup_name f j)"
    "\<And>p. p \<notin> backup_name f ` {..n} \<Longrightarrow> fs_names fs1 p = fs_names fs p" "\<And>j. j < fs_next fs \<Longrightarrow> fs_data fs1 j = fs_data fs j"
proof -
  define fs0 where "fs0 = shift_backups os f n n fs"
  have s: "fs_names fs0 f = None" "\<And>j. j < n \<Longrightarrow> fs_names fs0 (backup_name f (Suc j)) = fs_names fs (backup_name f j)"
    "\<And>p. p \<notin> backup_name f ` {..n} \<Longrightarrow> fs_names fs0 p = fs_names fs p" "fs_data fs0 = fs_data fs" "fs_next fs0 = fs_next fs"
    using shift_backups_names [OF assms(1), of n n fs f] unfolding fs0_def backup_name_0 [of f] by auto
  define fs1 where "fs1 = fs0\<lparr>fs_names := (fs_names fs0)(f \<mapsto> fs_next fs), fs_data := (fs_data fs0)(fs_next fs := []),
      fs_next := Suc (fs_next fs)\<rparr>"
  have o: "OpenFile os f fs0 = Some (fs_next fs, fs1)" using assms(2) s by (simp add: OpenFile_def fs1_def)
  have r: "target_rotate os bytes (t, fs) = (t\<lparr>ft_currentBytes := 0, ft_fd := Some (fs_next fs)\<rparr>, fs1)"
    using assms(4-7) o by (simp add: target_rotate_def rotates_def fs0_def)
  have nf: "backup_name f (Suc j) \<noteq> f" for j using backup_name_inj [of f "Suc j" 0] by (simp add: backup_name_0)
  have f0: "f \<in> backup_name f ` {..n}" by (rule image_eqI [of _ _ 0]) (simp_all add: backup_name_0)
  show ?thesis
  proof (rule that [OF r refl])
    show "fs_names fs1 (backup_name f (Suc j)) = fs_names fs (backup_name f j)" if "j < n" for j
      using s(2) [OF that] nf [of j] by (simp add: fs1_def)
    show "fs_names fs1 p = fs_names fs p" if "p \<notin> backup_name f ` {..n}" for p
      using s(3) [OF that] that f0 by (auto simp: fs1_def)
  qed (use s in \<open>simp_all add: fs1_def\<close>)
qed

lemma rotation_shifts_backups_step:
  assumes "oa_rename os" "\<forall>p. oa_open os p" "sane_files fs" "rotates t bytes" "0 \<le> ft_BackupCount t"
    "target_rotate os bytes (t, fs) = (t1, fs1)"
  shows "backups (ft_FileName t) (nat (ft_BackupCount t)) fs1
      = Some [] # butlast (backups (ft_FileName t) (nat (ft_BackupCount t)) fs)
    \<and> (\<forall>p. p \<notin> backup_name (ft_FileName t) ` {..nat (ft_BackupCount t)} \<longrightarrow> fs_names fs1 p = fs_names fs p)"
proof -
  let ?f = "ft_FileName t" and ?n = "nat (ft_BackupCount t)"
  obtain t2 fs2 i where x: "target_rotate os bytes (t, fs) = (t2, fs2)" "fs_names fs2 ?f = Some i" "fs_data fs2 i = []"
    "\<And>j. j < ?n \<Longrightarrow> fs_names fs2 (backup_name ?f (Suc j)) = fs_names fs (backup_name ?f j)"
    "\<And>p. p \<notin> backup_name ?f ` {..?n} \<Longrightarrow> fs_names fs2 p = fs_names fs p" "\<And>j. j < fs_next fs \<Longrightarrow> fs_data fs2 j = fs_data fs j"
    by (rule rotate_files [OF assms(1-5) refl refl]) blast
  have "fs2 = fs1" using x(1) assms(6) by simp
  note r = x(2-) [unfolded this]
  have old: "map_option (fs_data fs1) (fs_names fs p) = map_option (fs_data fs) (fs_names fs p)" for p
    using assms(3) r(5) by (cases "fs_names fs p") (auto simp: sane_files_def ranI)
  have "backups ?f ?n fs1 = Some [] # map (\<lambda>j. map_option (fs_data fs1) (fs_names fs1 (backup_name ?f (Suc j)))) [0..<?n]"
    unfolding backups_def map_Suc_upt [symmetric] using r(1,2)
    by (simp add: upt_conv_Cons backup_name_0 map_Suc_upt [symmetric] o_def del: upt_Suc)
  also have "\<dots> = Some [] # map (\<lambda>j. map_option (fs_data fs) (fs_names fs (backup_name ?f j))) [0..<?n]"
    using r(3) old by simp
  also have "\<dots> = Some [] # butlast (backups ?f ?n fs)" by (simp add: backups_def)
  finally show ?thesis using r(4) by blast
qed

text \<open>
  rotation of a file target shifts its backups by one: the file becomes empty, each backup holds what the one before it held, the oldest
  is gone, and no other name is touched.
\<close>

theorem rotation_shifts_backups:
  assumes "oa_rename os" "\<forall>p. oa_open os p" "sane_files fs" "rotates t bytes" "0 \<le> ft_BackupCount t"
    "target_rotate os bytes (t, fs) = (t1, fs1)"
  shows "backups (ft_FileName t) (nat (ft_BackupCount t)) fs1
      = Some [] # butlast (backups (ft_FileName t) (nat (ft_BackupCount t)) fs)
    \<and> (\<forall>p. p \<notin> backup_name (ft_FileName t) ` {..nat (ft_BackupCount t)} \<longrightarrow> fs_names fs1 p = fs_names fs p)"
  by (rule rotation_shifts_backups_step [OF assms])

section \<open>What is kept\<close>

definition held :: "string option \<Rightarrow> string" where
  "held x = (case x of None \<Rightarrow> [] | Some s \<Rightarrow> s)"

text \<open>The backups and the file, oldest first.\<close>

definition history :: "string \<Rightarrow> nat \<Rightarrow> file_sys \<Rightarrow> string" where
  "history f n fs = concat (map held (rev (backups f n fs)))"

text \<open>A target whose file is open under its name, in a file system without links.\<close>

definition target_ok :: "file_target \<Rightarrow> file_sys \<Rightarrow> bool" where
  "target_ok t fs \<longleftrightarrow> sane_files fs \<and> 0 \<le> ft_BackupCount t
     \<and> (\<exists>i. ft_fd t = Some i \<and> fs_names fs (ft_FileName t) = Some i)
     \<and> (\<forall>p q j. fs_names fs p = Some j \<and> fs_names fs q = Some j \<longrightarrow> p = q)"

abbreviation target_history :: "target_files \<Rightarrow> string" where
  "target_history tf \<equiv> history (ft_FileName (fst tf)) (nat (ft_BackupCount (fst tf))) (snd tf)"

definition obliging :: "os_answers \<Rightarrow> bool" where
  "obliging os \<longleftrightarrow> oa_rename os \<and> (\<forall>p. oa_open os p) \<and> oa_write os = None"

lemma backups_Cons:
  "backups f n fs = map_option (fs_data fs) (fs_names fs f)
     # map (\<lambda>j. map_option (fs_data fs) (fs_names fs (backup_name f (Suc j)))) [0..<n]"
  unfolding backups_def by (simp add: upt_conv_Cons backup_name_0 map_Suc_upt [symmetric] o_def del: upt_Suc)

lemma history_append:
  assumes "target_ok t fs" "ft_fd t = Some i" "f = ft_FileName t"
  shows "history f n (append_to i s fs) = history f n fs @ s"
proof -
  have n: "fs_names fs f = Some i" "\<And>p. fs_names fs p = Some i \<Longrightarrow> p = f" using assms by (auto simp: target_ok_def)
  have "backup_name f (Suc j) \<noteq> f" for j using backup_name_inj [of f "Suc j" 0] by (simp add: backup_name_0)
  then have "fs_names fs (backup_name f (Suc j)) \<noteq> Some i" for j using n(2) by blast
  then have same: "map_option ((fs_data fs)(i := x)) (fs_names fs (backup_name f (Suc j)))
      = map_option (fs_data fs) (fs_names fs (backup_name f (Suc j)))" for j x
    by (cases "fs_names fs (backup_name f (Suc j))") auto
  show ?thesis using n(1) by (simp add: history_def backups_Cons append_to_def same held_def)
qed

lemma suffix_butlast: "xs \<noteq> [] \<Longrightarrow> suffix (concat (map g (rev (butlast xs)))) (concat (map g (rev xs)))"
  by (cases xs rule: rev_cases) (auto simp: suffix_def)

lemma rotate_kept:
  assumes "target_ok t fs" "obliging os" "target_rotate os bytes (t, fs) = (t1, fs1)"
  shows "target_ok t1 fs1 \<and> suffix (history (ft_FileName t) (nat (ft_BackupCount t)) fs1) (history (ft_FileName t) (nat (ft_BackupCount t)) fs)
    \<and> t1 = t\<lparr>ft_currentBytes := ft_currentBytes t1, ft_fd := ft_fd t1\<rparr>
    \<and> (rotates t bytes \<longrightarrow> (\<exists>i. ft_fd t1 = Some i \<and> fs_data fs1 i = [] \<and> ft_currentBytes t1 = 0))
    \<and> (\<not> rotates t bytes \<longrightarrow> t1 = t \<and> fs1 = fs)"
proof (cases "rotates t bytes")
  case False
  then have "t1 = t" "fs1 = fs" using assms(3) by (auto simp: target_rotate_def rotates_def split: if_splits)
  then show ?thesis using False assms(1) by simp
next
  case True
  let ?f = "ft_FileName t" and ?n = "nat (ft_BackupCount t)"
  have a: "oa_rename os" "\<forall>p. oa_open os p" "sane_files fs" "0 \<le> ft_BackupCount t"
    using assms(1,2) by (simp_all add: target_ok_def obliging_def)
  obtain t2 fs2 i where x: "target_rotate os bytes (t, fs) = (t2, fs2)" "t2 = t\<lparr>ft_currentBytes := 0, ft_fd := Some i\<rparr>"
    "fs_names fs2 ?f = Some i" "fs_data fs2 i = []" "i = fs_next fs" "fs_next fs2 = Suc (fs_next fs)"
    "\<And>j. j < ?n \<Longrightarrow> fs_names fs2 (backup_name ?f (Suc j)) = fs_names fs (backup_name ?f j)"
    "\<And>p. p \<notin> backup_name ?f ` {..?n} \<Longrightarrow> fs_names fs2 p = fs_names fs p" "\<And>j. j < fs_next fs \<Longrightarrow> fs_data fs2 j = fs_data fs j"
    by (rule rotate_files [OF a(1-3) True a(4) refl refl]) blast
  have e: "t2 = t1" "fs2 = fs1" using x(1) assms(3) by simp_all
  note x = x(2-) [unfolded e]
  have source: "(\<exists>j < ?n. p = backup_name ?f (Suc j) \<and> fs_names fs (backup_name ?f j) = Some k)
      \<or> (p \<notin> backup_name ?f ` {..?n} \<and> fs_names fs p = Some k)" if p: "p \<noteq> ?f" "fs_names fs1 p = Some k" for p k
  proof (cases "p \<in> backup_name ?f ` {..?n}")
    case True
    then obtain j where "j \<le> ?n" "p = backup_name ?f j" by auto
    then obtain j' where "j' < ?n" "p = backup_name ?f (Suc j')" using p(1) by (cases j) (auto simp: backup_name_0)
    then show ?thesis using x(6) p(2) by auto
  qed (use x(7) p(2) in auto)
  have old: "k < fs_next fs" if "fs_names fs p = Some k" for p k using a(3) that by (auto simp: sane_files_def ranI)
  have older: "k < fs_next fs" if "p \<noteq> ?f" "fs_names fs1 p = Some k" for p k using source [OF that] old by blast
  have only: "p = q" if "fs_names fs1 p = Some k" "fs_names fs1 q = Some k" for p q k
  proof (cases "p = ?f \<or> q = ?f")
    case True
    then have "k = i" using that x(2) by auto
    then show ?thesis using that older x(4) by (metis less_irrefl)
  next
    case False
    have inj: "fs_names fs p = Some k \<Longrightarrow> fs_names fs q = Some k \<Longrightarrow> p = q" for p q
      using assms(1) unfolding target_ok_def by blast
    from False source [OF _ that(1)] source [OF _ that(2)] show ?thesis
      by (metis inj backup_name_inj atMost_iff imageI less_imp_le)
  qed
  have "sane_files fs1" unfolding sane_files_def
  proof
    fix k
    assume "k \<in> ran (fs_names fs1)"
    then obtain p where p: "fs_names fs1 p = Some k" by (auto simp: ran_def)
    show "k < fs_next fs1"
    proof (cases "p = ?f")
      case True
      then show ?thesis using p x(2,4,5) by simp
    next
      case False
      then show ?thesis using older [OF _ p] x(5) by simp
    qed
  qed
  then have ok: "target_ok t1 fs1" using only x(1,2) a(4) unfolding target_ok_def by simp
  have "suffix (history ?f ?n fs1) (history ?f ?n fs)"
  proof -
    have b: "backups ?f ?n fs1 = Some [] # butlast (backups ?f ?n fs)"
      using rotation_shifts_backups_step [OF a(1-3) True a(4) assms(3)] by blast
    have "backups ?f ?n fs \<noteq> []" by (simp add: backups_Cons)
    then show ?thesis unfolding history_def b using suffix_butlast by (simp add: held_def)
  qed
  then show ?thesis using ok True x(1,3) by simp
qed

lemma Process_kept:
  assumes "target_ok t fs" "obliging os" "target_Process os (Some e) (t, fs) = (t1, fs1)"
  shows "target_ok t1 fs1 \<and> t1 = t\<lparr>ft_currentBytes := ft_currentBytes t1, ft_fd := ft_fd t1\<rparr>
    \<and> (if Allow (ft_Filter t) (Some e)
       then \<exists>h. suffix h (target_history (t, fs)) \<and> target_history (t1, fs1) = h @ entry_line e
       else target_history (t1, fs1) = target_history (t, fs))"
proof (cases "Allow (ft_Filter t) (Some e)")
  case False
  then show ?thesis using assms by (simp add: target_Process_def)
next
  case True
  obtain t2 fs2 where r: "(if ft_Rotate t then target_rotate os (int (length (en_Formatted e)) + 1) (t, fs) else (t, fs)) = (t2, fs2)"
    by (cases "if ft_Rotate t then target_rotate os (int (length (en_Formatted e)) + 1) (t, fs) else (t, fs)")
  have k: "target_ok t2 fs2" "suffix (history (ft_FileName t) (nat (ft_BackupCount t)) fs2) (target_history (t, fs))"
    "t2 = t\<lparr>ft_currentBytes := ft_currentBytes t2, ft_fd := ft_fd t2\<rparr>"
    using rotate_kept [OF assms(1,2)] r assms(1) by (auto split: if_splits)
  obtain i where i: "ft_fd t2 = Some i" "fs_names fs2 (ft_FileName t2) = Some i" using k(1) by (auto simp: target_ok_def)
  have same: "ft_FileName t2 = ft_FileName t" "ft_BackupCount t2 = ft_BackupCount t"
    by (subst k(3), simp)+
  have w: "t1 = t2\<lparr>ft_currentBytes := ft_currentBytes t2 + int (length (entry_line e))\<rparr>" "fs1 = append_to i (entry_line e) fs2"
    using assms(2,3) True r i(1) assms(1) by (auto simp: target_Process_def target_write_def obliging_def target_ok_def Let_def)
  have "target_ok t1 fs1" using k(1) w by (simp add: target_ok_def append_to_def sane_files_def)
  moreover have "history (ft_FileName t) (nat (ft_BackupCount t)) fs1 = history (ft_FileName t) (nat (ft_BackupCount t)) fs2 @ entry_line e"
    unfolding w(2) by (rule history_append [OF k(1) i(1)]) (simp add: same)
  moreover have "t1 = t\<lparr>ft_currentBytes := ft_currentBytes t1, ft_fd := ft_fd t1\<rparr>" unfolding w(1) by (subst k(3)) simp
  moreover have "ft_FileName t1 = ft_FileName t" "ft_BackupCount t1 = ft_BackupCount t" using w(1) same by simp_all
  ultimately show ?thesis using True k(2) by auto
qed



section \<open>Examples\<close>

definition tiny_target :: file_target where
  "tiny_target = NewFileTarget\<lparr>ft_FileName := ''a'', ft_MaxBytes := 4, ft_BackupCount := 1, ft_fd := Some 0\<rparr>"

definition tiny_files :: file_sys where
  "tiny_files = \<lparr>fs_names = [''a'' \<mapsto> 0], fs_data = (\<lambda>i. []), fs_next = 1\<rparr>"

definition say :: "string \<Rightarrow> log_entry" where
  "say s = \<lparr>en_Level = 3, en_Category = ''app'', en_Message = s, en_Time = noon, en_CallStack = [], en_ShortFile = [], en_Formatted = s\<rparr>"

lemma tiny_ok: "target_ok tiny_target tiny_files"
  by (auto simp: target_ok_def tiny_target_def tiny_files_def NewFileTarget_def sane_files_def split: if_splits)

lemma willing_obliging: "obliging willing"
  by (simp add: obliging_def willing_def)


theorem rotation_shifts_backups_witness:
  "backups ''a'' 1 (snd (target_rotate willing 3 (tiny_target\<lparr>ft_currentBytes := 2\<rparr>, tiny_files)))
   = Some [] # butlast (backups ''a'' 1 tiny_files)"
proof -
  let ?t = "tiny_target\<lparr>ft_currentBytes := 2\<rparr>"
  have o: "oa_rename willing" "\<forall>p. oa_open willing p" by (simp_all add: willing_def)
  have s: "sane_files tiny_files" using tiny_ok by (simp add: target_ok_def)
  have r: "rotates ?t 3" "0 \<le> ft_BackupCount ?t" by code_simp+
  obtain t1 fs1 where x: "target_rotate willing 3 (?t, tiny_files) = (t1, fs1)" by (cases "target_rotate willing 3 (?t, tiny_files)")
  have "ft_FileName ?t = ''a''" "nat (ft_BackupCount ?t) = 1" by code_simp+
  then show ?thesis using rotation_shifts_backups [OF o s r x] x by simp
qed

end
