(* ===== verification/Lodos_Ozzo_Core.thy ===== *)
theory Lodos_Ozzo_Core
  imports Lodos_Steps "HOL-Library.Sublist"
begin

text \<open>
  The goroutines of the copy of ozzo-log: callers of \<^verbatim>\<open>Log\<close>, \<^verbatim>\<open>process\<close> and \<^verbatim>\<open>Close\<close> of \<^verbatim>\<open>logger/ozzo-log/logger.go\<close> with targets that
  process an entry at once (\<^verbatim>\<open>file.go\<close>, \<^verbatim>\<open>console.go\<close>), and the queue of a target that sends in a goroutine of its own
  (\<^verbatim>\<open>network.go\<close>, \<^verbatim>\<open>mail.go\<close>). \<^verbatim>\<open>Close\<close> of the logger returns, with all processed that was sent before; \<^verbatim>\<open>Close\<close> of a
  queueing target may wait for ever.
\<close>

section \<open>The logger\<close>

text \<open>
  The goroutine of \<^verbatim>\<open>process\<close>: receiving, before the target of that number with an entry (\<^const>\<open>None\<close> for nil), or at its end.
  \<^verbatim>\<open>Close\<close>: not called, before it sends nil, waiting for the target of that number, returned.
\<close>

datatype 'm processor = Receives | Before_target "'m option" nat | Processor_over

datatype closer = Not_called | Sends_nil | Awaits_target nat | Closed

text \<open>
  A caller is the messages it has still to log, and whether it found the logger open for the first. \<open>co_accepted\<close>, what was sent on the channel,
  and \<open>co_mark\<close>, what of it came before nil, are observations.
\<close>

record 'm core =
  co_cap :: nat
  co_targets :: nat
  co_open :: bool
  co_chan :: "'m option list"
  co_callers :: "(bool \<times> 'm list) list"
  co_processor :: "'m processor"
  co_closer :: closer
  co_done :: "'m list"
  co_accepted :: "'m list"
  co_mark :: "'m list"

definition core_start :: "nat \<Rightarrow> nat \<Rightarrow> 'm list list \<Rightarrow> 'm core" where
  "core_start cap targets scripts =
     \<lparr>co_cap = cap, co_targets = targets, co_open = True, co_chan = [], co_callers = map (Pair False) scripts,
      co_processor = Receives, co_closer = Not_called, co_done = [], co_accepted = [], co_mark = []\<rparr>"

inductive core_step :: "'m core \<Rightarrow> 'm core \<Rightarrow> bool" where
  finds_open: "i < length (co_callers s) \<Longrightarrow> co_callers s ! i = (False, m # ms) \<Longrightarrow> co_open s \<Longrightarrow>
    core_step s (s\<lparr>co_callers := (co_callers s)[i := (True, m # ms)]\<rparr>)"
| finds_closed: "i < length (co_callers s) \<Longrightarrow> co_callers s ! i = (False, m # ms) \<Longrightarrow> \<not> co_open s \<Longrightarrow>
    core_step s (s\<lparr>co_callers := (co_callers s)[i := (False, ms)]\<rparr>)"
| sends: "i < length (co_callers s) \<Longrightarrow> co_callers s ! i = (True, m # ms) \<Longrightarrow> length (co_chan s) < co_cap s \<Longrightarrow>
    core_step s (s\<lparr>co_callers := (co_callers s)[i := (False, ms)], co_chan := co_chan s @ [Some m], co_accepted := co_accepted s @ [m]\<rparr>)"
| receives: "co_processor s = Receives \<Longrightarrow> co_chan s = e # es \<Longrightarrow>
    core_step s (s\<lparr>co_processor := Before_target e 0, co_chan := es\<rparr>)"
| processes: "co_processor s = Before_target (Some m) k \<Longrightarrow> k < co_targets s \<Longrightarrow>
    core_step s (s\<lparr>co_processor := Before_target (Some m) (k + 1)\<rparr>)"
| next_entry: "co_processor s = Before_target (Some m) (co_targets s) \<Longrightarrow>
    core_step s (s\<lparr>co_processor := Receives, co_done := co_done s @ [m]\<rparr>)"
| signals_close: "co_processor s = Before_target None k \<Longrightarrow> k < co_targets s \<Longrightarrow> co_closer s = Awaits_target k \<Longrightarrow>
    core_step s (s\<lparr>co_processor := Before_target None (k + 1), co_closer := Awaits_target (k + 1)\<rparr>)"
| processor_ends: "co_processor s = Before_target None (co_targets s) \<Longrightarrow> core_step s (s\<lparr>co_processor := Processor_over\<rparr>)"
| close_called: "co_closer s = Not_called \<Longrightarrow> core_step s (s\<lparr>co_closer := Sends_nil, co_open := False\<rparr>)"
| sends_nil: "co_closer s = Sends_nil \<Longrightarrow> length (co_chan s) < co_cap s \<Longrightarrow>
    core_step s (s\<lparr>co_closer := Awaits_target 0, co_chan := co_chan s @ [None], co_mark := co_accepted s\<rparr>)"
| close_returns: "co_closer s = Awaits_target (co_targets s) \<Longrightarrow> core_step s (s\<lparr>co_closer := Closed\<rparr>)"

section \<open>Closing\<close>

fun in_hand :: "'m processor \<Rightarrow> 'm list" where
  "in_hand (Before_target (Some m) k) = [m]" | "in_hand p = []"

fun has_nil :: "'m processor \<Rightarrow> bool" where
  "has_nil (Before_target e k) = (e = None)" | "has_nil Processor_over = True" | "has_nil Receives = False"

fun in_range :: "nat \<Rightarrow> 'm processor \<Rightarrow> bool" where
  "in_range n (Before_target e k) = (k \<le> n)" | "in_range n p = True"

fun closing_ok :: "closer \<Rightarrow> 'm core \<Rightarrow> bool" where
  "closing_ok (Awaits_target k) s \<longleftrightarrow> k \<le> co_targets s
     \<and> (k = 0 \<and> \<not> has_nil (co_processor s)
          \<and> (\<exists>a b. co_chan s = map Some a @ None # map Some b \<and> co_done s @ in_hand (co_processor s) @ a = co_mark s)
        \<or> co_done s = co_mark s \<and> None \<notin> set (co_chan s)
          \<and> (co_processor s = Before_target None k \<or> k = co_targets s \<and> co_processor s = Processor_over))"
| "closing_ok Closed s \<longleftrightarrow> co_done s = co_mark s \<and> None \<notin> set (co_chan s)
     \<and> (co_processor s = Before_target None (co_targets s) \<or> co_processor s = Processor_over)"
| "closing_ok c s \<longleftrightarrow> \<not> has_nil (co_processor s)
     \<and> (\<exists>a. co_chan s = map Some a \<and> co_done s @ in_hand (co_processor s) @ a = co_accepted s)"

definition core_inv :: "'m core \<Rightarrow> bool" where
  "core_inv s \<longleftrightarrow> 0 < co_cap s \<and> 0 < co_targets s \<and> in_range (co_targets s) (co_processor s) \<and> (co_open s \<longleftrightarrow> co_closer s = Not_called)
     \<and> (\<forall>x \<in> set (co_callers s). fst x \<longrightarrow> snd x \<noteq> []) \<and> closing_ok (co_closer s) s \<and> prefix (co_mark s) (co_accepted s)"

lemma map_Some_Cons: "map Some a = e # es \<longleftrightarrow> (\<exists>m a'. a = m # a' \<and> e = Some m \<and> es = map Some a')"
  by (cases a) auto

lemma core_inv_start: "0 < cap \<Longrightarrow> 0 < targets \<Longrightarrow> core_inv (core_start cap targets scripts)"
  by (auto simp: core_inv_def core_start_def)

lemma callers_upd:
  assumes "\<forall>x \<in> set xs. fst x \<longrightarrow> snd x \<noteq> []" "fst y \<longrightarrow> snd y \<noteq> []"
  shows "\<forall>x \<in> set (xs[i := y]). fst x \<longrightarrow> snd x \<noteq> []"
  using assms set_update_subset_insert [of xs i y] by blast

lemma closing_sends:
  assumes "closing_ok c s"
  shows "closing_ok c (s\<lparr>co_callers := cs, co_chan := co_chan s @ [Some m], co_accepted := co_accepted s @ [m]\<rparr>)"
proof (cases c)
  case (Awaits_target k)
  consider (queued) a b where "k = 0" "\<not> has_nil (co_processor s)" "co_chan s = map Some a @ None # map Some b"
      "co_done s @ in_hand (co_processor s) @ a = co_mark s"
    | (taken) "co_done s = co_mark s" "None \<notin> set (co_chan s)"
      "co_processor s = Before_target None k \<or> k = co_targets s \<and> co_processor s = Processor_over"
    using assms Awaits_target by auto
  then show ?thesis
  proof cases
    case queued
    then have "co_chan s @ [Some m] = map Some a @ None # map Some (b @ [m])" by simp
    then show ?thesis using queued Awaits_target by (simp del: map_append) blast
  next
    case taken
    then show ?thesis using assms Awaits_target by auto
  qed
next
  case Not_called
  then obtain a where "co_chan s = map Some a" "co_done s @ in_hand (co_processor s) @ a = co_accepted s" using assms by auto
  then show ?thesis using assms Not_called by (auto intro!: exI [of _ "a @ [m]"])
next
  case Sends_nil
  then obtain a where "co_chan s = map Some a" "co_done s @ in_hand (co_processor s) @ a = co_accepted s" using assms by auto
  then show ?thesis using assms Sends_nil by (auto intro!: exI [of _ "a @ [m]"])
qed (use assms in auto)

lemma map_Some_Cons': "e # es = map Some a \<longleftrightarrow> (\<exists>m a'. a = m # a' \<and> e = Some m \<and> es = map Some a')"
  by (cases a) auto

lemma closing_receives:
  assumes ok: "closing_ok c s" and s: "co_processor s = Receives" "co_chan s = e # es"
  shows "closing_ok c (s\<lparr>co_processor := Before_target e 0, co_chan := es\<rparr>)"
proof (cases c)
  case (Awaits_target k)
  then obtain a b where a: "k = 0" "e # es = map Some a @ None # map Some b" "co_done s @ a = co_mark s" using ok s by auto
  show ?thesis
  proof (cases a)
    case Nil
    then show ?thesis using a Awaits_target by auto
  next
    case (Cons m a')
    then show ?thesis using a Awaits_target by auto
  qed
next
  case Not_called
  then show ?thesis using ok s by (auto simp: map_Some_Cons')
next
  case Sends_nil
  then show ?thesis using ok s by (auto simp: map_Some_Cons')
qed (use ok s in auto)

lemma closing_unchanged:
  assumes "closing_ok c s" "in_hand p = in_hand (co_processor s)" "has_nil p = has_nil (co_processor s)" "\<not> has_nil p"
  shows "closing_ok c (s\<lparr>co_processor := p\<rparr>)" "closing_ok c (s\<lparr>co_callers := cs\<rparr>)"
  using assms by (cases c; auto)+

lemma core_inv_step:
  assumes "core_step s s'" "core_inv s"
  shows "core_inv s'"
  using assms
proof (induction rule: core_step.induct)
  case (finds_open i s m ms)
  then show ?case using callers_upd [of "co_callers s" "(True, m # ms)" i] by (cases "co_closer s") (auto simp: core_inv_def)
next
  case (finds_closed i s m ms)
  then show ?case using callers_upd [of "co_callers s" "(False, ms)" i] by (cases "co_closer s") (auto simp: core_inv_def)
next
  case (sends i s m ms)
  then show ?case using callers_upd [of "co_callers s" "(False, ms)" i] closing_sends [of "co_closer s" s]
    by (auto simp: core_inv_def)
next
  case (receives s e es)
  then show ?case using closing_receives [of "co_closer s" s] by (auto simp: core_inv_def)
next
  case (processes s m k)
  then show ?case using closing_unchanged(1) [of "co_closer s" s "Before_target (Some m) (k + 1)"] by (auto simp: core_inv_def)
next
  case (next_entry s m)
  then show ?case by (cases "co_closer s") (auto simp: core_inv_def)
next
  case (signals_close s k)
  then show ?case by (auto simp: core_inv_def)
next
  case (processor_ends s)
  then show ?case by (cases "co_closer s") (auto simp: core_inv_def)
next
  case (close_called s)
  then show ?case by (auto simp: core_inv_def)
next
  case (sends_nil s)
  then obtain a where "co_chan s = map Some a" "co_done s @ in_hand (co_processor s) @ a = co_accepted s"
    "\<not> has_nil (co_processor s)" by (auto simp: core_inv_def)
  then have "closing_ok (Awaits_target 0) (s\<lparr>co_closer := Awaits_target 0, co_chan := co_chan s @ [None], co_mark := co_accepted s\<rparr>)"
    by (simp add: exI [of _ a])
  then show ?case using sends_nil by (simp add: core_inv_def)
next
  case (close_returns s)
  then show ?case by (auto simp: core_inv_def)
qed

section \<open>The steps left\<close>

fun caller_work :: "nat \<Rightarrow> bool \<times> 'm list \<Rightarrow> nat" where
  "caller_work n (b, ms) = length ms * (n + 5) - (if b then 1 else 0)"

fun processor_work :: "nat \<Rightarrow> 'm processor \<Rightarrow> nat" where
  "processor_work n (Before_target e k) = n - k + 1" | "processor_work n p = 0"

fun closer_work :: "nat \<Rightarrow> closer \<Rightarrow> nat" where
  "closer_work n Not_called = 2 * n + 6" | "closer_work n Sends_nil = 2 * n + 5" | "closer_work n (Awaits_target k) = n - k + 1"
| "closer_work n Closed = 0"

definition core_work :: "'m core \<Rightarrow> nat" where
  "core_work s = sum_list (map (caller_work (co_targets s)) (co_callers s)) + length (co_chan s) * (co_targets s + 3)
     + processor_work (co_targets s) (co_processor s) + closer_work (co_targets s) (co_closer s)"

definition core_finished :: "'m core \<Rightarrow> bool" where
  "core_finished s \<longleftrightarrow> co_closer s = Closed \<and> co_processor s = Processor_over"

lemma sum_list_upd:
  "i < length xs \<Longrightarrow> sum_list (map w (xs[i := y])) + w (xs ! i) = sum_list (map w xs) + (w y :: nat)"
  by (induction xs arbitrary: i) (auto split: nat.splits simp: nth_Cons' gr0_conv_Suc)

lemma core_work_step:
  assumes "core_step s s'" "core_inv s"
  shows "core_work s' < core_work s"
  using assms
proof (induction rule: core_step.induct)
  case (finds_open i s m ms)
  then show ?case using sum_list_upd [of i "co_callers s" "caller_work (co_targets s)" "(True, m # ms)"] by (simp add: core_work_def)
next
  case (finds_closed i s m ms)
  then show ?case using sum_list_upd [of i "co_callers s" "caller_work (co_targets s)" "(False, ms)"] by (simp add: core_work_def)
next
  case (sends i s m ms)
  then show ?case using sum_list_upd [of i "co_callers s" "caller_work (co_targets s)" "(False, ms)"]
    by (simp add: core_work_def)
qed (auto simp: core_work_def core_inv_def)

lemma processor_moves:
  assumes "in_range (co_targets s) (co_processor s)" "\<not> has_nil (co_processor s)" "\<And>s'. \<not> core_step s s'"
  shows "co_processor s = Receives" "co_chan s = []"
proof -
  have "co_processor s = Receives \<and> co_chan s = []"
  proof (cases "co_processor s")
    case Receives
    then show ?thesis using assms(3) core_step.receives [of s] by (cases "co_chan s") auto
  next
    case (Before_target e k)
    then obtain m where "e = Some m" "k \<le> co_targets s" using assms(1,2) by (cases e) auto
    then show ?thesis using Before_target assms(3) core_step.processes [of s m k] core_step.next_entry [of s m]
      by (cases "k = co_targets s") auto
  qed (use assms(2) in auto)
  then show "co_processor s = Receives" "co_chan s = []" by simp_all
qed

lemma core_stuck:
  assumes inv: "core_inv s" and stuck: "\<And>s'. \<not> core_step s s'"
  shows "core_finished s"
proof -
  have idle: "co_processor s = Receives \<and> co_chan s = []" if "\<not> has_nil (co_processor s)"
    using processor_moves [OF _ that stuck] inv by (simp add: core_inv_def)
  have ends: "co_processor s \<noteq> Before_target None (co_targets s)" using stuck core_step.processor_ends [of s] by auto
  have ok: "closing_ok (co_closer s) s" using inv by (simp add: core_inv_def)
  show ?thesis
  proof (cases "co_closer s")
    case Not_called
    then show ?thesis using stuck core_step.close_called [of s] by blast
  next
    case Sends_nil
    then have "co_chan s = []" using idle ok by simp
    then show ?thesis using Sends_nil stuck core_step.sends_nil [of s] inv by (auto simp: core_inv_def)
  next
    case (Awaits_target k)
    have "has_nil (co_processor s)" using idle ok Awaits_target by auto
    then show ?thesis using Awaits_target ok ends stuck core_step.signals_close [of s k] core_step.close_returns [of s]
      by (cases "k = co_targets s") auto
  next
    case Closed
    then show ?thesis using ok ends by (auto simp: core_finished_def)
  qed
qed

interpretation ozzo: draining core_step core_inv core_work core_finished
  by unfold_locales (use core_inv_step core_work_step core_stuck in blast)+

text \<open>
  C18: \<^verbatim>\<open>Close\<close> returns with what its comment promises: with any number of callers and of targets that process an entry at once, in any
  schedule, boundedly many steps remain, and some goroutine can step until \<^verbatim>\<open>Close\<close> has returned and the goroutine of the logger is over; when
  \<^verbatim>\<open>Close\<close> has returned, exactly what was sent before its nil is processed, in order, by every target, however late callers still wait.
\<close>

theorem ozzo_close_returns:
  assumes "0 < cap" "0 < targets" "(core_step ^^ n) (core_start cap targets scripts) t"
  shows "n \<le> core_work (core_start cap targets scripts)
    \<and> prefix (co_mark t) (co_accepted t)
    \<and> (if co_closer t = Closed then co_done t = co_mark t else prefix (co_done t) (co_accepted t))
    \<and> (if core_finished t then co_closer t = Closed else (\<exists>u. core_step t u))"
proof -
  have b: "n \<le> core_work (core_start cap targets scripts)" "core_inv t" "core_finished t \<or> (\<exists>u. core_step t u)"
    using ozzo.bounded [OF assms(3) core_inv_start [OF assms(1,2)]] by simp_all
  have ok: "closing_ok (co_closer t) t" "prefix (co_mark t) (co_accepted t)" using b(2) by (simp_all add: core_inv_def)
  have "prefix (co_done t) (co_accepted t)"
  proof (cases "co_closer t")
    case (Awaits_target k)
    then have "prefix (co_done t) (co_mark t)" using ok(1) by (auto intro: prefixI [OF sym])
    then show ?thesis using ok(2) prefix_order.trans by blast
  qed (use ok in \<open>auto intro: prefixI [OF sym]\<close>)
  then show ?thesis using b ok by (auto simp: core_finished_def)
qed

theorem ozzo_close_returns_witness:
  "\<exists>t. core_step\<^sup>*\<^sup>* (core_start 1 2 [[1 :: nat, 2], [3]]) t \<and> core_finished t \<and> co_done t = co_mark t"
proof -
  obtain t where t: "core_step\<^sup>*\<^sup>* (core_start 1 2 [[1 :: nat, 2], [3]]) t" "core_finished t"
    using ozzo.finishes [OF core_inv_start [of 1 2]] by auto
  then obtain n where n: "(core_step ^^ n) (core_start 1 2 [[1 :: nat, 2], [3]]) t" by (auto simp: rtranclp_power)
  then have "co_done t = co_mark t" using ozzo_close_returns [OF _ _ n] t(2) by (simp add: core_finished_def)
  then show ?thesis using t by blast
qed

end
