(* ===== verification/Lodos_Ozzo_Queue.thy ===== *)
theory Lodos_Ozzo_Queue
  imports Lodos_Ozzo Lodos_Steps "HOL-Library.Sublist"
begin

text \<open>
  The targets of ozzo-log that send in a goroutine of their own, \<^verbatim>\<open>logger/ozzo-log/network.go\<close> and \<^verbatim>\<open>mail.go\<close>: what they check, connect
  to and write, and their queue, whose \<^verbatim>\<open>Process\<close> never waits. What is queued is sent in order; but the nil that ends the target is dropped
  like any entry when the queue is full, and then \<^verbatim>\<open>Close\<close> waits for ever.
\<close>

section \<open>The network target\<close>

text \<open>\<open>nt_conn\<close> is a socket by its number. The network: the sockets that are open, the answers of the next dials, and what each socket was given.\<close>

record network_target =
  nt_Filter :: log_filter
  nt_Network :: string
  nt_Address :: string
  nt_Persistent :: bool
  nt_BufferSize :: int
  nt_conn :: "nat option"

record net_world =
  nw_open :: "nat list"
  nw_dials :: "nat option list"
  nw_broken :: "nat list"
  nw_written :: "(nat \<times> string) list"

definition NewNetworkTarget :: network_target where
  "NewNetworkTarget = \<lparr>nt_Filter = plain_filter, nt_Network = [], nt_Address = [], nt_Persistent = True, nt_BufferSize = 1024, nt_conn = None\<rparr>"

definition close_socket :: "nat \<Rightarrow> net_world \<Rightarrow> net_world" where
  "close_socket c w = w\<lparr>nw_open := removeAll c (nw_open w)\<rparr>"

definition net_Dial :: "net_world \<Rightarrow> nat option \<times> net_world" where
  "net_Dial w =
     (case nw_dials w of
        Some c # ds \<Rightarrow> (Some c, w\<lparr>nw_dials := ds, nw_open := nw_open w @ [c]\<rparr>)
      | None # ds \<Rightarrow> (None, w\<lparr>nw_dials := ds\<rparr>)
      | [] \<Rightarrow> (None, w))"

definition network_connect :: "network_target \<Rightarrow> net_world \<Rightarrow> bool \<times> network_target \<times> net_world" where
  "network_connect t w =
     (let w1 = (case nt_conn t of Some c \<Rightarrow> close_socket c w | None \<Rightarrow> w);
          t1 = t\<lparr>nt_conn := None\<rparr>
      in case net_Dial w1 of
           (None, w2) \<Rightarrow> (False, t1, w2)
         | (Some c, w2) \<Rightarrow> (True, t1\<lparr>nt_conn := Some c\<rparr>, w2))"

definition network_Open :: "network_target \<Rightarrow> net_world \<Rightarrow> string option \<times> network_target \<times> net_world" where
  "network_Open t w =
     (let t1 = t\<lparr>nt_Filter := filter_Init (nt_Filter t)\<rparr>
      in if nt_BufferSize t < 0 then (Some ''NetworkTarget.BufferSize must be no less than 0'', t1, w)
         else if nt_Network t = [] then (Some ''NetworkTarget.Network must be specified'', t1, w)
         else if nt_Address t = [] then (Some ''NetworkTarget.Address must be specified'', t1, w)
         else if nt_Persistent t
              then (case network_connect (t1\<lparr>nt_conn := None\<rparr>) w of
                      (ok, t2, w2) \<Rightarrow> (if ok then None else Some ''dial error'', t2, w2))
              else (None, t1\<lparr>nt_conn := None\<rparr>, w))"

text \<open>\<^verbatim>\<open>conn.Write\<close>, on a socket that is open; and \<^verbatim>\<open>write\<close>, with its deferred close of the connection it made.\<close>

definition socket_write :: "nat \<Rightarrow> string \<Rightarrow> net_world \<Rightarrow> bool \<times> net_world" where
  "socket_write c s w =
     (if c \<in> set (nw_open w) \<and> c \<notin> set (nw_broken w) then (True, w\<lparr>nw_written := nw_written w @ [(c, s)]\<rparr>) else (False, w))"

datatype write_result = Wrote | Write_error | Nil_conn_panic

fun write_answer :: "bool \<Rightarrow> write_result" where
  "write_answer ok = (if ok then Wrote else Write_error)"

definition network_write :: "string \<Rightarrow> network_target \<Rightarrow> net_world \<Rightarrow> write_result \<times> network_target \<times> net_world" where
  "network_write s t w =
     (if nt_Persistent t
      then (case nt_conn t of
              Some c \<Rightarrow> (case socket_write c s w of (ok, w1) \<Rightarrow> (write_answer ok, t, w1))
            | None \<Rightarrow> (Nil_conn_panic, t, w))
      else (case network_connect t w of
              (False, t1, w1) \<Rightarrow> (Write_error, t1, w1)
            | (True, t1, w1) \<Rightarrow>
                (case nt_conn t1 of
                   Some c \<Rightarrow> (case socket_write c s w1 of (ok, w2) \<Rightarrow> (write_answer ok, t1, close_socket c w2))
                 | None \<Rightarrow> (Nil_conn_panic, t1, w1))))"

text \<open>What the goroutine of \<^verbatim>\<open>sendMessages\<close> does with one entry, with the errors it reports, and with nil.\<close>

fun network_send :: "log_entry option \<Rightarrow> network_target \<times> net_world \<times> write_result list \<Rightarrow> network_target \<times> net_world \<times> write_result list" where
  "network_send None (t, w, rs) = (t, (case nt_conn t of Some c \<Rightarrow> close_socket c w | None \<Rightarrow> w), rs)"
| "network_send (Some en) (t, w, rs) = (case network_write (entry_line en) t w of (r, t1, w1) \<Rightarrow> (t1, w1, rs @ [r]))"

text \<open>A target that is open: where its connection is, and that no dial answers with a socket that others have open.\<close>

definition dials_ok :: "nat list \<Rightarrow> net_world \<Rightarrow> bool" where
  "dials_ok os w \<longleftrightarrow> (\<forall>d \<in> set (nw_dials w). \<forall>c \<in> set_option d. c \<notin> set os)"

definition network_ok :: "nat list \<Rightarrow> network_target \<Rightarrow> net_world \<Rightarrow> bool" where
  "network_ok os t w \<longleftrightarrow> dials_ok os w \<and> (\<forall>c \<in> set_option (nt_conn t). c \<notin> set os)
     \<and> (if nt_Persistent t then \<exists>c. nt_conn t = Some c \<and> nw_open w = os @ [c] else nw_open w = os)"

lemma removeAll_id: "c \<notin> set os \<Longrightarrow> removeAll c os = os"
  by (induction os) auto

lemma network_connect_ok:
  assumes "network_connect t w = (ok, t1, w1)" "dials_ok os w" "\<forall>c \<in> set_option (nt_conn t). c \<notin> set os" "nw_open w = os"
  shows "dials_ok os w1 \<and> nw_written w1 = nw_written w \<and> nt_Persistent t1 = nt_Persistent t
    \<and> (if ok then \<exists>c. nt_conn t1 = Some c \<and> c \<notin> set os \<and> nw_open w1 = os @ [c] else nt_conn t1 = None \<and> nw_open w1 = os)"
  using assms
  by (cases "nt_conn t"; cases "nw_dials w")
     (auto simp: network_connect_def net_Dial_def close_socket_def dials_ok_def removeAll_id Let_def split: option.splits)

lemma network_Open_ok:
  assumes "network_Open t w = (None, t1, w1)" "dials_ok (nw_open w) w"
  shows "network_ok (nw_open w) t1 w1 \<and> nw_written w1 = nw_written w"
proof (cases "nt_Persistent t")
  case True
  let ?t = "t\<lparr>nt_Filter := filter_Init (nt_Filter t), nt_conn := None\<rparr>"
  have "network_connect ?t w = (True, t1, w1)"
    using assms(1) True by (auto simp: network_Open_def Let_def split: if_splits prod.splits)
  then show ?thesis using network_connect_ok [of ?t w True t1 w1 "nw_open w"] assms(2) True by (auto simp: network_ok_def)
qed (use assms in \<open>auto simp: network_Open_def Let_def network_ok_def split: if_splits\<close>)

lemma network_write_ok:
  assumes "network_write s t w = (r, t1, w1)" "network_ok os t w"
  shows "network_ok os t1 w1 \<and> r \<noteq> Nil_conn_panic
    \<and> map snd (nw_written w1) = map snd (nw_written w) @ (if r = Wrote then [s] else [])"
proof (cases "nt_Persistent t")
  case True
  then show ?thesis using assms
    by (auto simp: network_write_def network_ok_def socket_write_def dials_ok_def split: if_splits prod.splits)
next
  case False
  obtain ok t2 w2 where c: "network_connect t w = (ok, t2, w2)" by (cases "network_connect t w") auto
  have n: "dials_ok os w2" "nw_written w2 = nw_written w" "\<not> nt_Persistent t2"
      "if ok then \<exists>c. nt_conn t2 = Some c \<and> c \<notin> set os \<and> nw_open w2 = os @ [c] else nt_conn t2 = None \<and> nw_open w2 = os"
    using network_connect_ok [OF c, of os] assms(2) False by (auto simp: network_ok_def)
  show ?thesis
  proof (cases ok)
    case True
    then obtain c' where "nt_conn t2 = Some c'" "c' \<notin> set os" "nw_open w2 = os @ [c']" using n(4) by auto
    then show ?thesis using assms(1) c True False n
      by (auto simp: network_write_def network_ok_def socket_write_def close_socket_def dials_ok_def removeAll_id split: if_splits)
  next
    case f: False
    then show ?thesis using assms(1) c False n by (auto simp: network_write_def network_ok_def)
  qed
qed

lemma network_sends:
  assumes "fold network_send (map Some es) (t, w, rs) = (t1, w1, rs1)" "network_ok os t w"
  shows "\<exists>new. rs1 = rs @ new \<and> length new = length es \<and> Nil_conn_panic \<notin> set new \<and> network_ok os t1 w1
    \<and> map snd (nw_written w1) = map snd (nw_written w) @ map (entry_line \<circ> fst) (filter (\<lambda>x. snd x = Wrote) (zip es new))"
  using assms
proof (induction es arbitrary: t w rs)
  case (Cons e es)
  obtain r t2 w2 where w: "network_write (entry_line e) t w = (r, t2, w2)" by (cases "network_write (entry_line e) t w") auto
  have n: "network_ok os t2 w2" "r \<noteq> Nil_conn_panic"
      "map snd (nw_written w2) = map snd (nw_written w) @ (if r = Wrote then [entry_line e] else [])"
    using network_write_ok [OF w Cons.prems(2)] by simp_all
  obtain new where "rs1 = (rs @ [r]) @ new" "length new = length es" "Nil_conn_panic \<notin> set new" "network_ok os t1 w1"
      "map snd (nw_written w1) = map snd (nw_written w2) @ map (entry_line \<circ> fst) (filter (\<lambda>x. snd x = Wrote) (zip es new))"
    using Cons.IH [of t2 w2 "rs @ [r]"] Cons.prems(1) w n(1) by auto
  then show ?case using n by (intro exI [of _ "r # new"]) auto
qed auto

text \<open>
  a network target that has opened writes every entry it sends, in order, each as one line, or reports its failure, whether it keeps its
  connection or makes one for each entry; it never uses a connection it does not have; and when it is closed no socket of its own is left open.
\<close>

theorem network_target_accounts:
  assumes "network_Open t w = (None, t1, w1)" "dials_ok (nw_open w) w"
    "fold network_send (map Some es @ [None]) (t1, w1, []) = (t2, w2, rs)"
  shows "length rs = length es \<and> Nil_conn_panic \<notin> set rs \<and> nw_open w2 = nw_open w
    \<and> map snd (nw_written w2) = map snd (nw_written w) @ map (entry_line \<circ> fst) (filter (\<lambda>x. snd x = Wrote) (zip es rs))"
proof -
  obtain t3 w3 rs3 where f: "fold network_send (map Some es) (t1, w1, []) = (t3, w3, rs3)"
    by (cases "fold network_send (map Some es) (t1, w1, [])") auto
  have o: "network_ok (nw_open w) t1 w1" "nw_written w1 = nw_written w" using network_Open_ok [OF assms(1,2)] by simp_all
  have r: "rs = rs3" "t2 = t3" "w2 = (case nt_conn t3 of Some c \<Rightarrow> close_socket c w3 | None \<Rightarrow> w3)" using assms(3) f by auto
  have "nw_open w2 = nw_open w" "nw_written w2 = nw_written w3"
    using network_sends [OF f o(1)] unfolding r network_ok_def
    by (auto simp: close_socket_def removeAll_id split: option.splits if_splits)
  then show ?thesis using network_sends [OF f o(1)] r o(2) by auto
qed

definition plain_entry :: "string \<Rightarrow> log_entry" where
  "plain_entry s = \<lparr>en_Level = 7, en_Category = ''app'', en_Message = s, en_Time = \<lparr>lt_day = 1, lt_date = [], lt_header = [], lt_nanos = 0\<rparr>, en_CallStack = [], en_ShortFile = [],
     en_Formatted = s\<rparr>"

theorem network_target_accounts_witness:
  "\<exists>t1 w1 t2 w2 rs.
     network_Open (NewNetworkTarget\<lparr>nt_Network := ''tcp'', nt_Address := ''host:1'', nt_Persistent := False\<rparr>)
       \<lparr>nw_open = [7], nw_dials = [Some 1, None, Some 2], nw_broken = [], nw_written = []\<rparr> = (None, t1, w1)
     \<and> fold network_send (map Some [plain_entry ''a'', plain_entry ''b'', plain_entry ''c''] @ [None]) (t1, w1, []) = (t2, w2, rs)
     \<and> rs = [Wrote, Write_error, Wrote] \<and> nw_open w2 = [7] \<and> length (nw_written w2) = 2"
proof -
  let ?t = "NewNetworkTarget\<lparr>nt_Network := ''tcp'', nt_Address := ''host:1'', nt_Persistent := False\<rparr>"
  let ?w = "\<lparr>nw_open = [7], nw_dials = [Some 1, None, Some 2], nw_broken = [], nw_written = []\<rparr>"
  let ?es = "[plain_entry ''a'', plain_entry ''b'', plain_entry ''c'']"
  obtain o1 t1 w1 where o: "network_Open ?t ?w = (o1, t1, w1)" by (cases "network_Open ?t ?w") auto
  obtain t2 w2 rs where f: "fold network_send (map Some ?es @ [None]) (t1, w1, []) = (t2, w2, rs)"
    by (cases "fold network_send (map Some ?es @ [None]) (t1, w1, [])") auto
  have none: "o1 = None" using o by (simp add: network_Open_def NewNetworkTarget_def Let_def)
  have rs: "rs = [Wrote, Write_error, Wrote]" using o f
    by (auto simp: network_Open_def NewNetworkTarget_def network_write_def network_connect_def net_Dial_def socket_write_def
        close_socket_def Let_def)
  have "nw_open w2 = [7] \<and> map snd (nw_written w2) = [] @ map (entry_line \<circ> fst) (filter (\<lambda>x. snd x = Wrote) (zip ?es rs))"
    using network_target_accounts [OF o [unfolded none] _ f] by (simp add: dials_ok_def)
  then have "nw_open w2 = [7]" "length (map snd (nw_written w2)) = 2" unfolding rs by simp_all
  then show ?thesis using o f none rs by auto
qed

section \<open>The mail target\<close>

record mail_target =
  mt_Filter :: log_filter
  mt_Host :: string
  mt_Username :: string
  mt_Password :: string
  mt_Subject :: string
  mt_Sender :: string
  mt_Recipients :: "string list"
  mt_BufferSize :: int

definition NewMailTarget :: mail_target where
  "NewMailTarget = \<lparr>mt_Filter = plain_filter, mt_Host = [], mt_Username = [], mt_Password = [], mt_Subject = [], mt_Sender = [],
     mt_Recipients = [], mt_BufferSize = 1024\<rparr>"

definition mail_Open :: "mail_target \<Rightarrow> string option \<times> mail_target" where
  "mail_Open t =
     (let t1 = t\<lparr>mt_Filter := filter_Init (mt_Filter t)\<rparr>
      in (if mt_Host t = [] then Some ''MailTarget.Host must be specified''
          else if mt_Username t = [] then Some ''MailTarget.Username must be specified''
          else if mt_Subject t = [] then Some ''MailTarget.Subject must be specified''
          else if mt_Sender t = [] then Some ''MailTarget.Sender must be specified''
          else if mt_Recipients t = [] then Some ''MailTarget.Recipients must be specified''
          else if mt_BufferSize t < 0 then Some ''MailTarget.BufferSize must be no less than 0''
          else None, t1))"

text \<open>The mail of an entry, and the arguments of \<^verbatim>\<open>smtp.PlainAuth\<close> and \<^verbatim>\<open>smtp.SendMail\<close> it is sent with.\<close>

definition crlf :: string where
  "crlf = [CHR 0x0D, CHR 0x0A]"

definition mail_text :: "mail_target \<Rightarrow> string \<Rightarrow> string" where
  "mail_text t message = ''To: '' @ join_with (CHR '';'') (mt_Recipients t) @ crlf @ ''From: '' @ mt_Sender t @ crlf @ ''Subject: '' @ mt_Subject t
     @ crlf @ ''Content-Type: text/plain; charset=UTF-8'' @ crlf @ crlf @ message"

definition mail_auth :: "mail_target \<Rightarrow> string \<times> string \<times> string \<times> string" where
  "mail_auth t = ([], mt_Username t, mt_Password t, takeWhile (\<lambda>c. c \<noteq> CHR '':'') (mt_Host t))"

type_synonym 'a send_mail = "string \<Rightarrow> 'a \<Rightarrow> string \<Rightarrow> string list \<Rightarrow> string \<Rightarrow> bool"

definition mail_write :: "(string \<times> string \<times> string \<times> string) send_mail \<Rightarrow> mail_target \<Rightarrow> log_entry \<Rightarrow> bool" where
  "mail_write SendMail t en = SendMail (mt_Host t) (mail_auth t) (mt_Sender t) (mt_Recipients t) (mail_text t (entry_line en))"

section \<open>The queue\<close>

text \<open>
  The logger's goroutine has the entries of \<open>qu_left\<close> still to give to \<^verbatim>\<open>Process\<close>, the last of them nil. The sender waits on the queue or holds an
  entry. \<^verbatim>\<open>Close\<close> waits on \<^verbatim>\<open>close\<close> from the start: the logger calls it as soon as its nil is on its way. A channel without buffer
  hands an entry over to a sender that waits; when the sender has not come to its receive yet, the select takes its default there too.
\<close>

datatype sender = Sender_waits | Sender_holds "log_entry option" | Sender_over

record queue_target =
  qu_cap :: nat
  qu_Filter :: log_filter
  qu_left :: "log_entry option list"
  qu_chan :: "log_entry option list"
  qu_sender :: sender
  qu_closed :: bool
  qu_sent :: "log_entry list"
  qu_accepted :: "log_entry option list"

definition queue_start :: "nat \<Rightarrow> log_filter \<Rightarrow> log_entry option list \<Rightarrow> queue_target" where
  "queue_start cap f es = \<lparr>qu_cap = cap, qu_Filter = f, qu_left = es, qu_chan = [], qu_sender = Sender_waits, qu_closed = False,
     qu_sent = [], qu_accepted = []\<rparr>"

inductive queue_step :: "queue_target \<Rightarrow> queue_target \<Rightarrow> bool" where
  not_allowed: "qu_left s = e # es \<Longrightarrow> \<not> Allow (qu_Filter s) e \<Longrightarrow> queue_step s (s\<lparr>qu_left := es\<rparr>)"
| accepts: "qu_left s = e # es \<Longrightarrow> Allow (qu_Filter s) e \<Longrightarrow> length (qu_chan s) < qu_cap s \<Longrightarrow>
    queue_step s (s\<lparr>qu_left := es, qu_chan := qu_chan s @ [e], qu_accepted := qu_accepted s @ [e]\<rparr>)"
| hands_over: "qu_left s = e # es \<Longrightarrow> Allow (qu_Filter s) e \<Longrightarrow> qu_cap s = 0 \<Longrightarrow> qu_sender s = Sender_waits \<Longrightarrow>
    queue_step s (s\<lparr>qu_left := es, qu_sender := Sender_holds e, qu_accepted := qu_accepted s @ [e]\<rparr>)"
| drops: "qu_left s = e # es \<Longrightarrow> Allow (qu_Filter s) e \<Longrightarrow> length (qu_chan s) = qu_cap s \<Longrightarrow> queue_step s (s\<lparr>qu_left := es\<rparr>)"
| takes: "qu_sender s = Sender_waits \<Longrightarrow> qu_chan s = e # es \<Longrightarrow>
    queue_step s (s\<lparr>qu_sender := Sender_holds e, qu_chan := es\<rparr>)"
| sends_entry: "qu_sender s = Sender_holds (Some en) \<Longrightarrow>
    queue_step s (s\<lparr>qu_sender := Sender_waits, qu_sent := qu_sent s @ [en]\<rparr>)"
| ends: "qu_sender s = Sender_holds None \<Longrightarrow> queue_step s (s\<lparr>qu_sender := Sender_over, qu_closed := True\<rparr>)"

fun sender_has :: "sender \<Rightarrow> log_entry option list" where
  "sender_has Sender_waits = []" | "sender_has (Sender_holds e) = [e]" | "sender_has Sender_over = [None]"

definition queue_inv :: "log_entry option list \<Rightarrow> queue_target \<Rightarrow> bool" where
  "queue_inv given s \<longleftrightarrow> qu_accepted s = map Some (qu_sent s) @ sender_has (qu_sender s) @ qu_chan s
     \<and> (qu_closed s \<longleftrightarrow> qu_sender s = Sender_over) \<and> length (qu_chan s) \<le> qu_cap s
     \<and> (\<exists>gone. given = gone @ qu_left s \<and> subseq (qu_accepted s) (filter (Allow (qu_Filter s)) gone))
     \<and> (qu_left s = [] \<or> (\<exists>es. qu_left s = map Some es @ [None]))
     \<and> (None \<in> set (qu_accepted s) \<longrightarrow> qu_left s = [] \<and> (\<exists>as. qu_accepted s = map Some as @ [None]))"

definition queue_work :: "queue_target \<Rightarrow> nat" where
  "queue_work s = 3 * length (qu_left s) + 2 * length (qu_chan s) + (case qu_sender s of Sender_holds e \<Rightarrow> 1 | _ \<Rightarrow> 0)"

definition queue_over :: "queue_target \<Rightarrow> bool" where
  "queue_over s \<longleftrightarrow> qu_left s = [] \<and> qu_chan s = [] \<and> (qu_sender s = Sender_waits \<or> qu_sender s = Sender_over)"

lemma queue_inv_start: "queue_inv (map Some es @ [None]) (queue_start cap f (map Some es @ [None]))"
  by (auto simp: queue_inv_def queue_start_def)

lemma left_tail: "e # es = map Some xs @ [None] \<Longrightarrow> (e = None \<and> es = []) \<or> (\<exists>m ys. e = Some m \<and> es = map Some ys @ [None])"
  by (cases xs) auto

lemma all_Some: "None \<notin> set xs \<Longrightarrow> \<exists>as. xs = map Some as"
  by (rule exI [of _ "map the xs"]) (induction xs, auto)

lemma given_tail:
  assumes "given = gone @ e # es" "subseq acc (filter P gone)"
  shows "\<exists>g. given = g @ es \<and> subseq acc (filter P g)" "P e \<Longrightarrow> \<exists>g. given = g @ es \<and> subseq (acc @ [e]) (filter P g)"
  using assms by (auto intro!: exI [of _ "gone @ [e]"] list_emb_append_mono intro: subseq_rev_drop_many)

lemma queue_drop_inv:
  assumes "queue_inv given s" "qu_left s = e # es"
  shows "queue_inv given (s\<lparr>qu_left := es\<rparr>)"
proof -
  have l: "es = [] \<or> (\<exists>xs. es = map Some xs @ [None])" using assms left_tail [of e es] by (auto simp: queue_inv_def)
  obtain gone where "given = gone @ e # es" "subseq (qu_accepted s) (filter (Allow (qu_Filter s)) gone)"
    using assms by (auto simp: queue_inv_def)
  then have g: "\<exists>g. given = g @ es \<and> subseq (qu_accepted s) (filter (Allow (qu_Filter s)) g)" by (rule given_tail(1))
  have "None \<notin> set (qu_accepted s)" using assms by (auto simp: queue_inv_def)
  then show ?thesis using assms l g by (simp add: queue_inv_def)
qed

lemma queue_accept_inv:
  assumes "queue_inv given s" "qu_left s = e # es" "Allow (qu_Filter s) e"
    and t: "qu_accepted t = qu_accepted s @ [e]" "qu_left t = es" "qu_Filter t = qu_Filter s" "qu_closed t = qu_closed s"
      "qu_sent t = qu_sent s" "sender_has (qu_sender t) @ qu_chan t = sender_has (qu_sender s) @ qu_chan s @ [e]"
      "qu_sender t = Sender_over \<longleftrightarrow> qu_sender s = Sender_over" "length (qu_chan t) \<le> qu_cap t"
  shows "queue_inv given t"
proof -
  have n: "None \<notin> set (qu_accepted s)" using assms(1,2) by (auto simp: queue_inv_def)
  then obtain as where as: "qu_accepted s = map Some as" using all_Some by blast
  have l: "e = None \<and> es = [] \<or> (\<exists>m xs. e = Some m \<and> es = map Some xs @ [None])"
    using assms(1,2) left_tail [of e es] by (auto simp: queue_inv_def)
  obtain gone where "given = gone @ e # es" "subseq (qu_accepted s) (filter (Allow (qu_Filter s)) gone)"
    using assms(1,2) by (auto simp: queue_inv_def)
  then have g: "\<exists>g. given = g @ es \<and> subseq (qu_accepted s @ [e]) (filter (Allow (qu_Filter s)) g)"
    by (rule given_tail(2)) (rule assms(3))
  have q: "qu_accepted s = map Some (qu_sent s) @ sender_has (qu_sender s) @ qu_chan s"
      "qu_closed s \<longleftrightarrow> qu_sender s = Sender_over" using assms(1) by (simp_all add: queue_inv_def)
  have c: "qu_accepted s @ [e] = map Some (as @ [m])" if "e = Some m" for m using as that by simp
  have "None \<in> set (qu_accepted t) \<longrightarrow> qu_left t = [] \<and> (\<exists>as. qu_accepted t = map Some as @ [None])"
    using n l as unfolding t by auto
  moreover have "qu_left t = [] \<or> (\<exists>es. qu_left t = map Some es @ [None])" using l unfolding t by auto
  moreover have "qu_accepted t = map Some (qu_sent t) @ sender_has (qu_sender t) @ qu_chan t" using q(1) unfolding t by simp
  ultimately show ?thesis unfolding queue_inv_def using g q(2) t by metis
qed

lemma queue_sender_inv:
  assumes "queue_inv given s"
    and t: "qu_accepted t = qu_accepted s" "qu_left t = qu_left s" "qu_Filter t = qu_Filter s" "qu_closed t \<longleftrightarrow> qu_sender t = Sender_over"
      "map Some (qu_sent t) @ sender_has (qu_sender t) @ qu_chan t = map Some (qu_sent s) @ sender_has (qu_sender s) @ qu_chan s"
      "length (qu_chan t) \<le> qu_cap t"
  shows "queue_inv given t"
proof -
  have "qu_accepted s = map Some (qu_sent s) @ sender_has (qu_sender s) @ qu_chan s" using assms(1) by (simp add: queue_inv_def)
  then show ?thesis using assms(1) t(4,6) unfolding queue_inv_def t by (intro conjI) blast+
qed

lemma queue_inv_step:
  assumes "queue_step s t" "queue_inv given s"
  shows "queue_inv given t"
  using assms
proof (induction rule: queue_step.induct)
  case (not_allowed s e es)
  then show ?case using queue_drop_inv by blast
next
  case (accepts s e es)
  show ?case by (rule queue_accept_inv [OF accepts(4,1,2)]) (use accepts in \<open>auto simp: queue_inv_def\<close>)
next
  case (hands_over s e es)
  show ?case by (rule queue_accept_inv [OF hands_over(5,1,2)]) (use hands_over in \<open>auto simp: queue_inv_def\<close>)
next
  case (drops s e es)
  then show ?case using queue_drop_inv by blast
next
  case (takes s e es)
  show ?case by (rule queue_sender_inv [OF takes(3)]) (use takes in \<open>auto simp: queue_inv_def\<close>)
next
  case (sends_entry s en)
  show ?case by (rule queue_sender_inv [OF sends_entry(2)]) (use sends_entry in \<open>auto simp: queue_inv_def\<close>)
next
  case (ends s)
  show ?case by (rule queue_sender_inv [OF ends(2)]) (use ends in \<open>auto simp: queue_inv_def\<close>)
qed

lemma queue_work_step: "queue_step s t \<Longrightarrow> queue_work t < queue_work s"
  by (induction rule: queue_step.induct) (auto simp: queue_work_def split: sender.splits)

lemma queue_stuck:
  assumes inv: "queue_inv given s" and stuck: "\<And>t. \<not> queue_step s t"
  shows "queue_over s"
proof -
  have "qu_left s = []"
  proof (cases "qu_left s")
    case (Cons e es)
    then show ?thesis using stuck queue_step.not_allowed [OF Cons] queue_step.accepts [OF Cons] queue_step.drops [OF Cons] inv
      by (auto simp: queue_inv_def le_less)
  qed
  moreover have "qu_sender s = Sender_waits \<and> qu_chan s = [] \<or> qu_sender s = Sender_over"
  proof (cases "qu_sender s")
    case Sender_waits
    then show ?thesis using stuck queue_step.takes [of s] by (cases "qu_chan s") auto
  next
    case (Sender_holds e)
    then show ?thesis using stuck queue_step.sends_entry [of s] queue_step.ends [of s] by (cases e) auto
  qed simp
  moreover have "qu_chan s = []" if "qu_sender s = Sender_over"
  proof -
    have d: "qu_accepted s = map Some (qu_sent s) @ None # qu_chan s" using inv that by (simp add: queue_inv_def)
    have "None \<in> set (qu_accepted s)" unfolding d by simp
    then obtain as where "qu_accepted s = map Some as @ [None]" using inv unfolding queue_inv_def by blast
    then have eq: "map Some as @ [None] = map Some (qu_sent s) @ None # qu_chan s" using d by simp
    show ?thesis
    proof (cases "qu_chan s" rule: rev_cases)
      case (snoc ys y)
      then have "map Some as = map Some (qu_sent s) @ None # ys" using eq by simp
      then have "None \<in> set (map Some as)" by simp
      then show ?thesis by auto
    qed
  qed
  ultimately show ?thesis by (auto simp: queue_over_def)
qed

lemma queue_filter_kept: "(queue_step ^^ n) s t \<Longrightarrow> qu_Filter t = qu_Filter s"
proof (induction n arbitrary: t)
  case (Suc n)
  then obtain u where u: "(queue_step ^^ n) s u" "queue_step u t" by auto
  have "qu_Filter t = qu_Filter u" using u(2) by (induction rule: queue_step.induct) auto
  then show ?case using Suc.IH [OF u(1)] by simp
qed simp

interpretation queue: draining queue_step "queue_inv given" queue_work queue_over for given
  by unfold_locales (use queue_inv_step queue_work_step queue_stuck in blast)+

text \<open>
  C19: a target that sends in its own goroutine never holds up the logger, and what its queue accepts is sent once, in order: in any schedule
  boundedly many steps remain, the accepted entries are a subsequence of those the filter allows, those sent a prefix of the accepted; in the end
  all accepted are sent; and then \<^verbatim>\<open>Close\<close> has returned exactly when the queue had room for the nil.
\<close>

theorem queue_target_delivers:
  assumes "(queue_step ^^ n) (queue_start cap f (map Some es @ [None])) t"
  shows "n \<le> 3 * (length es + 1)
    \<and> subseq (qu_accepted t) (filter (Allow f) (map Some es @ [None]))
    \<and> prefix (map Some (qu_sent t)) (qu_accepted t)
    \<and> (if queue_over t then qu_accepted t = map Some (qu_sent t) @ (if qu_closed t then [None] else [])
       else (\<exists>u. queue_step t u))"
proof -
  let ?g = "map Some es @ [None]"
  have b: "n \<le> queue_work (queue_start cap f ?g)" "queue_inv ?g t" "queue_over t \<or> (\<exists>u. queue_step t u)"
    using queue.bounded [OF assms queue_inv_start] by simp_all
  obtain gone where g: "?g = gone @ qu_left t" "subseq (qu_accepted t) (filter (Allow (qu_Filter t)) gone)"
    using b(2) by (auto simp: queue_inv_def)
  have d: "qu_accepted t = map Some (qu_sent t) @ sender_has (qu_sender t) @ qu_chan t"
      "qu_closed t \<longleftrightarrow> qu_sender t = Sender_over" using b(2) by (simp_all add: queue_inv_def)
  have "subseq (qu_accepted t) (filter (Allow (qu_Filter t)) ?g)" 
    unfolding g(1) using g(2) by (simp add: list_emb_prefix)
  moreover have "n \<le> 3 * (length es + 1)" using b(1) by (simp add: queue_work_def queue_start_def)
  moreover have "prefix (map Some (qu_sent t)) (qu_accepted t)" unfolding d(1) by simp
  moreover have "qu_accepted t = map Some (qu_sent t) @ (if qu_closed t then [None] else [])" if "queue_over t"
    unfolding d using that by (auto simp: queue_over_def)
  moreover have "qu_Filter t = f" using queue_filter_kept [OF assms] by (simp add: queue_start_def)
  ultimately show ?thesis using b(3) by auto
qed

theorem queue_target_delivers_witness:
  "\<exists>t. queue_step\<^sup>*\<^sup>* (queue_start 0 plain_filter (map Some [plain_entry ''a'', plain_entry ''b''] @ [None])) t \<and> queue_over t
     \<and> qu_accepted t = map Some (qu_sent t) @ (if qu_closed t then [None] else [])"
proof -
  let ?s = "queue_start 0 plain_filter (map Some [plain_entry ''a'', plain_entry ''b''] @ [None])"
  obtain t where t: "queue_step\<^sup>*\<^sup>* ?s t" "queue_over t" using queue.finishes [OF queue_inv_start] by blast
  then obtain n where n: "(queue_step ^^ n) ?s t" by (auto simp: rtranclp_power)
  have "qu_accepted t = map Some (qu_sent t) @ (if qu_closed t then [None] else [])"
    using queue_target_delivers [OF n] t(2) by simp
  then show ?thesis using t by blast
qed

text \<open>A schedule in which the sender starts late: the queue fills, nil is dropped, and the sender empties the queue.\<close>

definition filling :: "nat \<Rightarrow> nat \<Rightarrow> queue_target" where
  "filling cap k = (queue_start cap plain_filter (replicate (cap - k) (Some (plain_entry ''x'')) @ [None]))
     \<lparr>qu_chan := replicate k (Some (plain_entry ''x'')), qu_accepted := replicate k (Some (plain_entry ''x''))\<rparr>"

definition draining_queue :: "nat \<Rightarrow> nat \<Rightarrow> queue_target" where
  "draining_queue cap k = (queue_start cap plain_filter [])
     \<lparr>qu_chan := replicate (cap - k) (Some (plain_entry ''x'')), qu_accepted := replicate cap (Some (plain_entry ''x'')),
      qu_sent := replicate k (plain_entry ''x'')\<rparr>"

lemma queue_fills: "k \<le> cap \<Longrightarrow> queue_step\<^sup>*\<^sup>* (filling cap 0) (filling cap k)"
proof (induction k)
  case (Suc k)
  have "queue_step (filling cap k) (filling cap (Suc k))"
    using queue_step.accepts [of "filling cap k" "Some (plain_entry ''x'')" "replicate (cap - Suc k) (Some (plain_entry ''x'')) @ [None]"]
      Suc.prems Suc_diff_Suc [of k cap]
    by (simp add: filling_def queue_start_def Allow_def plain_filter_def plain_entry_def replicate_append_same flip: replicate_Suc)
  then show ?case using Suc by simp
qed simp

lemma queue_empties: "k \<le> cap \<Longrightarrow> queue_step\<^sup>*\<^sup>* (draining_queue cap 0) (draining_queue cap k)"
proof (induction k)
  case (Suc k)
  let ?s = "draining_queue cap k"
  have c: "qu_chan ?s = Some (plain_entry ''x'') # replicate (cap - Suc k) (Some (plain_entry ''x''))"
    using Suc.prems Suc_diff_Suc [of k cap] by (simp add: draining_queue_def flip: replicate_Suc)
  let ?u = "?s\<lparr>qu_sender := Sender_holds (Some (plain_entry ''x'')), qu_chan := replicate (cap - Suc k) (Some (plain_entry ''x''))\<rparr>"
  have "queue_step ?s ?u" by (rule queue_step.takes) (simp_all add: c, simp add: draining_queue_def queue_start_def)
  moreover have "queue_step ?u (draining_queue cap (Suc k))"
    using queue_step.sends_entry [of ?u "plain_entry ''x''"]
    by (simp add: draining_queue_def queue_start_def replicate_append_same)
  ultimately show ?case using Suc by (meson Suc_leD rtranclp.rtrancl_into_rtrancl)
qed simp

text \<open>
  \<^verbatim>\<open>Close\<close> of such a target may wait for ever: with the filter and the buffer of \<^verbatim>\<open>NewNetworkTarget\<close> there is a
  schedule in which the buffer is full when the logger passes on its nil, which the select of \<^verbatim>\<open>Process\<close> then drops; every entry is sent, no
  goroutine can step any more and \<^verbatim>\<open>Close\<close> has not returned.
\<close>

theorem queue_close_may_hang:
  "\<exists>t. queue_step\<^sup>*\<^sup>* (queue_start (nat (nt_BufferSize NewNetworkTarget)) (nt_Filter NewNetworkTarget)
          (replicate 1024 (Some (plain_entry ''x'')) @ [None])) t
     \<and> length (qu_sent t) = 1024 \<and> \<not> qu_closed t \<and> (\<nexists>u. queue_step t u)"
proof -
  let ?t = "draining_queue 1024 1024"
  have "queue_step (filling 1024 1024) (draining_queue 1024 0)"
    using queue_step.drops [of "filling 1024 1024" None "[]"]
    by (simp add: filling_def draining_queue_def queue_start_def Allow_def)
  then have "queue_step\<^sup>*\<^sup>* (filling 1024 0) ?t"
    using queue_fills [of 1024 1024] queue_empties [of 1024 1024] by simp
  moreover have "filling 1024 0 = queue_start 1024 plain_filter (replicate 1024 (Some (plain_entry ''x'')) @ [None])"
    by (simp add: filling_def queue_start_def)
  moreover have "\<nexists>u. queue_step ?t u" by (auto simp: draining_queue_def queue_start_def elim!: queue_step.cases)
  ultimately show ?thesis
    by (intro exI [of _ ?t]) (simp add: NewNetworkTarget_def, simp add: draining_queue_def queue_start_def)
qed

end
