(* ===== verification/Lodos_Ansi.thy ===== *)
theory Lodos_Ansi
  imports Lodos_Log
begin

unbundle bit_operations_syntax

text \<open>
  The writer of \<^verbatim>\<open>log/beego/color_windows.go\<close>, which turns the colour sequences in a text into attributes of a Windows console: a machine of
  three states over the bytes it is given, called with a piece of the text at a time. A text that is given whole is shown in the colours its
  sequences ask for; a sequence that is divided between two calls loses the text before it, or panics.
\<close>

section \<open>Attributes\<close>

definition foregroundBlue :: "16 word" where "foregroundBlue = 0x0001"
definition foregroundGreen :: "16 word" where "foregroundGreen = 0x0002"
definition foregroundRed :: "16 word" where "foregroundRed = 0x0004"
definition foregroundIntensity :: "16 word" where "foregroundIntensity = 0x0008"
definition backgroundBlue :: "16 word" where "backgroundBlue = 0x0010"
definition backgroundGreen :: "16 word" where "backgroundGreen = 0x0020"
definition backgroundRed :: "16 word" where "backgroundRed = 0x0040"
definition backgroundIntensity :: "16 word" where "backgroundIntensity = 0x0080"
definition underscore :: "16 word" where "underscore = 0x8000"

definition foregroundMask :: "16 word" where
  "foregroundMask = foregroundBlue OR foregroundGreen OR foregroundRed OR foregroundIntensity"

definition backgroundMask :: "16 word" where
  "backgroundMask = backgroundBlue OR backgroundGreen OR backgroundRed OR backgroundIntensity"

lemmas attribute_bits = foregroundBlue_def foregroundGreen_def foregroundRed_def foregroundIntensity_def backgroundBlue_def
  backgroundGreen_def backgroundRed_def backgroundIntensity_def underscore_def foregroundMask_def backgroundMask_def

record text_attributes =
  ta_foregroundColor :: "16 word"
  ta_backgroundColor :: "16 word"
  ta_foregroundIntensity :: "16 word"
  ta_backgroundIntensity :: "16 word"
  ta_underscore :: "16 word"
  ta_otherAttributes :: "16 word"

definition convertTextAttr :: "16 word \<Rightarrow> text_attributes" where
  "convertTextAttr w =
     \<lparr>ta_foregroundColor = w AND (foregroundRed OR foregroundGreen OR foregroundBlue),
      ta_backgroundColor = w AND (backgroundRed OR backgroundGreen OR backgroundBlue),
      ta_foregroundIntensity = w AND foregroundIntensity,
      ta_backgroundIntensity = w AND backgroundIntensity,
      ta_underscore = w AND underscore,
      ta_otherAttributes = w AND NOT (foregroundMask OR backgroundMask OR underscore)\<rparr>"

definition convertWinAttr :: "text_attributes \<Rightarrow> 16 word" where
  "convertWinAttr a = ta_foregroundColor a OR ta_backgroundColor a OR ta_foregroundIntensity a OR ta_backgroundIntensity a
     OR ta_underscore a OR ta_otherAttributes a"

text \<open>The codes of colours, of which \<^verbatim>\<open>init\<close> replaces the defaults by those of the console, when there is one.\<close>

datatype draw_type = Foreground | Background

definition colorMap :: "16 word option \<Rightarrow> string \<Rightarrow> (16 word \<times> draw_type) option" where
  "colorMap at_init = map_of
     [(''30'', (0, Foreground)), (''31'', (foregroundRed, Foreground)), (''32'', (foregroundGreen, Foreground)),
      (''33'', (foregroundRed OR foregroundGreen, Foreground)), (''34'', (foregroundBlue, Foreground)),
      (''35'', (foregroundRed OR foregroundBlue, Foreground)), (''36'', (foregroundGreen OR foregroundBlue, Foreground)),
      (''37'', (foregroundRed OR foregroundGreen OR foregroundBlue, Foreground)),
      (''39'', ((case at_init of None \<Rightarrow> 0xFFFF | Some w \<Rightarrow> w) AND (foregroundRed OR foregroundGreen OR foregroundBlue), Foreground)),
      (''40'', (0, Background)), (''41'', (backgroundRed, Background)), (''42'', (backgroundGreen, Background)),
      (''43'', (backgroundRed OR backgroundGreen, Background)), (''44'', (backgroundBlue, Background)),
      (''45'', (backgroundRed OR backgroundBlue, Background)), (''46'', (backgroundGreen OR backgroundBlue, Background)),
      (''47'', (backgroundRed OR backgroundGreen OR backgroundBlue, Background)),
      (''49'', ((case at_init of None \<Rightarrow> 0 | Some w \<Rightarrow> w) AND (backgroundRed OR backgroundGreen OR backgroundBlue), Background)),
      (''90'', (foregroundIntensity, Foreground)), (''91'', (foregroundIntensity OR foregroundRed, Foreground)),
      (''92'', (foregroundIntensity OR foregroundGreen, Foreground)),
      (''93'', (foregroundIntensity OR foregroundRed OR foregroundGreen, Foreground)),
      (''94'', (foregroundIntensity OR foregroundBlue, Foreground)),
      (''95'', (foregroundIntensity OR foregroundRed OR foregroundBlue, Foreground)),
      (''96'', (foregroundIntensity OR foregroundGreen OR foregroundBlue, Foreground)),
      (''97'', (foregroundIntensity OR foregroundRed OR foregroundGreen OR foregroundBlue, Foreground)),
      (''100'', (backgroundIntensity, Background)), (''101'', (backgroundIntensity OR backgroundRed, Background)),
      (''102'', (backgroundIntensity OR backgroundGreen, Background)),
      (''103'', (backgroundIntensity OR backgroundRed OR backgroundGreen, Background)),
      (''104'', (backgroundIntensity OR backgroundBlue, Background)),
      (''105'', (backgroundIntensity OR backgroundRed OR backgroundBlue, Background)),
      (''106'', (backgroundIntensity OR backgroundGreen OR backgroundBlue, Background)),
      (''107'', (backgroundIntensity OR backgroundRed OR backgroundGreen OR backgroundBlue, Background))]"

definition color_param :: "16 word \<Rightarrow> string \<Rightarrow> text_attributes \<Rightarrow> text_attributes" where
  "color_param at_init p a =
     (let d = convertTextAttr at_init in
      case colorMap (Some at_init) p of
        Some (c, Foreground) \<Rightarrow> a\<lparr>ta_foregroundColor := c\<rparr>
      | Some (c, Background) \<Rightarrow> a\<lparr>ta_backgroundColor := c\<rparr>
      | None \<Rightarrow>
          if p = ''0'' then a\<lparr>ta_foregroundColor := ta_foregroundColor d, ta_backgroundColor := ta_backgroundColor d,
             ta_foregroundIntensity := ta_foregroundIntensity d, ta_backgroundIntensity := ta_backgroundIntensity d,
             ta_underscore := 0, ta_otherAttributes := 0\<rparr>
          else if p = ''1'' then a\<lparr>ta_foregroundIntensity := foregroundIntensity\<rparr>
          else if p = ''21'' then a\<lparr>ta_foregroundIntensity := 0\<rparr>
          else if p = ''4'' then a\<lparr>ta_underscore := underscore\<rparr>
          else if p = ''24'' then a\<lparr>ta_underscore := 0\<rparr>
          else if p = ''5'' then a\<lparr>ta_backgroundIntensity := backgroundIntensity\<rparr>
          else if p = ''25'' then a\<lparr>ta_backgroundIntensity := 0\<rparr>
          else a)"

section \<open>The console\<close>

text \<open>
  The console: its attributes, if it is one; whether it takes new ones; what was written to the writer below, each byte with the attributes at
  that time; and the answers of that writer's next calls, the bytes it takes before an error or \<^const>\<open>None\<close>.
\<close>

record win_console =
  wc_attr :: "16 word option"
  wc_settable :: bool
  wc_screen :: "(char \<times> 16 word option) list"
  wc_answers :: "nat option list"

definition shown :: "string \<Rightarrow> win_console \<Rightarrow> win_console" where
  "shown s con = con\<lparr>wc_screen := wc_screen con @ map (\<lambda>ch. (ch, wc_attr con)) s\<rparr>"

definition sink_Write :: "string \<Rightarrow> win_console \<Rightarrow> (int \<times> bool) \<times> win_console" where
  "sink_Write s con =
     (case wc_answers con of
        Some n # as \<Rightarrow> ((int (length (take n s)), False), shown (take n s) (con\<lparr>wc_answers := as\<rparr>))
      | None # as \<Rightarrow> ((int (length s), True), shown s (con\<lparr>wc_answers := as\<rparr>))
      | [] \<Rightarrow> ((int (length s), True), shown s con))"

datatype parse_result = No_console | Changed_color | Unknown_sequence

definition changeColor :: "16 word \<Rightarrow> string \<Rightarrow> win_console \<Rightarrow> parse_result \<times> win_console" where
  "changeColor at_init param con =
     (case wc_attr con of
        None \<Rightarrow> (No_console, con)
      | Some w \<Rightarrow>
          let a = fold (color_param at_init) (split_on (CHR '';'') (if param = [] then ''0'' else param)) (convertTextAttr w)
          in (Changed_color, if wc_settable con then con\<lparr>wc_attr := Some (convertWinAttr a)\<rparr> else con))"

definition parseEscapeSequence :: "16 word option \<Rightarrow> char \<Rightarrow> string \<Rightarrow> win_console \<Rightarrow> parse_result \<times> win_console" where
  "parseEscapeSequence at_init command param con =
     (case at_init of
        None \<Rightarrow> (No_console, con)
      | Some w \<Rightarrow> if command = CHR ''m'' then changeColor w param con else (Unknown_sequence, con))"

section \<open>The writer\<close>

datatype csi_state = Outside_csi | First_csi | Second_csi

datatype output_mode = DiscardNonColorEscSeq | OutputNonColorEscSeq

record ansi_writer =
  aw_mode :: output_mode
  aw_state :: csi_state
  aw_paramStart :: string
  aw_param :: string

definition NewModeAnsiColorWriter :: "output_mode \<Rightarrow> ansi_writer" where
  "NewModeAnsiColorWriter mode = \<lparr>aw_mode = mode, aw_state = Outside_csi, aw_paramStart = [], aw_param = []\<rparr>"

definition NewAnsiColorWriter :: ansi_writer where
  "NewAnsiColorWriter = NewModeAnsiColorWriter DiscardNonColorEscSeq"

definition resetBuffer :: "ansi_writer \<Rightarrow> int \<times> ansi_writer" where
  "resetBuffer cw = (int (length (aw_paramStart cw)) + int (length (aw_param cw)), cw\<lparr>aw_paramStart := [], aw_param := []\<rparr>)"

definition flushBuffer :: "ansi_writer \<Rightarrow> win_console \<Rightarrow> (int \<times> bool) \<times> ansi_writer \<times> win_console" where
  "flushBuffer cw con =
     (let cw1 = cw\<lparr>aw_paramStart := []\<rparr> in
      case sink_Write (aw_paramStart cw) con of ((n1, ok1), con1) \<Rightarrow>
        if \<not> ok1 then ((n1, False), cw1, con1)
        else (case sink_Write (aw_param cw) con1 of ((n2, ok2), con2) \<Rightarrow> ((n1 + n2, ok2), cw1\<lparr>aw_param := []\<rparr>, con2)))"

definition isParameterChar :: "char \<Rightarrow> bool" where
  "isParameterChar b \<longleftrightarrow> (CHR ''0'' \<le> b \<and> b \<le> CHR ''9'') \<or> b = CHR '';''"

definition slice_of :: "int \<Rightarrow> int \<Rightarrow> string \<Rightarrow> string outcome" where
  "slice_of a b p =
     (if 0 \<le> a \<and> a \<le> b \<and> b \<le> int (length p) then Done (take (nat b - nat a) (drop (nat a) p))
      else Panic ''slice bounds out of range'')"

record ansi_locals =
  al_r :: int
  al_first :: int
  al_last :: int

text \<open>
  The end of a sequence, at byte \<open>i\<close>, and the loop of \<^verbatim>\<open>Write\<close> over the bytes from \<open>i\<close> on. The first component is an early return.
\<close>

type_synonym ansi_state = "(int \<times> bool) option \<times> ansi_locals \<times> ansi_writer \<times> win_console"

definition ansi_sequence :: "16 word option \<Rightarrow> string \<Rightarrow> int \<Rightarrow> char \<Rightarrow> ansi_locals \<Rightarrow> ansi_writer \<Rightarrow> win_console \<Rightarrow> ansi_state outcome" where
  "ansi_sequence at_init p i ch l cw con =
     outcome_bind (slice_of (al_first l) (al_last l) p) (\<lambda>s.
       case sink_Write s con of ((nw, ok), con1) \<Rightarrow>
         let r = al_r l + nw in
         if \<not> ok then Done (Some (r, False), l, cw, con1)
         else (case parseEscapeSequence at_init ch (aw_param cw) con1 of (result, con2) \<Rightarrow>
           if result = No_console \<or> aw_mode cw = OutputNonColorEscSeq \<and> result = Unknown_sequence
           then (case flushBuffer (cw\<lparr>aw_param := aw_param cw @ [ch]\<rparr>) con2 of ((n, ok1), cw1, con3) \<Rightarrow>
                   if \<not> ok1 then Done (Some (r, False), l, cw1, con3)
                   else Done (None, l\<lparr>al_r := r + n, al_first := i + 1\<rparr>, cw1\<lparr>aw_state := Outside_csi\<rparr>, con3))
           else (case resetBuffer cw of (n, cw1) \<Rightarrow>
                   Done (None, l\<lparr>al_r := r + n + 1, al_first := i + 1\<rparr>, cw1\<lparr>aw_state := Outside_csi\<rparr>, con2))))"

fun ansi_loop :: "16 word option \<Rightarrow> string \<Rightarrow> int \<Rightarrow> string \<Rightarrow> ansi_locals \<Rightarrow> ansi_writer \<Rightarrow> win_console \<Rightarrow> ansi_state outcome" where
  "ansi_loop at_init p i [] l cw con = Done (None, l, cw, con)"
| "ansi_loop at_init p i (ch # cs) l cw con =
     (case aw_state cw of
        Outside_csi \<Rightarrow>
          ansi_loop at_init p (i + 1) cs l
            (if ch = CHR 0x1B then cw\<lparr>aw_paramStart := aw_paramStart cw @ [ch], aw_state := First_csi\<rparr> else cw) con
      | First_csi \<Rightarrow>
          if ch = CHR 0x1B then ansi_loop at_init p (i + 1) cs l (cw\<lparr>aw_paramStart := aw_paramStart cw @ [ch]\<rparr>) con
          else if ch = CHR ''['' then
            ansi_loop at_init p (i + 1) cs (l\<lparr>al_last := i - 1\<rparr>)
              (cw\<lparr>aw_paramStart := aw_paramStart cw @ [ch], aw_state := Second_csi\<rparr>) con
          else ansi_loop at_init p (i + 1) cs l ((snd (resetBuffer cw))\<lparr>aw_state := Outside_csi\<rparr>) con
      | Second_csi \<Rightarrow>
          if isParameterChar ch then ansi_loop at_init p (i + 1) cs l (cw\<lparr>aw_param := aw_param cw @ [ch]\<rparr>) con
          else outcome_bind (ansi_sequence at_init p i ch l cw con) (\<lambda>(ret, l1, cw1, con1).
                 case ret of
                   Some re \<Rightarrow> Done (Some re, l1, cw1, con1)
                 | None \<Rightarrow> ansi_loop at_init p (i + 1) cs l1 cw1 con1))"

definition ansi_Write :: "16 word option \<Rightarrow> string \<Rightarrow> ansi_writer \<Rightarrow> win_console \<Rightarrow> ((int \<times> bool) \<times> ansi_writer \<times> win_console) outcome" where
  "ansi_Write at_init p cw con =
     (let cw0 = (if aw_mode cw \<noteq> DiscardNonColorEscSeq then snd (resetBuffer (cw\<lparr>aw_state := Outside_csi\<rparr>)) else cw)
      in outcome_bind (ansi_loop at_init p 0 p \<lparr>al_r = 0, al_first = 0, al_last = 0\<rparr> cw0 con) (\<lambda>(ret, l, cw1, con1).
           case ret of
             Some re \<Rightarrow> Done (re, cw1, con1)
           | None \<Rightarrow>
               if aw_mode cw \<noteq> DiscardNonColorEscSeq \<or> aw_state cw1 = Outside_csi
               then outcome_bind (slice_of (al_first l) (int (length p)) p) (\<lambda>s.
                      case sink_Write s con1 of ((nw, ok), con2) \<Rightarrow> Done ((al_r l + nw, ok), cw1, con2))
               else Done ((al_r l, True), cw1, con1)))"

end
