(* ===== verification/Lodos_Ansi_Props.thy ===== *)
theory Lodos_Ansi_Props
  imports Lodos_Ansi
begin

text \<open>
  What the writer for Windows consoles does: attributes survive their division into fields, a text of whole sequences is shown in their colours
  and counted, the only panic of the writer, and what a divided sequence loses.
\<close>

unbundle bit_operations_syntax

section \<open>Attributes\<close>

lemma convertWinAttr_convertTextAttr: "convertWinAttr (convertTextAttr w) = w"
proof -
  let ?m = "foregroundMask OR backgroundMask OR underscore"
  have "(w AND m) OR (w AND NOT m) = w" for m by (simp flip: bit.conj_disj_distrib)
  from this [of ?m] have "w = (w AND ?m) OR (w AND NOT ?m)" by (rule sym)
  also have "(w AND ?m) OR (w AND NOT ?m) = convertWinAttr (convertTextAttr w)"
    by (simp add: convertWinAttr_def convertTextAttr_def foregroundMask_def backgroundMask_def bit.conj_disj_distrib ac_simps)
  finally show ?thesis by (rule sym)
qed

section \<open>Whole sequences\<close>

text \<open>A text as its pieces: plain text, the parameters of a sequence, and its command. The reference shows one after the other.\<close>

type_synonym piece = "string \<times> string \<times> char"

fun piece_text :: "piece \<Rightarrow> string" where
  "piece_text (s, ps, c) = s @ CHR 0x1B # CHR ''['' # ps @ [c]"

definition pieces_text :: "piece list \<Rightarrow> string \<Rightarrow> string" where
  "pieces_text xs end_text = concat (map piece_text xs) @ end_text"

fun piece_ok :: "piece \<Rightarrow> bool" where
  "piece_ok (s, ps, c) \<longleftrightarrow> CHR 0x1B \<notin> set s \<and> list_all isParameterChar ps \<and> \<not> isParameterChar c"

fun show_piece :: "16 word option \<Rightarrow> output_mode \<Rightarrow> piece \<Rightarrow> win_console \<Rightarrow> win_console" where
  "show_piece at_init mode (s, ps, c) con =
     (case parseEscapeSequence at_init c ps (shown s con) of (result, con1) \<Rightarrow>
        if result = No_console \<or> mode = OutputNonColorEscSeq \<and> result = Unknown_sequence
        then shown (CHR 0x1B # CHR ''['' # ps @ [c]) con1 else con1)"

lemma sink_ok: "wc_answers con = [] \<Longrightarrow> sink_Write s con = ((int (length s), True), shown s con)"
  by (simp add: sink_Write_def)

lemma shown_append: "shown t (shown s con) = shown (s @ t) con"
  by (simp add: shown_def)

lemma shown_Nil [simp]: "shown [] con = con"
  by (simp add: shown_def)

lemma wc_answers_shown [simp]: "wc_answers (shown s con) = wc_answers con"
  by (simp add: shown_def)

lemma wc_answers_parse: "parseEscapeSequence at_init c ps con = (result, con1) \<Longrightarrow> wc_answers con1 = wc_answers con"
  by (auto simp: parseEscapeSequence_def changeColor_def Let_def split: option.splits if_splits)

lemma loop_text:
  assumes "CHR 0x1B \<notin> set s" "aw_state cw = Outside_csi"
  shows "ansi_loop at_init p i (s @ cs) l cw con = ansi_loop at_init p (i + int (length s)) cs l cw con"
  using assms
proof (induction s arbitrary: i)
  case (Cons ch s)
  then have "ch \<noteq> CHR 0x1B" by auto
  then show ?case using Cons by (simp add: algebra_simps)
qed simp

lemma loop_params:
  assumes "list_all isParameterChar ps" "aw_state cw = Second_csi"
  shows "ansi_loop at_init p i (ps @ cs) l cw con
    = ansi_loop at_init p (i + int (length ps)) cs l (cw\<lparr>aw_param := aw_param cw @ ps\<rparr>) con"
  using assms
proof (induction ps arbitrary: i cw)
  case (Cons ch ps)
  then show ?case by (simp add: algebra_simps)
qed simp

lemma slice_middle: "slice_of (int (length a)) (int (length a) + int (length s)) (a @ s @ b) = Done s"
  by (simp add: slice_of_def nat_add_distrib)

definition idle_writer :: "output_mode \<Rightarrow> ansi_writer" where
  "idle_writer mode = NewModeAnsiColorWriter mode"

lemma idle_writer_facts [simp]: "aw_mode (idle_writer mode) = mode" "aw_state (idle_writer mode) = Outside_csi"
  by (simp_all add: idle_writer_def NewModeAnsiColorWriter_def)

lemma loop_piece:
  assumes ok: "piece_ok (s, ps, c)" and con: "wc_answers con = []" and p: "p = a @ piece_text (s, ps, c) @ cs"
    and l: "al_first l = int (length a)"
  shows "\<exists>l1. ansi_loop at_init p (int (length a)) (piece_text (s, ps, c) @ cs) l (idle_writer mode) con
      = ansi_loop at_init p (int (length (a @ piece_text (s, ps, c)))) cs l1 (idle_writer mode) (show_piece at_init mode (s, ps, c) con)
    \<and> al_first l1 = int (length (a @ piece_text (s, ps, c))) \<and> al_r l1 = al_r l + int (length (piece_text (s, ps, c)))"
proof -
  let ?i = "int (length a) + int (length s)"
  let ?j = "?i + 2 + int (length ps)"
  let ?l = "l\<lparr>al_last := ?i\<rparr>"
  let ?cw = "(idle_writer mode)\<lparr>aw_paramStart := [CHR 0x1B, CHR ''[''], aw_state := Second_csi, aw_param := ps\<rparr>"
  have "ansi_loop at_init p (int (length a)) (piece_text (s, ps, c) @ cs) l (idle_writer mode) con
      = ansi_loop at_init p ?i (CHR 0x1B # CHR ''['' # ps @ c # cs) l (idle_writer mode) con"
    using loop_text [of s "idle_writer mode" at_init p "int (length a)" "CHR 0x1B # CHR ''['' # ps @ c # cs" l con] ok
    by (simp add: idle_writer_def NewModeAnsiColorWriter_def)
  also have "\<dots> = ansi_loop at_init p ?j (c # cs) ?l ?cw con"
    using loop_params [of ps "(idle_writer mode)\<lparr>aw_paramStart := [CHR 0x1B, CHR ''[''], aw_state := Second_csi\<rparr>" at_init p
        "?i + 2" "c # cs" ?l con] ok
    by (simp add: idle_writer_def NewModeAnsiColorWriter_def algebra_simps)
  finally have loop: "ansi_loop at_init p (int (length a)) (piece_text (s, ps, c) @ cs) l (idle_writer mode) con
      = ansi_loop at_init p ?j (c # cs) ?l ?cw con" .
  have slice: "slice_of (al_first l) ?i p = Done s"
    using slice_middle [of a s "CHR 0x1B # CHR ''['' # ps @ c # cs"] l p by simp
  obtain result con1 where parse: "parseEscapeSequence at_init c ps (shown s con) = (result, con1)"
    by (cases "parseEscapeSequence at_init c ps (shown s con)") auto
  have con1: "wc_answers con1 = []" using wc_answers_parse [OF parse] con by simp
  have "\<exists>l1. ansi_sequence at_init p ?j c ?l ?cw con = Done (None, l1, idle_writer mode, show_piece at_init mode (s, ps, c) con)
      \<and> al_first l1 = ?j + 1 \<and> al_r l1 = al_r l + int (length s) + 3 + int (length ps)"
    using parse con con1
    by (auto simp: ansi_sequence_def slice sink_ok flushBuffer_def resetBuffer_def Let_def shown_append idle_writer_def
        NewModeAnsiColorWriter_def)
  then obtain l1 where seq: "ansi_sequence at_init p ?j c ?l ?cw con = Done (None, l1, idle_writer mode, show_piece at_init mode (s, ps, c) con)"
      "al_first l1 = ?j + 1" "al_r l1 = al_r l + int (length s) + 3 + int (length ps)" by blast
  have "ansi_loop at_init p ?j (c # cs) ?l ?cw con = ansi_loop at_init p (?j + 1) cs l1 (idle_writer mode) (show_piece at_init mode (s, ps, c) con)"
    using ok seq(1) by simp
  moreover have "?j + 1 = int (length (a @ piece_text (s, ps, c)))" by simp
  ultimately show ?thesis unfolding loop using seq(2,3) by (intro exI [of _ l1]) (simp add: algebra_simps)
qed

lemma loop_pieces:
  assumes "list_all piece_ok xs" "wc_answers con = []" "p = a @ concat (map piece_text xs) @ cs" "al_first l = int (length a)"
  shows "\<exists>l1. ansi_loop at_init p (int (length a)) (concat (map piece_text xs) @ cs) l (idle_writer mode) con
      = ansi_loop at_init p (int (length (a @ concat (map piece_text xs)))) cs l1 (idle_writer mode) (fold (show_piece at_init mode) xs con)
    \<and> al_first l1 = int (length (a @ concat (map piece_text xs))) \<and> al_r l1 = al_r l + int (length (concat (map piece_text xs)))"
  using assms
proof (induction xs arbitrary: a l con)
  case (Cons x xs)
  obtain s ps c where x: "x = (s, ps, c)" by (cases x) auto
  let ?b = "a @ piece_text (s, ps, c)"
  obtain l1 where l1: "ansi_loop at_init p (int (length a)) (piece_text (s, ps, c) @ concat (map piece_text xs) @ cs) l (idle_writer mode) con
      = ansi_loop at_init p (int (length ?b)) (concat (map piece_text xs) @ cs) l1 (idle_writer mode) (show_piece at_init mode (s, ps, c) con)"
    "al_first l1 = int (length ?b)" "al_r l1 = al_r l + int (length (piece_text (s, ps, c)))"
    using loop_piece [of s ps c con p a "concat (map piece_text xs) @ cs" l at_init mode] Cons.prems x by (auto simp del: piece_text.simps)
  have ans: "wc_answers (show_piece at_init mode (s, ps, c) con) = []"
    using Cons.prems(2) wc_answers_parse [of at_init c ps "shown s con"] by (auto split: prod.splits)
  obtain l2 where "ansi_loop at_init p (int (length ?b)) (concat (map piece_text xs) @ cs) l1 (idle_writer mode) (show_piece at_init mode (s, ps, c) con)
      = ansi_loop at_init p (int (length (?b @ concat (map piece_text xs)))) cs l2 (idle_writer mode)
          (fold (show_piece at_init mode) xs (show_piece at_init mode (s, ps, c) con))"
    "al_first l2 = int (length (?b @ concat (map piece_text xs)))" "al_r l2 = al_r l1 + int (length (concat (map piece_text xs)))"
    using Cons.IH [of "show_piece at_init mode (s, ps, c) con" ?b l1] Cons.prems x ans l1(2) by (auto simp del: piece_text.simps)
  then show ?case using l1 x by (intro exI [of _ l2]) (simp del: piece_text.simps show_piece.simps)
qed auto

lemma ansi_renders_step:
  assumes "list_all piece_ok xs" "CHR 0x1B \<notin> set end_text" "wc_answers con = []"
  shows "ansi_Write at_init (pieces_text xs end_text) (NewModeAnsiColorWriter mode) con
    = Done ((int (length (pieces_text xs end_text)), True), NewModeAnsiColorWriter mode, shown end_text (fold (show_piece at_init mode) xs con))"
proof -
  let ?p = "pieces_text xs end_text" and ?l = "\<lparr>al_r = 0, al_first = 0, al_last = 0\<rparr>" and ?t = "concat (map piece_text xs)"
  obtain l1 where l1: "ansi_loop at_init ?p 0 ?p ?l (idle_writer mode) con
      = ansi_loop at_init ?p (int (length ?t)) end_text l1 (idle_writer mode) (fold (show_piece at_init mode) xs con)"
    "al_first l1 = int (length ?t)" "al_r l1 = int (length ?t)"
    using loop_pieces [OF assms(1,3), of ?p "[]" end_text ?l at_init mode] by (auto simp: pieces_text_def)
  have e: "ansi_loop at_init ?p (int (length ?t)) end_text l1 (idle_writer mode) con1 = Done (None, l1, idle_writer mode, con1)" for con1
    using loop_text [of end_text "idle_writer mode" at_init ?p "int (length ?t)" "[]" l1 con1] assms(2)
    by (simp add: idle_writer_def NewModeAnsiColorWriter_def)
  have ans: "wc_answers (fold (show_piece at_init mode) xs con) = []" using assms(3)
  proof (induction xs arbitrary: con)
    case (Cons x xs)
    obtain s ps c where x: "x = (s, ps, c)" by (cases x) auto
    have "wc_answers (show_piece at_init mode x con) = []"
      using Cons.prems wc_answers_parse [of at_init c ps "shown s con"] x by (auto split: prod.splits)
    then show ?case using Cons.IH by simp
  qed simp
  have s: "slice_of (int (length ?t)) (int (length ?p)) ?p = Done end_text" by (simp add: slice_of_def pieces_text_def)
  have w: "snd (resetBuffer ((idle_writer mode)\<lparr>aw_state := Outside_csi\<rparr>)) = idle_writer mode"
    by (simp add: resetBuffer_def idle_writer_def NewModeAnsiColorWriter_def)
  have "ansi_Write at_init ?p (idle_writer mode) con
      = Done ((int (length ?p), True), idle_writer mode, shown end_text (fold (show_piece at_init mode) xs con))"
    unfolding ansi_Write_def w Let_def if_cancel l1(1) e
    by (simp add: l1(2,3) s w sink_ok ans) (simp add: pieces_text_def)
  then show ?thesis by (simp add: idle_writer_def)
qed

text \<open>
  C37: a text whose escape sequences are all whole is shown piece by piece: the plain text in the attributes of its time, a colour sequence as a
  change of the attributes, any other sequence dropped or shown by the mode, and everything as it is without a console; the call reports all
  bytes written and leaves the writer as it was, so texts that follow each other are shown as one.
\<close>

theorem ansi_renders:
  assumes "list_all piece_ok xs" "CHR 0x1B \<notin> set end_text" "wc_answers con = []"
  shows "ansi_Write at_init (pieces_text xs end_text) (NewModeAnsiColorWriter mode) con
    = Done ((int (length (pieces_text xs end_text)), True), NewModeAnsiColorWriter mode, shown end_text (fold (show_piece at_init mode) xs con))"
  using assms by (rule ansi_renders_step)

section \<open>The brushes of the console adapter\<close>

lemma colorMap_reset: "colorMap at_init ''0'' = None"
  by (simp add: colorMap_def)

lemma reset_restores:
  assumes "ta_underscore (convertTextAttr w) = 0" "ta_otherAttributes (convertTextAttr w) = 0"
  shows "color_param w ''0'' a = convertTextAttr w"
  using assms by (simp add: color_param_def colorMap_reset Let_def)

definition brushed :: "16 word \<Rightarrow> string \<Rightarrow> 16 word" where
  "brushed w c = convertWinAttr (fold (color_param w) (split_on (CHR '';'') (if c = [] then ''0'' else c)) (convertTextAttr w))"

lemma brush_pieces: "brush c s = pieces_text [([], c, CHR ''m''), (s, ''0'', CHR ''m'')] []"
  by (simp add: brush_def pieces_text_def)

text \<open>
  on a Windows console that has the attributes it had at the start, a brush shows its text in the colour of its parameters and gives the
  console its attributes back, whatever the parameters; only underlining and attributes that are no colours are lost.
\<close>

theorem brush_restores_colors:
  assumes "wc_attr con = Some w" "wc_settable con" "wc_answers con = []"
    "ta_underscore (convertTextAttr w) = 0" "ta_otherAttributes (convertTextAttr w) = 0"
    "list_all isParameterChar c" "CHR 0x1B \<notin> set s"
  shows "ansi_Write (Some w) (brush c s) NewAnsiColorWriter con
    = Done ((int (length (brush c s)), True), NewAnsiColorWriter,
        con\<lparr>wc_screen := wc_screen con @ map (\<lambda>ch. (ch, Some (brushed w c))) s\<rparr>)"
proof -
  let ?xs = "[([], c, CHR ''m''), (s, ''0'', CHR ''m'')]"
  let ?con = "con\<lparr>wc_attr := Some (brushed w c)\<rparr>"
  have ok: "list_all piece_ok ?xs" using assms(6,7) by (simp add: isParameterChar_def)
  have one: "show_piece (Some w) DiscardNonColorEscSeq ([], c, CHR ''m'') con = ?con"
    using assms(1,2) by (simp add: parseEscapeSequence_def changeColor_def Let_def brushed_def)
  have "split_on (CHR '';'') ''0'' = [''0'']" by simp
  then have two: "show_piece (Some w) DiscardNonColorEscSeq (s, ''0'', CHR ''m'') ?con
      = con\<lparr>wc_screen := wc_screen con @ map (\<lambda>ch. (ch, Some (brushed w c))) s\<rparr>"
    using assms(1,2) by (simp add: parseEscapeSequence_def changeColor_def Let_def shown_def reset_restores [OF assms(4,5)]
        convertWinAttr_convertTextAttr)
  show ?thesis unfolding brush_pieces NewAnsiColorWriter_def using ansi_renders_step [OF ok _ assms(3), of "[]" "Some w" DiscardNonColorEscSeq] one two
    by (simp del: show_piece.simps)
qed

theorem brush_restores_colors_witness:
  "\<exists>con. ansi_Write (Some 0x0007) (brush ''1;31'' ''no'') NewAnsiColorWriter con
     = Done ((int (length (brush ''1;31'' ''no'')), True), NewAnsiColorWriter,
         con\<lparr>wc_screen := wc_screen con @ [(CHR ''n'', Some 0x000C), (CHR ''o'', Some 0x000C)]\<rparr>)"
proof -
  let ?con = "\<lparr>wc_attr = Some 0x0007, wc_settable = True, wc_screen = [], wc_answers = []\<rparr>"
  have h: "ta_underscore (convertTextAttr 0x0007) = 0" "ta_otherAttributes (convertTextAttr 0x0007) = 0" "list_all isParameterChar ''1;31''"
    "CHR 0x1B \<notin> set ''no''" and b: "brushed 0x0007 ''1;31'' = 0x000C" by code_simp+
  have "ansi_Write (Some 0x0007) (brush ''1;31'' ''no'') NewAnsiColorWriter ?con
     = Done ((int (length (brush ''1;31'' ''no'')), True), NewAnsiColorWriter,
         ?con\<lparr>wc_screen := wc_screen ?con @ map (\<lambda>ch. (ch, Some (brushed 0x0007 ''1;31''))) ''no''\<rparr>)"
    by (rule brush_restores_colors [OF _ _ _ h]) simp_all
  then show ?thesis unfolding b by (intro exI [of _ ?con]) simp
qed

section \<open>Slices\<close>

definition slices_ok :: "csi_state \<Rightarrow> int \<Rightarrow> int \<Rightarrow> int \<Rightarrow> bool" where
  "slices_ok st a b i \<longleftrightarrow> 0 \<le> a \<and> a \<le> i \<and> (st = First_csi \<longrightarrow> a < i) \<and> (st = Second_csi \<longrightarrow> a \<le> b \<and> b \<le> i)"

lemma sequence_no_panic:
  assumes "0 \<le> al_first l" "al_first l \<le> al_last l" "al_last l \<le> int (length p)"
  shows "\<exists>ret l1 cw1 con1. ansi_sequence at_init p i ch l cw con = Done (ret, l1, cw1, con1)
    \<and> (ret = None \<longrightarrow> al_first l1 = i + 1 \<and> aw_state cw1 = Outside_csi \<and> aw_mode cw1 = aw_mode cw)"
proof -
  obtain s where "slice_of (al_first l) (al_last l) p = Done s" using assms by (simp add: slice_of_def)
  then show ?thesis
    by (auto simp: ansi_sequence_def Let_def resetBuffer_def flushBuffer_def split: prod.splits if_splits)
qed

lemma loop_no_panic:
  assumes "slices_ok (aw_state cw) (al_first l) (al_last l) i" "int (length p) = i + int (length cs)"
  shows "\<exists>ret l1 cw1 con1. ansi_loop at_init p i cs l cw con = Done (ret, l1, cw1, con1)
    \<and> (ret = None \<longrightarrow> 0 \<le> al_first l1 \<and> al_first l1 \<le> int (length p))"
  using assms
proof (induction cs arbitrary: i l cw con)
  case Nil
  then show ?case by (simp add: slices_ok_def)
next
  case (Cons ch cs)
  have len: "int (length p) = (i + 1) + int (length cs)" using Cons.prems(2) by simp
  note ih = Cons.IH [OF _ len]
  show ?case
  proof (cases "aw_state cw")
    case Outside_csi
    let ?cw = "if ch = CHR 0x1B then cw\<lparr>aw_paramStart := aw_paramStart cw @ [ch], aw_state := First_csi\<rparr> else cw"
    have "slices_ok (aw_state ?cw) (al_first l) (al_last l) (i + 1)" using Cons.prems(1) Outside_csi by (simp add: slices_ok_def)
    from ih [OF this] show ?thesis using Outside_csi by simp
  next
    case First_csi
    have "slices_ok First_csi (al_first l) (al_last l) (i + 1)" "slices_ok Second_csi (al_first l) (i - 1) (i + 1)"
      "slices_ok Outside_csi (al_first l) (al_last l) (i + 1)"
      using Cons.prems(1) First_csi by (simp_all add: slices_ok_def)
    then show ?thesis
      using First_csi ih [of "cw\<lparr>aw_paramStart := aw_paramStart cw @ [ch]\<rparr>" l con]
        ih [of "cw\<lparr>aw_paramStart := aw_paramStart cw @ [ch], aw_state := Second_csi\<rparr>" "l\<lparr>al_last := i - 1\<rparr>" con]
        ih [of "(snd (resetBuffer cw))\<lparr>aw_state := Outside_csi\<rparr>" l con]
      by (cases "ch = CHR 0x1B"; cases "ch = CHR ''[''") (simp_all add: resetBuffer_def)
  next
    case Second_csi
    show ?thesis
    proof (cases "isParameterChar ch")
      case True
      have "slices_ok (aw_state (cw\<lparr>aw_param := aw_param cw @ [ch]\<rparr>)) (al_first l) (al_last l) (i + 1)"
        using Second_csi Cons.prems(1) by (simp add: slices_ok_def)
      from ih [OF this] show ?thesis using Second_csi True by simp
    next
      case False
      obtain ret l1 cw1 con1 where s: "ansi_sequence at_init p i ch l cw con = Done (ret, l1, cw1, con1)"
          "ret = None \<longrightarrow> al_first l1 = i + 1 \<and> aw_state cw1 = Outside_csi"
        using sequence_no_panic [of l p at_init i ch cw con] Cons.prems Second_csi by (auto simp: slices_ok_def)
      show ?thesis
      proof (cases ret)
        case None
        then have "slices_ok (aw_state cw1) (al_first l1) (al_last l1) (i + 1)" using s(2) Cons.prems(1) by (simp add: slices_ok_def)
        from ih [OF this] show ?thesis using Second_csi False s(1) None by simp
      qed (use Second_csi False s(1) in simp)
    qed
  qed
qed

text \<open>
  the writer panics in one case only, a slice with a negative bound: in the mode for divided sequences, when the call before ended with an
  escape character and this one starts with the bracket that follows it.
\<close>

theorem ansi_panics_only_divided:
  assumes "ansi_Write at_init p cw con = Panic e"
  shows "aw_mode cw = DiscardNonColorEscSeq \<and> aw_state cw = First_csi \<and> take 1 p = ''[''"
proof (rule ccontr)
  assume n: "\<not> (aw_mode cw = DiscardNonColorEscSeq \<and> aw_state cw = First_csi \<and> take 1 p = ''['')"
  let ?l = "\<lparr>al_r = 0, al_first = 0, al_last = 0\<rparr>"
  define cw0 where "cw0 = (if aw_mode cw \<noteq> DiscardNonColorEscSeq then snd (resetBuffer (cw\<lparr>aw_state := Outside_csi\<rparr>)) else cw)"
  have "\<exists>ret l1 cw1 con1. ansi_loop at_init p 0 p ?l cw0 con = Done (ret, l1, cw1, con1)
    \<and> (ret = None \<longrightarrow> 0 \<le> al_first l1 \<and> al_first l1 \<le> int (length p))"
  proof (cases "aw_state cw0 = First_csi")
    case False
    then show ?thesis by (intro loop_no_panic) (simp_all add: slices_ok_def)
  next
    case True
    then have b: "take 1 p \<noteq> ''[''" using n by (auto simp: cw0_def resetBuffer_def split: if_splits)
    show ?thesis
    proof (cases p)
      case (Cons ch cs)
      have sl: "slices_ok st 0 0 1" for st by (simp add: slices_ok_def)
      have len: "int (length p) = 1 + int (length cs)" using Cons by simp
      show ?thesis
        using True b Cons loop_no_panic [OF _ len, of "cw0\<lparr>aw_paramStart := aw_paramStart cw0 @ [ch]\<rparr>" ?l at_init con]
          loop_no_panic [OF _ len, of "(snd (resetBuffer cw0))\<lparr>aw_state := Outside_csi\<rparr>" ?l at_init con] sl
        by (cases "ch = CHR 0x1B") (simp_all add: resetBuffer_def)
    qed simp
  qed
  then show False using assms unfolding ansi_Write_def Let_def cw0_def [symmetric]
    by (auto simp: slice_of_def split: option.splits prod.splits if_splits)
qed

section \<open>Divided sequences\<close>

text \<open>
  The mode the loggers use. A text before a sequence that is divided is never written, and the call reports nothing written without an error; the
  console below is empty after \<open>ab\<close> and the start of a sequence, and shows only \<open>cd\<close> after the rest.
\<close>

definition black_console :: win_console where
  "black_console = \<lparr>wc_attr = Some 0x0007, wc_settable = True, wc_screen = [], wc_answers = []\<rparr>"

lemma divided_sequence_loses_text:
  "outcome_bind (ansi_Write (Some 0x0007) (''ab'' @ [CHR 0x1B] @ ''[3'') NewAnsiColorWriter black_console) (\<lambda>(r, cw, con).
     outcome_bind (ansi_Write (Some 0x0007) ''1mcd'' cw con) (\<lambda>(r', cw', con'). Done (r, r', wc_screen con')))
   = Done ((0, True), (7, True), [(CHR ''c'', Some 0x0004), (CHR ''d'', Some 0x0004)])"
  by code_simp

lemma divided_sequence_panics:
  "outcome_bind (ansi_Write (Some 0x0007) (''ab'' @ [CHR 0x1B]) NewAnsiColorWriter black_console) (\<lambda>(r, cw, con).
     ansi_Write (Some 0x0007) ''[31mcd'' cw con) = Panic ''slice bounds out of range''"
  by code_simp

text \<open>Without a console a sequence that follows a second escape character is written with that character doubled.\<close>

lemma double_escape_is_doubled:
  "map_outcome_val (\<lambda>(r, cw, con). (r, map fst (wc_screen con)))
     (ansi_Write None ([CHR 0x1B, CHR 0x1B] @ ''[0m'') NewAnsiColorWriter (black_console\<lparr>wc_attr := None\<rparr>))
   = Done ((6, True), [CHR 0x1B, CHR 0x1B, CHR 0x1B] @ ''[0m'')"
  by code_simp

theorem ansi_panics_only_divided_witness:
  "\<exists>cw con. ansi_Write (Some 0x0007) ''[31mcd'' cw con = Panic ''slice bounds out of range''
     \<and> aw_mode cw = DiscardNonColorEscSeq \<and> aw_state cw = First_csi \<and> take 1 ''[31mcd'' = ''[''"
proof -
  let ?cw = "NewAnsiColorWriter\<lparr>aw_state := First_csi, aw_paramStart := [CHR 0x1B]\<rparr>"
  have p: "ansi_Write (Some 0x0007) ''[31mcd'' ?cw black_console = Panic ''slice bounds out of range''" by code_simp
  show ?thesis using p ansi_panics_only_divided [OF p] by blast
qed

theorem ansi_renders_witness:
  "ansi_Write (Some 0x0007) (pieces_text [(''a'', ''31'', CHR ''m''), (''b'', [], CHR ''K''), (''c'', ''0'', CHR ''m'')] ''d'') NewAnsiColorWriter black_console
     = Done ((16, True), NewAnsiColorWriter, black_console\<lparr>wc_screen :=
         [(CHR ''a'', Some 0x0007), (CHR ''b'', Some 0x0004), (CHR ''c'', Some 0x0004), (CHR ''d'', Some 0x0007)]\<rparr>)"
proof -
  let ?xs = "[(''a'', ''31'', CHR ''m''), (''b'', [], CHR ''K''), (''c'', ''0'', CHR ''m'')]"
  have "list_all piece_ok ?xs" "CHR 0x1B \<notin> set ''d''" "wc_answers black_console = []" by code_simp+
  note r = ansi_renders [OF this, of "Some 0x0007" DiscardNonColorEscSeq]
  have l: "int (length (pieces_text ?xs ''d'')) = 16" by code_simp
  have c: "shown ''d'' (fold (show_piece (Some 0x0007) DiscardNonColorEscSeq) ?xs black_console) = black_console\<lparr>wc_screen :=
         [(CHR ''a'', Some 0x0007), (CHR ''b'', Some 0x0004), (CHR ''c'', Some 0x0004), (CHR ''d'', Some 0x0007)]\<rparr>" by code_simp
  show ?thesis unfolding NewAnsiColorWriter_def r l c ..
qed

end
