(* ===== verification/Lodos_Log_Hooks.thy ===== *)
theory Lodos_Log_Hooks
  imports Lodos_Log_Props Lodos_Uuid
begin

text \<open>
  The adapters of the logger that send each message over the network: the webhooks of \<^verbatim>\<open>log/beego/slack.go\<close>, \<^verbatim>\<open>dingtalk.go\<close> and
  \<^verbatim>\<open>jianliao.go\<close> and the mails of \<^verbatim>\<open>smtp.go\<close>, as one instance of the outputs a logger may have. The body of a dingtalk request carries
  any message; that of a slack request is what was logged only if no character needs an escape.
\<close>

section \<open>JSON texts\<close>

text \<open>
  How \<^verbatim>\<open>json.Marshal\<close> writes a string of valid UTF-8: quotes, backslashes and control characters are escaped, as are the characters that
  matter in HTML and the two line separators U+2028 and U+2029, E2 80 A8 and E2 80 A9 in bytes.
\<close>

definition u00 :: "char \<Rightarrow> string" where
  "u00 c = CHR 0x5C # ''u00'' @ [hex_char (of_char c div 16), hex_char (of_char c mod 16)]"

definition json_char :: "char \<Rightarrow> string" where
  "json_char c =
     (if c = CHR 0x22 \<or> c = CHR 0x5C then [CHR 0x5C, c]
      else if c = CHR 0x0A then [CHR 0x5C, CHR ''n'']
      else if c = CHR 0x0D then [CHR 0x5C, CHR ''r'']
      else if c = CHR 0x09 then [CHR 0x5C, CHR ''t'']
      else if of_char c < (0x20 :: nat) \<or> c = CHR ''<'' \<or> c = CHR ''>'' \<or> c = CHR ''&'' then u00 c
      else [c])"

fun json_chars :: "string \<Rightarrow> string" where
  "json_chars [] = []"
| "json_chars (c # d # e # cs) =
     (if c = CHR 0xE2 \<and> d = CHR 0x80 \<and> (e = CHR 0xA8 \<or> e = CHR 0xA9)
      then CHR 0x5C # ''u202'' @ [hex_char (of_char e mod 16)] @ json_chars cs
      else json_char c @ json_chars (d # e # cs))"
| "json_chars (c # cs) = json_char c @ json_chars cs"

definition json_string :: "string \<Rightarrow> string" where
  "json_string s = CHR 0x22 # json_chars s @ [CHR 0x22]"

text \<open>
  How a reader of JSON takes a string, after its opening quote: the bytes it stands for and what follows the closing quote. A sequence \<open>\u\<close>
  stands for the UTF-8 encoding of its code.
\<close>

definition utf8 :: "nat \<Rightarrow> string" where
  "utf8 n =
     (if n < 0x80 then [char_of n]
      else if n < 0x800 then [char_of (0xC0 + n div 64), char_of (0x80 + n mod 64)]
      else [char_of (0xE0 + n div 4096), char_of (0x80 + n div 64 mod 64), char_of (0x80 + n mod 64)])"

definition hex4 :: "char \<Rightarrow> char \<Rightarrow> char \<Rightarrow> char \<Rightarrow> nat option" where
  "hex4 a b c d =
     (case (hex_value a, hex_value b, hex_value c, hex_value d) of
        (Some w, Some x, Some y, Some z) \<Rightarrow> Some (((w * 16 + x) * 16 + y) * 16 + z)
      | _ \<Rightarrow> None)"

definition escape_value :: "char \<Rightarrow> char option" where
  "escape_value e =
     (if e = CHR 0x22 \<or> e = CHR 0x5C \<or> e = CHR ''/'' then Some e
      else if e = CHR ''n'' then Some (CHR 0x0A) else if e = CHR ''r'' then Some (CHR 0x0D) else if e = CHR ''t'' then Some (CHR 0x09)
      else if e = CHR ''b'' then Some (CHR 0x08) else if e = CHR ''f'' then Some (CHR 0x0C) else None)"

definition prepended :: "string \<Rightarrow> (string \<times> string) option \<Rightarrow> (string \<times> string) option" where
  "prepended s r = map_option (apfst ((@) s)) r"

fun read_string :: "string \<Rightarrow> (string \<times> string) option" where
  "read_string [] = None"
| "read_string (c # cs) =
     (if c = CHR 0x22 then Some ([], cs)
      else if of_char c < (0x20 :: nat) then None
      else if c \<noteq> CHR 0x5C then prepended [c] (read_string cs)
      else (case cs of
              [] \<Rightarrow> None
            | e # es \<Rightarrow>
                if e = CHR ''u'' then
                  (case es of
                     w # x # y # z # rest \<Rightarrow>
                       (case hex4 w x y z of None \<Rightarrow> None | Some n \<Rightarrow> prepended (utf8 n) (read_string rest))
                   | _ \<Rightarrow> None)
                else (case escape_value e of None \<Rightarrow> None | Some v \<Rightarrow> prepended [v] (read_string es))))"

section \<open>The writers\<close>

text \<open>
  Requests and what the other side answers: the status of an HTTP response, \<^const>\<open>None\<close> when the request fails. \<open>stamp\<close> formats a time as
  2006-01-02 15:04:05.
\<close>

datatype web_request = Post_form string "(string \<times> string) list" | Post_json string string

datatype web_error = Post_failed | Bad_status int

fun posted :: "(web_request \<Rightarrow> int option) \<Rightarrow> web_request \<Rightarrow> web_error option" where
  "posted http r = (case http r of None \<Rightarrow> Some Post_failed | Some code \<Rightarrow> if code = 200 then None else Some (Bad_status code))"

text \<open>The fields an object sets, by their tags; a value of another type is an error, reported once the others are set.\<close>

fun keys_into :: "(string \<Rightarrow> json_item \<Rightarrow> 'w \<Rightarrow> 'w option) \<Rightarrow> json_object \<Rightarrow> 'w \<Rightarrow> bool \<times> 'w" where
  "keys_into key [] w = (True, w)"
| "keys_into key ((k, v) # kvs) w =
     (if v = J_null then keys_into key kvs w
      else case key (lower k) v w of
             None \<Rightarrow> (False, snd (keys_into key kvs w))
           | Some w1 \<Rightarrow> keys_into key kvs w1)"

definition hook_Init :: "(string \<Rightarrow> json_item \<Rightarrow> 'w \<Rightarrow> 'w option) \<Rightarrow> json_object option \<Rightarrow> 'w \<Rightarrow> log_error option \<times> 'w" where
  "hook_Init key config w =
     (case config of
        None \<Rightarrow> (Some Bad_config, w)
      | Some obj \<Rightarrow> (case keys_into key obj w of (ok, w1) \<Rightarrow> (if ok then None else Some Bad_config, w1)))"

definition as_str :: "json_item \<Rightarrow> (string \<Rightarrow> 'w) \<Rightarrow> 'w option" where
  "as_str v f = (case v of J_str s \<Rightarrow> Some (f s) | _ \<Rightarrow> None)"

definition as_level :: "json_item \<Rightarrow> (int \<Rightarrow> 'w) \<Rightarrow> 'w option" where
  "as_level v f = (case v of J_int i \<Rightarrow> if - (2 ^ 63) \<le> i \<and> i < 2 ^ 63 then Some (f i) else None | _ \<Rightarrow> None)"

record hook_writer =
  hw_WebhookURL :: string
  hw_Level :: int

definition newSLACKWriter :: hook_writer where
  "newSLACKWriter = \<lparr>hw_WebhookURL = [], hw_Level = LevelTrace\<rparr>"

definition newDingtalkWriter :: hook_writer where
  "newDingtalkWriter = \<lparr>hw_WebhookURL = [], hw_Level = LevelTrace\<rparr>"

definition hook_key :: "string \<Rightarrow> json_item \<Rightarrow> hook_writer \<Rightarrow> hook_writer option" where
  "hook_key k v w =
     (if k = ''webhookurl'' then as_str v (\<lambda>s. w\<lparr>hw_WebhookURL := s\<rparr>)
      else if k = ''level'' then as_level v (\<lambda>i. w\<lparr>hw_Level := i\<rparr>)
      else Some w)"

definition slack_payload :: "string \<Rightarrow> string \<Rightarrow> string" where
  "slack_payload at s = ''{'' @ [CHR 0x22] @ ''text'' @ [CHR 0x22] @ '': '' @ CHR 0x22 # at @ '' '' @ s @ CHR 0x22 # ''}''"

definition slack_WriteMsg :: "(web_request \<Rightarrow> int option) \<Rightarrow> (log_time \<Rightarrow> string) \<Rightarrow> log_time \<Rightarrow> string \<Rightarrow> int \<Rightarrow> hook_writer
    \<Rightarrow> web_error option \<times> web_request list" where
  "slack_WriteMsg http stamp when s level w =
     (if level > hw_Level w then (None, [])
      else let r = Post_form (hw_WebhookURL w) [(''payload'', slack_payload (stamp when) s)] in (posted http r, [r]))"

text \<open>The object of a dingtalk request, its keys in the order of \<^verbatim>\<open>json.Marshal\<close>.\<close>

definition json_pair :: "string \<Rightarrow> string \<Rightarrow> string" where
  "json_pair k v = json_string k @ '':'' @ v"

definition dingtalk_body :: "string \<Rightarrow> string \<Rightarrow> string" where
  "dingtalk_body at s = ''{'' @ json_pair ''msgtype'' (json_string ''text'') @ '',''
     @ json_pair ''text'' (''{'' @ json_pair ''content'' (json_string (at @ '' '' @ s)) @ ''}'') @ ''}''"

definition dingtalk_WriteMsg :: "(web_request \<Rightarrow> int option) \<Rightarrow> (string \<Rightarrow> bool) \<Rightarrow> (log_time \<Rightarrow> string) \<Rightarrow> log_time \<Rightarrow> string \<Rightarrow> int \<Rightarrow> hook_writer
    \<Rightarrow> web_error option \<times> web_request list" where
  "dingtalk_WriteMsg http url_ok stamp when s level w =
     (if level > hw_Level w then (None, [])
      else if \<not> url_ok (hw_WebhookURL w) then (Some Post_failed, [])
      else let r = Post_json (hw_WebhookURL w) (dingtalk_body (stamp when) s) in (posted http r, [r]))"

record jl_writer =
  jl_AuthorName :: string
  jl_Title :: string
  jl_WebhookURL :: string
  jl_RedirectURL :: string
  jl_ImageURL :: string
  jl_Level :: int

definition newJLWriter :: jl_writer where
  "newJLWriter = \<lparr>jl_AuthorName = [], jl_Title = [], jl_WebhookURL = [], jl_RedirectURL = [], jl_ImageURL = [], jl_Level = LevelTrace\<rparr>"

definition jl_key :: "string \<Rightarrow> json_item \<Rightarrow> jl_writer \<Rightarrow> jl_writer option" where
  "jl_key k v w =
     (if k = ''authorname'' then as_str v (\<lambda>s. w\<lparr>jl_AuthorName := s\<rparr>)
      else if k = ''title'' then as_str v (\<lambda>s. w\<lparr>jl_Title := s\<rparr>)
      else if k = ''webhookurl'' then as_str v (\<lambda>s. w\<lparr>jl_WebhookURL := s\<rparr>)
      else if k = ''redirecturl'' then as_str v (\<lambda>s. w\<lparr>jl_RedirectURL := s\<rparr>)
      else if k = ''imageurl'' then as_str v (\<lambda>s. w\<lparr>jl_ImageURL := s\<rparr>)
      else if k = ''level'' then as_level v (\<lambda>i. w\<lparr>jl_Level := i\<rparr>)
      else Some w)"

definition jl_WriteMsg :: "(web_request \<Rightarrow> int option) \<Rightarrow> (log_time \<Rightarrow> string) \<Rightarrow> log_time \<Rightarrow> string \<Rightarrow> int \<Rightarrow> jl_writer
    \<Rightarrow> web_error option \<times> web_request list" where
  "jl_WriteMsg http stamp when s level w =
     (if level > jl_Level w then (None, [])
      else let r = Post_form (jl_WebhookURL w)
             ([(''authorName'', jl_AuthorName w), (''title'', jl_Title w), (''text'', stamp when @ '' '' @ s)]
              @ (if jl_RedirectURL w \<noteq> [] then [(''redirectUrl'', jl_RedirectURL w)] else [])
              @ (if jl_ImageURL w \<noteq> [] then [(''imageUrl'', jl_ImageURL w)] else []))
           in (posted http r, [r]))"

section \<open>Mails\<close>

record smtp_writer =
  sm_Username :: string
  sm_Password :: string
  sm_Host :: string
  sm_Subject :: string
  sm_FromAddress :: string
  sm_Recipients :: "string list"
  sm_Level :: int

definition newSMTPWriter :: smtp_writer where
  "newSMTPWriter = \<lparr>sm_Username = [], sm_Password = [], sm_Host = [], sm_Subject = [], sm_FromAddress = [], sm_Recipients = [],
     sm_Level = LevelTrace\<rparr>"

definition smtp_key :: "string \<Rightarrow> json_item \<Rightarrow> smtp_writer \<Rightarrow> smtp_writer option" where
  "smtp_key k v w =
     (if k = ''username'' then as_str v (\<lambda>s. w\<lparr>sm_Username := s\<rparr>)
      else if k = ''password'' then as_str v (\<lambda>s. w\<lparr>sm_Password := s\<rparr>)
      else if k = ''host'' then as_str v (\<lambda>s. w\<lparr>sm_Host := s\<rparr>)
      else if k = ''subject'' then as_str v (\<lambda>s. w\<lparr>sm_Subject := s\<rparr>)
      else if k = ''fromaddress'' then as_str v (\<lambda>s. w\<lparr>sm_FromAddress := s\<rparr>)
      else if k = ''sendtos'' then (case v of J_strs ss \<Rightarrow> Some (w\<lparr>sm_Recipients := ss\<rparr>) | _ \<Rightarrow> None)
      else if k = ''level'' then as_level v (\<lambda>i. w\<lparr>sm_Level := i\<rparr>)
      else Some w)"

datatype smtp_command = Smtp_dial string | Smtp_tls string | Smtp_auth string string string | Smtp_mail string | Smtp_rcpt string
  | Smtp_data | Smtp_body string | Smtp_close | Smtp_quit

text \<open>The commands of a session up to the first that fails.\<close>

fun smtp_session :: "(smtp_command \<Rightarrow> bool) \<Rightarrow> smtp_command list \<Rightarrow> bool \<times> smtp_command list" where
  "smtp_session server [] = (True, [])"
| "smtp_session server (c # cs) =
     (if server c then (case smtp_session server cs of (ok, done) \<Rightarrow> (ok, c # done)) else (False, [c]))"

definition getSMTPAuth :: "smtp_writer \<Rightarrow> string \<Rightarrow> (string \<times> string \<times> string) option" where
  "getSMTPAuth w host =
     (if list_all (\<lambda>c. c = CHR '' '') (sm_Username w) \<and> list_all (\<lambda>c. c = CHR '' '') (sm_Password w) then None
      else Some (sm_Username w, sm_Password w, host))"

definition smtp_commands :: "(string \<Rightarrow> string) \<Rightarrow> string \<Rightarrow> (string \<times> string \<times> string) option \<Rightarrow> string \<Rightarrow> string list \<Rightarrow> string \<Rightarrow> smtp_command list" where
  "smtp_commands SplitHost host auth sender recipients content =
     [Smtp_dial host, Smtp_tls (SplitHost host)]
     @ (case auth of None \<Rightarrow> [] | Some (user, pass, h) \<Rightarrow> [Smtp_auth user pass h])
     @ [Smtp_mail sender] @ map Smtp_rcpt recipients @ [Smtp_data, Smtp_body content, Smtp_close, Smtp_quit]"

definition sendMail :: "(string \<Rightarrow> string) \<Rightarrow> (smtp_command \<Rightarrow> bool) \<Rightarrow> string \<Rightarrow> (string \<times> string \<times> string) option \<Rightarrow> string \<Rightarrow> string list \<Rightarrow> string
    \<Rightarrow> bool \<times> smtp_command list" where
  "sendMail SplitHost server host auth sender recipients content =
     smtp_session server (smtp_commands SplitHost host auth sender recipients content)"

definition smtp_content :: "smtp_writer \<Rightarrow> string \<Rightarrow> string \<Rightarrow> string" where
  "smtp_content w at s =
     (let eol = [CHR 0x0D, CHR 0x0A] in
      ''To: '' @ join_with (CHR '';'') (sm_Recipients w) @ eol @ ''From: '' @ sm_FromAddress w @ ''<'' @ sm_FromAddress w @ ''>'' @ eol
      @ ''Subject: '' @ sm_Subject w @ eol @ ''Content-Type: text/plain; charset=UTF-8'' @ eol @ eol @ ''.'' @ at @ s)"

definition smtp_WriteMsg :: "(string \<Rightarrow> string) \<Rightarrow> (smtp_command \<Rightarrow> bool) \<Rightarrow> (log_time \<Rightarrow> string) \<Rightarrow> log_time \<Rightarrow> string \<Rightarrow> int \<Rightarrow> smtp_writer
    \<Rightarrow> bool \<times> smtp_command list" where
  "smtp_WriteMsg SplitHost server stamp when s level w =
     (if level > sm_Level w then (True, [])
      else sendMail SplitHost server (sm_Host w) (getSMTPAuth w (takeWhile (\<lambda>c. c \<noteq> CHR '':'') (sm_Host w))) (sm_FromAddress w)
             (sm_Recipients w) (smtp_content w (stamp when) s))"

section \<open>What the texts carry\<close>

lemma read_quote: "read_string (CHR 0x22 # cs) = Some ([], cs)"
  by simp

lemma read_plain: "c \<noteq> CHR 0x22 \<Longrightarrow> c \<noteq> CHR 0x5C \<Longrightarrow> \<not> of_char c < (0x20 :: nat) \<Longrightarrow> read_string (c # cs) = prepended [c] (read_string cs)"
  by simp

lemma read_u: "read_string (CHR 0x5C # CHR ''u'' # w # x # y # z # rest)
    = (case hex4 w x y z of None \<Rightarrow> None | Some n \<Rightarrow> prepended (utf8 n) (read_string rest))"
  by (subst read_string.simps) (simp del: read_string.simps)

lemma read_escape: "e \<noteq> CHR ''u'' \<Longrightarrow> escape_value e = Some v \<Longrightarrow> read_string (CHR 0x5C # e # rest) = prepended [v] (read_string rest)"
  by (subst read_string.simps) (simp del: read_string.simps)

declare read_string.simps [simp del]

lemma read_u00:
  assumes "of_char c < (0x80 :: nat)"
  shows "read_string (u00 c @ rest) = prepended [c] (read_string rest)"
proof -
  have "(of_char c div 16 :: nat) < 16" "(of_char c mod 16 :: nat) < 16" using assms by auto
  then have "hex4 (CHR ''0'') (CHR ''0'') (hex_char (of_char c div 16)) (hex_char (of_char c mod 16)) = Some (of_char c)"
    by (simp add: hex4_def hex_value_char) (simp add: hex_value_def)
  moreover have "utf8 (of_char c) = [c]" using assms by (simp add: utf8_def)
  ultimately show ?thesis by (simp add: u00_def read_u)
qed

lemma read_json_char: "read_string (json_char c @ rest) = prepended [c] (read_string rest)"
proof (cases "c = CHR 0x22 \<or> c = CHR 0x5C")
  case True
  then have "json_char c = [CHR 0x5C, c]" by (simp add: json_char_def)
  moreover have "c \<noteq> CHR ''u''" "escape_value c = Some c" using True by (auto simp: escape_value_def)
  ultimately show ?thesis by (simp add: read_escape)
next
  case special: False
  show ?thesis
  proof (cases "c = CHR 0x0A \<or> c = CHR 0x0D \<or> c = CHR 0x09")
    case True
    then show ?thesis by (elim disjE) (simp_all add: json_char_def read_escape escape_value_def)
  next
    case blank: False
    show ?thesis
    proof (cases "of_char c < (0x20 :: nat) \<or> c = CHR ''<'' \<or> c = CHR ''>'' \<or> c = CHR ''&''")
      case True
      then have "of_char c < (0x80 :: nat)" by auto
      moreover have "json_char c = u00 c" using special blank True by (simp add: json_char_def)
      ultimately show ?thesis using read_u00 by simp
    next
      case False
      then have "json_char c = [c]" using special blank by (simp add: json_char_def)
      then show ?thesis using special False read_plain [of c rest] by simp
    qed
  qed
qed

lemma prepended_Some [simp]: "prepended s (Some (t, r)) = Some (s @ t, r)"
  by (simp add: prepended_def)

lemma read_separator:
  assumes "e = CHR 0xA8 \<or> e = CHR 0xA9"
  shows "read_string (CHR 0x5C # ''u202'' @ [hex_char (of_char e mod 16)] @ rest) = prepended [CHR 0xE2, CHR 0x80, e] (read_string rest)"
proof -
  have h: "hex_value (CHR ''2'') = Some 2" "hex_value (CHR ''0'') = Some 0" by (simp_all add: hex_value_def)
  have x: "hex4 (CHR ''2'') (CHR ''0'') (CHR ''2'') (hex_char n) = Some (0x2020 + n)" if "n < 16" for n
    by (simp add: hex4_def h hex_value_char that)
  have c: "char_of (226 :: nat) = CHR 0xE2" "char_of (128 :: nat) = CHR 0x80" "char_of (168 :: nat) = CHR 0xA8" "char_of (169 :: nat) = CHR 0xA9"
    by code_simp+
  have u: "utf8 0x2028 = [CHR 0xE2, CHR 0x80, CHR 0xA8]" "utf8 0x2029 = [CHR 0xE2, CHR 0x80, CHR 0xA9]" by (simp_all add: utf8_def c)
  show ?thesis
  proof (rule disjE [OF assms])
    assume e: "e = CHR 0xA8"
    have "(of_char e mod 16 :: nat) = 8" unfolding e by simp
    then show ?thesis unfolding e using x [of 8] u(1) by (simp add: read_u)
  next
    assume e: "e = CHR 0xA9"
    have "(of_char e mod 16 :: nat) = 9" unfolding e by simp
    then show ?thesis unfolding e using x [of 9] u(2) by (simp add: read_u)
  qed
qed

lemma read_json_chars: "read_string (json_chars s @ CHR 0x22 # rest) = Some (s, rest)"
proof (induction s rule: json_chars.induct)
  case 1
  show ?case by (simp add: read_quote)
next
  case (2 c d e cs)
  show ?case
  proof (cases "c = CHR 0xE2 \<and> d = CHR 0x80 \<and> (e = CHR 0xA8 \<or> e = CHR 0xA9)")
    case True
    then have "json_chars (c # d # e # cs) @ CHR 0x22 # rest
        = CHR 0x5C # ''u202'' @ [hex_char (of_char e mod 16)] @ (json_chars cs @ CHR 0x22 # rest)"
      by (subst json_chars.simps, subst if_P) simp_all
    then show ?thesis using read_separator [of e "json_chars cs @ CHR 0x22 # rest"] 2(1) True by (simp only: prepended_Some) simp
  next
    case False
    then have "json_chars (c # d # e # cs) = json_char c @ json_chars (d # e # cs)" by (simp only: json_chars.simps if_False)
    then show ?thesis using 2(2) [OF False] by (simp only: append_assoc read_json_char prepended_Some) simp
  qed
qed (simp_all only: json_chars.simps append_assoc read_json_char prepended_Some append_Nil read_quote append_Cons append_Nil2)

text \<open>The text a reader finds in a request.\<close>

definition dingtalk_text :: "string \<Rightarrow> string option" where
  "dingtalk_text body =
     (let pre = ''{'' @ json_pair ''msgtype'' (json_string ''text'') @ '',''
            @ json_string ''text'' @ '':'' @ ''{'' @ json_string ''content'' @ '':'' @ [CHR 0x22]
      in if take (length pre) body = pre
         then (case read_string (drop (length pre) body) of Some (s, rest) \<Rightarrow> if rest = ''}}'' then Some s else None | None \<Rightarrow> None)
         else None)"

definition slack_text :: "string \<Rightarrow> string option" where
  "slack_text payload =
     (let pre = ''{'' @ [CHR 0x22] @ ''text'' @ [CHR 0x22] @ '': '' @ [CHR 0x22]
      in if take (length pre) payload = pre
         then (case read_string (drop (length pre) payload) of Some (s, rest) \<Rightarrow> if rest = ''}'' then Some s else None | None \<Rightarrow> None)
         else None)"


text \<open>What a reader consumes: every escape is longer than what it stands for.\<close>

definition plain_char :: "char \<Rightarrow> bool" where
  "plain_char c \<longleftrightarrow> c \<noteq> CHR 0x22 \<and> c \<noteq> CHR 0x5C \<and> \<not> of_char c < (0x20 :: nat)"

lemma read_plain_text: "list_all plain_char s \<Longrightarrow> read_string (s @ CHR 0x22 # rest) = Some (s, rest)"
proof (induction s)
  case (Cons c s)
  then have "plain_char c" "read_string (s @ CHR 0x22 # rest) = Some (s, rest)" by simp_all
  then show ?case using read_plain [of c "s @ CHR 0x22 # rest"] by (simp add: plain_char_def)
qed (simp add: read_quote)

lemma prepended_eq_Some: "prepended s r = Some (t, rest) \<longleftrightarrow> (\<exists>u. r = Some (u, rest) \<and> t = s @ u)"
  by (cases r) (auto simp: prepended_def)

lemma read_cases:
  assumes "read_string (c # cs) = Some (t, rest)"
  shows "c = CHR 0x22 \<and> t = [] \<and> rest = cs
    \<or> plain_char c \<and> (\<exists>u. read_string cs = Some (u, rest) \<and> t = c # u)
    \<or> (\<exists>v es u. read_string es = Some (u, rest) \<and> t = v @ u \<and> length v + length es < length (c # cs))"
proof (cases "c = CHR 0x22")
  case True
  then show ?thesis using assms by (simp add: read_quote)
next
  case q: False
  show ?thesis
  proof (cases "plain_char c")
    case True
    then show ?thesis using assms read_plain [of c cs] by (auto simp: plain_char_def prepended_eq_Some)
  next
    case False
    then have c: "c = CHR 0x5C" using assms q by (auto simp: plain_char_def read_string.simps split: if_splits)
    then obtain e es where cs: "cs = e # es" using assms by (cases cs) (auto simp: read_string.simps)
    have "\<exists>v fs u. read_string fs = Some (u, rest) \<and> t = v @ u \<and> length v + length fs < length (c # cs)"
    proof (cases "e = CHR ''u''")
      case True
      then obtain w x y z fs where es: "es = w # x # y # z # fs"
        using assms unfolding c cs by (subst (asm) read_string.simps) (auto split: list.splits)
      then obtain n u where "read_string fs = Some (u, rest)" "t = utf8 n @ u"
        using assms unfolding c cs True es read_u by (auto simp: prepended_eq_Some split: option.splits)
      moreover have "length (utf8 n) \<le> 3" by (simp add: utf8_def)
      ultimately show ?thesis unfolding c cs es by (intro exI [of _ "utf8 n"] exI [of _ fs] exI [of _ u]) auto
    next
      case False
      then obtain v u where "read_string es = Some (u, rest)" "t = [v] @ u"
        using assms unfolding c cs by (subst (asm) read_string.simps) (auto simp: prepended_eq_Some split: option.splits)
      then show ?thesis unfolding c cs by (intro exI [of _ "[v]"] exI [of _ es] exI [of _ u]) auto
    qed
    then show ?thesis by blast
  qed
qed

lemma read_length:
  "read_string cs = Some (t, rest) \<Longrightarrow> length t + 1 + length rest \<le> length cs
    \<and> (length t + 1 + length rest = length cs \<longrightarrow> list_all plain_char t)"
proof (induction cs arbitrary: t rule: length_induct)
  case (1 cs)
  note ih = 1(1) [rule_format]
  obtain c ds where cs: "cs = c # ds" using 1(2) by (cases cs) (auto simp: read_string.simps)
  consider "t = []" "rest = ds" | u where "plain_char c" "read_string ds = Some (u, rest)" "t = c # u"
    | v es u where "read_string es = Some (u, rest)" "t = v @ u" "length v + length es < length (c # ds)"
    using read_cases [OF 1(2) [unfolded cs]] by blast
  then show ?case
  proof cases
    case 1
    then show ?thesis by (simp add: cs)
  next
    case (2 u)
    then show ?thesis using ih [of ds u] by (simp add: cs)
  next
    case (3 v es u)
    then show ?thesis using ih [of es u] by (simp add: cs)
  qed
qed

text \<open>
  the body of a slack request carries what was logged only sometimes: a reader of JSON finds the time and the message in its text exactly
  when neither has a quote, a backslash or a control character, such as a newline.
\<close>

theorem slack_carries_iff:
  "slack_text (slack_payload at s) = Some (at @ '' '' @ s) \<longleftrightarrow> list_all plain_char (at @ '' '' @ s)"
proof -
  define pre where "pre = ''{'' @ [CHR 0x22] @ ''text'' @ [CHR 0x22] @ '': '' @ [CHR 0x22]"
  let ?s = "at @ '' '' @ s"
  have b: "slack_payload at s = pre @ ?s @ CHR 0x22 # ''}''"
    unfolding slack_payload_def pre_def by (simp only: append_assoc append_Cons append_Nil)
  have "slack_text (slack_payload at s) = Some ?s \<longleftrightarrow> read_string (?s @ CHR 0x22 # ''}'') = Some (?s, ''}'')"
    unfolding slack_text_def pre_def [symmetric] Let_def b
    by (simp del: append_assoc append_Cons) (auto split: option.splits)
  also have "\<dots> \<longleftrightarrow> list_all plain_char ?s"
  proof
    assume "read_string (?s @ CHR 0x22 # ''}'') = Some (?s, ''}'')"
    from read_length [OF this] show "list_all plain_char ?s" by simp
  qed (rule read_plain_text)
  finally show ?thesis .
qed

section \<open>Sessions\<close>

lemma smtp_session_ok: "fst (smtp_session server cs) = list_all server cs"
  by (induction cs) (auto split: prod.splits)

lemma smtp_session_done: "list_all server cs \<Longrightarrow> snd (smtp_session server cs) = cs"
  by (induction cs) (auto split: prod.splits)

text \<open>A mail that is reported as sent was offered to every recipient, in order, with the whole text; and a command that fails is the last.\<close>

lemma smtp_sends_to_all:
  assumes "smtp_WriteMsg SplitHost server stamp when s level w = (True, cmds)" "level \<le> sm_Level w"
  shows "list_all server cmds \<and> filter (\<lambda>c. \<exists>r. c = Smtp_rcpt r) cmds = map Smtp_rcpt (sm_Recipients w)
    \<and> Smtp_body (smtp_content w (stamp when) s) \<in> set cmds"
proof -
  have n: "\<not> sm_Level w < level" using assms(2) by simp
  define cs where "cs = smtp_commands SplitHost (sm_Host w) (getSMTPAuth w (takeWhile (\<lambda>c. c \<noteq> CHR '':'') (sm_Host w))) (sm_FromAddress w)
    (sm_Recipients w) (smtp_content w (stamp when) s)"
  have cs: "smtp_session server cs = (True, cmds)" using assms(1) n by (simp add: smtp_WriteMsg_def sendMail_def cs_def)
  have f: "filter (\<lambda>c. \<exists>r. c = Smtp_rcpt r) cs = map Smtp_rcpt (sm_Recipients w)" "Smtp_body (smtp_content w (stamp when) s) \<in> set cs"
    unfolding cs_def smtp_commands_def by (auto simp: filter_map o_def split: option.splits)
  have "list_all server cs" using smtp_session_ok [of server cs] cs by simp
  moreover have "cmds = cs" using smtp_session_done [OF calculation] cs by simp
  ultimately show ?thesis using f by simp
qed

end
