(* ===== verification/Lodos_Alils.thy ===== *)
theory Lodos_Alils
  imports Lodos_Log_Hooks "HOL-Library.List_Lexorder"
begin

text \<open>
  The client of a log service in \<^verbatim>\<open>log/beego/alils/\<close>: signed requests (\<^verbatim>\<open>signature.go\<close>, \<^verbatim>\<open>request.go\<close>), the calls of a project, a
  store, a machine group and a configuration, and the adapter that groups messages by topic and puts them in batches. The digests, the
  formats of JSON, protobuf and lz4 and the network are parameters.
\<close>

section \<open>The service\<close>

text \<open>
  What the client uses of its libraries: the time in RFC 1123, MD5 in hexadecimal, the keyed digest in base64, \<^verbatim>\<open>url.Parse\<close> with the path, the
  raw query and its values, \<^verbatim>\<open>url.QueryEscape\<close>, and an exchange over HTTP.
\<close>

record signed_request =
  sq_method :: string
  sq_url :: string
  sq_headers :: "(string \<times> string) list"
  sq_body :: string

record sls_response =
  sr_status :: int
  sr_headers :: "string \<Rightarrow> string list"
  sr_body :: "string option"

record sls_env =
  se_now :: string
  se_md5 :: "string \<Rightarrow> string"
  se_hmac :: "string \<Rightarrow> string \<Rightarrow> string"
  se_url :: "string \<Rightarrow> (string \<times> string \<times> (string \<times> string list) list) option"
  se_escape :: "string \<Rightarrow> string"
  se_http :: "signed_request \<Rightarrow> sls_response option"
  se_error :: "string \<Rightarrow> (string \<times> string) option"

datatype sls_error = No_bodyrawsize | No_content_type | No_date | Bad_uri | Transport_failed | Body_unread | Failed_to string
  | Service_error string string | Bad_answer | No_header string | Bad_compression string

record log_project =
  lp_Name :: string
  lp_Endpoint :: string
  lp_AccessKeyID :: string
  lp_AccessKeySecret :: string

definition NewLogProject :: "string \<Rightarrow> string \<Rightarrow> string \<Rightarrow> string \<Rightarrow> log_project" where
  "NewLogProject name endpoint key secret =
     \<lparr>lp_Name = name, lp_Endpoint = endpoint, lp_AccessKeyID = key, lp_AccessKeySecret = secret\<rparr>"

section \<open>Signatures\<close>

text \<open>Headers are a Go map: here the list of its entries in the order of a visit, each key once.\<close>

type_synonym headers = "(string \<times> string) list"

definition put_header :: "string \<Rightarrow> string \<Rightarrow> headers \<Rightarrow> headers" where
  "put_header k v h = (if k \<in> fst ` set h then map (\<lambda>(k', v'). (k', if k' = k then v else v')) h else h @ [(k, v)])"

definition header_or :: "headers \<Rightarrow> string \<Rightarrow> string" where
  "header_or h k = (case map_of h k of Some v \<Rightarrow> v | None \<Rightarrow> [])"

definition is_space :: "char \<Rightarrow> bool" where
  "is_space c \<longleftrightarrow> c = CHR '' '' \<or> (9 \<le> (of_char c :: nat) \<and> (of_char c :: nat) \<le> 13)"

definition TrimSpace :: "string \<Rightarrow> string" where
  "TrimSpace s = rev (dropWhile is_space (rev (dropWhile is_space s)))"

text \<open>The headers of the service, by lower-case name: their names in the order of the visit, and their values.\<close>

definition sls_headers :: "headers \<Rightarrow> headers" where
  "sls_headers h = filter (\<lambda>(k, v). has_prefix k ''x-sls-'') (map (\<lambda>(k, v). (TrimSpace (lower k), TrimSpace v)) h)"

definition cano_headers :: "headers \<Rightarrow> string" where
  "cano_headers h =
     (let sls = sls_headers h
      in join_with (CHR 0x0A) (map (\<lambda>k. k @ '':'' @ the (map_of (rev sls) k)) (sort (map fst sls))))"

definition cano_resource :: "sls_env \<Rightarrow> string \<Rightarrow> string \<Rightarrow> (string \<times> string list) list \<Rightarrow> string" where
  "cano_resource env path raw vals =
     se_escape env path
     @ (if raw = [] then []
        else ''?'' @ join_with (CHR ''&'') (map (\<lambda>k. concat (map (\<lambda>v. k @ ''='' @ v) (the (map_of vals k)))) (sort (map fst vals))))"

definition signature :: "sls_env \<Rightarrow> log_project \<Rightarrow> string \<Rightarrow> string \<Rightarrow> headers \<Rightarrow> sls_error + string" where
  "signature env p verb uri h =
     (case map_of h ''Date'' of
        None \<Rightarrow> Inl No_date
      | Some date \<Rightarrow>
          (case se_url env uri of
             None \<Rightarrow> Inl Bad_uri
           | Some (path, raw, vals) \<Rightarrow>
               let nl = [CHR 0x0A] in
               Inr (se_hmac env (lp_AccessKeySecret p)
                 (verb @ nl @ header_or h ''Content-MD5'' @ nl @ header_or h ''Content-Type'' @ nl @ date @ nl
                  @ cano_headers h @ nl @ cano_resource env path raw vals))))"

definition sls_request :: "sls_env \<Rightarrow> log_project \<Rightarrow> string \<Rightarrow> string \<Rightarrow> headers \<Rightarrow> string option \<Rightarrow> sls_error + signed_request" where
  "sls_request env p verb uri h body =
     (if ''x-sls-bodyrawsize'' \<notin> fst ` set h then Inl No_bodyrawsize
      else let h1 = put_header ''x-sls-signaturemethod'' ''hmac-sha1'' (put_header ''x-sls-apiversion'' ''0.5.0''
                      (put_header ''Date'' (se_now env) (put_header ''Host'' (lp_Name p @ ''.'' @ lp_Endpoint p) h)));
               h2 = (case body of None \<Rightarrow> h1 | Some b \<Rightarrow> put_header ''Content-MD5'' (se_md5 env b) h1)
           in if body \<noteq> None \<and> ''Content-Type'' \<notin> fst ` set h2 then Inl No_content_type
              else (case signature env p verb uri h2 of
                      Inl e \<Rightarrow> Inl e
                    | Inr digest \<Rightarrow>
                        Inr \<lparr>sq_method = verb, sq_url = ''http://'' @ lp_Name p @ ''.'' @ lp_Endpoint p @ uri,
                          sq_headers = put_header ''Authorization'' (''SLS '' @ lp_AccessKeyID p @ '':'' @ digest) h2,
                          sq_body = (case body of None \<Rightarrow> [] | Some b \<Rightarrow> b)\<rparr>))"

definition request :: "sls_env \<Rightarrow> log_project \<Rightarrow> string \<Rightarrow> string \<Rightarrow> headers \<Rightarrow> string option \<Rightarrow> sls_error + sls_response" where
  "request env p verb uri h body =
     (case sls_request env p verb uri h body of
        Inl e \<Rightarrow> Inl e
      | Inr q \<Rightarrow> (case se_http env q of None \<Rightarrow> Inl Transport_failed | Some r \<Rightarrow> Inr r))"

text \<open>What every call does with the response; \<open>decode\<close> reads the body of a good one.\<close>

definition sls_call :: "sls_env \<Rightarrow> log_project \<Rightarrow> string \<Rightarrow> string \<Rightarrow> headers \<Rightarrow> string option \<Rightarrow> string
    \<Rightarrow> (sls_response \<Rightarrow> string \<Rightarrow> sls_error + 'a) \<Rightarrow> sls_error + 'a" where
  "sls_call env p verb uri h body failed decode =
     (case request env p verb uri h body of
        Inl e \<Rightarrow> Inl e
      | Inr r \<Rightarrow>
          (case sr_body r of
             None \<Rightarrow> Inl Body_unread
           | Some buf \<Rightarrow>
               if sr_status r \<noteq> 200 then
                 (case se_error env buf of None \<Rightarrow> Inl (Failed_to failed) | Some (code, msg) \<Rightarrow> Inl (Service_error code msg))
               else decode r buf))"

definition plain_headers :: headers where
  "plain_headers = [(''x-sls-bodyrawsize'', ''0'')]"

definition json_headers :: "string \<Rightarrow> headers" where
  "json_headers body = [(''x-sls-bodyrawsize'', dec_nat (length body)), (''Content-Type'', ''application/json''), (''Accept-Encoding'', ''deflate'')]"

definition no_answer :: "sls_response \<Rightarrow> string \<Rightarrow> sls_error + unit" where
  "no_answer r buf = Inr ()"

definition decoded_by :: "(string \<Rightarrow> 'a option) \<Rightarrow> sls_response \<Rightarrow> string \<Rightarrow> sls_error + 'a" where
  "decoded_by f r buf = (case f buf of None \<Rightarrow> Inl Bad_answer | Some x \<Rightarrow> Inr x)"

section \<open>Projects\<close>

record log_store =
  st_Name :: string
  st_TTL :: int
  st_ShardCount :: int
  st_CreateTime :: "32 word"
  st_LastModifyTime :: "32 word"

record machine_group =
  mg_Name :: string
  mg_Type :: string
  mg_MachineIDType :: string
  mg_MachineIDList :: "string list"
  mg_ExternalName :: string
  mg_TopicName :: string
  mg_CreateTime :: "32 word"
  mg_LastModifyTime :: "32 word"

record input_detail =
  in_LogType :: string
  in_LogPath :: string
  in_FilePattern :: string
  in_LocalStorage :: bool
  in_TimeFormat :: string
  in_LogBeginRegex :: string
  in_Regex :: string
  in_Keys :: "string list"
  in_FilterKeys :: "string list"
  in_FilterRegex :: "string list"
  in_TopicFormat :: string

record output_detail =
  out_Endpoint :: string
  out_LogStoreName :: string

record log_config =
  lc_Name :: string
  lc_InputType :: string
  lc_InputDetail :: input_detail
  lc_OutputType :: string
  lc_OutputDetail :: output_detail
  lc_CreateTime :: "32 word"
  lc_LastModifyTime :: "32 word"

record machine =
  ma_IP :: string
  ma_UniqueID :: string
  ma_UserdefinedID :: string

text \<open>The readers and writers of JSON the calls use: for a field that lists names, one that is a number, and for the structs; a shard that is \<^verbatim>\<open>null\<close> is no pointer.\<close>

record sls_json =
  sj_names :: "string \<Rightarrow> string \<Rightarrow> string list option"
  sj_number :: "string \<Rightarrow> string \<Rightarrow> int option"
  sj_store :: "string \<Rightarrow> log_store option"
  sj_group :: "string \<Rightarrow> machine_group option"
  sj_config :: "string \<Rightarrow> log_config option"
  sj_machines :: "string \<Rightarrow> machine list option"
  sj_shards :: "string \<Rightarrow> int option list option"
  sj_text :: "string \<Rightarrow> string \<Rightarrow> string option"
  sj_of_store :: "string \<Rightarrow> int \<Rightarrow> int \<Rightarrow> string"
  sj_of_group :: "machine_group \<Rightarrow> string"
  sj_of_config :: "log_config \<Rightarrow> string"

definition both :: "'a option \<Rightarrow> 'b option \<Rightarrow> ('a \<times> 'b) option" where
  "both x y = (case (x, y) of (Some a, Some b) \<Rightarrow> Some (a, b) | _ \<Rightarrow> None)"

definition ListLogStore :: "sls_env \<Rightarrow> sls_json \<Rightarrow> log_project \<Rightarrow> sls_error + string list" where
  "ListLogStore env js p =
     sls_call env p ''GET'' ''/logstores'' plain_headers None ''list logstore''
       (decoded_by (\<lambda>b. map_option fst (both (sj_names js ''LogStores'' b) (sj_number js ''Count'' b))))"

definition GetLogStore :: "sls_env \<Rightarrow> sls_json \<Rightarrow> log_project \<Rightarrow> string \<Rightarrow> sls_error + log_store" where
  "GetLogStore env js p name =
     sls_call env p ''GET'' (''/logstores/'' @ name) plain_headers None ''get logstore'' (decoded_by (sj_store js))"

definition CreateLogStore :: "sls_env \<Rightarrow> sls_json \<Rightarrow> log_project \<Rightarrow> string \<Rightarrow> int \<Rightarrow> int \<Rightarrow> sls_error + unit" where
  "CreateLogStore env js p name ttl shardCnt =
     (let body = sj_of_store js name ttl shardCnt
      in sls_call env p ''POST'' ''/logstores'' (json_headers body) (Some body) ''create logstore'' no_answer)"

definition DeleteLogStore :: "sls_env \<Rightarrow> log_project \<Rightarrow> string \<Rightarrow> sls_error + unit" where
  "DeleteLogStore env p name =
     sls_call env p ''DELETE'' (''/logstores/'' @ name) plain_headers None ''delete logstore'' no_answer"

definition UpdateLogStore :: "sls_env \<Rightarrow> sls_json \<Rightarrow> log_project \<Rightarrow> string \<Rightarrow> int \<Rightarrow> int \<Rightarrow> sls_error + unit" where
  "UpdateLogStore env js p name ttl shardCnt =
     (let body = sj_of_store js name ttl shardCnt
      in sls_call env p ''PUT'' ''/logstores'' (json_headers body) (Some body) ''update logstore'' no_answer)"

definition ListMachineGroup :: "sls_env \<Rightarrow> sls_json \<Rightarrow> log_project \<Rightarrow> int \<Rightarrow> int \<Rightarrow> sls_error + string list \<times> int" where
  "ListMachineGroup env js p offset cnt =
     sls_call env p ''GET'' (''/machinegroups?offset='' @ dec_int offset @ ''&size='' @ dec_int (if cnt \<le> 0 then 500 else cnt))
       plain_headers None ''list machine group''
       (decoded_by (\<lambda>b. map_option fst (both (both (sj_names js ''MachineGroups'' b) (sj_number js ''Total'' b)) (sj_number js ''Count'' b))))"

definition GetMachineGroup :: "sls_env \<Rightarrow> sls_json \<Rightarrow> log_project \<Rightarrow> string \<Rightarrow> sls_error + machine_group" where
  "GetMachineGroup env js p name =
     sls_call env p ''GET'' (''/machinegroups/'' @ name) plain_headers None (''get machine group:'' @ name) (decoded_by (sj_group js))"

definition CreateMachineGroup :: "sls_env \<Rightarrow> sls_json \<Rightarrow> log_project \<Rightarrow> machine_group \<Rightarrow> sls_error + unit" where
  "CreateMachineGroup env js p m =
     (let body = sj_of_group js m
      in sls_call env p ''POST'' ''/machinegroups'' (json_headers body) (Some body) ''create machine group'' no_answer)"

definition UpdateMachineGroup :: "sls_env \<Rightarrow> sls_json \<Rightarrow> log_project \<Rightarrow> machine_group \<Rightarrow> sls_error + unit" where
  "UpdateMachineGroup env js p m =
     (let body = sj_of_group js m
      in sls_call env p ''PUT'' (''/machinegroups/'' @ mg_Name m) (json_headers body) (Some body) ''update machine group'' no_answer)"

definition DeleteMachineGroup :: "sls_env \<Rightarrow> log_project \<Rightarrow> string \<Rightarrow> sls_error + unit" where
  "DeleteMachineGroup env p name =
     sls_call env p ''DELETE'' (''/machinegroups/'' @ name) plain_headers None ''delete machine group'' no_answer"

definition ListConfig :: "sls_env \<Rightarrow> sls_json \<Rightarrow> log_project \<Rightarrow> int \<Rightarrow> int \<Rightarrow> sls_error + string list \<times> int" where
  "ListConfig env js p offset cnt =
     sls_call env p ''GET'' (''/configs?offset='' @ dec_int offset @ ''&size='' @ dec_int (if cnt \<le> 0 then 100 else cnt))
       plain_headers None ''delete machine group''
       (decoded_by (\<lambda>b. both (sj_names js ''Configs'' b) (sj_number js ''Total'' b)))"

definition GetConfig :: "sls_env \<Rightarrow> sls_json \<Rightarrow> log_project \<Rightarrow> string \<Rightarrow> sls_error + log_config" where
  "GetConfig env js p name =
     sls_call env p ''GET'' (''/configs/'' @ name) plain_headers None ''delete config'' (decoded_by (sj_config js))"

definition UpdateConfig :: "sls_env \<Rightarrow> sls_json \<Rightarrow> log_project \<Rightarrow> log_config \<Rightarrow> sls_error + unit" where
  "UpdateConfig env js p c =
     (let body = sj_of_config js c
      in sls_call env p ''PUT'' (''/configs/'' @ lc_Name c) (json_headers body) (Some body) ''update config'' no_answer)"

definition CreateConfig :: "sls_env \<Rightarrow> sls_json \<Rightarrow> log_project \<Rightarrow> log_config \<Rightarrow> sls_error + unit" where
  "CreateConfig env js p c =
     (let body = sj_of_config js c
      in sls_call env p ''POST'' ''/configs'' (json_headers body) (Some body) ''update config'' no_answer)"

definition DeleteConfig :: "sls_env \<Rightarrow> log_project \<Rightarrow> string \<Rightarrow> sls_error + unit" where
  "DeleteConfig env p name =
     sls_call env p ''DELETE'' (''/configs/'' @ name) plain_headers None ''delete config'' no_answer"

definition GetAppliedMachineGroups :: "sls_env \<Rightarrow> sls_json \<Rightarrow> log_project \<Rightarrow> string \<Rightarrow> sls_error + string list" where
  "GetAppliedMachineGroups env js p confName =
     sls_call env p ''GET'' (''/configs/'' @ confName @ ''/machinegroups'') plain_headers None ''get applied machine groups''
       (decoded_by (\<lambda>b. map_option fst (both (sj_names js ''Machinegroups'' b) (sj_number js ''Count'' b))))"

definition GetAppliedConfigs :: "sls_env \<Rightarrow> sls_json \<Rightarrow> log_project \<Rightarrow> string \<Rightarrow> sls_error + string list" where
  "GetAppliedConfigs env js p groupName =
     sls_call env p ''GET'' (''/machinegroups/'' @ groupName @ ''/configs'') plain_headers None ''applied configs''
       (decoded_by (\<lambda>b. map_option fst (both (sj_names js ''configs'' b) (sj_number js ''count'' b))))"

definition ApplyConfigToMachineGroup :: "sls_env \<Rightarrow> log_project \<Rightarrow> string \<Rightarrow> string \<Rightarrow> sls_error + unit" where
  "ApplyConfigToMachineGroup env p confName groupName =
     sls_call env p ''PUT'' (''/machinegroups/'' @ groupName @ ''/configs/'' @ confName) plain_headers None
       ''apply config to machine group'' no_answer"

definition RemoveConfigFromMachineGroup :: "sls_env \<Rightarrow> log_project \<Rightarrow> string \<Rightarrow> string \<Rightarrow> sls_error + unit" where
  "RemoveConfigFromMachineGroup env p confName groupName =
     sls_call env p ''DELETE'' (''/machinegroups/'' @ groupName @ ''/configs/'' @ confName) plain_headers None
       ''remove config from machine group'' no_answer"

text \<open>Of a machine group and a configuration, with the project that a read of them stores in them.\<close>

definition ListMachines :: "sls_env \<Rightarrow> sls_json \<Rightarrow> log_project \<times> machine_group \<Rightarrow> sls_error + machine list \<times> int" where
  "ListMachines env js pm =
     sls_call env (fst pm) ''GET'' (''/machinegroups/'' @ mg_Name (snd pm) @ ''/machines'') plain_headers None
       ''remove config from machine group'' (decoded_by (\<lambda>b. both (sj_machines js b) (sj_number js ''Total'' b)))"

definition group_GetAppliedConfigs :: "sls_env \<Rightarrow> sls_json \<Rightarrow> log_project \<times> machine_group \<Rightarrow> sls_error + string list" where
  "group_GetAppliedConfigs env js pm = GetAppliedConfigs env js (fst pm) (mg_Name (snd pm))"

definition GetAppliedMachineGroup :: "sls_env \<Rightarrow> sls_json \<Rightarrow> log_project \<times> log_config \<Rightarrow> string \<Rightarrow> sls_error + string list" where
  "GetAppliedMachineGroup env js pc confName = GetAppliedMachineGroups env js (fst pc) (lc_Name (snd pc))"

section \<open>Stores\<close>

fun shard_ids :: "int option list \<Rightarrow> int list outcome" where
  "shard_ids [] = Done []"
| "shard_ids (None # vs) = Panic ''nil pointer dereference''"
| "shard_ids (Some i # vs) = map_outcome_val ((#) i) (shard_ids vs)"

definition ListShards :: "sls_env \<Rightarrow> sls_json \<Rightarrow> log_project \<times> log_store \<Rightarrow> sls_error + int list outcome" where
  "ListShards env js ps =
     sls_call env (fst ps) ''GET'' (''/logstores/'' @ st_Name (snd ps) @ ''/shards'') plain_headers None ''list logstore''
       (decoded_by (\<lambda>b. map_option shard_ids (sj_shards js b)))"

text \<open>A message and a group of them for a topic; \<open>pb\<close> is their protobuf encoding, \<open>lz4\<close> and \<open>unlz4\<close> the compression.\<close>

record sls_log =
  sl_Time :: "32 word"
  sl_content :: string

record log_group =
  gr_Topic :: string
  gr_Source :: string
  gr_Logs :: "sls_log list"

record sls_codec =
  sc_pb :: "log_group \<Rightarrow> string option"
  sc_unpb :: "string \<Rightarrow> log_group list option"
  sc_lz4 :: "string \<Rightarrow> string option"
  sc_unlz4 :: "nat \<Rightarrow> string \<Rightarrow> string option"
  sc_Atoi :: "string \<Rightarrow> int option"

definition PutLogs :: "sls_env \<Rightarrow> sls_codec \<Rightarrow> log_project \<times> log_store \<Rightarrow> log_group \<Rightarrow> sls_error + unit" where
  "PutLogs env cd ps lg =
     (case sc_pb cd lg of
        None \<Rightarrow> Inl (Bad_compression ''protobuf'')
      | Some body \<Rightarrow>
          (case sc_lz4 cd body of
             None \<Rightarrow> Inl (Bad_compression ''lz4'')
           | Some out \<Rightarrow>
               sls_call env (fst ps) ''POST'' (''/logstores/'' @ st_Name (snd ps))
                 [(''x-sls-compresstype'', ''lz4''), (''x-sls-bodyrawsize'', dec_nat (length body)), (''Content-Type'', ''application/x-protobuf'')]
                 (Some out) ''put logs'' no_answer))"

definition GetCursor :: "sls_env \<Rightarrow> sls_json \<Rightarrow> log_project \<times> log_store \<Rightarrow> int \<Rightarrow> string \<Rightarrow> sls_error + string" where
  "GetCursor env js ps shardID start =
     sls_call env (fst ps) ''GET'' (''/logstores/'' @ st_Name (snd ps) @ ''/shards/'' @ dec_int shardID @ ''?type=cursor&from='' @ start)
       plain_headers None ''get cursor'' (decoded_by (sj_text js ''Cursor''))"

text \<open>The headers of a response by their canonical names; a size that is negative makes \<^verbatim>\<open>make\<close> panic.\<close>

definition first_header :: "sls_response \<Rightarrow> string \<Rightarrow> sls_error + string" where
  "first_header r k = (case sr_headers r k of [] \<Rightarrow> Inl (No_header k) | v # vs \<Rightarrow> Inr v)"

definition raw_logs :: "sls_codec \<Rightarrow> sls_response \<Rightarrow> string \<Rightarrow> sls_error + (string \<times> string) outcome" where
  "raw_logs cd r buf =
     (case first_header r ''X-Sls-Compresstype'' of
        Inl e \<Rightarrow> Inl e
      | Inr c \<Rightarrow>
          if c \<noteq> ''lz4'' then Inl (Bad_compression c)
          else (case first_header r ''X-Sls-Cursor'' of
                  Inl e \<Rightarrow> Inl e
                | Inr cursor \<Rightarrow>
                    (case first_header r ''X-Sls-Bodyrawsize'' of
                       Inl e \<Rightarrow> Inl e
                     | Inr n \<Rightarrow>
                         (case sc_Atoi cd n of
                            None \<Rightarrow> Inl Bad_answer
                          | Some i \<Rightarrow>
                              if i < 0 then Inr (Panic ''makeslice: len out of range'')
                              else (case sc_unlz4 cd (nat i) buf of
                                      None \<Rightarrow> Inl (Bad_compression ''lz4'')
                                    | Some out \<Rightarrow> Inr (Done (out, cursor)))))))"

definition GetLogsBytes :: "sls_env \<Rightarrow> sls_codec \<Rightarrow> log_project \<times> log_store \<Rightarrow> int \<Rightarrow> string \<Rightarrow> int \<Rightarrow> sls_error + (string \<times> string) outcome" where
  "GetLogsBytes env cd ps shardID cursor cnt =
     sls_call env (fst ps) ''GET''
       (''/logstores/'' @ st_Name (snd ps) @ ''/shards/'' @ dec_int shardID @ ''?type=logs&cursor='' @ cursor @ ''&count='' @ dec_int cnt)
       [(''x-sls-bodyrawsize'', ''0''), (''Accept'', ''application/x-protobuf''), (''Accept-Encoding'', ''lz4'')] None ''get cursor''
       (raw_logs cd)"

definition LogsBytesDecode :: "sls_codec \<Rightarrow> string \<Rightarrow> sls_error + log_group list" where
  "LogsBytesDecode cd data = (case sc_unpb cd data of None \<Rightarrow> Inl Bad_answer | Some gl \<Rightarrow> Inr gl)"

definition GetLogs :: "sls_env \<Rightarrow> sls_codec \<Rightarrow> log_project \<times> log_store \<Rightarrow> int \<Rightarrow> string \<Rightarrow> int \<Rightarrow> sls_error + (log_group list \<times> string) outcome" where
  "GetLogs env cd ps shardID cursor cnt =
     (case GetLogsBytes env cd ps shardID cursor cnt of
        Inl e \<Rightarrow> Inl e
      | Inr (Panic e) \<Rightarrow> Inr (Panic e)
      | Inr (Done (out, nextCursor)) \<Rightarrow>
          (case LogsBytesDecode cd out of Inl e \<Rightarrow> Inl e | Inr gl \<Rightarrow> Inr (Done (gl, nextCursor))))"

section \<open>The adapter\<close>

record alils_conf =
  ac_Project :: string
  ac_Endpoint :: string
  ac_KeyID :: string
  ac_KeySecret :: string
  ac_LogStore :: string
  ac_Topics :: "string list"
  ac_Source :: string
  ac_Level :: int
  ac_FlushWhen :: int

text \<open>\<open>aw_at\<close> is \<^verbatim>\<open>groupMap\<close>: the position of the group of a topic, the last one if a topic is there twice. The first group has no topic.\<close>

record alils_writer =
  al_conf :: alils_conf
  al_group :: "log_group list"
  al_at :: "string \<Rightarrow> nat option"

definition NewAliLS :: alils_writer where
  "NewAliLS = \<lparr>al_conf = \<lparr>ac_Project = [], ac_Endpoint = [], ac_KeyID = [], ac_KeySecret = [], ac_LogStore = [], ac_Topics = [], ac_Source = [],
     ac_Level = LevelTrace, ac_FlushWhen = 0\<rparr>, al_group = [], al_at = (\<lambda>t. None)\<rparr>"

definition alils_key :: "string \<Rightarrow> json_item \<Rightarrow> alils_conf \<Rightarrow> alils_conf option" where
  "alils_key k v c =
     (if k = ''project'' then as_str v (\<lambda>s. c\<lparr>ac_Project := s\<rparr>)
      else if k = ''endpoint'' then as_str v (\<lambda>s. c\<lparr>ac_Endpoint := s\<rparr>)
      else if k = ''key_id'' then as_str v (\<lambda>s. c\<lparr>ac_KeyID := s\<rparr>)
      else if k = ''key_secret'' then as_str v (\<lambda>s. c\<lparr>ac_KeySecret := s\<rparr>)
      else if k = ''log_store'' then as_str v (\<lambda>s. c\<lparr>ac_LogStore := s\<rparr>)
      else if k = ''topics'' then (case v of J_strs ss \<Rightarrow> Some (c\<lparr>ac_Topics := ss\<rparr>) | _ \<Rightarrow> None)
      else if k = ''source'' then as_str v (\<lambda>s. c\<lparr>ac_Source := s\<rparr>)
      else if k = ''level'' then as_level v (\<lambda>i. c\<lparr>ac_Level := i\<rparr>)
      else if k = ''flush_when'' then as_level v (\<lambda>i. c\<lparr>ac_FlushWhen := i\<rparr>)
      else Some c)"

definition CacheSize :: int where "CacheSize = 64"

definition empty_group :: "alils_conf \<Rightarrow> string \<Rightarrow> log_group" where
  "empty_group c topic = \<lparr>gr_Topic = topic, gr_Source = ac_Source c, gr_Logs = []\<rparr>"

fun add_topics :: "alils_conf \<Rightarrow> string list \<Rightarrow> alils_writer \<Rightarrow> alils_writer" where
  "add_topics c [] w = w"
| "add_topics c (t # ts) w =
     add_topics c ts (w\<lparr>al_group := al_group w @ [empty_group c t], al_at := (al_at w)(t \<mapsto> length (al_group w))\<rparr>)"

text \<open>\<^verbatim>\<open>Init\<close>: settings that are no JSON, or have a wrong type, are no error; a capacity below 0 makes \<^verbatim>\<open>make\<close> panic.\<close>

definition alils_Init :: "sls_env \<Rightarrow> sls_json \<Rightarrow> json_object option \<Rightarrow> alils_writer
    \<Rightarrow> (sls_error option \<times> (log_project \<times> log_store) option \<times> alils_writer) outcome" where
  "alils_Init env js config w =
     (let c0 = (case config of None \<Rightarrow> al_conf w | Some obj \<Rightarrow> snd (keys_into alils_key obj (al_conf w)));
          c = (if ac_FlushWhen c0 > CacheSize then c0\<lparr>ac_FlushWhen := CacheSize\<rparr> else c0);
          p = \<lparr>lp_Name = ac_Project c, lp_Endpoint = ac_Endpoint c, lp_AccessKeyID = ac_KeyID c, lp_AccessKeySecret = ac_KeySecret c\<rparr>
      in case GetLogStore env js p (ac_LogStore c) of
           Inl e \<Rightarrow> Done (Some e, None, w\<lparr>al_conf := c\<rparr>)
         | Inr st \<Rightarrow>
             if ac_FlushWhen c < 0 then Panic ''makeslice: cap out of range''
             else Done (None, Some (p, st),
               add_topics c (ac_Topics c) (w\<lparr>al_conf := c, al_group := al_group w @ [empty_group c []], al_at := (\<lambda>t. None)\<rparr>)))"

text \<open>\<^verbatim>\<open>SplitN\<close> at the first delimiter.\<close>

fun split_delimiter :: "string \<Rightarrow> (string \<times> string) option" where
  "split_delimiter (c # d # cs) =
     (if c = CHR ''#'' \<and> d = CHR ''#'' then Some ([], cs)
      else map_option (apfst ((#) c)) (split_delimiter (d # cs)))"
| "split_delimiter cs = None"

text \<open>Where a message goes and what is left of it: \<^verbatim>\<open>strs[0][0:pos]\<close> panics when there is no space before the delimiter.\<close>

definition routed :: "alils_writer \<Rightarrow> string \<Rightarrow> (nat \<times> string) outcome" where
  "routed w s =
     (if length (al_group w) = 1 then Done (0, s)
      else (case split_delimiter s of
              None \<Rightarrow> Done (0, s)
            | Some (before, after) \<Rightarrow>
                (case LastIndex before '' '' of
                   None \<Rightarrow> Panic ''slice bounds out of range''
                 | Some pos \<Rightarrow>
                     (case al_at w (drop (pos + 1) before) of
                        None \<Rightarrow> Done (0, s)
                      | Some i \<Rightarrow> Done (i, take pos before @ after)))))"

text \<open>\<open>put\<close>: the answer of \<^verbatim>\<open>PutLogs\<close> to a group. The state has the batches that were put, with the group they were for.\<close>

type_synonym alils_state = "alils_writer \<times> (nat \<times> sls_log list) list"

definition alils_flush :: "(log_group \<Rightarrow> bool) \<Rightarrow> nat \<Rightarrow> alils_state \<Rightarrow> alils_state" where
  "alils_flush put i ws = (case ws of (w, batches) \<Rightarrow>
     (let g = al_group w ! i in
      if put g then (w\<lparr>al_group := (al_group w)[i := g\<lparr>gr_Logs := []\<rparr>]\<rparr>, batches @ [(i, gr_Logs g)]) else (w, batches)))"

definition alils_WriteMsg :: "(log_group \<Rightarrow> bool) \<Rightarrow> 32 word \<Rightarrow> string \<Rightarrow> int \<Rightarrow> alils_state \<Rightarrow> alils_state outcome" where
  "alils_WriteMsg put unix s level ws = (case ws of (w, batches) \<Rightarrow>
     if level > ac_Level (al_conf w) then Done ws
     else outcome_bind (routed w s) (\<lambda>(i, content).
       let g = al_group w ! i;
           g1 = g\<lparr>gr_Logs := gr_Logs g @ [\<lparr>sl_Time = unix, sl_content = content\<rparr>]\<rparr>;
           ws1 = (w\<lparr>al_group := (al_group w)[i := g1]\<rparr>, batches)
       in Done (if int (length (gr_Logs g1)) \<ge> ac_FlushWhen (al_conf w) then alils_flush put i ws1 else ws1)))"

definition alils_Flush :: "(log_group \<Rightarrow> bool) \<Rightarrow> alils_state \<Rightarrow> alils_state" where
  "alils_Flush put ws = fold (alils_flush put) [0..<length (al_group (fst ws))] ws"

end
