(* ===== verification/Lodos_Alils_Props.thy ===== *)
theory Lodos_Alils_Props
  imports Lodos_Alils "HOL-Library.Multiset"
begin

text \<open>
  What the log service and its adapter keep: the signature of a request does not depend on the order in which the headers are visited, and
  every request that is sent verifies; and the adapter puts the messages of every topic in order, each once, whatever puts fail.
\<close>

section \<open>Signatures\<close>

text \<open>Each name is there once, and the service's own are written in lower case.\<close>

definition canonical_key :: "string \<Rightarrow> bool" where
  "canonical_key k \<longleftrightarrow> \<not> has_prefix (TrimSpace (lower k)) ''x-sls-'' \<or> TrimSpace (lower k) = k"

definition canonical_headers :: "headers \<Rightarrow> bool" where
  "canonical_headers h \<longleftrightarrow> distinct (map fst h) \<and> list_all canonical_key (map fst h)"

lemma sort_mset_eq: "mset xs = mset ys \<Longrightarrow> sort xs = sort (ys :: 'a::linorder list)"
  by (metis mset_sort properties_for_sort sorted_sort)

lemma sls_headers_mset: "mset h = mset h' \<Longrightarrow> mset (sls_headers h) = mset (sls_headers h')"
  unfolding sls_headers_def by (simp add: mset_filter)

lemma sls_headers_keys:
  "list_all canonical_key (map fst h) \<Longrightarrow> map fst (sls_headers h) = filter (\<lambda>k. has_prefix (TrimSpace (lower k)) ''x-sls-'') (map fst h)"
  unfolding sls_headers_def by (induction h) (auto simp: canonical_key_def)

lemma distinct_sls_headers: "canonical_headers h \<Longrightarrow> distinct (map fst (sls_headers h))"
  unfolding canonical_headers_def by (simp add: sls_headers_keys)

lemma map_of_rev_mset:
  assumes "distinct (map fst xs)" "mset xs = mset ys"
  shows "map_of (rev ys) = map_of (rev xs)"
proof -
  have s: "set xs = set ys" using assms(2) by (rule mset_eq_setD)
  have "distinct (map fst ys)"
    using assms by (metis mset_eq_imp_distinct_iff mset_map)
  then show ?thesis using assms s by (simp add: map_of_inject_set rev_map[symmetric])
qed

lemma map_of_mset:
  assumes "distinct (map fst xs)" "mset xs = mset ys"
  shows "map_of ys = map_of xs"
proof -
  have s: "set xs = set ys" using assms(2) by (rule mset_eq_setD)
  have "distinct (map fst ys)"
    using assms by (metis mset_eq_imp_distinct_iff mset_map)
  then show ?thesis using assms s by (simp add: map_of_inject_set)
qed

lemma cano_headers_mset:
  assumes "canonical_headers h" "mset h = mset h'"
  shows "cano_headers h' = cano_headers h"
proof -
  have m: "mset (sls_headers h) = mset (sls_headers h')" using assms(2) by (rule sls_headers_mset)
  then have "sort (map fst (sls_headers h')) = sort (map fst (sls_headers h))"
    by (intro sort_mset_eq) (metis mset_map)
  moreover have "map_of (rev (sls_headers h')) = map_of (rev (sls_headers h))"
    by (rule map_of_rev_mset[OF distinct_sls_headers[OF assms(1)] m])
  ultimately show ?thesis unfolding cano_headers_def Let_def by simp
qed

lemma signature_order:
  assumes "canonical_headers h" "mset h = mset h'"
  shows "signature env p verb uri h' = signature env p verb uri h"
proof -
  have "map_of h' = map_of h"
    using assms map_of_mset unfolding canonical_headers_def by blast
  then show ?thesis
    unfolding signature_def header_or_def by (simp add: cano_headers_mset[OF assms] cong: option.case_cong)
qed

text \<open>What one more header makes of them.\<close>

lemma put_header_keys: "map fst (put_header k v h) = (if k \<in> fst ` set h then map fst h else map fst h @ [k])"
  unfolding put_header_def by (auto simp: split_beta)

lemma canonical_put: "canonical_key k \<Longrightarrow> canonical_headers h \<Longrightarrow> canonical_headers (put_header k v h)"
  unfolding canonical_headers_def by (auto simp: put_header_keys)

lemma map_of_replaced:
  "map_of (map (\<lambda>(k', v'). (k', if k' = k then v else v')) h) x = (if x = k \<and> map_of h k \<noteq> None then Some v else map_of h x)"
  by (induction h) auto

lemma map_of_put: "map_of (put_header k v h) = (map_of h)(k \<mapsto> v)"
proof
  fix x
  show "map_of (put_header k v h) x = ((map_of h)(k \<mapsto> v)) x"
  proof (cases "map_of h k")
    case None
    then have "k \<notin> fst ` set h" by (simp add: map_of_eq_None_iff)
    then show ?thesis using None unfolding put_header_def by (cases "map_of h x") (auto simp: map_add_def)
  next
    case (Some a)
    then have "k \<in> fst ` set h" by (metis map_of_eq_None_iff option.distinct(1))
    then show ?thesis using Some unfolding put_header_def by (simp add: map_of_replaced)
  qed
qed

lemma sls_headers_put:
  assumes "\<not> has_prefix (TrimSpace (lower k)) ''x-sls-''"
  shows "sls_headers (put_header k v h) = sls_headers h"
proof -
  have "sls_headers (map (\<lambda>(k', v'). (k', if k' = k then v else v')) h) = sls_headers h"
    using assms unfolding sls_headers_def by (induction h) auto
  then show ?thesis using assms unfolding put_header_def sls_headers_def by simp
qed

lemma names_of_a_request:
  "canonical_key ''Host''" "canonical_key ''Date''" "canonical_key ''x-sls-apiversion''" "canonical_key ''x-sls-signaturemethod''"
  "canonical_key ''Content-MD5''" "canonical_key ''Authorization''" "\<not> has_prefix (TrimSpace (lower ''Authorization'')) ''x-sls-''"
  by code_simp+

lemma signature_authorized: "signature env p verb uri (put_header ''Authorization'' a h) = signature env p verb uri h"
proof -
  have other: "map_of (put_header ''Authorization'' a h) k = map_of h k" if "k \<noteq> ''Authorization''" for k
    using that by (simp add: map_of_put)
  show ?thesis
    unfolding signature_def header_or_def cano_headers_def sls_headers_put[OF names_of_a_request(7)]
    using other[of "''Date''"] other[of "''Content-MD5''"] other[of "''Content-Type''"]
    by (simp cong: option.case_cong)
qed

lemma request_verifies_step:
  assumes "canonical_headers h" "sls_request env p verb uri h body = Inr q"
  shows "canonical_headers (sq_headers q)" "sq_method q = verb"
    and "\<exists>digest. signature env p verb uri (sq_headers q) = Inr digest
      \<and> map_of (sq_headers q) ''Authorization'' = Some (''SLS '' @ lp_AccessKeyID p @ '':'' @ digest)"
  using assms
  by (auto simp: sls_request_def Let_def signature_authorized map_of_put names_of_a_request canonical_put split: if_splits sum.splits option.splits)


text \<open>The headers of the calls are of that kind.\<close>

lemma canonical_calls: "canonical_headers plain_headers" "canonical_headers (json_headers body)"
  unfolding canonical_headers_def plain_headers_def json_headers_def by (simp_all, code_simp+)

definition sls_plain :: sls_env where
  "sls_plain = \<lparr>se_now = ''now'', se_md5 = (\<lambda>b. ''md5''), se_hmac = (\<lambda>k s. k @ s), se_url = (\<lambda>u. Some (u, [], [])),
     se_escape = (\<lambda>u. u), se_http = (\<lambda>q. None), se_error = (\<lambda>b. None)\<rparr>"


section \<open>The adapter\<close>

text \<open>
  The topics never change after \<^verbatim>\<open>Init\<close>. \<open>alils_lines\<close>: what was put for a group, then what waits in it. \<open>alils_taken\<close>: the messages
  that go to a group, by the topics alone.
\<close>

definition alils_put :: "nat \<Rightarrow> alils_state \<Rightarrow> sls_log list" where
  "alils_put i ws = concat (map snd (filter (\<lambda>b. fst b = i) (snd ws)))"

definition alils_lines :: "nat \<Rightarrow> alils_state \<Rightarrow> sls_log list" where
  "alils_lines i ws = alils_put i ws @ gr_Logs (al_group (fst ws) ! i)"

definition alils_ok :: "alils_writer \<Rightarrow> bool" where
  "alils_ok w \<longleftrightarrow> al_group w \<noteq> [] \<and> (\<forall>t i. al_at w t = Some i \<longrightarrow> i < length (al_group w))"

definition same_topics :: "alils_writer \<Rightarrow> alils_writer \<Rightarrow> bool" where
  "same_topics w w' \<longleftrightarrow> al_conf w' = al_conf w \<and> al_at w' = al_at w \<and> length (al_group w') = length (al_group w)"

definition alils_takes :: "alils_writer \<Rightarrow> nat \<Rightarrow> 32 word \<times> string \<times> int \<Rightarrow> sls_log list" where
  "alils_takes w i m = (case m of (unix, s, level) \<Rightarrow>
     if level > ac_Level (al_conf w) then []
     else (case routed w s of Panic e \<Rightarrow> [] | Done (j, content) \<Rightarrow> if j = i then [\<lparr>sl_Time = unix, sl_content = content\<rparr>] else []))"

definition alils_taken :: "alils_writer \<Rightarrow> nat \<Rightarrow> (32 word \<times> string \<times> int) list \<Rightarrow> sls_log list" where
  "alils_taken w i ms = concat (map (alils_takes w i) ms)"

text \<open>Messages one after the other, each with the answers that a put would get then.\<close>

fun alils_writes :: "((log_group \<Rightarrow> bool) \<times> 32 word \<times> string \<times> int) list \<Rightarrow> alils_state \<Rightarrow> alils_state outcome" where
  "alils_writes [] ws = Done ws"
| "alils_writes ((put, unix, s, level) # ms) ws = outcome_bind (alils_WriteMsg put unix s level ws) (alils_writes ms)"

lemma same_topics_refl: "same_topics w w" unfolding same_topics_def by simp
lemma same_topics_trans: "same_topics w w' \<Longrightarrow> same_topics w' w'' \<Longrightarrow> same_topics w w''" unfolding same_topics_def by simp

lemma same_topics_ok: "same_topics w w' \<Longrightarrow> alils_ok w \<Longrightarrow> alils_ok w'"
  unfolding same_topics_def alils_ok_def by (metis length_0_conv)

lemma same_topics_routed: "same_topics w w' \<Longrightarrow> routed w' s = routed w s"
  unfolding same_topics_def routed_def by (elim conjE) (simp only:)

lemma same_topics_takes: "same_topics w w' \<Longrightarrow> alils_takes w' i m = alils_takes w i m"
  by (cases m) (auto simp: alils_takes_def same_topics_routed, (simp add: same_topics_def)+)

lemma same_topics_taken: "same_topics w w' \<Longrightarrow> alils_taken w' i ms = alils_taken w i ms"
  unfolding alils_taken_def by (simp add: same_topics_takes cong: map_cong)

lemma routed_in_range: "alils_ok w \<Longrightarrow> routed w s = Done (i, content) \<Longrightarrow> i < length (al_group w)"
  unfolding routed_def alils_ok_def by (auto split: if_splits option.splits)

lemma flush_topics: "same_topics (fst ws) (fst (alils_flush put i ws))"
  unfolding alils_flush_def same_topics_def by (simp add: Let_def split: prod.splits)

lemma flush_lines:
  assumes "i < length (al_group (fst ws))" shows "alils_lines j (alils_flush put i ws) = alils_lines j ws"
  using assms unfolding alils_flush_def alils_lines_def alils_put_def
  by (cases "j = i") (auto simp: Let_def nth_list_update split: prod.splits)

lemma alils_write_keeps:
  assumes "alils_ok (fst ws)" "j < length (al_group (fst ws))" "alils_WriteMsg put unix s level ws = Done ws'"
  shows "same_topics (fst ws) (fst ws')" and "alils_lines j ws' = alils_lines j ws @ alils_takes (fst ws) j (unix, s, level)"
proof -
  obtain w bs where ws: "ws = (w, bs)" by (cases ws)
  have "same_topics (fst ws) (fst ws') \<and> alils_lines j ws' = alils_lines j ws @ alils_takes (fst ws) j (unix, s, level)"
  proof (cases "level > ac_Level (al_conf w)")
    case True
    then show ?thesis using assms(3) ws by (auto simp: alils_WriteMsg_def alils_takes_def same_topics_refl)
  next
    case False
    then obtain i content where r: "routed w s = Done (i, content)"
      using assms(3) ws by (cases "routed w s") (auto simp: alils_WriteMsg_def)
    let ?g = "al_group w ! i"
    let ?w = "w\<lparr>al_group := (al_group w)[i := ?g\<lparr>gr_Logs := gr_Logs ?g @ [\<lparr>sl_Time = unix, sl_content = content\<rparr>]\<rparr>]\<rparr>"
    have i: "i < length (al_group w)" using routed_in_range[OF _ r] assms(1) ws by simp
    have t: "same_topics w ?w" unfolding same_topics_def by simp
    have l: "alils_lines j (?w, bs) = alils_lines j (w, bs) @ alils_takes w j (unix, s, level)"
      using False r i by (cases "j = i") (auto simp: alils_lines_def alils_put_def alils_takes_def)
    have "ws' = (?w, bs) \<or> ws' = alils_flush put i (?w, bs)"
      using assms(3) ws False r by (auto simp: alils_WriteMsg_def Let_def split: if_splits)
    then show ?thesis
      using t l ws flush_lines[of i "(?w, bs)" j put] i same_topics_trans[OF t] flush_topics[of "(?w, bs)" put i] by auto
  qed
  then show "same_topics (fst ws) (fst ws')" "alils_lines j ws' = alils_lines j ws @ alils_takes (fst ws) j (unix, s, level)" by auto
qed

lemma writes_keep:
  assumes "alils_writes ms ws = Done ws'" "alils_ok (fst ws)" "j < length (al_group (fst ws))"
  shows "same_topics (fst ws) (fst ws') \<and> alils_lines j ws' = alils_lines j ws @ alils_taken (fst ws) j (map snd ms)"
  using assms
proof (induction ms ws rule: alils_writes.induct)
  case (1 ws) then show ?case by (simp add: same_topics_refl alils_taken_def)
next
  case (2 put unix s level ms ws)
  obtain ws1 where w1: "alils_WriteMsg put unix s level ws = Done ws1" and r: "alils_writes ms ws1 = Done ws'"
    using 2(2) by (auto simp: outcome_bind_Done_iff)
  note k = alils_write_keeps[OF 2(3,4) w1]
  have "j < length (al_group (fst ws1))" using k(1) 2(4) unfolding same_topics_def by simp
  then show ?case
    using 2(1)[OF r same_topics_ok[OF k(1) 2(3)]] \<open>j < length (al_group (fst ws1))\<close> k(2) same_topics_trans[OF k(1)] same_topics_taken[OF k(1), of j "map snd ms"]
    by (auto simp: alils_taken_def)
qed

lemma flush_group:
  "al_group (fst (alils_flush (\<lambda>g. True) i ws)) = (al_group (fst ws))[i := (al_group (fst ws) ! i)\<lparr>gr_Logs := []\<rparr>]"
  unfolding alils_flush_def by (simp add: Let_def split: prod.splits)

text \<open>\<^verbatim>\<open>Flush\<close> with a service that takes everything.\<close>

lemma Flush_step:
  assumes "n \<le> length (al_group (fst ws))" "ws' = fold (alils_flush (\<lambda>g. True)) [0..<n] ws" "j < length (al_group (fst ws))"
  shows "same_topics (fst ws) (fst ws') \<and> alils_lines j ws' = alils_lines j ws \<and> (j < n \<longrightarrow> gr_Logs (al_group (fst ws') ! j) = [])"
  using assms
proof (induction n arbitrary: ws')
  case 0 then show ?case by (simp add: same_topics_refl)
next
  case (Suc n)
  let ?m = "fold (alils_flush (\<lambda>g. True)) [0..<n] ws"
  have IH: "same_topics (fst ws) (fst ?m) \<and> alils_lines j ?m = alils_lines j ws \<and> (j < n \<longrightarrow> gr_Logs (al_group (fst ?m) ! j) = [])"
    using Suc.IH[OF _ refl Suc.prems(3)] Suc.prems(1) by simp
  have w: "ws' = alils_flush (\<lambda>g. True) n ?m" using Suc.prems(2) by simp
  have n: "n < length (al_group (fst ?m))" using IH Suc.prems(1) unfolding same_topics_def by simp
  have e: "j < Suc n \<longrightarrow> gr_Logs (al_group (fst ws') ! j) = []"
    using IH n unfolding w by (cases "j = n") (auto simp: flush_group less_Suc_eq)
  have "same_topics (fst ws) (fst ws')"
    using same_topics_trans[OF _ flush_topics[of ?m "\<lambda>g. True" n]] IH w by simp
  moreover have "alils_lines j ws' = alils_lines j ws"
    using flush_lines[OF n, of j "\<lambda>g. True"] IH w by simp
  ultimately show ?case using e by simp
qed

lemma add_topics_ok: "alils_ok w \<Longrightarrow> alils_ok (add_topics c ts w)"
proof (induction c ts w rule: add_topics.induct)
  case (2 c t ts w)
  have "alils_ok (w\<lparr>al_group := al_group w @ [empty_group c t], al_at := (al_at w)(t \<mapsto> length (al_group w))\<rparr>)"
    using 2(2) unfolding alils_ok_def by (auto simp: less_Suc_eq)
  then show ?case using 2(1) by simp
qed simp

lemma add_topics_empty:
  "list_all (\<lambda>g. gr_Logs g = []) (al_group w) \<Longrightarrow> list_all (\<lambda>g. gr_Logs g = []) (al_group (add_topics c ts w))"
  by (induction c ts w rule: add_topics.induct) (simp_all add: empty_group_def)

lemma Init_groups:
  assumes "alils_Init env js config w = Done (None, store, w')"
  obtains c where "w' = add_topics c (ac_Topics c) (w\<lparr>al_conf := c, al_group := al_group w @ [empty_group c []], al_at := (\<lambda>t. None)\<rparr>)"
proof -
  define c0 where "c0 = (case config of None \<Rightarrow> al_conf w | Some obj \<Rightarrow> snd (keys_into alils_key obj (al_conf w)))"
  define c where "c = (if ac_FlushWhen c0 > CacheSize then c0\<lparr>ac_FlushWhen := CacheSize\<rparr> else c0)"
  define p where "p = \<lparr>lp_Name = ac_Project c, lp_Endpoint = ac_Endpoint c, lp_AccessKeyID = ac_KeyID c, lp_AccessKeySecret = ac_KeySecret c\<rparr>"
  have i: "alils_Init env js config w = (case GetLogStore env js p (ac_LogStore c) of
           Inl e \<Rightarrow> Done (Some e, None, w\<lparr>al_conf := c\<rparr>)
         | Inr st \<Rightarrow>
             if ac_FlushWhen c < 0 then Panic ''makeslice: cap out of range''
             else Done (None, Some (p, st),
               add_topics c (ac_Topics c) (w\<lparr>al_conf := c, al_group := al_group w @ [empty_group c []], al_at := (\<lambda>t. None)\<rparr>)))"
    by (simp only: alils_Init_def Let_def c_def c0_def p_def)
  show ?thesis
    using assms that[of c] unfolding i by (cases "GetLogStore env js p (ac_LogStore c)") (auto split: if_splits)
qed

lemma Init_ok:
  assumes "alils_Init env js config NewAliLS = Done (None, store, w)"
  shows "alils_ok w" "list_all (\<lambda>g. gr_Logs g = []) (al_group w)"
proof -
  obtain c where "w = add_topics c (ac_Topics c) (NewAliLS\<lparr>al_conf := c, al_group := al_group NewAliLS @ [empty_group c []], al_at := (\<lambda>t. None)\<rparr>)"
    using Init_groups[OF assms] .
  moreover have "alils_ok (NewAliLS\<lparr>al_conf := c, al_group := al_group NewAliLS @ [empty_group c []], al_at := (\<lambda>t. None)\<rparr>)"
    by (simp add: alils_ok_def)
  moreover have "list_all (\<lambda>g. gr_Logs g = []) (al_group (NewAliLS\<lparr>al_conf := c, al_group := al_group NewAliLS @ [empty_group c []], al_at := (\<lambda>t. None)\<rparr>))"
    by (simp add: NewAliLS_def empty_group_def)
  ultimately show "alils_ok w" "list_all (\<lambda>g. gr_Logs g = []) (al_group w)"
    using add_topics_ok add_topics_empty by blast+
qed

text \<open>C39: nothing is lost and nothing is put twice: after \<^verbatim>\<open>Init\<close>, whatever messages came and whichever puts of a full group failed on the way,
  a \<^verbatim>\<open>Flush\<close> whose puts succeed leaves every group with nothing, and the batches that were put for it are, one after the other,
  the messages of its topic in the order in which they were written.\<close>

theorem alils_delivers:
  assumes "alils_Init env js config NewAliLS = Done (None, store, w)" "alils_writes ms (w, []) = Done ws" "i < length (al_group w)"
  shows "alils_put i (alils_Flush (\<lambda>g. True) ws) = alils_taken w i (map snd ms)
    \<and> gr_Logs (al_group (fst (alils_Flush (\<lambda>g. True) ws)) ! i) = []"
proof -
  note ok = Init_ok[OF assms(1)]
  have e: "alils_lines i (w, []) = []"
    using ok(2) assms(3) by (simp add: alils_lines_def alils_put_def list_all_length)
  have k: "same_topics w (fst ws) \<and> alils_lines i ws = alils_taken w i (map snd ms)"
    using writes_keep[OF assms(2)] ok(1) assms(3) e by simp
  then have i: "i < length (al_group (fst ws))" using assms(3) unfolding same_topics_def by simp
  show ?thesis
    using Flush_step[OF le_refl refl i] k i unfolding alils_Flush_def by (auto simp: alils_lines_def)
qed

definition plain_store :: log_store where
  "plain_store = \<lparr>st_Name = ''st'', st_TTL = 1, st_ShardCount = 1, st_CreateTime = 0, st_LastModifyTime = 0\<rparr>"

definition plain_json :: sls_json where
  "plain_json = \<lparr>sj_names = (\<lambda>k b. None), sj_number = (\<lambda>k b. None), sj_store = (\<lambda>b. Some plain_store), sj_group = (\<lambda>b. None),
     sj_config = (\<lambda>b. None), sj_machines = (\<lambda>b. None), sj_shards = (\<lambda>b. None), sj_text = (\<lambda>k b. None), sj_of_store = (\<lambda>n t s. []),
     sj_of_group = (\<lambda>m. []), sj_of_config = (\<lambda>c. [])\<rparr>"

definition taking_env :: sls_env where
  "taking_env = sls_plain\<lparr>se_http := (\<lambda>q. Some \<lparr>sr_status = 200, sr_headers = (\<lambda>k. []), sr_body = Some []\<rparr>)\<rparr>"

definition two_groups :: alils_writer where
  "two_groups =
     (let c = \<lparr>ac_Project = [], ac_Endpoint = [], ac_KeyID = [], ac_KeySecret = [], ac_LogStore = [], ac_Topics = [''a''], ac_Source = [],
        ac_Level = LevelTrace, ac_FlushWhen = 2\<rparr>
      in \<lparr>al_conf = c, al_group = [empty_group c [], empty_group c ''a''], al_at = [''a'' \<mapsto> 1]\<rparr>)"

lemma two_groups_Init:
  "alils_Init taking_env plain_json (Some [(''topics'', J_strs [''a'']), (''flush_when'', J_int 2)]) NewAliLS
   = Done (None, Some (NewLogProject [] [] [] [], plain_store), two_groups)"
proof -
  have g: "GetLogStore taking_env plain_json (NewLogProject [] [] [] []) [] = Inr plain_store"
    by (simp add: GetLogStore_def sls_call_def request_def sls_request_def signature_def taking_env_def sls_plain_def plain_headers_def
      NewLogProject_def put_header_def Let_def decoded_by_def plain_json_def)
  show ?thesis
    using g by (simp add: alils_Init_def NewAliLS_def alils_key_def as_level_def CacheSize_def two_groups_def NewLogProject_def
      lower_def lower_char_def empty_group_def Let_def)
qed

text \<open>Two messages of topic \<^verbatim>\<open>a\<close>, a put of which fails, and one of none.\<close>

definition three_messages :: "((log_group \<Rightarrow> bool) \<times> 32 word \<times> string \<times> int) list" where
  "three_messages = [(\<lambda>g. False, 1, ''x a##y'', 3), (\<lambda>g. False, 2, ''hi'', 3), (\<lambda>g. False, 3, ''z a##'', 3)]"

lemma three_messages_written:
  "alils_writes three_messages (two_groups, [])
   = Done (two_groups\<lparr>al_group := [(al_group two_groups ! 0)\<lparr>gr_Logs := [\<lparr>sl_Time = 2, sl_content = ''hi''\<rparr>]\<rparr>,
       (al_group two_groups ! 1)\<lparr>gr_Logs := [\<lparr>sl_Time = 1, sl_content = ''xy''\<rparr>, \<lparr>sl_Time = 3, sl_content = ''z''\<rparr>]\<rparr>]\<rparr>, [])"
  by (simp add: three_messages_def two_groups_def alils_WriteMsg_def routed_def alils_flush_def empty_group_def LastIndex_def at_index_def Let_def
    LevelTrace_def)

theorem alils_delivers_witness:
  "alils_put 1 (alils_Flush (\<lambda>g. True) (case alils_writes three_messages (two_groups, []) of Done ws \<Rightarrow> ws | Panic e \<Rightarrow> (two_groups, [])))
     = alils_taken two_groups 1 (map snd three_messages)"
proof -
  have "1 < length (al_group two_groups)" by (simp add: two_groups_def Let_def)
  from alils_delivers[OF two_groups_Init three_messages_written this] show ?thesis
    unfolding three_messages_written by simp
qed

end
