(* ===== verification/Spec2Isabelle.thy ===== *)
theory Spec2Isabelle
  imports Lodos_Mqtt_Codec Lodos_Client_Props Lodos_Maps Lodos_Args Lodos_Uuid Lodos_Rpc_Client Lodos_Rpc_Life Lodos_Gate_Rpc
    Lodos_App_Props Lodos_Agent_Props Lodos_Network_Props Lodos_Net_Clients Lodos_Ws_Server Lodos_Amqp_Queue Lodos_Start Lodos_App_Run Lodos_Modules Lodos_Seq Lodos_Log_Props Lodos_Log_Async Lodos_Ozzo_Props Lodos_Ozzo_Core Lodos_Ozzo_Queue Lodos_Ansi_Props Lodos_Log_Hooks Lodos_Alils_Props
begin

text \<open>
  A model of \<^verbatim>\<open>lodos\<close>, a Go framework for game servers, and the theorems that make it correct.

  \<^bold>\<open>The program.\<close> A process runs an application (\<^verbatim>\<open>app/\<close>) that reads a configuration (\<^verbatim>\<open>conf/\<close>) and
  starts the modules configured for it (\<^verbatim>\<open>module/\<close>). Modules call functions of each other by RPC
  (\<^verbatim>\<open>rpc/\<close>): a call names a server by type or id, its arguments are encoded to typed bytes, and it goes
  to the server over a channel in the same process, over RabbitMQ or over redis; the answer comes back
  under a correlation id. One module is the gate (\<^verbatim>\<open>gate/\<close>): it accepts connections over TCP and
  websockets (\<^verbatim>\<open>network/\<close>), speaks MQTT on them, keeps a session for each, turns every PUBLISH of a
  client into an RPC and its result into an answer, and offers other modules operations on the
  sessions. \<^verbatim>\<open>addon/seq/\<close> hands out numbers in sections, \<^verbatim>\<open>addon/ver/\<close> keeps accounts. \<^verbatim>\<open>log/\<close> and \<^verbatim>\<open>logger/\<close> write what
  happens to files, consoles, connections, mail and log services. \<^verbatim>\<open>utils/\<close> holds the locked maps and codecs that the rest uses.

  \<^bold>\<open>Theories and sources.\<close>
  \<^item> \<^verbatim>\<open>Lodos_Prelude\<close>: Go strings, slices, byte layouts, outcomes (a value, or a panic that reaches the
    caller), actions on a state. \<^verbatim>\<open>Lodos_Steps\<close>: goroutines that come to an end, as a locale.
    \<^verbatim>\<open>Lodos_Values\<close>: the dynamic values of an \<^verbatim>\<open>interface{}\<close>.
  \<^item> \<^verbatim>\<open>Lodos_Mqtt_Types\<close>, \<^verbatim>\<open>_Read\<close>, \<^verbatim>\<open>_Write\<close>, \<^verbatim>\<open>_Codec\<close>: \<^verbatim>\<open>gate/base/mqtt/mqtt.go\<close>, with a round trip per
    packet kind. \<^verbatim>\<open>Lodos_Client\<close>, \<^verbatim>\<open>_Client_Props\<close>: \<^verbatim>\<open>pack_queue.go\<close> and \<^verbatim>\<open>mqtt_client_server.go\<close>, the three
    goroutines of a connection as labelled steps.
  \<^item> \<^verbatim>\<open>Lodos_Maps\<close>: \<^verbatim>\<open>utils/safemap.go\<close>, \<^verbatim>\<open>utils/safemap/\<close>, \<^verbatim>\<open>utils/concurrent-map.go\<close>, behind one interface
    (a locale, interpreted on each). \<^verbatim>\<open>Lodos_Uuid\<close>: \<^verbatim>\<open>utils/uuid\<close>, \<^verbatim>\<open>utils/randInt.go\<close>.
  \<^item> \<^verbatim>\<open>Lodos_Args\<close>: \<^verbatim>\<open>rpc/argsutil\<close>, \<^verbatim>\<open>utils/params_bytes.go\<close>. \<^verbatim>\<open>Lodos_Rpc_Server\<close>: \<^verbatim>\<open>rpc_server.go\<close>, what a
    request makes of its arguments; \<^verbatim>\<open>Lodos_Rpc_Life\<close>: its goroutines and \<^verbatim>\<open>Done\<close>. \<^verbatim>\<open>Lodos_Rpc_Calls\<close>: the
    pending calls of \<^verbatim>\<open>local_client.go\<close>, \<^verbatim>\<open>amqp_client.go\<close>, \<^verbatim>\<open>redis_client.go\<close>. \<^verbatim>\<open>Lodos_Rpc_Client\<close>:
    \<^verbatim>\<open>rpc_client.go\<close>. \<^verbatim>\<open>Lodos_Transport\<close>, \<^verbatim>\<open>_Transport_Props\<close>: \<^verbatim>\<open>rpc_rabbitmq.go\<close>, \<^verbatim>\<open>amqp_server.go\<close>,
    \<^verbatim>\<open>redis_server.go\<close>, \<^verbatim>\<open>db/base\<close>. \<^verbatim>\<open>Lodos_Amqp_Queue\<close>: the goroutines between the broker and the RPC server.
  \<^item> \<^verbatim>\<open>Lodos_Session\<close>: \<^verbatim>\<open>gate/base/session.go\<close>. \<^verbatim>\<open>Lodos_Gate\<close>, \<^verbatim>\<open>_Gate_Props\<close>, \<^verbatim>\<open>_Gate_Rpc\<close>: \<^verbatim>\<open>gate_handler.go\<close> and
    \<^verbatim>\<open>mqtt_gate.go\<close>. \<^verbatim>\<open>Lodos_Agent\<close>, \<^verbatim>\<open>_Agent_Props\<close>: \<^verbatim>\<open>mqtt_agent.go\<close>.
  \<^item> \<^verbatim>\<open>Lodos_App\<close>, \<^verbatim>\<open>_App_Props\<close>: \<^verbatim>\<open>app/\<close>, \<^verbatim>\<open>conf/\<close>, \<^verbatim>\<open>module/base/\<close>. \<^verbatim>\<open>Lodos_App_Run\<close>: \<^verbatim>\<open>Run\<close> of
    \<^verbatim>\<open>app.go\<close>, from its flags to its last signal. \<^verbatim>\<open>Lodos_Start\<close>: how its modules start, and the gate.
    \<^verbatim>\<open>Lodos_Modules\<close>: the calls of a module, from its route to the answer of a handler.
    \<^verbatim>\<open>Lodos_Seq\<close>: \<^verbatim>\<open>addon/seq/base\<close> and \<^verbatim>\<open>addon/ver/base\<close>.
  \<^item> \<^verbatim>\<open>Lodos_Network\<close>, \<^verbatim>\<open>_Network_Props\<close>: the TCP connection and server, reading from a websocket;
    \<^verbatim>\<open>Lodos_Net_Clients\<close>: the dialling clients; \<^verbatim>\<open>Lodos_Ws_Server\<close>: the websocket server.
  \<^item> \<^verbatim>\<open>Lodos_File_Log\<close>, \<^verbatim>\<open>_File_Log_Props\<close>: \<^verbatim>\<open>log/beego/file.go\<close>, a log file and its rotations on a file system.
    \<^verbatim>\<open>Lodos_Log\<close>, \<^verbatim>\<open>_Log_Props\<close>: \<^verbatim>\<open>log.go\<close>, \<^verbatim>\<open>logger.go\<close>, \<^verbatim>\<open>console.go\<close>, \<^verbatim>\<open>conn.go\<close>, \<^verbatim>\<open>multifile.go\<close>;
    \<^verbatim>\<open>Lodos_Log_Async\<close>: its queue and goroutine; \<^verbatim>\<open>Lodos_Log_Hooks\<close>: \<^verbatim>\<open>slack.go\<close>, \<^verbatim>\<open>dingtalk.go\<close>, \<^verbatim>\<open>jianliao.go\<close>,
    \<^verbatim>\<open>smtp.go\<close>; \<^verbatim>\<open>Lodos_Ansi\<close>, \<^verbatim>\<open>_Ansi_Props\<close>: \<^verbatim>\<open>color_windows.go\<close>, which reads escape sequences byte by byte;
    \<^verbatim>\<open>Lodos_Alils\<close>, \<^verbatim>\<open>_Alils_Props\<close>: \<^verbatim>\<open>log/beego/alils/\<close>, the client of a log service and its adapter.
  \<^item> \<^verbatim>\<open>Lodos_Ozzo\<close>, \<^verbatim>\<open>_Ozzo_Props\<close>: \<^verbatim>\<open>logger/ozzo-log\<close>, its filter and its file and console targets; \<^verbatim>\<open>Lodos_Ozzo_Core\<close>:
    \<^verbatim>\<open>logger.go\<close>, the goroutines of a logger as steps; \<^verbatim>\<open>Lodos_Ozzo_Queue\<close>: \<^verbatim>\<open>network.go\<close> and \<^verbatim>\<open>mail.go\<close>, whose
    targets have queues of their own.

  \<^bold>\<open>How code becomes definitions.\<close> A struct is a record; an \<^verbatim>\<open>interface{}\<close> a datatype of the dynamic
  types that the code tells apart; a fallible function returns a sum or an option; a panic is a
  constructor of \<^verbatim>\<open>outcome\<close>, with the recovering functions written out. A loop over a Go map takes the
  order of the visit as an argument. Goroutines are step relations, or labelled step functions, on one
  shared state, with a program counter for each; what a mutex protects is one step, and a send on a
  full channel, a receive from an empty one and a wait on a counter are steps that are not enabled. Wherever
  the width of an integer matters it is a word. No definition uses fuel: every loop is a function
  with its termination proof, or ends because the input does.

  \<^bold>\<open>What the theorems show.\<close> Codecs: the readers give back what the writers wrote, with the lengths for
  which they do. Maps: every implementation refines a partial function. The connection: channels are
  used within their rules, packets keep their order both ways, and how each side ends it. RPC: a call gives the
  caller the result of the handler, locally and over RabbitMQ; each request gets one result; each pending
  call is answered at most once; a server answers every request until it is stopped, and how stopping
  fails. The gate: its operations refine a directory of sessions, and a request of a client is answered
  once. The application: which modules run and which server a call reaches. The network: limits are
  kept and \<^verbatim>\<open>Close\<close> returns with nothing left, in every schedule. The loggers: which message reaches which
  target, that files keep their limits and lose no line, that an asynchronous logger writes what it took in order,
  that \<^verbatim>\<open>Close\<close> returns or when it hangs, that a message arrives unchanged in a request, and that a log service gets every
  message once under a signature it can verify. \<^verbatim>\<open>Run\<close>: when it starts, and that its modules stop in the reverse order. Theorems on behaviour that the code does not
  mean say so in their text.

  \<^bold>\<open>Parameters.\<close> The AMQP, redis, websocket and protobuf libraries, JSON, the application's callbacks and
  serializers, clocks, random numbers and the order of map visits are arguments of the definitions;
  laws that a theorem needs of them are named hypotheses, and its witness instantiates them.

  \<^bold>\<open>Not modelled.\<close> Code generated by \<^verbatim>\<open>protoc\<close> (\<^verbatim>\<open>log.pb.go\<close>, \<^verbatim>\<open>rpc.pb.go\<close>, \<^verbatim>\<open>session.pb.go\<close>); the Elasticsearch
  adapter, which only calls its library; the operations of \<^verbatim>\<open>addon/seq/base/store_svr.go\<close>, whose bodies are \<^verbatim>\<open>panic("implement me")\<close>;
  the glue that makes a module of the accounts; interfaces without bodies; the calls that log, setters and
  getters without logic, tracing, and the test programs.
\<close>

end
